(* ===== verification/Prelude.thy ===== *)
theory Prelude
  imports Main
begin

text \<open>
  Shared material of the development: the outcome of a computation that may panic or run
  out of fuel, its bind, the loop combinator, and the parts of Rust's \<open>str\<close> and
  \<open>char\<close> API the modelled code calls.

  A character is a Latin-1 code point (Isabelle's \<open>char\<close>, code points 0 to 255), so
  the classification tables of Rust's \<open>char\<close> are given exactly on that range and
  \<open>utf8_len\<close> says how many bytes a character takes in a Rust \<open>String\<close>.
\<close>

section \<open>Outcomes: a value, a panic, or no more fuel\<close>

datatype 'a outcome = Done 'a | Panic | NoFuel

text \<open>
  \<open>outcome_sat p r Q\<close> says that the outcome \<open>r\<close> is a value that satisfies \<open>Q\<close>. With \<open>p\<close> a
  panic is tolerated; running out of fuel never is.
\<close>

fun outcome_sat :: "bool \<Rightarrow> 'a outcome \<Rightarrow> ('a \<Rightarrow> bool) \<Rightarrow> bool" where
  "outcome_sat p (Done a) Q = Q a"
| "outcome_sat p Panic Q = p"
| "outcome_sat p NoFuel Q = False"

lemma outcome_sat_mono:
  "outcome_sat p r Q \<Longrightarrow> (\<And>a. Q a \<Longrightarrow> Q' a) \<Longrightarrow> outcome_sat p r Q'"
  by (cases r) auto

text \<open>The flat order on outcomes: a computation that runs out of fuel is below every result.\<close>

instantiation outcome :: (type) order
begin

definition less_eq_outcome :: "'a outcome \<Rightarrow> 'a outcome \<Rightarrow> bool" where
  "less_eq_outcome r r' \<longleftrightarrow> r = NoFuel \<or> r = r'"

definition less_outcome :: "'a outcome \<Rightarrow> 'a outcome \<Rightarrow> bool" where
  "less_outcome r r' \<longleftrightarrow> r = NoFuel \<and> r' \<noteq> NoFuel"

instance
  by standard (auto simp: less_eq_outcome_def less_outcome_def)

end

lemma NoFuel_least [simp, intro]: "NoFuel \<le> r"
  by (simp add: less_eq_outcome_def)

section \<open>Programs over a state\<close>

text \<open>
  A program takes the state and returns a value and the next state, or panics, or runs out of
  fuel. \<open>pbind\<close> sequences two programs. The order on outcomes is the order on programs.
\<close>

type_synonym ('a, 's) program = "'s \<Rightarrow> ('a \<times> 's) outcome"

definition ret :: "'a \<Rightarrow> ('a, 's) program" where
  "ret a s = Done (a, s)"

definition pbind :: "('a, 's) program \<Rightarrow> ('a \<Rightarrow> ('b, 's) program) \<Rightarrow> ('b, 's) program" where
  "pbind m f s = (case m s of Done (a, s') \<Rightarrow> f a s' | Panic \<Rightarrow> Panic | NoFuel \<Rightarrow> NoFuel)"

definition pmap :: "('a \<Rightarrow> 'b) \<Rightarrow> ('a, 's) program \<Rightarrow> ('b, 's) program" where
  "pmap f m = pbind m (\<lambda>a. ret (f a))"

named_theorems mono_rules \<open>monotonicity of programs in the programs they call\<close>

lemma bind_mono [mono_rules]: "m \<le> m' \<Longrightarrow> (\<And>a. f a \<le> f' a) \<Longrightarrow> pbind m f \<le> pbind m' f'"
proof (rule le_funI)
  fix s assume "m \<le> m'" "\<And>a. f a \<le> f' a"
  then have "m s \<le> m' s" "\<And>a s. f a s \<le> f' a s" by (auto dest: le_funD)
  then show "pbind m f s \<le> pbind m' f' s"
    by (cases "m s") (auto simp: pbind_def less_eq_outcome_def split: outcome.splits)
qed

lemma pmap_mono [mono_rules]: "m \<le> m' \<Longrightarrow> pmap f m \<le> pmap f m'"
  unfolding pmap_def by (rule bind_mono) simp_all

lemma if_mono [mono_rules]:
  "(p :: ('a, 's) program) \<le> p' \<Longrightarrow> q \<le> q' \<Longrightarrow> (if c then p else q) \<le> (if c then p' else q')"
  by simp

lemma option_mono [mono_rules]:
  "(p :: ('a, 's) program) \<le> p' \<Longrightarrow> (\<And>a. f a \<le> f' a) \<Longrightarrow>
     (case x of None \<Rightarrow> p | Some a \<Rightarrow> f a) \<le> (case x of None \<Rightarrow> p' | Some a \<Rightarrow> f' a)"
  by (cases x) auto

lemma prod_mono [mono_rules]:
  "(\<And>a c. f a c \<le> (f' a c :: ('a, 's) program)) \<Longrightarrow> (case x of (a, c) \<Rightarrow> f a c) \<le> (case x of (a, c) \<Rightarrow> f' a c)"
  by (cases x) auto

named_theorems str_simps \<open>definitions that evaluate the string operations of the model\<close>

section \<open>Characters\<close>

abbreviation quote_char :: char where
  "quote_char \<equiv> CHR 0x27"

abbreviation backslash :: char where
  "backslash \<equiv> CHR 0x5C"

abbreviation newline :: char where
  "newline \<equiv> CHR 0x0A"

abbreviation code :: "char \<Rightarrow> nat" where
  "code c \<equiv> of_char c"

definition is_ascii_digit :: "char \<Rightarrow> bool" where
  "is_ascii_digit c \<longleftrightarrow> 48 \<le> code c \<and> code c \<le> 57"

definition is_ascii_upper :: "char \<Rightarrow> bool" where
  "is_ascii_upper c \<longleftrightarrow> 65 \<le> code c \<and> code c \<le> 90"

definition is_ascii_lower :: "char \<Rightarrow> bool" where
  "is_ascii_lower c \<longleftrightarrow> 97 \<le> code c \<and> code c \<le> 122"

text \<open>
  The Alphabetic code points of Latin-1: ASCII letters, the ordinal indicators, the micro
  sign and the accented letters (all of U+00C0 to U+00FF but the two signs in it).
\<close>

definition is_alphabetic :: "char \<Rightarrow> bool" where
  "is_alphabetic c \<longleftrightarrow> is_ascii_upper c \<or> is_ascii_lower c
     \<or> code c = 0xAA \<or> code c = 0xB5 \<or> code c = 0xBA
     \<or> (0xC0 \<le> code c \<and> code c \<noteq> 0xD7 \<and> code c \<noteq> 0xF7)"

text \<open>Numeric code points: the digits, the three superscripts and the three fractions.\<close>

definition is_numeric_char :: "char \<Rightarrow> bool" where
  "is_numeric_char c \<longleftrightarrow> is_ascii_digit c
     \<or> code c \<in> {0xB2, 0xB3, 0xB9, 0xBC, 0xBD, 0xBE}"

definition is_alphanumeric :: "char \<Rightarrow> bool" where
  "is_alphanumeric c \<longleftrightarrow> is_alphabetic c \<or> is_numeric_char c"

definition is_whitespace :: "char \<Rightarrow> bool" where
  "is_whitespace c \<longleftrightarrow> (9 \<le> code c \<and> code c \<le> 13) \<or> code c = 32 \<or> code c = 0x85 \<or> code c = 0xA0"

definition to_lower :: "char \<Rightarrow> char" where
  "to_lower c = (if is_ascii_upper c \<or> (0xC0 \<le> code c \<and> code c \<le> 0xDE \<and> code c \<noteq> 0xD7)
     then char_of (code c + 32) else c)"

definition is_ident_char :: "char \<Rightarrow> bool" where
  "is_ident_char c \<longleftrightarrow> is_alphanumeric c \<or> c = CHR ''_''"

definition is_ident_start :: "char \<Rightarrow> bool" where
  "is_ident_start c \<longleftrightarrow> is_alphabetic c \<or> c = CHR ''_''"

lemmas char_class_defs [str_simps] =
  is_ascii_digit_def is_ascii_upper_def is_ascii_lower_def is_alphabetic_def
  is_numeric_char_def is_alphanumeric_def is_whitespace_def to_lower_def
  is_ident_char_def is_ident_start_def

lemma ident_start_char: "is_ident_start c \<Longrightarrow> is_ident_char c"
  by (auto simp: is_ident_start_def is_ident_char_def is_alphanumeric_def)

lemma digit_not_ident_start: "is_ascii_digit c \<Longrightarrow> \<not> is_ident_start c"
  by (auto simp: is_ident_start_def is_alphabetic_def is_ascii_digit_def is_ascii_upper_def
      is_ascii_lower_def)

lemma digit_is_ident_char: "is_ascii_digit c \<Longrightarrow> is_ident_char c"
  by (auto simp: is_ident_char_def is_alphanumeric_def is_numeric_char_def)

definition utf8_len :: "char \<Rightarrow> nat" where
  "utf8_len c = (if code c < 128 then 1 else 2)"

section \<open>Strings\<close>

text \<open>The byte length Rust's \<open>String::len\<close> returns.\<close>

definition byte_len :: "string \<Rightarrow> nat" where
  "byte_len s = sum_list (map utf8_len s)"

definition is_ascii :: "string \<Rightarrow> bool" where
  "is_ascii s \<longleftrightarrow> list_all (\<lambda>c. code c < 128) s"

lemma byte_len_ascii: "is_ascii s \<Longrightarrow> byte_len s = length s"
  by (induction s) (auto simp: byte_len_def is_ascii_def utf8_len_def)

text \<open>
  \<open>byte_drop s n\<close> is the slice \<open>s[n..]\<close> by byte offset: no value when the offset is past
  the end or inside a character, which is where Rust panics.
\<close>

fun byte_drop :: "string \<Rightarrow> nat \<Rightarrow> string option" where
  "byte_drop s 0 = Some s"
| "byte_drop [] (Suc n) = None"
| "byte_drop (c # s) (Suc n) =
     (if utf8_len c \<le> Suc n then byte_drop s (Suc n - utf8_len c) else None)"

fun byte_take :: "string \<Rightarrow> nat \<Rightarrow> string option" where
  "byte_take s 0 = Some []"
| "byte_take [] (Suc n) = None"
| "byte_take (c # s) (Suc n) =
     (if utf8_len c \<le> Suc n then map_option (Cons c) (byte_take s (Suc n - utf8_len c)) else None)"

lemma byte_drop_ascii:
  "is_ascii s \<Longrightarrow> n \<le> length s \<Longrightarrow> byte_drop s n = Some (drop n s)"
  by (induction s n rule: byte_drop.induct) (auto simp: is_ascii_def utf8_len_def)

lemma byte_take_ascii:
  "is_ascii s \<Longrightarrow> n \<le> length s \<Longrightarrow> byte_take s n = Some (take n s)"
  by (induction s n rule: byte_take.induct) (auto simp: is_ascii_def utf8_len_def)

lemma byte_drop_length: "byte_drop s n = Some t \<Longrightarrow> length t \<le> length s"
  by (induction s n rule: byte_drop.induct) (auto split: if_splits simp: le_SucI)

lemma byte_drop_length_pos:
  "byte_drop s n = Some t \<Longrightarrow> 0 < n \<Longrightarrow> length t < length s"
  by (cases "(s, n)" rule: byte_drop.cases)
    (auto split: if_splits dest!: byte_drop_length)

lemma byte_take_length: "byte_take s n = Some t \<Longrightarrow> length t \<le> n \<and> length t \<le> length s"
proof (induction s n arbitrary: t rule: byte_take.induct)
  case (3 c s n)
  from 3(2) obtain u where u: "utf8_len c \<le> Suc n" "byte_take s (Suc n - utf8_len c) = Some u"
    "t = c # u"
    by (auto split: if_splits)
  have "0 < utf8_len c" by (simp add: utf8_len_def)
  with "3.IH"[OF u(1,2)] u(1,3) show ?case by auto
qed auto

definition starts_with :: "string \<Rightarrow> string \<Rightarrow> bool" where
  "starts_with s p \<longleftrightarrow> take (length p) s = p"

definition ends_with :: "string \<Rightarrow> string \<Rightarrow> bool" where
  "ends_with s p \<longleftrightarrow> starts_with (rev s) (rev p)"

fun str_contains :: "string \<Rightarrow> string \<Rightarrow> bool" where
  "str_contains [] p = (p = [])"
| "str_contains (c # s) p = (starts_with (c # s) p \<or> str_contains s p)"

text \<open>\<open>find_from i P s\<close> is the first position at or after \<open>i\<close> whose character satisfies \<open>P\<close>.\<close>

fun find_from :: "nat \<Rightarrow> (char \<Rightarrow> bool) \<Rightarrow> string \<Rightarrow> nat option" where
  "find_from i P [] = None"
| "find_from i P (c # s) = (if P c then Some i else find_from (Suc i) P s)"

abbreviation find_char :: "char \<Rightarrow> string \<Rightarrow> nat option" where
  "find_char c s \<equiv> find_from 0 (\<lambda>d. d = c) s"

lemma find_from_bounds:
  "find_from i P s = Some j \<Longrightarrow> i \<le> j \<and> j < i + length s \<and> P (s ! (j - i))"
proof (induction i P s rule: find_from.induct)
  case (2 i P c s)
  show ?case
  proof (cases "P c")
    case False
    with 2 have "Suc i \<le> j \<and> j < Suc i + length s \<and> P (s ! (j - Suc i))" by simp
    then show ?thesis by (auto simp: nth_Cons' Suc_diff_le)
  qed (use 2 in auto)
qed simp

definition trim_start :: "string \<Rightarrow> string" where
  "trim_start s = dropWhile is_whitespace s"

definition trim_end :: "string \<Rightarrow> string" where
  "trim_end s = rev (dropWhile is_whitespace (rev s))"

definition trim :: "string \<Rightarrow> string" where
  "trim s = trim_end (trim_start s)"

definition trim_matches :: "char \<Rightarrow> string \<Rightarrow> string" where
  "trim_matches c s = rev (dropWhile (\<lambda>d. d = c) (rev (dropWhile (\<lambda>d. d = c) s)))"

lemma length_trim: "length (trim s) \<le> length s"
  by (metis length_dropWhile_le length_rev order.trans trim_def trim_end_def trim_start_def)

lemma set_trim: "set (trim s) \<subseteq> set s"
  by (auto simp: trim_def trim_end_def trim_start_def dest!: set_dropWhileD)

lemma trim_id:
  assumes "s \<noteq> []" "\<not> is_whitespace (hd s)" "\<not> is_whitespace (last s)"
  shows "trim s = s"
proof -
  have "dropWhile is_whitespace s = s"
    using assms by (cases s) auto
  moreover have "dropWhile is_whitespace (rev s) = rev s"
    using assms by (cases "rev s") (auto simp: last_conv_nth hd_rev [symmetric])
  ultimately show ?thesis by (simp add: trim_def trim_end_def trim_start_def)
qed

lemma trim_Nil [simp]: "trim [] = []"
  by (simp add: trim_def trim_end_def trim_start_def)

fun join_with :: "string \<Rightarrow> string list \<Rightarrow> string" where
  "join_with sep [] = []"
| "join_with sep [x] = x"
| "join_with sep (x # y # ys) = x @ sep @ join_with sep (y # ys)"

fun replace_char :: "char \<Rightarrow> string \<Rightarrow> string \<Rightarrow> string" where
  "replace_char c r [] = []"
| "replace_char c r (d # s) = (if d = c then r @ replace_char c r s else d # replace_char c r s)"

section \<open>Decimal numerals\<close>

definition digit_char :: "nat \<Rightarrow> char" where
  "digit_char d = char_of (48 + d)"

fun nat_to_string :: "nat \<Rightarrow> string" where
  "nat_to_string n =
     (if n < 10 then [digit_char n] else nat_to_string (n div 10) @ [digit_char (n mod 10)])"

declare nat_to_string.simps [simp del]

definition int_to_string :: "int \<Rightarrow> string" where
  "int_to_string i = (if i < 0 then CHR ''-'' # nat_to_string (nat (- i)) else nat_to_string (nat i))"

definition digits_value :: "string \<Rightarrow> nat" where
  "digits_value s = foldl (\<lambda>n c. 10 * n + (code c - 48)) 0 s"

definition all_digits :: "string \<Rightarrow> bool" where
  "all_digits s \<longleftrightarrow> s \<noteq> [] \<and> list_all is_ascii_digit s"

text \<open>\<open>str::parse::<usize>\<close>: an optional plus sign, digits only, no overflow of 64 bits.\<close>

definition strip_plus :: "string \<Rightarrow> string" where
  "strip_plus s = (case s of c # t \<Rightarrow> if c = CHR ''+'' then t else s | [] \<Rightarrow> s)"

definition parse_usize :: "string \<Rightarrow> nat option" where
  "parse_usize s =
     (let d = strip_plus s in
      if all_digits d \<and> digits_value d < 2 ^ 64 then Some (digits_value d) else None)"

text \<open>\<open>str::parse::<i64>\<close>: an optional sign, digits only, within the range of 64 bits.\<close>

definition parse_i64 :: "string \<Rightarrow> int option" where
  "parse_i64 s =
     (let neg = (s \<noteq> [] \<and> hd s = CHR ''-''); d = (if neg then tl s else strip_plus s);
          v = (if neg then - int (digits_value d) else int (digits_value d))
      in if all_digits d \<and> - (2 ^ 63) \<le> v \<and> v < 2 ^ 63 then Some v else None)"

lemma code_digit_char: "d < 10 \<Longrightarrow> code (digit_char d) = 48 + d"
  by (simp add: digit_char_def)

lemma digit_char_is_digit: "d < 10 \<Longrightarrow> is_ascii_digit (digit_char d)"
  by (simp add: is_ascii_digit_def code_digit_char)

lemma nat_to_string_digits: "list_all is_ascii_digit (nat_to_string n)"
proof (induction n rule: nat_to_string.induct)
  case (1 n)
  then show ?case
    by (subst nat_to_string.simps) (auto simp: digit_char_is_digit)
qed

lemma nat_to_string_nonempty [simp]: "nat_to_string n \<noteq> []"
  by (subst nat_to_string.simps) simp

lemma digits_value_snoc: "digits_value (s @ [c]) = 10 * digits_value s + (code c - 48)"
  by (simp add: digits_value_def)

lemma digits_value_nat_to_string: "digits_value (nat_to_string n) = n"
proof (induction n rule: nat_to_string.induct)
  case (1 n)
  show ?case
  proof (cases "n < 10")
    case True
    then show ?thesis
      by (subst nat_to_string.simps) (simp add: digits_value_def code_digit_char)
  next
    case False
    with 1 show ?thesis
      by (subst nat_to_string.simps) (simp add: digits_value_snoc code_digit_char)
  qed
qed

lemma all_digits_nat_to_string [simp]: "all_digits (nat_to_string n)"
  by (simp add: all_digits_def nat_to_string_digits)

lemma hd_nat_to_string: "is_ascii_digit (hd (nat_to_string n))"
  using nat_to_string_digits [of n] nat_to_string_nonempty [of n]
  by (cases "nat_to_string n") auto

lemma digit_not_sign: "is_ascii_digit c \<Longrightarrow> c \<noteq> CHR ''+'' \<and> c \<noteq> CHR ''-''"
  by (auto simp: is_ascii_digit_def)

lemma strip_plus_nat_to_string: "strip_plus (nat_to_string n) = nat_to_string n"
  using digit_not_sign [OF hd_nat_to_string [of n]]
  by (auto simp: strip_plus_def split: list.splits)

lemma parse_usize_to_string: "n < 2 ^ 64 \<Longrightarrow> parse_usize (nat_to_string n) = Some n"
  by (simp add: parse_usize_def strip_plus_nat_to_string digits_value_nat_to_string)

lemma parse_i64_to_string:
  assumes "- (2 ^ 63) \<le> i" "i < 2 ^ 63"
  shows "parse_i64 (int_to_string i) = Some i"
proof (cases "i < 0")
  case True
  with assms show ?thesis
    by (simp add: parse_i64_def int_to_string_def digits_value_nat_to_string)
next
  case False
  with assms digit_not_sign [OF hd_nat_to_string [of "nat i"]] show ?thesis
    by (simp add: parse_i64_def int_to_string_def digits_value_nat_to_string
        strip_plus_nat_to_string)
qed

end
