(* ===== verification/Tokens.thy ===== *)
theory Tokens
  imports Prelude
begin

text \<open>
  Tokens, \<open>src/compiler/frontend/token.rs\<close>: the enumeration of token types (constructor
  \<open>X\<close> of the source is \<open>TkX\<close> here) and the token record.

  Equality of token types is decided by the datatype's distinctness rules; the type is
  declared with the \<open>size\<close> plugin only, which keeps its 121 constructors cheap.
\<close>

datatype (plugins only: size) TokenType =
    TkAs | TkFunction | TkExtern | TkReturn | TkLet | TkConst | TkIf | TkElse | TkWhile
  | TkFor | TkBreak | TkContinue | TkNamespace | TkClass | TkNew | TkThis | TkSuper
  | TkConstructor | TkExtends | TkImplements | TkAbstract | TkSwitch | TkCase | TkDefault
  | TkImport | TkExport | TkFrom | TkInstanceof | TkPublic | TkPrivate | TkProtected
  | TkStatic | TkTry | TkCatch | TkFinally | TkThrow | TkSome | TkNone | TkOption
  | TkOptional | TkDel | TkInterface | TkTypeAlias | TkTypeString | TkTypeBoolean
  | TkTypeVoid | TkTypeInt | TkTypeInt8 | TkTypeUInt8 | TkTypeInt16 | TkTypeUInt16
  | TkTypeUInt | TkTypeInt64 | TkTypeUInt64 | TkTypeInt128 | TkTypeUInt128 | TkTypeFloat
  | TkTypeFloat16 | TkTypeFloat64 | TkTypeChar | TkIdentifier | TkNumber | TkString
  | TkCharLiteral | TkTemplateString | TkTrue | TkFalse | TkPlus | TkMinus | TkStar
  | TkSlash | TkModulo | TkEquals | TkDot | TkComma | TkColon | TkDoubleColon | TkSemicolon
  | TkEllipsis | TkOpenParen | TkCloseParen | TkOpenBrace | TkCloseBrace | TkOpenBracket
  | TkCloseBracket | TkEqualEqual | TkBang | TkBangEqual | TkLess | TkLessEqual | TkGreater
  | TkGreaterEqual | TkAmpersandAmpersand | TkPipePipe | TkAmpersand | TkPipe | TkCaret
  | TkTilde | TkLessLess | TkGreaterGreater | TkPlusEquals | TkMinusEquals | TkStarEquals
  | TkSlashEquals | TkModuloEquals | TkAmpersandEquals | TkPipeEquals | TkCaretEquals
  | TkLessLessEquals | TkGreaterGreaterEquals | TkPlusPlus | TkMinusMinus | TkQuestion
  | TkQuestionDot | TkQuestionQuestion | TkArrow | TkEnum | TkTo | TkOf | TkEndOfFile
  | TkHash

record Token =
  token_type :: TokenType
  tok_value :: string
  tok_line :: nat
  tok_column :: nat

text \<open>\<open>Token::new\<close>.\<close>

definition new_token :: "TokenType \<Rightarrow> string \<Rightarrow> nat \<Rightarrow> nat \<Rightarrow> Token" where
  "new_token ty v l c = \<lparr>token_type = ty, tok_value = v, tok_line = l, tok_column = c\<rparr>"

lemma new_token_sel [simp]:
  "token_type (new_token ty v l c) = ty" "tok_value (new_token ty v l c) = v"
  "tok_line (new_token ty v l c) = l" "tok_column (new_token ty v l c) = c"
  by (simp_all add: new_token_def)

end
