(* ===== verification/Diagnostics.thy ===== *)
theory Diagnostics
  imports Prelude
begin

text \<open>
  Diagnostics, \<open>src/compiler/common/diagnostics.rs\<close>: the record every phase reports errors
  with, its builder methods, and the spelling suggestions (edit distance and best match).
  The rendering of a diagnostic on the terminal is output only and is not modelled.
\<close>

datatype Severity = SevError | SevWarning

record Diagnostic =
  d_message :: string
  d_line :: nat
  d_col :: nat
  d_length :: nat
  d_file :: string
  d_code :: string
  d_severity :: Severity
  d_hint :: "string option"
  d_label :: "string option"

definition diagnostic_new :: "string \<Rightarrow> nat \<Rightarrow> nat \<Rightarrow> string \<Rightarrow> Diagnostic" where
  "diagnostic_new msg l c file =
     \<lparr>d_message = msg, d_line = l, d_col = c, d_length = 1, d_file = file, d_code = [],
      d_severity = SevError, d_hint = None, d_label = None\<rparr>"

definition diagnostic_warning :: "string \<Rightarrow> nat \<Rightarrow> nat \<Rightarrow> string \<Rightarrow> Diagnostic" where
  "diagnostic_warning msg l c file =
     \<lparr>d_message = msg, d_line = l, d_col = c, d_length = 1, d_file = file, d_code = [],
      d_severity = SevWarning, d_hint = None, d_label = None\<rparr>"

definition with_code :: "string \<Rightarrow> Diagnostic \<Rightarrow> Diagnostic" where
  "with_code c d = d\<lparr>d_code := c\<rparr>"

definition with_hint :: "string \<Rightarrow> Diagnostic \<Rightarrow> Diagnostic" where
  "with_hint h d = d\<lparr>d_hint := Some h\<rparr>"

definition with_label :: "string \<Rightarrow> Diagnostic \<Rightarrow> Diagnostic" where
  "with_label l d = d\<lparr>d_label := Some l\<rparr>"

section \<open>Edit distance\<close>

text \<open>
  \<open>levenshtein_distance\<close> keeps two rows of the table. \<open>lev_cell\<close> fills one cell,
  \<open>lev_row\<close> one row from left to right, and the outer loop copies the finished row.
\<close>

definition lev_cell :: "char \<Rightarrow> string \<Rightarrow> nat list \<Rightarrow> nat list \<Rightarrow> nat \<Rightarrow> nat list" where
  "lev_cell ca b prev cur j =
     cur[j := min (min (prev ! j + 1) (cur ! (j - 1) + 1))
                   (prev ! (j - 1) + (if ca = b ! (j - 1) then 0 else 1))]"

definition lev_row :: "char \<Rightarrow> string \<Rightarrow> nat list \<Rightarrow> nat list \<Rightarrow> nat \<Rightarrow> nat list" where
  "lev_row ca b prev cur i = foldl (lev_cell ca b prev) (cur[0 := i]) [1..<Suc (length b)]"

definition lev_step :: "string \<Rightarrow> string \<Rightarrow> nat list \<times> nat list \<Rightarrow> nat \<Rightarrow> nat list \<times> nat list" where
  "lev_step a b rows i =
     (let cur = lev_row (a ! (i - 1)) b (fst rows) (snd rows) i in (cur, cur))"

definition levenshtein_distance :: "string \<Rightarrow> string \<Rightarrow> nat" where
  "levenshtein_distance a b =
     (if length a = 0 then length b
      else if length b = 0 then length a
      else fst (foldl (lev_step a b) ([0..<Suc (length b)], replicate (length b + 1) 0)
                  [1..<Suc (length a)]) ! length b)"

definition max_allowed_distance :: "nat \<Rightarrow> nat" where
  "max_allowed_distance n = (if n \<le> 3 then 1 else if n \<le> 7 then 2 else 3)"

section \<open>Best match\<close>

text \<open>
  The loop of \<open>find_best_match_internal\<close>: \<open>best\<close> and \<open>min_distance\<close> are its variables (the
  initial \<open>usize::MAX\<close> is \<open>None\<close>, as no distance reaches it).
\<close>

fun best_match_loop ::
  "string \<Rightarrow> string \<Rightarrow> nat \<Rightarrow> string option \<Rightarrow> nat option \<Rightarrow> string list \<Rightarrow> string option" where
  "best_match_loop target lower maxd best mind [] = best"
| "best_match_loop target lower maxd best mind (cand # cs) =
     (let c = trim cand in
      if c = [] \<or> c = target then best_match_loop target lower maxd best mind cs
      else let cl = map to_lower c in
        if cl = lower then Some c
        else let d = levenshtein_distance lower cl in
          if d \<le> maxd \<and> (case mind of None \<Rightarrow> True | Some m \<Rightarrow> d < m)
          then best_match_loop target lower maxd (Some c) (Some d) cs
          else best_match_loop target lower maxd best mind cs)"

definition find_best_match :: "string \<Rightarrow> string list \<Rightarrow> string option" where
  "find_best_match target cands =
     (let t = trim target in
      if t = [] then None
      else let l = map to_lower t
           in best_match_loop t l (max_allowed_distance (length l)) None None cands)"

section \<open>The table is the recursive distance\<close>

text \<open>\<open>dist a b i j\<close>: the distance of the first \<open>i\<close> characters of \<open>a\<close> and the first \<open>j\<close> of \<open>b\<close>.\<close>

fun dist :: "string \<Rightarrow> string \<Rightarrow> nat \<Rightarrow> nat \<Rightarrow> nat" where
  "dist a b 0 j = j"
| "dist a b (Suc i) 0 = Suc i"
| "dist a b (Suc i) (Suc j) =
     min (min (dist a b i (Suc j) + 1) (dist a b (Suc i) j + 1))
         (dist a b i j + (if a ! i = b ! j then 0 else 1))"

abbreviation dist_row :: "string \<Rightarrow> string \<Rightarrow> nat \<Rightarrow> nat list" where
  "dist_row a b i \<equiv> map (dist a b i) [0..<Suc (length b)]"

lemma length_lev_cells: "length (foldl (lev_cell ca b prev) cur js) = length cur"
  by (induction js arbitrary: cur) (auto simp: lev_cell_def)

lemma lev_cells:
  assumes "length cur = Suc (length b)" "k \<le> length b"
  shows "\<forall>j \<le> k. foldl (lev_cell (a ! i) b (dist_row a b i)) (cur[0 := Suc i]) [1..<Suc k] ! j
           = dist a b (Suc i) j"
  using assms(2)
proof (induction k)
  case 0
  then show ?case using assms(1) by simp
next
  case (Suc k)
  define r where "r = foldl (lev_cell (a ! i) b (dist_row a b i)) (cur[0 := Suc i]) [1..<Suc k]"
  have r: "\<forall>j \<le> k. r ! j = dist a b (Suc i) j" "length r = Suc (length b)"
    using Suc by (auto simp: r_def length_lev_cells assms(1))
  have "foldl (lev_cell (a ! i) b (dist_row a b i)) (cur[0 := Suc i]) [1..<Suc (Suc k)]
      = lev_cell (a ! i) b (dist_row a b i) r (Suc k)"
    by (simp add: r_def)
  moreover have "dist_row a b i ! Suc k = dist a b i (Suc k)" "dist_row a b i ! k = dist a b i k"
    using Suc.prems by (auto simp del: upt_Suc)
  ultimately show ?case
    using r Suc.prems
    by (auto simp: lev_cell_def [of _ _ _ r "Suc k"] nth_list_update le_Suc_eq simp del: upt_Suc)
qed

lemma lev_row_dist:
  assumes "length cur = Suc (length b)"
  shows "lev_row (a ! i) b (dist_row a b i) cur (Suc i) = dist_row a b (Suc i)"
proof (rule nth_equalityI)
  show len: "length (lev_row (a ! i) b (dist_row a b i) cur (Suc i)) = length (dist_row a b (Suc i))"
    using assms by (simp add: lev_row_def length_lev_cells)
  fix j assume "j < length (lev_row (a ! i) b (dist_row a b i) cur (Suc i))"
  then have "j \<le> length b" using len by simp
  with lev_cells [OF assms, of "length b" a i]
  show "lev_row (a ! i) b (dist_row a b i) cur (Suc i) ! j = dist_row a b (Suc i) ! j"
    by (auto simp: lev_row_def nth_append simp del: upt_Suc)
qed

lemma lev_rows:
  "length cur = Suc (length b) \<Longrightarrow>
   fst (foldl (lev_step a b) ([0..<Suc (length b)], cur) [1..<Suc i]) = dist_row a b i \<and>
   length (snd (foldl (lev_step a b) ([0..<Suc (length b)], cur) [1..<Suc i])) = Suc (length b)"
proof (induction i)
  case 0
  have "[0..<Suc (length b)] = dist_row a b 0"
    by (rule nth_equalityI) (auto simp del: upt_Suc)
  with 0 show ?case by simp
next
  case (Suc i)
  define r where "r = foldl (lev_step a b) ([0..<Suc (length b)], cur) [1..<Suc i]"
  have "foldl (lev_step a b) ([0..<Suc (length b)], cur) [1..<Suc (Suc i)] = lev_step a b r (Suc i)"
    by (simp add: r_def)
  moreover have "fst r = dist_row a b i" "length (snd r) = Suc (length b)"
    using Suc by (auto simp: r_def)
  ultimately show ?case
    by (simp add: lev_step_def [of _ _ r] lev_row_dist Let_def del: upt_Suc)
qed

lemma dist_0_right [simp]: "dist a b i 0 = i"
  by (cases i) auto

lemma levenshtein_dist: "levenshtein_distance a b = dist a b (length a) (length b)"
  using lev_rows [of "replicate (length b + 1) 0" b a "length a"]
  by (auto simp: levenshtein_distance_def simp del: upt_Suc)

section \<open>The distance is the least number of edits\<close>

text \<open>\<open>edits k xs ys\<close>: the string \<open>xs\<close> becomes \<open>ys\<close> with \<open>k\<close> replacements, deletions and insertions.\<close>

inductive edits :: "nat \<Rightarrow> string \<Rightarrow> string \<Rightarrow> bool" where
  edit_nil: "edits 0 [] []"
| edit_keep: "edits k xs ys \<Longrightarrow> edits k (xs @ [c]) (ys @ [c])"
| edit_replace: "edits k xs ys \<Longrightarrow> edits (Suc k) (xs @ [c]) (ys @ [d])"
| edit_delete: "edits k xs ys \<Longrightarrow> edits (Suc k) (xs @ [c]) ys"
| edit_insert: "edits k xs ys \<Longrightarrow> edits (Suc k) xs (ys @ [d])"

lemma edits_delete_all: "edits (length xs) xs []"
  by (induction xs rule: rev_induct) (auto intro: edits.intros)

lemma edits_insert_all: "edits (length ys) [] ys"
  by (induction ys rule: rev_induct) (auto intro: edits.intros)

lemma dist_edits:
  "i \<le> length a \<Longrightarrow> j \<le> length b \<Longrightarrow> edits (dist a b i j) (take i a) (take j b)"
proof (induction a b i j rule: dist.induct)
  case (1 a b j)
  then show ?case using edits_insert_all [of "take j b"] by (simp add: min_absorb2)
next
  case (2 a b i)
  then show ?case using edits_delete_all [of "take (Suc i) a"] by (simp add: min_absorb2)
next
  case (3 a b i j)
  let ?A = "take i a" and ?B = "take j b"
  have t: "take (Suc i) a = ?A @ [a ! i]" "take (Suc j) b = ?B @ [b ! j]"
    using 3 by (auto simp: take_Suc_conv_app_nth)
  have del: "edits (dist a b i (Suc j) + 1) (?A @ [a ! i]) (?B @ [b ! j])"
    using "3.IH"(1) 3(4,5) t by (auto intro: edit_delete)
  have ins: "edits (dist a b (Suc i) j + 1) (?A @ [a ! i]) (?B @ [b ! j])"
    using "3.IH"(2) 3(4,5) t by (auto intro: edit_insert)
  have rep: "edits (dist a b i j + (if a ! i = b ! j then 0 else 1)) (?A @ [a ! i]) (?B @ [b ! j])"
    using "3.IH"(3) 3(4,5) by (auto intro: edit_keep edit_replace)
  show ?case unfolding t dist.simps(3)
    by (simp only: min_def split: if_splits) (use del ins rep in auto)
qed

text \<open>Each step of the table changes the distance by at most one.\<close>

lemma dist_Suc_left: "dist a b (Suc i) j \<le> Suc (dist a b i j)"
  by (cases j) auto

lemma dist_Suc_right: "dist a b i (Suc j) \<le> Suc (dist a b i j)"
  by (cases i) auto

lemma edits_dist:
  "edits k xs ys \<Longrightarrow> take (length xs) a = xs \<Longrightarrow> take (length ys) b = ys \<Longrightarrow>
   length xs \<le> length a \<Longrightarrow> length ys \<le> length b \<Longrightarrow> dist a b (length xs) (length ys) \<le> k"
proof (induction rule: edits.induct)
  case (edit_keep k xs ys c)
  then have "a ! length xs = c" "b ! length ys = c" "take (length xs) a = xs" "take (length ys) b = ys"
    by (auto simp: take_Suc_conv_app_nth)
  with edit_keep show ?case by simp
next
  case (edit_replace k xs ys c d)
  then have "take (length xs) a = xs" "take (length ys) b = ys"
    by (auto simp: take_Suc_conv_app_nth)
  with edit_replace show ?case by auto
next
  case (edit_delete k xs ys c)
  then have "take (length xs) a = xs" by (auto simp: take_Suc_conv_app_nth)
  with edit_delete dist_Suc_left [of a b "length xs" "length ys"] show ?case by auto
next
  case (edit_insert k xs ys d)
  then have "take (length ys) b = ys" by (auto simp: take_Suc_conv_app_nth)
  with edit_insert dist_Suc_right [of a b "length xs" "length ys"] show ?case by auto
qed simp

text \<open>
  Property C9: the two-row table computes the edit distance: there is an edit script of that
  length and none shorter.
\<close>

theorem levenshtein_is_edit_distance:
  "edits (levenshtein_distance a b) a b \<and> {k. edits k a b} \<subseteq> {levenshtein_distance a b ..}"
  using dist_edits [of "length a" a "length b" b] edits_dist [of _ a b a b]
  by (auto simp: levenshtein_dist)

section \<open>The best match is a nearest candidate within the threshold\<close>

definition usable :: "string \<Rightarrow> string \<Rightarrow> bool" where
  "usable target c \<longleftrightarrow> trim c \<noteq> [] \<and> trim c \<noteq> target"

definition spelling_distance :: "string \<Rightarrow> string \<Rightarrow> nat" where
  "spelling_distance lower c = levenshtein_distance lower (map to_lower c)"

lemma edits_refl: "edits 0 a a"
  by (induction a rule: rev_induct) (auto intro: edits.intros)

lemma levenshtein_refl [simp]: "levenshtein_distance a a = 0"
  using edits_dist [OF edits_refl, of a a a] by (simp add: levenshtein_dist)

definition best_so_far :: "string \<Rightarrow> nat \<Rightarrow> string option \<Rightarrow> nat option \<Rightarrow> bool" where
  "best_so_far lower maxd best mind \<longleftrightarrow>
     (case best of None \<Rightarrow> mind = None
      | Some b \<Rightarrow> mind = Some (spelling_distance lower b) \<and> spelling_distance lower b \<le> maxd)"

lemma best_match_loop_Cons:
  "best_match_loop t l maxd best mind (cand # cs) =
     (if \<not> usable t cand then best_match_loop t l maxd best mind cs
      else if map to_lower (trim cand) = l then Some (trim cand)
      else if spelling_distance l (trim cand) \<le> maxd \<and>
              (\<forall>m. mind = Some m \<longrightarrow> spelling_distance l (trim cand) < m)
      then best_match_loop t l maxd (Some (trim cand)) (Some (spelling_distance l (trim cand))) cs
      else best_match_loop t l maxd best mind cs)"
  by (auto simp: Let_def usable_def spelling_distance_def split: option.splits)

declare best_match_loop.simps(2) [simp del]

lemma best_match_loop_Some:
  "best_match_loop t l maxd best mind cs = Some r \<Longrightarrow> best_so_far l maxd best mind \<Longrightarrow>
     (best = Some r \<or> (\<exists>c \<in> set cs. usable t c \<and> r = trim c)) \<and> spelling_distance l r \<le> maxd \<and>
     (\<forall>m. mind = Some m \<longrightarrow> spelling_distance l r \<le> m) \<and>
     (\<forall>c \<in> set cs. usable t c \<longrightarrow> spelling_distance l r \<le> spelling_distance l (trim c))"
proof (induction cs arbitrary: best mind)
  case Nil
  then show ?case by (auto simp: best_so_far_def)
next
  case (Cons cand cs)
  let ?c = "trim cand" let ?d = "spelling_distance l ?c"
  consider (skip) "\<not> usable t cand" | (exact) "usable t cand" "map to_lower ?c = l"
    | (better) "usable t cand" "map to_lower ?c \<noteq> l" "?d \<le> maxd" "\<forall>m. mind = Some m \<longrightarrow> ?d < m"
    | (worse) "usable t cand" "map to_lower ?c \<noteq> l" "\<not> (?d \<le> maxd \<and> (\<forall>m. mind = Some m \<longrightarrow> ?d < m))"
    by blast
  then show ?case
  proof cases
    case skip
    with Cons show ?thesis by (auto simp: best_match_loop_Cons)
  next
    case exact
    with Cons.prems show ?thesis by (auto simp: best_match_loop_Cons spelling_distance_def)
  next
    case better
    then have "best_match_loop t l maxd (Some ?c) (Some ?d) cs = Some r"
      using Cons.prems by (auto simp: best_match_loop_Cons)
    from Cons.IH [OF this] better show ?thesis
      by (fastforce simp: best_so_far_def)
  next
    case worse
    then have "best_match_loop t l maxd best mind cs = Some r"
      using Cons.prems(1) unfolding best_match_loop_Cons by (metis (no_types, lifting))
    note IH = Cons.IH [OF this Cons.prems(2)]
    have "spelling_distance l r \<le> ?d"
    proof (cases "?d \<le> maxd")
      case True
      with worse(3) obtain m where "mind = Some m" "m \<le> ?d" by (auto simp: not_less)
      with IH show ?thesis by auto
    next
      case False
      with IH show ?thesis by linarith
    qed
    with IH show ?thesis by auto
  qed
qed

lemma best_match_loop_None:
  "best_match_loop t l maxd best mind cs = None \<Longrightarrow> best_so_far l maxd best mind \<Longrightarrow>
     best = None \<and> (\<forall>c \<in> set cs. usable t c \<longrightarrow> maxd < spelling_distance l (trim c))"
proof (induction cs arbitrary: best mind)
  case (Cons cand cs)
  from Cons.prems Cons.IH [of "Some (trim cand)" "Some (spelling_distance l (trim cand))"]
    Cons.IH [of best mind]
  show ?case
    by (auto simp: best_match_loop_Cons best_so_far_def not_le split: if_splits option.splits)
qed (simp add: best_so_far_def)

text \<open>
  Property C10: a suggestion is a trimmed candidate other than the target, within the allowed
  distance and at least as near as every other candidate; without one, every candidate is too
  far away.
\<close>

theorem find_best_match_nearest:
  assumes "trim target \<noteq> []"
  shows "case find_best_match target cands of
      None \<Rightarrow> \<forall>c \<in> set cands. usable (trim target) c \<longrightarrow>
        max_allowed_distance (length (trim target)) <
          spelling_distance (map to_lower (trim target)) (trim c)
    | Some r \<Rightarrow>
        (\<exists>c \<in> set cands. usable (trim target) c \<and> r = trim c) \<and>
        spelling_distance (map to_lower (trim target)) r \<le> max_allowed_distance (length (trim target)) \<and>
        (\<forall>c \<in> set cands. usable (trim target) c \<longrightarrow>
           spelling_distance (map to_lower (trim target)) r
             \<le> spelling_distance (map to_lower (trim target)) (trim c))"
  using assms best_match_loop_Some [of "trim target" "map to_lower (trim target)" _ None None cands]
    best_match_loop_None [of "trim target" "map to_lower (trim target)" _ None None cands]
  by (auto simp: find_best_match_def Let_def best_so_far_def split: option.splits)

theorem find_best_match_nearest_witness:
  "trim ''lenght'' \<noteq> [] \<and> find_best_match ''lenght'' [''length'', ''width''] = Some ''length'' \<and>
   spelling_distance (map to_lower (trim ''lenght'')) ''length'' \<le> max_allowed_distance (length (trim ''lenght''))"
proof -
  have t: "trim ''lenght'' \<noteq> []" by code_simp
  have "find_best_match ''lenght'' [''length'', ''width''] = Some ''length''" by code_simp
  with find_best_match_nearest [OF t, of "[''length'', ''width'']"] t show ?thesis by simp
qed

end
