(* ===== verification/Lexer.thy ===== *)
theory Lexer
  imports Tokens Diagnostics
begin

text \<open>
  The lexer, \<open>src/compiler/frontend/lexer.rs\<close>. The state is the record of the source; the
  keyword table is a constant association list, as \<open>Lexer::new\<close> always builds the same one.
  Every loop of the source is a recursive function whose measure is the number of characters
  left, so the lexer is total without fuel.
\<close>

record lexer =
  lx_source :: string
  lx_position :: nat
  lx_line :: nat
  lx_column :: nat
  lx_errors :: "Diagnostic list"
  lx_filename :: string

definition keyword_table :: "(string \<times> TokenType) list" where
  "keyword_table =
     [(''function'', TkFunction), (''extern'', TkExtern), (''as'', TkAs), (''let'', TkLet),
      (''const'', TkConst), (''return'', TkReturn), (''if'', TkIf), (''else'', TkElse),
      (''while'', TkWhile), (''for'', TkFor), (''break'', TkBreak),
      (''continue'', TkContinue), (''namespace'', TkNamespace), (''switch'', TkSwitch),
      (''case'', TkCase), (''default'', TkDefault), (''extends'', TkExtends),
      (''implements'', TkImplements), (''string'', TkTypeString),
      (''bool'', TkTypeBoolean), (''void'', TkTypeVoid), (''int'', TkTypeInt),
      (''int8'', TkTypeInt8), (''uint8'', TkTypeUInt8), (''int16'', TkTypeInt16),
      (''uint16'', TkTypeUInt16), (''uint'', TkTypeUInt), (''uint32'', TkTypeUInt),
      (''int64'', TkTypeInt64), (''uint64'', TkTypeUInt64), (''int128'', TkTypeInt128),
      (''uint128'', TkTypeUInt128), (''float'', TkTypeFloat), (''float32'', TkTypeFloat),
      (''float64'', TkTypeFloat64), (''float16'', TkTypeFloat16), (''char'', TkTypeChar),
      (''true'', TkTrue), (''false'', TkFalse), (''class'', TkClass), (''new'', TkNew),
      (''this'', TkThis), (''constructor'', TkConstructor), (''super'', TkSuper),
      (''public'', TkPublic), (''private'', TkPrivate), (''protected'', TkProtected),
      (''abstract'', TkAbstract), (''static'', TkStatic), (''try'', TkTry),
      (''catch'', TkCatch), (''finally'', TkFinally), (''throw'', TkThrow),
      (''type'', TkTypeAlias), (''enum'', TkEnum), (''Some'', TkSome), (''None'', TkNone),
      (''Option'', TkOption), (''Optional'', TkOptional), (''import'', TkImport),
      (''export'', TkExport), (''from'', TkFrom), (''instanceof'', TkInstanceof),
      (''interface'', TkInterface), (''to'', TkTo), (''of'', TkOf), (''del'', TkDel)]"

definition lexer_new :: "string \<Rightarrow> string \<Rightarrow> lexer" where
  "lexer_new src file =
     \<lparr>lx_source = src, lx_position = 0, lx_line = 1, lx_column = 1, lx_errors = [], lx_filename = file\<rparr>"

section \<open>Reading characters\<close>

definition lx_peek :: "lexer \<Rightarrow> nat \<Rightarrow> char" where
  "lx_peek l k =
     (if length (lx_source l) \<le> lx_position l + k then CHR 0x00
      else lx_source l ! (lx_position l + k))"

definition lx_advance :: "lexer \<Rightarrow> char \<times> lexer" where
  "lx_advance l =
     (let c = lx_peek l 0; l1 = l\<lparr>lx_position := lx_position l + 1\<rparr>
      in (c, if c = newline then l1\<lparr>lx_line := lx_line l + 1, lx_column := 1\<rparr>
             else l1\<lparr>lx_column := lx_column l + 1\<rparr>))"

definition lx_at_end :: "lexer \<Rightarrow> bool" where
  "lx_at_end l \<longleftrightarrow> length (lx_source l) \<le> lx_position l"

text \<open>A call of \<open>advance\<close> whose result is dropped.\<close>

abbreviation lx_skip :: "lexer \<Rightarrow> lexer" where
  "lx_skip l \<equiv> snd (lx_advance l)"

definition lx_error :: "Diagnostic \<Rightarrow> lexer \<Rightarrow> lexer" where
  "lx_error d l = l\<lparr>lx_errors := lx_errors l @ [d]\<rparr>"

text \<open>The number of characters left, the measure of every loop.\<close>

definition lx_left :: "lexer \<Rightarrow> nat" where
  "lx_left l = length (lx_source l) - lx_position l"

lemma lx_at_end_left: "lx_at_end l \<longleftrightarrow> lx_left l = 0"
  by (auto simp: lx_at_end_def lx_left_def)

lemma lx_skip_sel [simp]:
  "lx_source (lx_skip l) = lx_source l" "lx_position (lx_skip l) = Suc (lx_position l)"
  "lx_errors (lx_skip l) = lx_errors l" "lx_filename (lx_skip l) = lx_filename l"
  by (simp_all add: lx_advance_def Let_def)

lemma fst_lx_advance [simp]: "fst (lx_advance l) = lx_peek l 0"
  by (simp add: lx_advance_def Let_def)

lemma lx_left_skip: "\<not> lx_at_end l \<Longrightarrow> lx_left (lx_skip l) < lx_left l"
  by (simp add: lx_left_def lx_at_end_def)

lemma lx_left_skip_le: "lx_left (lx_skip l) \<le> lx_left l"
  by (simp add: lx_left_def)

text \<open>
  \<open>while !self.is_at_end() && P(self.peek(0)) { text.push(self.advance()) }\<close>, the loop of
  identifiers, numbers and line comments.
\<close>

function lx_take :: "(char \<Rightarrow> bool) \<Rightarrow> lexer \<Rightarrow> string \<times> lexer" where
  "lx_take P l =
     (if \<not> lx_at_end l \<and> P (lx_peek l 0)
      then let c = lx_peek l 0; (s, l') = lx_take P (lx_skip l) in (c # s, l')
      else ([], l))"
  by pat_completeness auto
termination
  by (relation "measure (\<lambda>(P, l). lx_left l)") (auto simp: lx_left_skip)

declare lx_take.simps [simp del]

text \<open>
  \<open>lx_le l l'\<close>: \<open>l'\<close> is a later state of the same run: the source is the same and nothing is
  unread. Every function of the lexer respects it.
\<close>

definition lx_le :: "lexer \<Rightarrow> lexer \<Rightarrow> bool" where
  "lx_le l l' \<longleftrightarrow> lx_source l' = lx_source l \<and> lx_filename l' = lx_filename l \<and>
     lx_position l \<le> lx_position l'"

lemma lx_le_refl [simp, intro]: "lx_le l l"
  by (simp add: lx_le_def)

lemma lx_le_trans [trans]: "lx_le a b \<Longrightarrow> lx_le b c \<Longrightarrow> lx_le a c"
  by (auto simp: lx_le_def)

lemma lx_le_skip [simp, intro]: "lx_le l (lx_skip l)"
  by (simp add: lx_le_def)

lemma lx_le_error [simp, intro]: "lx_le l (lx_error d l)"
  by (simp add: lx_le_def lx_error_def)

lemma lx_le_skipI: "lx_le a b \<Longrightarrow> lx_le a (lx_skip b)"
  by (rule lx_le_trans) auto

lemma lx_le_errorI: "lx_le a b \<Longrightarrow> lx_le a (lx_error d b)"
  by (rule lx_le_trans) auto

lemma lx_le_unskip: "lx_le (lx_skip a) b \<Longrightarrow> lx_le a b"
  by (rule lx_le_trans [OF lx_le_skip])

lemmas lx_le_intros = lx_le_skipI lx_le_errorI lx_le_refl

lemma lx_le_left: "lx_le a b \<Longrightarrow> lx_left b \<le> lx_left a"
  by (auto simp: lx_le_def lx_left_def)

lemma lx_le_take: "lx_le l (snd (lx_take P l))"
proof (induction P l rule: lx_take.induct)
  case (1 P l)
  then show ?case
    by (subst lx_take.simps) (auto simp: Let_def split: prod.splits intro: lx_le_trans)
qed

lemma lx_take_progress:
  assumes "\<not> lx_at_end l" "P (lx_peek l 0)"
  shows "lx_left (snd (lx_take P l)) < lx_left l"
proof -
  have "lx_left (snd (lx_take P l)) \<le> lx_left (lx_skip l)"
    using assms lx_le_left [OF lx_le_take [of "lx_skip l" P]]
    by (subst lx_take.simps) (auto simp: Let_def split: prod.splits)
  with lx_left_skip [OF assms(1)] show ?thesis by simp
qed

section \<open>White space and comments\<close>

text \<open>The loop of a block comment after its opening; the flag says whether it was closed.\<close>

function lx_block_comment :: "lexer \<Rightarrow> bool \<times> lexer" where
  "lx_block_comment l =
     (if lx_at_end l then (False, l)
      else if lx_peek l 0 = CHR ''*'' \<and> lx_peek l 1 = CHR ''/''
      then (True, lx_skip (lx_skip l))
      else lx_block_comment (lx_skip l))"
  by pat_completeness auto
termination
  by (relation "measure lx_left") (auto simp: lx_left_skip)

declare lx_block_comment.simps [simp del]

lemma lx_le_block_comment: "lx_le l (snd (lx_block_comment l))"
proof (induction l rule: lx_block_comment.induct)
  case (1 l)
  then show ?case
    by (subst lx_block_comment.simps) (auto intro: lx_le_trans)
qed

definition unclosed_comment :: "lexer \<Rightarrow> Diagnostic" where
  "unclosed_comment l =
     with_hint ''add '*/' to close the block comment''
       (with_code ''E0002''
         (diagnostic_new ''Unclosed block comment'' (lx_line l) (lx_column l) (lx_filename l)))"

text \<open>A block comment from its first character.\<close>

definition lx_skip_block :: "lexer \<Rightarrow> lexer" where
  "lx_skip_block l =
     (let (closed, l') = lx_block_comment (lx_skip (lx_skip l))
      in if closed then l' else lx_error (unclosed_comment l) l')"

lemma lx_le_skip_block: "lx_le (lx_skip l) (lx_skip_block l)"
proof -
  have "lx_le (lx_skip l) (snd (lx_block_comment (lx_skip (lx_skip l))))"
    by (rule lx_le_unskip [OF lx_le_block_comment])
  then show ?thesis
    by (auto simp: lx_skip_block_def split: prod.splits intro: lx_le_errorI)
qed

function skip_whitespace :: "lexer \<Rightarrow> lexer" where
  "skip_whitespace l =
     (if lx_at_end l then l
      else let c = lx_peek l 0 in
        if c = CHR '' '' \<or> c = CHR 0x0D \<or> c = CHR 0x09 \<or> c = newline
        then skip_whitespace (lx_skip l)
        else if c = CHR ''/'' then
          (if lx_peek l 1 = CHR ''/''
           then skip_whitespace (snd (lx_take (\<lambda>c. c \<noteq> newline) l))
           else if lx_peek l 1 = CHR ''*'' then skip_whitespace (lx_skip_block l)
           else l)
        else l)"
  by pat_completeness auto
termination
proof (relation "measure lx_left", goal_cases)
  case (3 l c)
  then show ?case by (auto intro: lx_take_progress)
next
  case (4 l c)
  then show ?case
    using lx_le_left [OF lx_le_skip_block [of l]] lx_left_skip [of l] by auto
qed (auto simp: lx_left_skip)

declare skip_whitespace.simps [simp del]

lemma lx_le_skip_whitespace: "lx_le l (skip_whitespace l)"
proof (induction l rule: skip_whitespace.induct)
  case (1 l)
  have "lx_le l (lx_skip_block l)"
    by (rule lx_le_trans [OF lx_le_skip lx_le_skip_block])
  with 1 lx_le_take [of l "\<lambda>c. c \<noteq> newline"] show ?case
    by (subst skip_whitespace.simps) (auto simp: Let_def intro: lx_le_trans)
qed

section \<open>Identifiers and numbers\<close>

definition read_identifier :: "lexer \<Rightarrow> Token \<times> lexer" where
  "read_identifier l =
     (let (text, l') = lx_take is_ident_char l;
          ty = (case map_of keyword_table text of Some t \<Rightarrow> t | None \<Rightarrow> TkIdentifier)
      in (new_token ty text (lx_line l') (lx_column l), l'))"

text \<open>The optional fraction and the identifier characters that follow a number.\<close>

definition read_fraction :: "lexer \<Rightarrow> string \<times> lexer" where
  "read_fraction l =
     (if lx_peek l 0 = CHR ''.'' \<and> is_ascii_digit (lx_peek l 1)
      then let (ds, l') = lx_take is_ascii_digit (lx_skip l) in (CHR ''.'' # ds, l')
      else ([], l))"

definition read_suffix :: "lexer \<Rightarrow> string \<times> lexer" where
  "read_suffix l =
     (if \<not> lx_at_end l \<and> is_ident_start (lx_peek l 0) then lx_take is_ident_char l else ([], l))"

definition read_number :: "lexer \<Rightarrow> Token \<times> lexer" where
  "read_number l =
     (let (ip, l1) = lx_take is_ascii_digit l; (fp, l2) = read_fraction l1; (sfx, l3) = read_suffix l2
      in (new_token TkNumber (ip @ fp @ sfx) (lx_line l3) (lx_column l), l3))"

section \<open>String literals\<close>

definition unclosed_string :: "char \<Rightarrow> nat \<Rightarrow> nat \<Rightarrow> string \<Rightarrow> Diagnostic" where
  "unclosed_string q ln col file =
     diagnostic_new (''Unclosed string literal starting with '' @ [q]) ln col file"

definition escape_char :: "char \<Rightarrow> char" where
  "escape_char e =
     (if e = CHR ''n'' then newline else if e = CHR ''t'' then CHR 0x09
      else if e = CHR ''r'' then CHR 0x0D else if e = CHR ''b'' then CHR 0x08
      else if e = CHR ''f'' then CHR 0x0C else if e = CHR ''0'' then CHR 0x00 else e)"

text \<open>The loop of \<open>read_string\<close>: the escape flag, the text so far and the state.\<close>

function read_string_loop ::
  "char \<Rightarrow> nat \<Rightarrow> nat \<Rightarrow> bool \<Rightarrow> string \<Rightarrow> lexer \<Rightarrow> string \<times> lexer" where
  "read_string_loop q sl sc esc v l =
     (if lx_at_end l then (v, l)
      else let c = lx_peek l 0 in
        if esc then read_string_loop q sl sc False (v @ [escape_char c]) (lx_skip l)
        else if c = backslash then read_string_loop q sl sc True v (lx_skip l)
        else if c = q then (v, l)
        else if c = newline then (v, lx_error (unclosed_string q sl sc (lx_filename l)) l)
        else read_string_loop q sl sc False (v @ [c]) (lx_skip l))"
  by pat_completeness auto
termination
  by (relation "measure (\<lambda>(q, sl, sc, esc, v, l). lx_left l)") (auto simp: lx_left_skip)

declare read_string_loop.simps [simp del]

definition read_string :: "char \<Rightarrow> lexer \<Rightarrow> Token \<times> lexer" where
  "read_string q l =
     (let sl = lx_line l; sc = lx_column l;
          (v, l') = read_string_loop q sl sc False [] (lx_skip l);
          l'' = (if lx_at_end l' \<or> lx_peek l' 0 \<noteq> q
                 then lx_error (unclosed_string q sl sc (lx_filename l')) l'
                 else lx_skip l')
      in (new_token TkString v sl sc, l''))"

section \<open>Template literals\<close>

text \<open>The loop of \<open>read_template_string\<close>: brace depth, interpolation flag, text so far.\<close>

function read_template_loop :: "int \<Rightarrow> bool \<Rightarrow> string \<Rightarrow> lexer \<Rightarrow> string \<times> lexer" where
  "read_template_loop depth interp v l =
     (if lx_at_end l then (v, l)
      else if lx_peek l 0 = CHR ''`'' \<and> \<not> interp then (v, l)
      else if lx_peek l 0 = CHR ''$'' \<and> lx_peek l 1 = CHR ''{'' \<and> \<not> interp
      then read_template_loop 1 True (v @ [lx_peek l 0, lx_peek (lx_skip l) 0]) (lx_skip (lx_skip l))
      else if interp then
        (let depth' = (if lx_peek l 0 = CHR ''{'' then depth + 1
                       else if lx_peek l 0 = CHR ''}'' then depth - 1 else depth);
             interp' = \<not> (lx_peek l 0 = CHR ''}'' \<and> depth' = 0)
         in read_template_loop depth' interp' (v @ [lx_peek l 0]) (lx_skip l))
      else read_template_loop depth interp (v @ [lx_peek l 0]) (lx_skip l))"
  by pat_completeness auto
termination
  by (relation "measure (\<lambda>(d, i, v, l). lx_left l)")
    (auto simp: lx_left_skip intro: le_less_trans [OF lx_left_skip_le lx_left_skip])

declare read_template_loop.simps [simp del]

definition unclosed_template :: "nat \<Rightarrow> nat \<Rightarrow> string \<Rightarrow> Diagnostic" where
  "unclosed_template ln col file =
     with_hint ''add closing '`' to terminate the template literal''
       (with_code ''E0001'' (diagnostic_new ''Unclosed template literal'' ln col file))"

definition read_template_string :: "lexer \<Rightarrow> Token \<times> lexer" where
  "read_template_string l =
     (let sl = lx_line l; sc = lx_column l;
          (v, l') = read_template_loop 0 False [] (lx_skip l);
          l'' = (if \<not> lx_at_end l' \<and> lx_peek l' 0 = CHR ''`'' then lx_skip l'
                 else lx_error (unclosed_template sl sc (lx_filename l')) l')
      in (new_token TkTemplateString v sl sc, l''))"

section \<open>Symbols\<close>

text \<open>
  The symbol whose first character is \<open>c\<close>, the character at the position: its type and the
  state after the advances the branches make (the last character is consumed by the caller).
  No value for a character that starts no symbol.
\<close>

definition symbol_pair :: "lexer \<Rightarrow> char \<Rightarrow> TokenType \<Rightarrow> TokenType \<Rightarrow> (TokenType \<times> lexer) option" where
  "symbol_pair l d two one = (if lx_peek l 1 = d then Some (two, lx_skip l) else Some (one, l))"

definition symbol_pair2 ::
  "lexer \<Rightarrow> char \<Rightarrow> TokenType \<Rightarrow> char \<Rightarrow> TokenType \<Rightarrow> TokenType \<Rightarrow> (TokenType \<times> lexer) option" where
  "symbol_pair2 l d1 t1 d2 t2 one =
     (if lx_peek l 1 = d1 then Some (t1, lx_skip l)
      else if lx_peek l 1 = d2 then Some (t2, lx_skip l) else Some (one, l))"

definition symbol_shift :: "lexer \<Rightarrow> char \<Rightarrow> TokenType \<Rightarrow> TokenType \<Rightarrow> TokenType \<Rightarrow> TokenType \<Rightarrow>
    (TokenType \<times> lexer) option" where
  "symbol_shift l c one eq twice twice_eq =
     (if lx_peek l 1 = CHR ''='' then Some (eq, lx_skip l)
      else if lx_peek l 1 = c
      then (let l' = lx_skip l in
            if lx_peek l' 1 = CHR ''='' then Some (twice_eq, lx_skip l') else Some (twice, l'))
      else Some (one, l))"

definition lex_symbol :: "lexer \<Rightarrow> char \<Rightarrow> (TokenType \<times> lexer) option" where
  "lex_symbol l c =
     (if c = CHR ''+'' then symbol_pair2 l (CHR ''='') TkPlusEquals (CHR ''+'') TkPlusPlus TkPlus
      else if c = CHR ''-'' then symbol_pair2 l (CHR ''='') TkMinusEquals (CHR ''-'') TkMinusMinus TkMinus
      else if c = CHR ''*'' then symbol_pair l (CHR ''='') TkStarEquals TkStar
      else if c = CHR ''/'' then symbol_pair l (CHR ''='') TkSlashEquals TkSlash
      else if c = CHR ''%'' then symbol_pair l (CHR ''='') TkModuloEquals TkModulo
      else if c = CHR ''='' then symbol_pair2 l (CHR ''='') TkEqualEqual (CHR ''>'') TkArrow TkEquals
      else if c = CHR ''!'' then symbol_pair l (CHR ''='') TkBangEqual TkBang
      else if c = CHR ''<'' then symbol_shift l c TkLess TkLessEqual TkLessLess TkLessLessEquals
      else if c = CHR ''>''
      then symbol_shift l c TkGreater TkGreaterEqual TkGreaterGreater TkGreaterGreaterEquals
      else if c = CHR ''.'' then
        (if lx_peek l 1 = CHR ''.'' \<and> lx_peek l 2 = CHR ''.''
         then Some (TkEllipsis, lx_skip (lx_skip l)) else Some (TkDot, l))
      else if c = CHR ''('' then Some (TkOpenParen, l)
      else if c = CHR '')'' then Some (TkCloseParen, l)
      else if c = CHR ''{'' then Some (TkOpenBrace, l)
      else if c = CHR ''}'' then Some (TkCloseBrace, l)
      else if c = CHR ''['' then Some (TkOpenBracket, l)
      else if c = CHR '']'' then Some (TkCloseBracket, l)
      else if c = CHR '':'' then symbol_pair l (CHR '':'') TkDoubleColon TkColon
      else if c = CHR '';'' then Some (TkSemicolon, l)
      else if c = CHR '','' then Some (TkComma, l)
      else if c = CHR ''?'' then symbol_pair2 l (CHR ''.'') TkQuestionDot (CHR ''?'') TkQuestionQuestion TkQuestion
      else if c = CHR ''&'' then symbol_pair2 l (CHR ''&'') TkAmpersandAmpersand (CHR ''='') TkAmpersandEquals TkAmpersand
      else if c = CHR ''|'' then symbol_pair2 l (CHR ''|'') TkPipePipe (CHR ''='') TkPipeEquals TkPipe
      else if c = CHR ''^'' then symbol_pair l (CHR ''='') TkCaretEquals TkCaret
      else if c = CHR ''~'' then Some (TkTilde, l)
      else if c = CHR ''#'' then Some (TkHash, l)
      else None)"

text \<open>The text of a symbol: the table of the longer ones, else its first character.\<close>

definition symbol_table :: "(TokenType \<times> string) list" where
  "symbol_table =
     [(TkPlusEquals, ''+=''), (TkPlusPlus, ''++''), (TkMinusEquals, ''-=''), (TkMinusMinus, ''--''),
      (TkStarEquals, ''*=''), (TkSlashEquals, ''/=''), (TkModuloEquals, ''%=''),
      (TkAmpersandEquals, ''&=''), (TkPipeEquals, ''|=''), (TkCaretEquals, ''^=''),
      (TkLessLessEquals, ''<<=''), (TkGreaterGreaterEquals, ''>>=''), (TkArrow, ''=>''),
      (TkEqualEqual, ''==''), (TkBangEqual, ''!=''), (TkLessEqual, ''<=''),
      (TkGreaterEqual, ''>=''), (TkEllipsis, ''...''), (TkQuestionDot, ''?.''),
      (TkQuestionQuestion, ''??''), (TkAmpersandAmpersand, ''&&''), (TkPipePipe, ''||''),
      (TkLessLess, ''<<''), (TkGreaterGreater, ''>>''), (TkDoubleColon, ''::'')]"

definition symbol_value :: "TokenType \<Rightarrow> char \<Rightarrow> string" where
  "symbol_value ty c = (case map_of symbol_table ty of Some s \<Rightarrow> s | None \<Rightarrow> [c])"

definition unexpected_char :: "char \<Rightarrow> nat \<Rightarrow> nat \<Rightarrow> string \<Rightarrow> Diagnostic" where
  "unexpected_char c ln col file =
     with_hint ''Remove or replace the unsupported character''
       (with_code ''E0001''
         (diagnostic_new (''Unexpected character '' @ [quote_char, c, quote_char]) ln col file))"

section \<open>The main loop\<close>

text \<open>One round of \<open>tokenize\<close> at a character that is neither white space nor the end.\<close>

definition lex_one :: "lexer \<Rightarrow> Token option \<times> lexer" where
  "lex_one l =
     (let c = lx_peek l 0 in
      if is_ident_start c then apfst Some (read_identifier l)
      else if is_ascii_digit c then apfst Some (read_number l)
      else if c = CHR 0x22 \<or> c = quote_char then apfst Some (read_string c l)
      else if c = CHR ''`'' then apfst Some (read_template_string l)
      else case lex_symbol l c of
          Some (ty, l1) \<Rightarrow>
            (let l2 = lx_skip l1
             in (Some (new_token ty (symbol_value ty c) (lx_line l2) (lx_column l)), l2))
        | None \<Rightarrow>
            (None, lx_skip (lx_error (unexpected_char c (lx_line l) (lx_column l) (lx_filename l)) l)))"

section \<open>Progress of one round, and the main loop\<close>

lemma lx_le_read_string_loop: "lx_le l (snd (read_string_loop q sl sc esc v l))"
proof (induction q sl sc esc v l rule: read_string_loop.induct)
  case (1 q sl sc esc v l)
  then show ?case
    by (subst read_string_loop.simps) (auto simp: Let_def intro: lx_le_unskip)
qed

lemma lx_le_read_template_loop: "lx_le l (snd (read_template_loop d i v l))"
proof (induction d i v l rule: read_template_loop.induct)
  case (1 d i v l)
  note unskip2 = lx_le_unskip [OF lx_le_unskip]
  consider "lx_at_end l" | "\<not> lx_at_end l" "lx_peek l 0 = CHR ''`'' \<and> \<not> i"
    | "\<not> lx_at_end l" "lx_peek l 0 = CHR ''$'' \<and> lx_peek l 1 = CHR ''{'' \<and> \<not> i"
    | "\<not> lx_at_end l" "i"
    | "\<not> lx_at_end l" "\<not> i" "\<not> (lx_peek l 0 = CHR ''`'' \<and> \<not> i)"
      "\<not> (lx_peek l 0 = CHR ''$'' \<and> lx_peek l 1 = CHR ''{'' \<and> \<not> i)"
    by blast
  then show ?case
  proof cases
    case 3
    then show ?thesis
      using 1(1) by (subst read_template_loop.simps) (auto intro: unskip2)
  next
    case 4
    then show ?thesis
      using 1(2) by (subst read_template_loop.simps) (auto simp: Let_def intro: lx_le_unskip)
  next
    case 5
    then show ?thesis
      using 1(3) by (subst read_template_loop.simps) (auto intro: lx_le_unskip)
  qed (subst read_template_loop.simps, simp)+
qed

lemma lx_le_read_fraction: "lx_le l (snd (read_fraction l))"
  using lx_le_take [of "lx_skip l" is_ascii_digit]
  by (auto simp: read_fraction_def split: prod.splits intro: lx_le_unskip)

lemma lx_le_read_suffix: "lx_le l (snd (read_suffix l))"
  by (simp add: read_suffix_def lx_le_take)

lemma snd_read_identifier: "snd (read_identifier l) = snd (lx_take is_ident_char l)"
  by (simp add: read_identifier_def Let_def split: prod.splits)

lemma snd_read_number:
  "snd (read_number l) = snd (read_suffix (snd (read_fraction (snd (lx_take is_ascii_digit l)))))"
  by (simp add: read_number_def split: prod.splits)

lemma lx_le_read_number: "lx_le (snd (lx_take is_ascii_digit l)) (snd (read_number l))"
  unfolding snd_read_number by (rule lx_le_trans [OF lx_le_read_fraction lx_le_read_suffix])

lemma lx_le_read_string: "lx_le (lx_skip l) (snd (read_string q l))"
  using lx_le_read_string_loop [of "lx_skip l" q "lx_line l" "lx_column l" False "[]"]
  by (auto simp: read_string_def Let_def split: prod.splits intro: lx_le_intros)

lemma lx_le_read_template: "lx_le (lx_skip l) (snd (read_template_string l))"
  using lx_le_read_template_loop [of "lx_skip l" 0 False "[]"]
  by (auto simp: read_template_string_def Let_def split: prod.splits intro: lx_le_intros)

lemmas symbol_defs = symbol_pair_def symbol_pair2_def symbol_shift_def

text \<open>A property of every symbol \<open>lex_symbol\<close> can return, proved branch by branch.\<close>

definition symbol_all :: "(TokenType \<Rightarrow> lexer \<Rightarrow> bool) \<Rightarrow> (TokenType \<times> lexer) option \<Rightarrow> bool" where
  "symbol_all Q r \<longleftrightarrow> (\<forall>ty l'. r = Some (ty, l') \<longrightarrow> Q ty l')"

lemma symbol_all_if: "symbol_all Q a \<Longrightarrow> symbol_all Q b \<Longrightarrow> symbol_all Q (if c then a else b)"
  by simp

lemma symbol_all_None: "symbol_all Q None"
  by (simp add: symbol_all_def)

lemma symbol_all_Some: "Q ty l \<Longrightarrow> symbol_all Q (Some (ty, l))"
  by (simp add: symbol_all_def)

lemmas symbol_all_intros = symbol_all_if symbol_all_None symbol_all_Some

lemma lx_le_lex_symbol: "lex_symbol l c = Some (ty, l') \<Longrightarrow> lx_le l l'"
proof -
  have "symbol_all (\<lambda>ty. lx_le l) (lex_symbol l c)"
    unfolding lex_symbol_def symbol_defs Let_def
    by (intro symbol_all_intros) (simp_all add: lx_le_def)
  then show "lex_symbol l c = Some (ty, l') \<Longrightarrow> lx_le l l'"
    by (simp add: symbol_all_def)
qed

lemma lx_le_left_skip: "\<not> lx_at_end l \<Longrightarrow> lx_le (lx_skip l) l' \<Longrightarrow> lx_left l' < lx_left l"
  using lx_le_left lx_left_skip le_less_trans by blast

lemma lx_le_skip_mono: "lx_le a b \<Longrightarrow> lx_le (lx_skip a) (lx_skip b)"
  by (simp add: lx_le_def)

text \<open>Every round of the main loop consumes at least one character.\<close>

lemma lex_one_progress: "\<not> lx_at_end l \<Longrightarrow> lx_left (snd (lex_one l)) < lx_left l"
proof -
  assume l: "\<not> lx_at_end l"
  have ident: "is_ident_start (lx_peek l 0) \<Longrightarrow> lx_left (snd (read_identifier l)) < lx_left l"
    using l by (simp add: snd_read_identifier lx_take_progress ident_start_char)
  have num: "is_ascii_digit (lx_peek l 0) \<Longrightarrow> lx_left (snd (read_number l)) < lx_left l"
    using l lx_take_progress [of l is_ascii_digit] lx_le_left [OF lx_le_read_number [of l]] by simp
  have str: "lx_left (snd (read_string c l)) < lx_left l" for c
    by (rule lx_le_left_skip [OF l lx_le_read_string])
  have tmpl: "lx_left (snd (read_template_string l)) < lx_left l"
    by (rule lx_le_left_skip [OF l lx_le_read_template])
  have sym: "lex_symbol l c = Some (ty, l') \<Longrightarrow> lx_left (lx_skip l') < lx_left l" for c ty l'
    by (rule lx_le_left_skip [OF l lx_le_skip_mono [OF lx_le_lex_symbol]])
  have err: "lx_left (lx_skip (lx_error d l)) < lx_left l" for d
    using l by (simp add: lx_error_def lx_left_def lx_at_end_def)
  show ?thesis
    using ident num str tmpl sym err
    by (auto simp: lex_one_def Let_def split: option.splits)
qed

lemma lx_le_lex_one: "lx_le l (snd (lex_one l))"
proof -
  have ident: "lx_le l (snd (read_identifier l))"
    by (simp add: snd_read_identifier lx_le_take)
  have num: "lx_le l (snd (read_number l))"
    by (rule lx_le_trans [OF lx_le_take lx_le_read_number])
  have str: "lx_le l (snd (read_string c l))" for c
    by (rule lx_le_unskip [OF lx_le_read_string])
  have tmpl: "lx_le l (snd (read_template_string l))"
    by (rule lx_le_unskip [OF lx_le_read_template])
  have sym: "lex_symbol l c = Some (ty, l') \<Longrightarrow> lx_le l (lx_skip l')" for c ty l'
    by (rule lx_le_skipI [OF lx_le_lex_symbol])
  have err: "lx_le l (lx_skip (lx_error d l))" for d
    by (simp add: lx_le_skipI)
  show ?thesis
    using ident num str tmpl sym err
    by (auto simp: lex_one_def Let_def split: option.splits)
qed

text \<open>The loop of \<open>tokenize\<close>, and \<open>tokenize\<close> itself with the end-of-file token it appends.\<close>

function lex_loop :: "lexer \<Rightarrow> Token list \<times> lexer" where
  "lex_loop l =
     (if lx_at_end l then ([], l)
      else let l1 = skip_whitespace l in
        if lx_at_end l1 then ([], l1)
        else let (t, l2) = lex_one l1; (ts, l3) = lex_loop l2
             in (case t of Some t \<Rightarrow> t # ts | None \<Rightarrow> ts, l3))"
  by pat_completeness auto
termination
proof (relation "measure lx_left", goal_cases)
  case (2 l l1 x t l2)
  then have "lx_left l2 < lx_left l1" using lex_one_progress [of l1] by (metis snd_conv)
  moreover have "lx_left l1 \<le> lx_left l" using 2 lx_le_left [OF lx_le_skip_whitespace] by simp
  ultimately show ?case by simp
qed simp

declare lex_loop.simps [simp del]

definition tokenize :: "lexer \<Rightarrow> Token list \<times> lexer" where
  "tokenize l =
     (let (ts, l') = lex_loop l
      in (ts @ [new_token TkEndOfFile [] (lx_line l') (lx_column l')], l'))"

text \<open>The lexer run on a source, with its tokens and its diagnostics.\<close>

definition lex_source :: "string \<Rightarrow> string \<Rightarrow> Token list \<times> Diagnostic list" where
  "lex_source src file = (let (ts, l) = tokenize (lexer_new src file) in (ts, lx_errors l))"

end
