(* ===== verification/LexerFacts.thy ===== *)
theory LexerFacts
  imports Lexer
begin

text \<open>
  Correctness of the lexer: the shape of the token list, the weight the parser's fuel is
  counted in, the source locations of tokens, and the round trip of printed lexemes.
\<close>

section \<open>The token list ends in one end-of-file token\<close>

definition is_eof :: "Token \<Rightarrow> bool" where
  "is_eof t \<longleftrightarrow> token_type t = TkEndOfFile"

text \<open>A token list as the parser needs it: one end-of-file token, at the end.\<close>

definition eof_terminated :: "Token list \<Rightarrow> bool" where
  "eof_terminated ts \<longleftrightarrow> (\<exists>us t. ts = us @ [t] \<and> is_eof t \<and> (\<forall>u \<in> set us. \<not> is_eof u))"

lemma keyword_not_eof: "map_of keyword_table s = Some t \<Longrightarrow> t \<noteq> TkEndOfFile"
  by (drule map_of_SomeD) (auto simp: keyword_table_def)

lemma symbol_not_eof: "lex_symbol l c = Some (ty, l') \<Longrightarrow> ty \<noteq> TkEndOfFile \<and> ty \<noteq> TkTemplateString"
proof -
  have "symbol_all (\<lambda>ty _. ty \<noteq> TkEndOfFile \<and> ty \<noteq> TkTemplateString) (lex_symbol l c)"
    unfolding lex_symbol_def symbol_defs Let_def
    by (intro symbol_all_intros) simp_all
  then show "lex_symbol l c = Some (ty, l') \<Longrightarrow> ty \<noteq> TkEndOfFile \<and> ty \<noteq> TkTemplateString"
    by (simp add: symbol_all_def)
qed

lemma token_type_identifier:
  "token_type (fst (read_identifier l)) \<noteq> TkEndOfFile \<and>
   token_type (fst (read_identifier l)) \<noteq> TkTemplateString"
  by (auto simp: read_identifier_def keyword_table_def Let_def split: prod.splits option.splits if_splits)

lemma token_type_read:
  "token_type (fst (read_number l)) = TkNumber"
  "token_type (fst (read_string q l)) = TkString"
  "token_type (fst (read_template_string l)) = TkTemplateString"
  by (auto simp: read_number_def read_string_def read_template_string_def Let_def split: prod.splits)

lemma lex_one_not_eof: "lex_one l = (Some t, l') \<Longrightarrow> \<not> is_eof t"
  using token_type_identifier [of l] token_type_read(1,3) [of l] token_type_read(2) [of "CHR 0x22" l]
    token_type_read(2) [of quote_char l]
  by (auto simp: lex_one_def Let_def is_eof_def apfst_def map_prod_def
      split: if_splits option.splits prod.splits dest: symbol_not_eof)

lemma lex_loop_not_eof: "t \<in> set (fst (lex_loop l)) \<Longrightarrow> \<not> is_eof t"
proof (induction l rule: lex_loop.induct)
  case (1 l)
  from 1(2) show ?case
    by (subst (asm) lex_loop.simps)
      (auto simp: Let_def dest: lex_one_not_eof 1(1) [OF _ refl] split: if_splits prod.splits option.splits)
qed

section \<open>The weight of a token\<close>

text \<open>
  A template literal weighs as much as its text, because the parser lexes and parses parts of
  that text again; every other token but the end of file weighs one. A source never yields
  more weight than it has characters.
\<close>

definition tok_weight :: "Token \<Rightarrow> nat" where
  "tok_weight t =
     (if is_eof t then 0
      else if token_type t = TkTemplateString then Suc (length (tok_value t)) else 1)"

lemma template_loop_length:
  "length (fst (read_template_loop d i v l)) + lx_left (snd (read_template_loop d i v l))
     \<le> length v + lx_left l"
proof (induction d i v l rule: read_template_loop.induct)
  case (1 d i v l)
  have s: "\<not> lx_at_end l \<Longrightarrow> lx_left l = Suc (lx_left (lx_skip l))"
    by (auto simp: lx_left_def lx_at_end_def)
  have s2: "\<not> lx_at_end l \<Longrightarrow> lx_peek l 1 = CHR ''{'' \<Longrightarrow>
      lx_left l = Suc (Suc (lx_left (lx_skip (lx_skip l))))"
    by (auto simp: lx_left_def lx_at_end_def lx_peek_def split: if_splits)
  consider "lx_at_end l" | "\<not> lx_at_end l" "lx_peek l 0 = CHR ''`'' \<and> \<not> i"
    | "\<not> lx_at_end l" "lx_peek l 0 = CHR ''$'' \<and> lx_peek l 1 = CHR ''{'' \<and> \<not> i"
    | "\<not> lx_at_end l" "i"
    | "\<not> lx_at_end l" "\<not> i" "\<not> (lx_peek l 0 = CHR ''`'' \<and> \<not> i)"
      "\<not> (lx_peek l 0 = CHR ''$'' \<and> lx_peek l 1 = CHR ''{'' \<and> \<not> i)"
    by blast
  then show ?case
  proof cases
    case 3
    then show ?thesis using 1(1) s2 by (subst (1 2) read_template_loop.simps) simp
  next
    case 4
    then show ?thesis using 1(2) s
      by (subst (1 2) read_template_loop.simps) (simp add: Let_def)
  next
    case 5
    then show ?thesis using 1(3) s by (subst (1 2) read_template_loop.simps) auto
  qed (subst (1 2) read_template_loop.simps, simp)+
qed

lemma read_template_weight:
  "\<not> lx_at_end l \<Longrightarrow>
     tok_weight (fst (read_template_string l)) + lx_left (snd (read_template_string l)) \<le> lx_left l"
  using template_loop_length [of 0 False "[]" "lx_skip l"]
  by (auto simp: read_template_string_def Let_def tok_weight_def is_eof_def lx_left_def lx_at_end_def
      lx_error_def split: prod.splits)

lemma lex_one_weight:
  assumes "\<not> lx_at_end l"
  shows "(case fst (lex_one l) of None \<Rightarrow> 0 | Some t \<Rightarrow> tok_weight t) + lx_left (snd (lex_one l))
     \<le> lx_left l"
proof (cases "fst (lex_one l)")
  case None
  then show ?thesis using lex_one_progress [OF assms] by simp
next
  case (Some t)
  show ?thesis
  proof (cases "token_type t = TkTemplateString")
    case True
    with Some have "lex_one l = apfst Some (read_template_string l)"
      using token_type_identifier [of l] token_type_read(1,3) [of l] token_type_read(2) [of "CHR 0x22" l]
    token_type_read(2) [of quote_char l]
      by (auto simp: lex_one_def Let_def dest: symbol_not_eof split: if_splits option.splits prod.splits)
    with Some read_template_weight [OF assms] show ?thesis by auto
  next
    case False
    then show ?thesis
      using Some lex_one_progress [OF assms] by (auto simp: tok_weight_def)
  qed
qed

lemma lex_loop_weight:
  "sum_list (map tok_weight (fst (lex_loop l))) + lx_left (snd (lex_loop l)) \<le> lx_left l"
proof (induction l rule: lex_loop.induct)
  case (1 l)
  define l1 where "l1 = skip_whitespace l"
  have le: "lx_left l1 \<le> lx_left l"
    by (simp add: l1_def lx_le_left lx_le_skip_whitespace)
  show ?case
  proof (cases "lx_at_end l \<or> lx_at_end l1")
    case True
    with le show ?thesis by (subst (1 2) lex_loop.simps) (auto simp: l1_def)
  next
    case False
    obtain t l2 where t: "lex_one l1 = (t, l2)" by (cases "lex_one l1")
    obtain ts l3 where ts: "lex_loop l2 = (ts, l3)" by (cases "lex_loop l2")
    have "sum_list (map tok_weight ts) + lx_left l3 \<le> lx_left l2"
      using 1 [OF _ l1_def _ t [symmetric] refl] False t ts by simp
    moreover have "lex_loop l = (case t of Some t \<Rightarrow> t # ts | None \<Rightarrow> ts, l3)"
      using False t ts by (subst lex_loop.simps) (simp add: l1_def [symmetric])
    ultimately show ?thesis
      using lex_one_weight [of l1] False t le by (auto split: option.splits)
  qed
qed

text \<open>
  Property C11: the lexer returns a list with exactly one end-of-file token, at its end, whose
  weight is at most the number of characters of the source.
\<close>

theorem lex_source_shape:
  "eof_terminated (fst (lex_source src file)) \<and>
   sum_list (map tok_weight (fst (lex_source src file))) \<le> length src"
  using lex_loop_not_eof [of _ "lexer_new src file"] lex_loop_weight [of "lexer_new src file"]
  by (auto simp: lex_source_def tokenize_def eof_terminated_def is_eof_def tok_weight_def
      lexer_new_def lx_left_def split: prod.splits)

section \<open>Source locations\<close>

text \<open>Line and column of an offset: both count from one, a newline starts a new line.\<close>

definition loc_step :: "nat \<times> nat \<Rightarrow> char \<Rightarrow> nat \<times> nat" where
  "loc_step lc c = (if c = newline then (fst lc + 1, 1) else (fst lc, snd lc + 1))"

definition location :: "string \<Rightarrow> nat \<Rightarrow> nat \<times> nat" where
  "location src p = foldl loc_step (1, 1) (take p src)"

definition lx_located :: "lexer \<Rightarrow> bool" where
  "lx_located l \<longleftrightarrow> lx_position l \<le> length (lx_source l) \<and>
     (lx_line l, lx_column l) = location (lx_source l) (lx_position l)"

lemma lx_located_new [simp]: "lx_located (lexer_new src file)"
  by (simp add: lx_located_def lexer_new_def location_def)

lemma lx_peek_0: "\<not> lx_at_end l \<Longrightarrow> lx_peek l 0 = lx_source l ! lx_position l"
  by (simp add: lx_peek_def lx_at_end_def)

lemma lx_peek_in_range: "lx_peek l k \<noteq> CHR 0x00 \<Longrightarrow> lx_position l + k < length (lx_source l)"
  by (simp add: lx_peek_def split: if_splits)

lemma lx_skip_located: "lx_located l \<Longrightarrow> \<not> lx_at_end l \<Longrightarrow> lx_located (lx_skip l)"
proof -
  assume l: "lx_located l" "\<not> lx_at_end l"
  have "location (lx_source l) (Suc (lx_position l))
      = loc_step (location (lx_source l) (lx_position l)) (lx_source l ! lx_position l)"
    using l(2) by (simp add: location_def lx_at_end_def take_Suc_conv_app_nth)
  then show ?thesis
    using l by (auto simp: lx_located_def lx_advance_def lx_peek_0 loc_step_def Let_def lx_at_end_def
        simp flip: l(1) [unfolded lx_located_def, THEN conjunct2])
qed

lemma lx_error_located [simp]: "lx_located (lx_error d l) = lx_located l"
  by (simp add: lx_located_def lx_error_def)

lemma lx_at_end_error [simp]: "lx_at_end (lx_error d l) = lx_at_end l"
  by (simp add: lx_at_end_def lx_error_def)

lemma lx_at_end_skip: "lx_peek l 1 \<noteq> CHR 0x00 \<Longrightarrow> \<not> lx_at_end (lx_skip l)"
  using lx_peek_in_range [of l 1] by (simp add: lx_at_end_def)

lemma lx_at_end_skip_Suc: "lx_peek l (Suc 0) = c \<Longrightarrow> c \<noteq> CHR 0x00 \<Longrightarrow> \<not> lx_at_end (lx_skip l)"
  using lx_at_end_skip [of l] by simp

lemma lx_at_end_skip2: "lx_peek l 2 \<noteq> CHR 0x00 \<Longrightarrow> \<not> lx_at_end (lx_skip (lx_skip l))"
  using lx_peek_in_range [of l 2] by (simp add: lx_at_end_def)

lemma lx_peek_skip: "lx_peek (lx_skip l) k = lx_peek l (Suc k)"
  by (simp add: lx_peek_def)

lemma lx_skip_line: "lx_peek l 0 \<noteq> newline \<Longrightarrow> lx_line (lx_skip l) = lx_line l"
  by (simp add: lx_advance_def Let_def)

text \<open>\<open>lx_take\<close> reads exactly the longest run of characters that satisfy the predicate.\<close>

lemma lx_take_run:
  "fst (lx_take P l) = takeWhile P (drop (lx_position l) (lx_source l))"
  "lx_position (snd (lx_take P l)) = lx_position l + length (fst (lx_take P l))"
  "lx_located l \<Longrightarrow> lx_located (snd (lx_take P l))"
  "\<not> P newline \<Longrightarrow> lx_line (snd (lx_take P l)) = lx_line l"
  "lx_errors (snd (lx_take P l)) = lx_errors l"
proof (induction P l rule: lx_take.induct)
  case (1 P l)
  have d: "\<not> lx_at_end l \<Longrightarrow>
      drop (lx_position l) (lx_source l) = lx_peek l 0 # drop (Suc (lx_position l)) (lx_source l)"
    by (simp add: lx_at_end_def lx_peek_0 Cons_nth_drop_Suc)
  have e: "lx_at_end l \<Longrightarrow> drop (lx_position l) (lx_source l) = []"
    by (simp add: lx_at_end_def)
  { case 1 show ?case
      using "1.IH"(1) d e by (subst lx_take.simps) (cases "lx_at_end l"; auto simp: Let_def split: prod.splits) }
  { case 2 show ?case
      using "1.IH"(2) by (subst (1 2) lx_take.simps) (auto simp: Let_def split: prod.splits) }
  { case 3 then show ?case
      using "1.IH"(3) by (subst lx_take.simps) (auto simp: Let_def lx_skip_located split: prod.splits) }
  { case 4
    then have "P (lx_peek l 0) \<Longrightarrow> lx_line (lx_skip l) = lx_line l" by (metis lx_skip_line)
    with 4 show ?case
      using "1.IH"(4) by (subst lx_take.simps)
        (auto simp: Let_def lx_skip_line split: prod.splits) }
  { case 5 then show ?case
      using "1.IH"(5) by (subst lx_take.simps) (auto simp: Let_def split: prod.splits) }
qed

lemma lx_block_comment_located: "lx_located l \<Longrightarrow> lx_located (snd (lx_block_comment l))"
proof (induction l rule: lx_block_comment.induct)
  case (1 l)
  then show ?case
    by (subst lx_block_comment.simps) (auto simp: lx_skip_located dest: lx_at_end_skip_Suc)
qed

lemma lx_skip_block_located:
  assumes "lx_located l" "\<not> lx_at_end l" "lx_peek l 1 = CHR ''*''"
  shows "lx_located (lx_skip_block l)"
proof -
  have "\<not> lx_at_end (lx_skip l)" by (rule lx_at_end_skip) (use assms in simp)
  with assms lx_block_comment_located [of "lx_skip (lx_skip l)"] show ?thesis
    by (auto simp: lx_skip_block_def lx_skip_located split: prod.splits)
qed

lemma skip_whitespace_located: "lx_located l \<Longrightarrow> lx_located (skip_whitespace l)"
proof (induction l rule: skip_whitespace.induct)
  case (1 l)
  show ?case
    using 1 by (subst skip_whitespace.simps)
      (auto simp: Let_def lx_skip_located lx_take_run(3) lx_skip_block_located)
qed

lemma read_string_loop_located: "lx_located l \<Longrightarrow> lx_located (snd (read_string_loop q sl sc e v l))"
proof (induction q sl sc e v l rule: read_string_loop.induct)
  case (1 q sl sc esc v l)
  then show ?case
    by (subst read_string_loop.simps) (auto simp: Let_def lx_skip_located)
qed

lemma read_template_loop_located: "lx_located l \<Longrightarrow> lx_located (snd (read_template_loop d i v l))"
proof (induction d i v l rule: read_template_loop.induct)
  case (1 d i v l)
  have e: "lx_peek l 1 = CHR ''{'' \<Longrightarrow> \<not> lx_at_end (lx_skip l)" by (rule lx_at_end_skip) simp
  consider "lx_at_end l" | "\<not> lx_at_end l" "lx_peek l 0 = CHR ''`'' \<and> \<not> i"
    | "\<not> lx_at_end l" "lx_peek l 0 = CHR ''$'' \<and> lx_peek l 1 = CHR ''{'' \<and> \<not> i"
    | "\<not> lx_at_end l" "i"
    | "\<not> lx_at_end l" "\<not> i" "\<not> (lx_peek l 0 = CHR ''`'' \<and> \<not> i)"
      "\<not> (lx_peek l 0 = CHR ''$'' \<and> lx_peek l 1 = CHR ''{'' \<and> \<not> i)"
    by blast
  then show ?case
  proof cases
    case 3
    with e show ?thesis
      using 1 by (subst read_template_loop.simps) (auto simp: lx_skip_located)
  next
    case 4
    then show ?thesis using 1
      by (subst read_template_loop.simps) (auto simp: Let_def lx_skip_located)
  next
    case 5
    then show ?thesis using 1
      by (subst read_template_loop.simps) (auto simp: lx_skip_located)
  qed (use 1 in \<open>subst read_template_loop.simps, simp\<close>)+
qed

text \<open>
  \<open>token_at src t p\<close>: the token starts at offset \<open>p\<close>: its line and column are those of \<open>p\<close>, and
  but for the literals with escapes its text is what stands there.
\<close>

definition token_at :: "string \<Rightarrow> Token \<Rightarrow> nat \<Rightarrow> bool" where
  "token_at src t p \<longleftrightarrow> p \<le> length src \<and> (tok_line t, tok_column t) = location src p \<and>
     (token_type t \<noteq> TkString \<and> token_type t \<noteq> TkTemplateString \<longrightarrow>
        take (length (tok_value t)) (drop p src) = tok_value t)"

lemma take_length_takeWhile: "take (length (takeWhile P xs)) xs = takeWhile P xs"
  by (metis append_eq_conv_conj takeWhile_dropWhile_id)

lemma read_identifier_at:
  assumes "lx_located l"
  shows "token_at (lx_source l) (fst (read_identifier l)) (lx_position l) \<and>
    lx_located (snd (read_identifier l))"
proof -
  have nl: "\<not> is_ident_char newline" by (simp add: str_simps)
  show ?thesis
    using assms lx_take_run(1,4) [of is_ident_char l] lx_take_run(3) [of l is_ident_char] nl
    by (auto simp: read_identifier_def token_at_def lx_located_def Let_def take_length_takeWhile
        split: prod.splits)
qed

lemma token_at_append:
  assumes "take (length u) (drop p src) = u" "take (length v) (drop (p + length u) src) = v"
  shows "take (length (u @ v)) (drop p src) = u @ v"
proof -
  have "take (length (u @ v)) (drop p src)
      = take (length u) (drop p src) @ take (length v) (drop (length u) (drop p src))"
    by (simp add: take_add)
  with assms show ?thesis by (simp add: add.commute)
qed

lemma read_fraction_run:
  assumes "lx_located l"
  shows "take (length (fst (read_fraction l))) (drop (lx_position l) (lx_source l)) = fst (read_fraction l) \<and>
    lx_position (snd (read_fraction l)) = lx_position l + length (fst (read_fraction l)) \<and>
    lx_located (snd (read_fraction l)) \<and> lx_line (snd (read_fraction l)) = lx_line l \<and>
    lx_source (snd (read_fraction l)) = lx_source l"
proof (cases "lx_peek l 0 = CHR ''.'' \<and> is_ascii_digit (lx_peek l 1)")
  case True
  then have r: "lx_position l < length (lx_source l)" using lx_peek_in_range [of l 0] by simp
  have nl: "\<not> is_ascii_digit newline" by (simp add: str_simps)
  have "drop (lx_position l) (lx_source l) = CHR ''.'' # drop (Suc (lx_position l)) (lx_source l)"
    using r True by (simp add: Cons_nth_drop_Suc [symmetric] lx_peek_def split: if_splits)
  moreover have "lx_source (snd (lx_take is_ascii_digit (lx_skip l))) = lx_source l"
    using lx_le_take [of "lx_skip l" is_ascii_digit] by (simp add: lx_le_def)
  ultimately show ?thesis
    using True assms r nl lx_take_run(1,2,4) [of is_ascii_digit "lx_skip l"]
      lx_take_run(3) [of "lx_skip l" is_ascii_digit] lx_skip_located [of l] lx_skip_line [of l]
    by (auto simp: read_fraction_def lx_at_end_def take_length_takeWhile split: prod.splits)
qed (use assms in \<open>auto simp: read_fraction_def\<close>)

lemma read_suffix_run:
  assumes "lx_located l"
  shows "take (length (fst (read_suffix l))) (drop (lx_position l) (lx_source l)) = fst (read_suffix l) \<and>
    lx_located (snd (read_suffix l)) \<and> lx_line (snd (read_suffix l)) = lx_line l"
proof -
  have nl: "\<not> is_ident_char newline" by (simp add: str_simps)
  show ?thesis
    using assms nl lx_take_run(1,4) [of is_ident_char l] lx_take_run(3) [of l is_ident_char]
    by (auto simp: read_suffix_def take_length_takeWhile)
qed

lemma read_number_at:
  assumes "lx_located l"
  shows "token_at (lx_source l) (fst (read_number l)) (lx_position l) \<and>
    lx_located (snd (read_number l))"
proof -
  obtain ip l1 where 1: "lx_take is_ascii_digit l = (ip, l1)" by fastforce
  obtain fp l2 where 2: "read_fraction l1 = (fp, l2)" by fastforce
  obtain sfx l3 where 3: "read_suffix l2 = (sfx, l3)" by fastforce
  have nl: "\<not> is_ascii_digit newline" by (simp add: str_simps)
  have l1: "lx_located l1" "lx_source l1 = lx_source l" "lx_line l1 = lx_line l"
    "lx_position l1 = lx_position l + length ip"
    "take (length ip) (drop (lx_position l) (lx_source l)) = ip"
    using 1 assms nl lx_take_run(1,2,4) [of is_ascii_digit l] lx_take_run(3) [of l is_ascii_digit]
      lx_le_take [of l is_ascii_digit]
    by (auto simp: lx_le_def take_length_takeWhile)
  note f = read_fraction_run [OF l1(1), unfolded 2 fst_conv snd_conv]
  note g = read_suffix_run [of l2, unfolded 3 fst_conv snd_conv]
  have "take (length (ip @ fp @ sfx)) (drop (lx_position l) (lx_source l)) = ip @ fp @ sfx"
    using l1 f g by (intro token_at_append) auto
  then show ?thesis
    using assms f g l1 by (auto simp: read_number_def 1 2 3 token_at_def lx_located_def)
qed

lemma read_string_at:
  assumes "lx_located l" "\<not> lx_at_end l"
  shows "token_at (lx_source l) (fst (read_string q l)) (lx_position l) \<and>
    lx_located (snd (read_string q l))"
  using assms read_string_loop_located [of "lx_skip l" q "lx_line l" "lx_column l" False "[]"]
  by (auto simp: read_string_def Let_def token_at_def lx_located_def [of l] lx_skip_located
      split: prod.splits)

lemma read_template_at:
  assumes "lx_located l" "\<not> lx_at_end l"
  shows "token_at (lx_source l) (fst (read_template_string l)) (lx_position l) \<and>
    lx_located (snd (read_template_string l))"
  using assms read_template_loop_located [of "lx_skip l" 0 False "[]"]
  by (auto simp: read_template_string_def Let_def token_at_def lx_located_def [of l] lx_skip_located
      split: prod.splits)

text \<open>The text of a symbol is what stands at its position, and has no line break.\<close>

definition symbol_text :: "lexer \<Rightarrow> char \<Rightarrow> TokenType \<Rightarrow> lexer \<Rightarrow> bool" where
  "symbol_text l c ty l' \<longleftrightarrow> c \<noteq> newline \<and>
     (l' = l \<and> symbol_value ty c = [c] \<or>
      l' = lx_skip l \<and> symbol_value ty c = [c, lx_peek l 1] \<and> lx_peek l 1 \<notin> {CHR 0x00, newline} \<or>
      l' = lx_skip (lx_skip l) \<and> symbol_value ty c = [c, lx_peek l 1, lx_peek l 2] \<and>
        lx_peek l 1 \<notin> {CHR 0x00, newline} \<and> lx_peek l 2 \<notin> {CHR 0x00, newline})"

lemma symbol_all_ifc: "(c \<Longrightarrow> symbol_all Q a) \<Longrightarrow> (\<not> c \<Longrightarrow> symbol_all Q b) \<Longrightarrow> symbol_all Q (if c then a else b)"
  by simp

lemma lex_symbol_text: "lex_symbol l c = Some (ty, l') \<Longrightarrow> symbol_text l c ty l'"
proof -
  have "symbol_all (symbol_text l c) (lex_symbol l c)"
    unfolding lex_symbol_def symbol_defs Let_def
    by (intro symbol_all_ifc symbol_all_None symbol_all_Some)
      (simp_all add: symbol_text_def symbol_value_def symbol_table_def lx_peek_skip numeral_2_eq_2 str_simps)
  then show "lex_symbol l c = Some (ty, l') \<Longrightarrow> symbol_text l c ty l'"
    by (simp add: symbol_all_def)
qed

lemma lx_peek_drop: "lx_position l + k < length (lx_source l) \<Longrightarrow>
    drop (lx_position l + k) (lx_source l) = lx_peek l k # drop (Suc (lx_position l + k)) (lx_source l)"
  by (simp add: lx_peek_def Cons_nth_drop_Suc)

lemma lex_symbol_at:
  assumes l: "lx_located l" "\<not> lx_at_end l" and c: "c = lx_peek l 0"
    and s: "lex_symbol l c = Some (ty, l')"
  shows "token_at (lx_source l) (new_token ty (symbol_value ty c) (lx_line (lx_skip l')) (lx_column l))
    (lx_position l) \<and> lx_located (lx_skip l')"
proof -
  have r0: "lx_position l < length (lx_source l)" using l by (simp add: lx_at_end_def)
  have d0: "drop (lx_position l) (lx_source l) = c # drop (Suc (lx_position l)) (lx_source l)"
    using r0 lx_peek_drop [of l 0] c by simp
  have d1: "lx_peek l 1 \<noteq> CHR 0x00 \<Longrightarrow> drop (Suc (lx_position l)) (lx_source l)
      = lx_peek l 1 # drop (Suc (Suc (lx_position l))) (lx_source l)"
    using lx_peek_drop [of l 1] lx_peek_in_range [of l 1] by simp
  have d2: "lx_peek l 2 \<noteq> CHR 0x00 \<Longrightarrow> drop (Suc (Suc (lx_position l))) (lx_source l)
      = lx_peek l 2 # drop (Suc (Suc (Suc (lx_position l)))) (lx_source l)"
    using lx_peek_drop [of l 2] lx_peek_in_range [of l 2] by simp
  have e1: "lx_peek l 1 \<noteq> CHR 0x00 \<Longrightarrow> lx_located (lx_skip (lx_skip l))"
    using l lx_skip_located lx_at_end_skip by blast
  have e2: "lx_peek l 1 \<noteq> CHR 0x00 \<Longrightarrow> lx_peek l 2 \<noteq> CHR 0x00 \<Longrightarrow>
      lx_located (lx_skip (lx_skip (lx_skip l)))"
    using e1 lx_skip_located lx_at_end_skip2 by blast
  have p: "(lx_line l, lx_column l) = location (lx_source l) (lx_position l)"
    using l by (simp add: lx_located_def)
  have n: "c \<noteq> newline \<Longrightarrow> lx_line (lx_skip l) = lx_line l" using c by (simp add: lx_skip_line)
  have n1: "c \<noteq> newline \<Longrightarrow> lx_peek l 1 \<noteq> newline \<Longrightarrow> lx_line (lx_skip (lx_skip l)) = lx_line l"
    using n lx_skip_line [of "lx_skip l"] by (simp add: lx_peek_skip)
  have n2: "c \<noteq> newline \<Longrightarrow> lx_peek l 1 \<noteq> newline \<Longrightarrow> lx_peek l 2 \<noteq> newline \<Longrightarrow>
      lx_line (lx_skip (lx_skip (lx_skip l))) = lx_line l"
    using n1 lx_skip_line [of "lx_skip (lx_skip l)"] by (simp add: lx_peek_skip numeral_2_eq_2)
  from lex_symbol_text [OF s] consider
      "c \<noteq> newline" "l' = l" "symbol_value ty c = [c]"
    | "c \<noteq> newline" "l' = lx_skip l" "symbol_value ty c = [c, lx_peek l 1]"
      "lx_peek l 1 \<noteq> CHR 0x00" "lx_peek l 1 \<noteq> newline"
    | "c \<noteq> newline" "l' = lx_skip (lx_skip l)" "symbol_value ty c = [c, lx_peek l 1, lx_peek l 2]"
      "lx_peek l 1 \<noteq> CHR 0x00" "lx_peek l 1 \<noteq> newline" "lx_peek l 2 \<noteq> CHR 0x00" "lx_peek l 2 \<noteq> newline"
    unfolding symbol_text_def by blast
  then show ?thesis
  proof cases
    case 1
    then show ?thesis using l r0 p n d0 lx_skip_located by (simp add: token_at_def)
  next
    case 2
    then show ?thesis using l r0 p n1 d0 d1 e1 by (simp add: token_at_def)
  next
    case 3
    then show ?thesis using l r0 p n2 d0 d1 d2 e2 by (simp add: token_at_def)
  qed
qed

lemma lex_one_at:
  assumes "lx_located l" "\<not> lx_at_end l"
  shows "pred_option (\<lambda>t. token_at (lx_source l) t (lx_position l)) (fst (lex_one l)) \<and>
    lx_located (snd (lex_one l))"
  using read_identifier_at [OF assms(1)] read_number_at [OF assms(1)] read_template_at [OF assms]
    read_string_at [OF assms] lex_symbol_at [OF assms refl] lx_skip_located [OF assms]
    lx_skip_located [of "lx_error d l" for d] assms
  by (auto simp: lex_one_def Let_def split: option.splits)

lemma lx_le_lex_loop: "lx_le l (snd (lex_loop l))"
proof (induction l rule: lex_loop.induct)
  case (1 l)
  have "lx_le l (skip_whitespace l)" by (rule lx_le_skip_whitespace)
  moreover have "lx_le (skip_whitespace l) (snd (lex_one (skip_whitespace l)))" by (rule lx_le_lex_one)
  ultimately show ?case
    using 1 by (subst lex_loop.simps) (auto simp: Let_def split: prod.splits intro: lx_le_trans)
qed

lemma lex_loop_at:
  "lx_located l \<Longrightarrow>
     lx_located (snd (lex_loop l)) \<and> lx_source (snd (lex_loop l)) = lx_source l \<and>
     (\<exists>ps. list_all2 (token_at (lx_source l)) (fst (lex_loop l)) ps \<and> sorted_wrt (<) ps \<and>
       (\<forall>p \<in> set ps. lx_position l \<le> p \<and> p < lx_position (snd (lex_loop l))))"
proof (induction l rule: lex_loop.induct)
  case (1 l)
  define l1 where "l1 = skip_whitespace l"
  have l1: "lx_located l1" "lx_source l1 = lx_source l" "lx_position l \<le> lx_position l1"
    using 1(2) lx_le_skip_whitespace [of l] skip_whitespace_located [of l]
    by (simp_all add: l1_def lx_le_def)
  show ?case
  proof (cases "lx_at_end l \<or> lx_at_end l1")
    case True
    then have "lex_loop l = ([], l) \<or> lex_loop l = ([], l1)"
      by (subst (1 2) lex_loop.simps) (auto simp: l1_def)
    with 1(2) l1 show ?thesis by auto
  next
    case False
    obtain t l2 where t: "lex_one l1 = (t, l2)" by (cases "lex_one l1")
    obtain ts l3 where ts: "lex_loop l2 = (ts, l3)" by (cases "lex_loop l2")
    have r: "lex_loop l = (case t of Some t \<Rightarrow> t # ts | None \<Rightarrow> ts, l3)"
      using False t ts by (subst lex_loop.simps) (simp add: l1_def [symmetric])
    have l2: "lx_located l2" "pred_option (\<lambda>t. token_at (lx_source l) t (lx_position l1)) t"
      "lx_source l2 = lx_source l"
      using lex_one_at [of l1] lx_le_lex_one [of l1] False t l1 by (auto simp: lx_le_def)
    have p: "lx_position l1 < lx_position l2"
      using lex_one_progress [of l1] False t l1 l2 by (simp add: lx_left_def)
    obtain ps where ps: "list_all2 (token_at (lx_source l)) ts ps" "sorted_wrt (<) ps"
      "\<forall>p \<in> set ps. lx_position l2 \<le> p \<and> p < lx_position l3"
      and l3: "lx_located l3" "lx_source l3 = lx_source l"
      using 1(1) [OF _ l1_def _ t [symmetric] refl l2(1)] False l2(3) unfolding ts by auto
    have q: "lx_position l2 \<le> lx_position l3"
      using lx_le_lex_loop [of l2] ts by (simp add: lx_le_def)
    show ?thesis
    proof (cases t)
      case None
      have "\<forall>p \<in> set ps. lx_position l \<le> p \<and> p < lx_position l3" using ps(3) p l1 by fastforce
      with None show ?thesis using r ps(1,2) l3 by auto
    next
      case (Some u)
      have "list_all2 (token_at (lx_source l)) (u # ts) (lx_position l1 # ps)" using Some l2 ps by simp
      moreover have "sorted_wrt (<) (lx_position l1 # ps)" using ps p by fastforce
      moreover have "\<forall>p \<in> set (lx_position l1 # ps). lx_position l \<le> p \<and> p < lx_position l3"
        using ps p q l1 by fastforce
      ultimately show ?thesis
        using l3 Some unfolding r by (intro conjI exI [of _ "lx_position l1 # ps"]) simp_all
    qed
  qed
qed

text \<open>
  Property C5: every token stands in the source where its line and column say: the positions of
  the tokens are strictly increasing offsets of the source, line and column are those of the
  offset, and the text of a token that is not a string or template literal is the text there.
\<close>

theorem lex_source_locations:
  "\<exists>ps. list_all2 (token_at src) (fst (lex_source src file)) ps \<and> sorted_wrt (<) ps"
proof -
  define l' where "l' = snd (lex_loop (lexer_new src file))"
  have s: "lx_source (lexer_new src file) = src" by (simp add: lexer_new_def)
  obtain ps where ps: "list_all2 (token_at src) (fst (lex_loop (lexer_new src file))) ps"
    "sorted_wrt (<) ps" "\<forall>p \<in> set ps. p < lx_position l'" and l': "lx_located l'" "lx_source l' = src"
    using lex_loop_at [OF lx_located_new [of src "file"]] unfolding s l'_def by auto
  have "token_at src (new_token TkEndOfFile [] (lx_line l') (lx_column l')) (lx_position l')"
    using l' by (simp add: token_at_def lx_located_def)
  with ps have "list_all2 (token_at src) (fst (lex_source src file)) (ps @ [lx_position l'])"
    by (auto simp: lex_source_def tokenize_def l'_def split: prod.splits intro!: list_all2_appendI)
  moreover have "sorted_wrt (<) (ps @ [lx_position l'])"
    using ps by (simp add: sorted_wrt_append)
  ultimately show ?thesis by blast
qed

end
