(* ===== verification/LexerRoundTrip.thy ===== *)
theory LexerRoundTrip
  imports LexerFacts
begin

text \<open>
  The lexer is a left inverse of printing: lexemes separated by single spaces are read back
  as the tokens they spell, in their order, with no diagnostic.
\<close>

section \<open>Lexing printed lexemes\<close>

text \<open>
  The lexemes that the lexer reads as one token and the type of each: words, numbers with
  fraction and suffix, and symbols.
\<close>

definition word_lexeme :: "string \<Rightarrow> bool" where
  "word_lexeme w \<longleftrightarrow> w \<noteq> [] \<and> is_ident_start (hd w) \<and> list_all is_ident_char w"

definition after_fraction :: "string \<Rightarrow> string" where
  "after_fraction r =
     (case r of a # b # r' \<Rightarrow> if a = CHR ''.'' \<and> is_ascii_digit b then dropWhile is_ascii_digit r' else r
      | _ \<Rightarrow> r)"

definition number_lexeme :: "string \<Rightarrow> bool" where
  "number_lexeme w \<longleftrightarrow> w \<noteq> [] \<and> is_ascii_digit (hd w) \<and>
     (let r = after_fraction (dropWhile is_ascii_digit w)
      in r = [] \<or> is_ident_start (hd r) \<and> list_all is_ident_char r)"

definition symbol_lexemes :: "(string \<times> TokenType) list" where
  "symbol_lexemes =
     map (\<lambda>(t, s). (s, t)) symbol_table @
     [(''+'', TkPlus), (''-'', TkMinus), (''*'', TkStar), (''/'', TkSlash), (''%'', TkModulo),
      (''='', TkEquals), (''!'', TkBang), (''<'', TkLess), (''>'', TkGreater), (''.'', TkDot),
      (''('', TkOpenParen), ('')'', TkCloseParen), (''{'', TkOpenBrace), (''}'', TkCloseBrace),
      (''['', TkOpenBracket), ('']'', TkCloseBracket), ('':'', TkColon), ('';'', TkSemicolon),
      ('','', TkComma), (''?'', TkQuestion), (''&'', TkAmpersand), (''|'', TkPipe),
      (''^'', TkCaret), (''~'', TkTilde), (''#'', TkHash)]"

definition lexeme_type :: "string \<Rightarrow> TokenType option" where
  "lexeme_type w =
     (if word_lexeme w then Some (case map_of keyword_table w of Some t \<Rightarrow> t | None \<Rightarrow> TkIdentifier)
      else if number_lexeme w then Some TkNumber
      else map_of symbol_lexemes w)"

text \<open>What follows a lexeme in the printed source: nothing, or a space.\<close>

definition spaced :: "string \<Rightarrow> bool" where
  "spaced rest \<longleftrightarrow> rest = [] \<or> hd rest = CHR '' ''"

lemma lx_peek_at:
  "drop (lx_position l) (lx_source l) = u \<Longrightarrow> lx_peek l k = (if k < length u then u ! k else CHR 0x00)"
  by (auto simp: lx_peek_def)

lemma takeWhile_spaced: "spaced rest \<Longrightarrow> \<not> P (CHR '' '') \<Longrightarrow> takeWhile P (u @ rest) = takeWhile P u"
  by (cases rest; induction u) (auto simp: spaced_def)

lemma takeWhile_list_all: "list_all P u \<Longrightarrow> takeWhile P u = u"
  by (simp add: list_all_iff)

text \<open>\<open>lexes l w t\<close>: one round of the loop reads the lexeme \<open>w\<close> as a token of type \<open>t\<close>.\<close>

definition lexes :: "lexer \<Rightarrow> string \<Rightarrow> TokenType \<Rightarrow> bool" where
  "lexes l w ty \<longleftrightarrow> (\<exists>t l'. lex_one l = (Some t, l') \<and> token_type t = ty \<and> tok_value t = w \<and>
     lx_position l' = lx_position l + length w \<and> lx_source l' = lx_source l \<and> lx_errors l' = lx_errors l)"

lemma lexes_word:
  assumes d: "drop (lx_position l) (lx_source l) = w @ rest" "spaced rest" and w: "word_lexeme w"
  shows "lexes l w (case map_of keyword_table w of Some t \<Rightarrow> t | None \<Rightarrow> TkIdentifier)"
proof -
  have sp: "\<not> is_ident_char (CHR '' '')" by (simp add: str_simps)
  have "is_ident_start (lx_peek l 0)"
    using w lx_peek_at [OF d(1), of 0] by (auto simp: word_lexeme_def nth_append hd_conv_nth)
  moreover have "fst (lx_take is_ident_char l) = w"
    using takeWhile_spaced [where P = is_ident_char, OF d(2) sp] w
    by (simp add: lx_take_run(1) d(1) word_lexeme_def takeWhile_list_all)
  ultimately show ?thesis
    using lx_take_run(2,5) [of is_ident_char l] lx_le_take [of l is_ident_char]
    by (auto simp: lexes_def lex_one_def read_identifier_def Let_def lx_le_def split: prod.splits)
qed

lemma lx_position_take:
  "drop (lx_position l) (lx_source l) = u @ v \<Longrightarrow> lx_position l' = lx_position l + length u \<Longrightarrow>
     lx_source l' = lx_source l \<Longrightarrow> drop (lx_position l') (lx_source l') = v"
  by (metis add.commute append_eq_conv_conj drop_drop)

lemma lx_take_spaced:
  assumes d: "drop (lx_position l) (lx_source l) = u @ rest" "spaced rest" and P: "\<not> P (CHR '' '')"
  obtains l' where "lx_take P l = (takeWhile P u, l')" "lx_position l' = lx_position l + length (takeWhile P u)"
    "lx_source l' = lx_source l" "lx_errors l' = lx_errors l"
    "drop (lx_position l') (lx_source l') = dropWhile P u @ rest"
proof -
  obtain s l' where l': "lx_take P l = (s, l')" by fastforce
  have s: "s = takeWhile P u" using lx_take_run(1) [of P l] takeWhile_spaced [where P = P and u = u, OF d(2) P] l' d(1) by simp
  have sel: "lx_position l' = lx_position l + length s" "lx_source l' = lx_source l" "lx_errors l' = lx_errors l"
    using lx_take_run(2,5) [of P l] lx_le_take [of l P] l' by (simp_all add: lx_le_def)
  have "drop (lx_position l) (lx_source l) = s @ (dropWhile P u @ rest)"
    by (simp add: d(1) s)
  from lx_position_take [OF this sel(1,2)] show ?thesis
    using that l' s sel by blast
qed

lemma read_fraction_spaced:
  assumes d: "drop (lx_position l) (lx_source l) = r @ rest" "spaced rest"
  obtains fp l' where "read_fraction l = (fp, l')" "r = fp @ after_fraction r"
    "lx_position l' = lx_position l + length fp" "lx_source l' = lx_source l" "lx_errors l' = lx_errors l"
    "drop (lx_position l') (lx_source l') = after_fraction r @ rest"
proof (cases "\<exists>b r'. r = CHR ''.'' # b # r' \<and> is_ascii_digit b")
  case True
  then obtain b r' where r: "r = CHR ''.'' # b # r'" "is_ascii_digit b" by blast
  have sp: "\<not> is_ascii_digit (CHR '' '')" by (simp add: str_simps)
  have "drop (lx_position (lx_skip l)) (lx_source (lx_skip l)) = (b # r') @ rest"
    using lx_position_take [of l "[CHR ''.'']" "(b # r') @ rest" "lx_skip l"] d(1) r(1) by simp
  from lx_take_spaced [where P = is_ascii_digit, OF this d(2) sp] obtain l' where
    l': "lx_take is_ascii_digit (lx_skip l) = (takeWhile is_ascii_digit (b # r'), l')"
    "lx_position l' = lx_position (lx_skip l) + length (takeWhile is_ascii_digit (b # r'))"
    "lx_source l' = lx_source (lx_skip l)" "lx_errors l' = lx_errors (lx_skip l)"
    "drop (lx_position l') (lx_source l') = dropWhile is_ascii_digit (b # r') @ rest" by blast
  have "lx_peek l 0 = CHR ''.''" "lx_peek l 1 = b"
    using d(1) r(1) by (auto simp: lx_peek_at [OF d(1)])
  with l' r that [of "CHR ''.'' # takeWhile is_ascii_digit (b # r')" l'] show ?thesis
    by (simp add: read_fraction_def after_fraction_def)
next
  case False
  have sp: "\<not> is_ascii_digit (CHR '' '')" "\<not> is_ascii_digit (CHR 0x00)" by (simp_all add: str_simps)
  have "after_fraction r = r"
    using False by (auto simp: after_fraction_def split: list.splits)
  moreover have "\<not> (lx_peek l 0 = CHR ''.'' \<and> is_ascii_digit (lx_peek l 1))"
  proof
    assume a: "lx_peek l 0 = CHR ''.'' \<and> is_ascii_digit (lx_peek l 1)"
    show False
    proof (cases r)
      case Nil
      with a d show ?thesis by (cases rest) (auto simp: lx_peek_at [OF d(1)] spaced_def)
    next
      case (Cons c r')
      with a False sp d show ?thesis
        by (cases r'; cases rest) (auto simp: lx_peek_at [OF d(1)] spaced_def split: if_splits)
    qed
  qed
  moreover from this have "read_fraction l = ([], l)" unfolding read_fraction_def by (rule if_not_P)
  ultimately show ?thesis using that [of "[]" l] d by simp
qed

lemma lexes_number:
  assumes d: "drop (lx_position l) (lx_source l) = w @ rest" "spaced rest" and w: "number_lexeme w"
  shows "lexes l w TkNumber"
proof -
  have sp: "\<not> is_ascii_digit (CHR '' '')" "\<not> is_ident_char (CHR '' '')" "\<not> is_ident_start (CHR '' '')"
    "\<not> is_ident_start (CHR 0x00)"
    by (simp_all add: str_simps)
  have c: "is_ascii_digit (lx_peek l 0)"
    using w lx_peek_at [OF d(1), of 0] by (auto simp: number_lexeme_def nth_append hd_conv_nth)
  obtain l1 where l1: "lx_take is_ascii_digit l = (takeWhile is_ascii_digit w, l1)"
    "lx_position l1 = lx_position l + length (takeWhile is_ascii_digit w)"
    "lx_source l1 = lx_source l" "lx_errors l1 = lx_errors l"
    "drop (lx_position l1) (lx_source l1) = dropWhile is_ascii_digit w @ rest"
    using lx_take_spaced [where P = is_ascii_digit, OF d sp(1)] by blast
  define r where "r = dropWhile is_ascii_digit w"
  obtain fp l2 where l2: "read_fraction l1 = (fp, l2)" "r = fp @ after_fraction r"
    "lx_position l2 = lx_position l1 + length fp" "lx_source l2 = lx_source l1" "lx_errors l2 = lx_errors l1"
    "drop (lx_position l2) (lx_source l2) = after_fraction r @ rest"
    using read_fraction_spaced [OF l1(5) d(2)] unfolding r_def by blast
  define s where "s = after_fraction r"
  have s: "s = [] \<or> is_ident_start (hd s) \<and> list_all is_ident_char s"
    using w by (simp add: number_lexeme_def Let_def s_def r_def)
  have ww: "w = takeWhile is_ascii_digit w @ fp @ s"
    using l2(2) takeWhile_dropWhile_id [of is_ascii_digit w] by (simp add: s_def r_def)
  obtain l3 where l3: "lx_take is_ident_char l2 = (takeWhile is_ident_char s, l3)"
    "lx_position l3 = lx_position l2 + length (takeWhile is_ident_char s)"
    "lx_source l3 = lx_source l2" "lx_errors l3 = lx_errors l2"
    using lx_take_spaced [where P = is_ident_char, OF l2(6) d(2) sp(2)] unfolding s_def by blast
  have "\<exists>l'. read_suffix l2 = (s, l') \<and> lx_position l' = lx_position l2 + length s \<and>
      lx_source l' = lx_source l2 \<and> lx_errors l' = lx_errors l2"
  proof (cases s)
    case Nil
    then have "lx_peek l2 0 = CHR 0x00 \<or> lx_peek l2 0 = CHR '' ''"
      using l2(6) d(2) by (cases rest) (auto simp: lx_peek_at [OF l2(6)] s_def spaced_def)
    with Nil sp show ?thesis by (auto simp: read_suffix_def)
  next
    case (Cons a s')
    then have "lx_peek l2 0 = a" by (simp add: lx_peek_at [OF l2(6)] flip: s_def)
    moreover have "\<not> lx_at_end l2" using l2(6) Cons by (auto simp: lx_at_end_def simp flip: s_def)
    ultimately show ?thesis using Cons s l3 by (auto simp: read_suffix_def takeWhile_list_all)
  qed
  then obtain l4 where l4: "read_suffix l2 = (s, l4)" "lx_position l4 = lx_position l2 + length s"
    "lx_source l4 = lx_source l2" "lx_errors l4 = lx_errors l2" by blast
  have "read_number l = (new_token TkNumber w (lx_line l4) (lx_column l), l4)"
    using ww by (simp add: read_number_def l1(1) l2(1) l4(1))
  moreover have "lx_position l4 = lx_position l + length w"
    by (subst ww) (simp add: l1(2) l2(3) l4(2))
  ultimately show ?thesis
    using c digit_not_ident_start [OF c] l1 l2 l4 by (auto simp: lexes_def lex_one_def)
qed

lemma lexes_symbol:
  assumes d: "drop (lx_position l) (lx_source l) = w @ rest" "spaced rest"
    and w: "(w, ty) \<in> set symbol_lexemes"
  shows "lexes l w ty"
proof -
  have n: "lx_peek l (length w) = CHR '' '' \<or> lx_peek l (length w) = CHR 0x00"
    using d(2) by (cases rest) (auto simp: lx_peek_at [OF d(1)] spaced_def)
  have p: "list_all (\<lambda>k. lx_peek l k = w ! k) [0..<length w]"
    by (simp add: list_all_iff lx_peek_at [OF d(1)] nth_append)
  show ?thesis
    using w n p unfolding symbol_lexemes_def symbol_table_def list.map append.simps list.set insert_iff empty_iff
      prod.inject prod.case simp_thms
    by (elim disjE conjE; hypsubst)
      (simp_all add: upt_rec lexes_def lex_one_def lex_symbol_def symbol_defs symbol_value_def symbol_table_def
        lx_peek_skip numeral_2_eq_2 str_simps Let_def)
qed

lemma lexes_lexeme:
  assumes d: "drop (lx_position l) (lx_source l) = w @ rest" "spaced rest"
    and w: "lexeme_type w = Some ty"
  shows "lexes l w ty"
proof (cases "word_lexeme w \<or> number_lexeme w")
  case True
  with w lexes_word [OF d] lexes_number [OF d] show ?thesis
    by (auto simp: lexeme_type_def split: if_splits)
next
  case False
  with w have "map_of symbol_lexemes w = Some ty" by (simp add: lexeme_type_def)
  then show ?thesis by (rule lexes_symbol [OF d map_of_SomeD])
qed

lemma lexeme_nonempty: "lexeme_type [] = None"
  by (simp add: lexeme_type_def word_lexeme_def number_lexeme_def symbol_lexemes_def symbol_table_def)

text \<open>A lexeme starts neither with white space nor with the opening of a comment.\<close>

lemma symbol_lexeme_start:
  "(w, ty) \<in> set symbol_lexemes \<Longrightarrow>
     hd w \<notin> {CHR '' '', CHR 0x0D, CHR 0x09, newline} \<and> (hd w = CHR ''/'' \<longrightarrow> w = ''/'' \<or> w = ''/='')"
  unfolding symbol_lexemes_def symbol_table_def list.map append.simps list.set insert_iff empty_iff
    prod.inject prod.case simp_thms
  by (elim disjE conjE; hypsubst) simp_all

lemma lexeme_start:
  assumes "lexeme_type w = Some ty"
  shows "hd w \<notin> {CHR '' '', CHR 0x0D, CHR 0x09, newline} \<and> (hd w = CHR ''/'' \<longrightarrow> w = ''/'' \<or> w = ''/='')"
proof (cases "word_lexeme w \<or> number_lexeme w")
  case True
  then have "is_ident_start (hd w) \<or> is_ascii_digit (hd w)"
    by (auto simp: word_lexeme_def number_lexeme_def)
  then show ?thesis by (auto simp: str_simps)
next
  case False
  with assms have "map_of symbol_lexemes w = Some ty" by (simp add: lexeme_type_def)
  then show ?thesis by (rule symbol_lexeme_start [OF map_of_SomeD])
qed

lemma skip_whitespace_lexeme:
  assumes d: "drop (lx_position l) (lx_source l) = w @ rest" "spaced rest" and w: "lexeme_type w = Some ty"
  shows "skip_whitespace l = l"
proof -
  have ne: "w \<noteq> []" using w lexeme_nonempty by auto
  have h: "lx_peek l 0 = hd w" using ne by (simp add: lx_peek_at [OF d(1)] nth_append hd_conv_nth)
  have s: "hd w = CHR ''/'' \<Longrightarrow> lx_peek l 1 \<notin> {CHR ''/'', CHR ''*''}"
    using lexeme_start [OF w] d(2) by (cases rest) (auto simp: lx_peek_at [OF d(1)] spaced_def)
  show ?thesis
    using h s lexeme_start [OF w] by (subst skip_whitespace.simps) (auto simp: Let_def)
qed

lemma skip_whitespace_space:
  "drop (lx_position l) (lx_source l) = CHR '' '' # u \<Longrightarrow> skip_whitespace l = skip_whitespace (lx_skip l)"
  by (subst skip_whitespace.simps) (auto simp: Let_def lx_peek_at lx_at_end_def)

lemma join_spaced: "join_with '' '' (w # ws) = w @ (if ws = [] then [] else '' '' @ join_with '' '' ws)"
  by (cases ws) auto

text \<open>The loop at a lexeme, possibly after one space.\<close>

lemma lex_loop_printed:
  assumes "drop (lx_position l) (lx_source l) = s @ join_with '' '' ws" "s = [] \<or> s = '' ''"
    and "list_all (\<lambda>w. lexeme_type w \<noteq> None) ws" "ws = [] \<Longrightarrow> s = []"
  shows "map (\<lambda>t. (Some (token_type t), tok_value t)) (fst (lex_loop l)) = map (\<lambda>w. (lexeme_type w, w)) ws \<and>
    lx_errors (snd (lex_loop l)) = lx_errors l"
  using assms
proof (induction ws arbitrary: l s)
  case Nil
  then show ?case by (subst (1 2) lex_loop.simps) (simp add: lx_at_end_def)
next
  case (Cons w ws)
  obtain ty where ty: "lexeme_type w = Some ty" using Cons.prems by auto
  have ne: "w \<noteq> []" using ty lexeme_nonempty by auto
  define s' rest where "s' = (if ws = [] then [] else '' '')" and "rest = s' @ join_with '' '' ws"
  have sp: "spaced rest" by (simp add: rest_def s'_def spaced_def)
  have j: "join_with '' '' (w # ws) = w @ rest" by (simp add: join_spaced rest_def s'_def)
  define l1 where "l1 = (if s = [] then l else lx_skip l)"
  have d1: "drop (lx_position l1) (lx_source l1) = w @ rest"
    using Cons.prems(1,2) j lx_position_take [of l "'' ''" "w @ rest" "lx_skip l"] by (auto simp: l1_def)
  have sw: "skip_whitespace l = l1"
    using Cons.prems(1,2) j skip_whitespace_space [of l] skip_whitespace_lexeme [OF d1 sp ty]
    by (auto simp: l1_def)
  have ends: "\<not> lx_at_end l" "\<not> lx_at_end l1"
    using Cons.prems(1) d1 ne j by (auto simp: lx_at_end_def)
  obtain t l2 where t: "lex_one l1 = (Some t, l2)" "token_type t = ty" "tok_value t = w"
    "lx_position l2 = lx_position l1 + length w" "lx_source l2 = lx_source l1" "lx_errors l2 = lx_errors l1"
    using lexes_lexeme [OF d1 sp ty] unfolding lexes_def by blast
  have d2: "drop (lx_position l2) (lx_source l2) = s' @ join_with '' '' ws"
    using lx_position_take [OF d1 t(4,5)] by (simp add: rest_def)
  have ih: "map (\<lambda>t. (Some (token_type t), tok_value t)) (fst (lex_loop l2)) = map (\<lambda>w. (lexeme_type w, w)) ws \<and>
      lx_errors (snd (lex_loop l2)) = lx_errors l2"
    using Cons.IH [OF d2] Cons.prems(3) by (simp add: s'_def)
  have "lex_loop l = (t # fst (lex_loop l2), snd (lex_loop l2))"
    using ends sw t(1) by (subst lex_loop.simps) (simp add: split_beta)
  with ih t ty show ?case by (simp add: l1_def)
qed

text \<open>
  Property C4: printed lexemes lex back: for every list of lexemes (words, numbers, symbols),
  lexing their space-separated text gives exactly those lexemes with their types, then the
  end-of-file token, and no diagnostic.
\<close>

theorem lex_printed:
  assumes "list_all (\<lambda>w. lexeme_type w \<noteq> None) ws"
  shows "map (\<lambda>t. (Some (token_type t), tok_value t)) (fst (lex_source (join_with '' '' ws) file))
      = map (\<lambda>w. (lexeme_type w, w)) ws @ [(Some TkEndOfFile, [])] \<and>
    snd (lex_source (join_with '' '' ws) file) = []"
  using lex_loop_printed [of "lexer_new (join_with '' '' ws) file" "[]" ws] assms
  by (simp add: lex_source_def tokenize_def lexer_new_def split_beta)

theorem lex_printed_witness:
  "map (\<lambda>t. (Some (token_type t), tok_value t)) (fst (lex_source (join_with '' '' [''let'', ''x1'', ''>>='', ''2.5e'']) ''f''))
      = [(Some TkLet, ''let''), (Some TkIdentifier, ''x1''), (Some TkGreaterGreaterEquals, ''>>=''),
         (Some TkNumber, ''2.5e''), (Some TkEndOfFile, [])]"
proof -
  have t: "lexeme_type ''let'' = Some TkLet" "lexeme_type ''x1'' = Some TkIdentifier"
    "lexeme_type ''>>='' = Some TkGreaterGreaterEquals" "lexeme_type ''2.5e'' = Some TkNumber"
    by (simp_all add: lexeme_type_def word_lexeme_def number_lexeme_def after_fraction_def keyword_table_def
        symbol_lexemes_def symbol_table_def str_simps)
  then show ?thesis
    using lex_printed [of "[''let'', ''x1'', ''>>='', ''2.5e'']" "''f''"] by simp
qed

end
