(* ===== verification/Floats.thy ===== *)
theory Floats
  imports Prelude
begin

text \<open>
  IEEE 754 binary64 numbers, Rust's \<open>f64\<close>, as far as the compiler computes with them: number
  literals are parsed into \<open>f64\<close> values, array sizes are converted from and to them, and the
  constant folder adds, subtracts, multiplies and divides them. A finite number is
  \<open>Finite s m e\<close>, the value \<open>(-1)^s * m * 2^e\<close>; every operation rounds the exact result to the
  nearest representable number, ties to even.
\<close>

datatype f64 = NaN | Infinity bool | Finite bool nat int

fun bitlen :: "nat \<Rightarrow> nat" where
  "bitlen n = (if n = 0 then 0 else Suc (bitlen (n div 2)))"

declare bitlen.simps [simp del]

definition f64_zero :: "bool \<Rightarrow> f64" where
  "f64_zero s = Finite s 0 (-1074)"

text \<open>The floor of the binary logarithm of \<open>n / d\<close>, for positive \<open>n\<close> and \<open>d\<close>.\<close>

definition ratio_ge_pow2 :: "nat \<Rightarrow> nat \<Rightarrow> int \<Rightarrow> bool" where
  "ratio_ge_pow2 n d k \<longleftrightarrow>
     (if 0 \<le> k then d * 2 ^ nat k \<le> n else d \<le> n * 2 ^ nat (- k))"

definition floor_log2 :: "nat \<Rightarrow> nat \<Rightarrow> int" where
  "floor_log2 n d =
     (let k = int (bitlen n) - int (bitlen d) in if ratio_ge_pow2 n d k then k else k - 1)"

definition round_half_even :: "nat \<Rightarrow> nat \<Rightarrow> nat" where
  "round_half_even N D =
     (let q = N div D; r = N mod D
      in if D < 2 * r \<or> (2 * r = D \<and> odd q) then Suc q else q)"

text \<open>The binary64 number nearest to \<open>n / d\<close> with sign \<open>s\<close>; \<open>d\<close> is positive.\<close>

definition round_f64 :: "bool \<Rightarrow> nat \<Rightarrow> nat \<Rightarrow> f64" where
  "round_f64 s n d =
     (if n = 0 then f64_zero s
      else let e = max (floor_log2 n d - 52) (-1074);
               m = (if 0 \<le> e then round_half_even n (d * 2 ^ nat e)
                    else round_half_even (n * 2 ^ nat (- e)) d);
               (m', e') = (if m = 2 ^ 53 then (2 ^ 52, e + 1) else (m, e))
           in if 971 < e' then Infinity s
              else if m' = 0 then f64_zero s else Finite s m' e')"

definition round_scaled :: "bool \<Rightarrow> nat \<Rightarrow> int \<Rightarrow> f64" where
  "round_scaled s m e =
     (if 0 \<le> e then round_f64 s (m * 2 ^ nat e) 1 else round_f64 s m (2 ^ nat (- e)))"

fun f64_is_zero :: "f64 \<Rightarrow> bool" where
  "f64_is_zero (Finite _ m _) = (m = 0)"
| "f64_is_zero _ = False"

fun f64_neg :: "f64 \<Rightarrow> f64" where
  "f64_neg NaN = NaN"
| "f64_neg (Infinity s) = Infinity (\<not> s)"
| "f64_neg (Finite s m e) = Finite (\<not> s) m e"

definition signed_mant :: "bool \<Rightarrow> nat \<Rightarrow> int \<Rightarrow> int \<Rightarrow> int" where
  "signed_mant s m e e0 = (if s then - 1 else 1) * int m * 2 ^ nat (e - e0)"

fun f64_add :: "f64 \<Rightarrow> f64 \<Rightarrow> f64" where
  "f64_add NaN _ = NaN"
| "f64_add _ NaN = NaN"
| "f64_add (Infinity s) (Infinity t) = (if s = t then Infinity s else NaN)"
| "f64_add (Infinity s) _ = Infinity s"
| "f64_add _ (Infinity t) = Infinity t"
| "f64_add (Finite s m e) (Finite t n f) =
     (let g = min e f; v = signed_mant s m e g + signed_mant t n f g
      in if v = 0 then f64_zero (s \<and> t) else round_scaled (v < 0) (nat \<bar>v\<bar>) g)"

definition f64_sub :: "f64 \<Rightarrow> f64 \<Rightarrow> f64" where
  "f64_sub a b = f64_add a (f64_neg b)"

fun f64_mul :: "f64 \<Rightarrow> f64 \<Rightarrow> f64" where
  "f64_mul NaN _ = NaN"
| "f64_mul _ NaN = NaN"
| "f64_mul (Infinity s) (Infinity t) = Infinity (s \<noteq> t)"
| "f64_mul (Infinity s) (Finite t n f) = (if n = 0 then NaN else Infinity (s \<noteq> t))"
| "f64_mul (Finite s m e) (Infinity t) = (if m = 0 then NaN else Infinity (s \<noteq> t))"
| "f64_mul (Finite s m e) (Finite t n f) = round_scaled (s \<noteq> t) (m * n) (e + f)"

fun f64_div :: "f64 \<Rightarrow> f64 \<Rightarrow> f64" where
  "f64_div NaN _ = NaN"
| "f64_div _ NaN = NaN"
| "f64_div (Infinity s) (Infinity t) = NaN"
| "f64_div (Infinity s) (Finite t n f) = Infinity (s \<noteq> t)"
| "f64_div (Finite s m e) (Infinity t) = f64_zero (s \<noteq> t)"
| "f64_div (Finite s m e) (Finite t n f) =
     (if n = 0 then (if m = 0 then NaN else Infinity (s \<noteq> t))
      else if f \<le> e then round_f64 (s \<noteq> t) (m * 2 ^ nat (e - f)) n
      else round_f64 (s \<noteq> t) m (n * 2 ^ nat (f - e)))"

section \<open>Conversions\<close>

text \<open>\<open>n as f64\<close> for a \<open>usize\<close>.\<close>

definition f64_of_nat :: "nat \<Rightarrow> f64" where
  "f64_of_nat n = round_f64 False n 1"

text \<open>\<open>fract(v) == 0.0\<close>; false for the infinities and NaN.\<close>

fun f64_is_integral :: "f64 \<Rightarrow> bool" where
  "f64_is_integral (Finite s m e) = (0 \<le> e \<or> m mod 2 ^ nat (- e) = 0)"
| "f64_is_integral _ = False"

text \<open>The integral part of the absolute value.\<close>

definition trunc_mant :: "nat \<Rightarrow> int \<Rightarrow> nat" where
  "trunc_mant m e = (if 0 \<le> e then m * 2 ^ nat e else m div 2 ^ nat (- e))"

text \<open>\<open>v as usize\<close>: truncation that saturates at both ends; NaN becomes 0.\<close>

fun f64_as_usize :: "f64 \<Rightarrow> nat" where
  "f64_as_usize NaN = 0"
| "f64_as_usize (Infinity s) = (if s then 0 else 2 ^ 64 - 1)"
| "f64_as_usize (Finite s m e) = (if s then 0 else min (trunc_mant m e) (2 ^ 64 - 1))"

text \<open>\<open>v >= 0.0\<close>: minus zero counts as zero, NaN compares false.\<close>

fun f64_nonneg :: "f64 \<Rightarrow> bool" where
  "f64_nonneg NaN = False"
| "f64_nonneg (Infinity s) = (\<not> s)"
| "f64_nonneg (Finite s m e) = (\<not> s \<or> m = 0)"

section \<open>Parsing and printing\<close>

text \<open>\<open>str::parse::<f64>\<close>.\<close>

definition parse_exponent :: "string \<Rightarrow> int option" where
  "parse_exponent s =
     (case s of [] \<Rightarrow> Some 0
      | c # t \<Rightarrow>
          if c = CHR ''e'' \<or> c = CHR ''E'' then
            (let neg = (t \<noteq> [] \<and> hd t = CHR ''-''); d = (if neg then tl t else strip_plus t)
             in if all_digits d
                then Some (if neg then - int (digits_value d) else int (digits_value d)) else None)
          else None)"

definition parse_f64_magnitude :: "bool \<Rightarrow> string \<Rightarrow> f64 option" where
  "parse_f64_magnitude neg s =
     (let ip = takeWhile is_ascii_digit s; r = dropWhile is_ascii_digit s;
          dot = (r \<noteq> [] \<and> hd r = CHR ''.'');
          fp = (if dot then takeWhile is_ascii_digit (tl r) else []);
          rest = (if dot then dropWhile is_ascii_digit (tl r) else r)
      in if ip = [] \<and> fp = [] then None
         else case parse_exponent rest of None \<Rightarrow> None
           | Some x \<Rightarrow>
               let p = x - int (length fp); D = digits_value (ip @ fp)
               in Some (if 0 \<le> p then round_f64 neg (D * 10 ^ nat p) 1
                        else round_f64 neg D (10 ^ nat (- p))))"

definition parse_f64 :: "string \<Rightarrow> f64 option" where
  "parse_f64 s =
     (let neg = (s \<noteq> [] \<and> hd s = CHR ''-''); u = (if neg then tl s else strip_plus s);
          l = map to_lower u
      in if l = ''inf'' \<or> l = ''infinity'' then Some (Infinity neg)
         else if l = ''nan'' then Some NaN
         else parse_f64_magnitude neg u)"

text \<open>
  Printing: the shortest decimal that reads back as the same number (the nearer one when two
  of that length do), written without an exponent.
\<close>

definition floor_log10 :: "nat \<Rightarrow> nat \<Rightarrow> int" where
  "floor_log10 n d =
     (if d \<le> n then int (length (nat_to_string (n div d))) - 1
      else - int (the (find (\<lambda>j. d \<le> n * 10 ^ j) [0..<Suc (bitlen d)])))"

definition dec_round :: "nat \<Rightarrow> int \<Rightarrow> f64" where
  "dec_round D p = (if 0 \<le> p then round_f64 False (D * 10 ^ nat p) 1 else round_f64 False D (10 ^ nat (- p)))"

definition dec_candidate :: "nat \<Rightarrow> nat \<Rightarrow> nat \<Rightarrow> (nat \<times> int) option" where
  "dec_candidate n d k =
     (let p = floor_log10 n d + 1 - int k;
          (N, M) = (if 0 \<le> p then (n, d * 10 ^ nat p) else (n * 10 ^ nat (- p), d));
          lo = N div M; v = round_f64 False n d; near = round_half_even N M;
          far = (if near = lo then Suc lo else lo)
      in if dec_round near p = v then Some (near, p)
         else if dec_round far p = v then Some (far, p) else None)"

definition shortest_dec :: "nat \<Rightarrow> nat \<Rightarrow> nat \<times> int" where
  "shortest_dec n d =
     hd (List.map_filter (dec_candidate n d) [1..<18] @ [(0, 0)])"

fun strip_zeros :: "nat \<Rightarrow> int \<Rightarrow> nat \<times> int" where
  "strip_zeros D p = (if D \<noteq> 0 \<and> D mod 10 = 0 then strip_zeros (D div 10) (p + 1) else (D, p))"

declare strip_zeros.simps [simp del]

definition dec_to_string :: "nat \<Rightarrow> int \<Rightarrow> string" where
  "dec_to_string D p =
     (if 0 \<le> p then nat_to_string (D * 10 ^ nat p)
      else let k = nat (- p); s = nat_to_string D; z = replicate (Suc k - length s) (CHR ''0'') @ s
           in take (length z - k) z @ CHR ''.'' # drop (length z - k) z)"

fun f64_to_string :: "f64 \<Rightarrow> string" where
  "f64_to_string NaN = ''NaN''"
| "f64_to_string (Infinity s) = (if s then ''-inf'' else ''inf'')"
| "f64_to_string (Finite s m e) =
     (if s then ''-'' else []) @
     (if m = 0 then ''0''
      else let (n, d) = (if 0 \<le> e then (m * 2 ^ nat e, 1) else (m, 2 ^ nat (- e)));
               (D, p) = shortest_dec n d; (D', p') = strip_zeros D p
           in dec_to_string D' p')"

text \<open>\<open>format!("{:.0}", v)\<close> for an integral \<open>v\<close>: all digits of the integer.\<close>

fun f64_to_string0 :: "f64 \<Rightarrow> string" where
  "f64_to_string0 NaN = ''NaN''"
| "f64_to_string0 (Infinity s) = (if s then ''-inf'' else ''inf'')"
| "f64_to_string0 (Finite s m e) = (if s then ''-'' else []) @ nat_to_string (trunc_mant m e)"

section \<open>Small integers are exact\<close>

lemma bitlen_bounds: "0 < n \<Longrightarrow> 2 ^ (bitlen n - 1) \<le> n \<and> n < 2 ^ bitlen n \<and> 0 < bitlen n"
proof (induction n rule: bitlen.induct)
  case (1 n)
  show ?case
  proof (cases "n = 1")
    case True
    then show ?thesis by (simp add: bitlen.simps)
  next
    case False
    define h where "h = n div 2"
    have h: "0 < h" "n = 2 * h \<or> n = 2 * h + 1"
      using False 1(2) by (auto simp: h_def)
    with 1(1) 1(2) have IH: "2 ^ (bitlen h - 1) \<le> h" "h < 2 ^ bitlen h" "0 < bitlen h"
      by (auto simp: h_def)
    have b: "bitlen n = Suc (bitlen h)"
      using 1(2) by (subst bitlen.simps) (simp add: h_def)
    have p: "(2::nat) ^ bitlen h = 2 * 2 ^ (bitlen h - 1)"
      using IH(3) by (cases "bitlen h") auto
    show ?thesis using h(2) IH unfolding b by (auto simp: p)
  qed
qed

lemma bitlen_one [simp]: "bitlen (Suc 0) = 1"
  by (simp add: bitlen.simps)

lemma bitlen_le: "0 < n \<Longrightarrow> n < 2 ^ k \<Longrightarrow> bitlen n \<le> k"
proof -
  assume n: "0 < n" "n < 2 ^ k"
  with bitlen_bounds [of n] have "(2::nat) ^ (bitlen n - 1) < 2 ^ k" by linarith
  then have "bitlen n - 1 < k" by simp
  with bitlen_bounds [of n] n show ?thesis by linarith
qed

lemma floor_log2_nat: "0 < n \<Longrightarrow> floor_log2 n 1 = int (bitlen n) - 1"
  using bitlen_bounds [of n]
  by (auto simp: floor_log2_def ratio_ge_pow2_def Let_def nat_diff_distrib)

lemma round_half_even_one [simp]: "round_half_even N (Suc 0) = N"
  by (simp add: round_half_even_def)

lemma f64_of_nat_exact:
  assumes "0 < n" "n < 2 ^ 53"
  shows "f64_of_nat n = Finite False (n * 2 ^ (53 - bitlen n)) (int (bitlen n) - 53)"
proof -
  have b: "bitlen n \<le> 53" by (rule bitlen_le) (use assms in auto)
  have "n < 2 ^ bitlen n" using bitlen_bounds assms by auto
  then have "n * 2 ^ (53 - bitlen n) < 2 ^ bitlen n * 2 ^ (53 - bitlen n)" by simp
  also have "\<dots> = 2 ^ 53" using b by (simp flip: power_add)
  finally have m: "n * 2 ^ (53 - bitlen n) \<noteq> 2 ^ 53" by simp
  have e: "max (int (bitlen n) - 53) (-1074) = int (bitlen n) - 53" by simp
  show ?thesis
  proof (cases "bitlen n = 53")
    case True
    with assms show ?thesis
      by (simp add: f64_of_nat_def round_f64_def floor_log2_nat [simplified] Let_def)
  next
    case False
    with b have "int (bitlen n) - 53 < 0" "nat (53 - int (bitlen n)) = 53 - bitlen n" by auto
    with assms m show ?thesis
      by (simp add: f64_of_nat_def round_f64_def floor_log2_nat [simplified] Let_def)
  qed
qed

lemma f64_of_nat_roundtrip:
  assumes "n < 2 ^ 53"
  shows "f64_as_usize (f64_of_nat n) = n \<and> f64_is_integral (f64_of_nat n) \<and> f64_nonneg (f64_of_nat n)"
proof (cases "n = 0")
  case True
  then show ?thesis by (simp add: f64_of_nat_def round_f64_def f64_zero_def trunc_mant_def)
next
  case False
  then have n: "0 < n" by simp
  have b: "bitlen n \<le> 53" by (rule bitlen_le) (use assms n in auto)
  have neg: "\<not> 0 \<le> int (bitlen n) - 53 \<or> bitlen n = 53" using b by auto
  have "nat (53 - int (bitlen n)) = 53 - bitlen n" by auto
  with neg assms show ?thesis
    by (auto simp: f64_of_nat_exact [OF n assms] trunc_mant_def)
qed

end
