(* ===== verification/Ast.thy ===== *)
theory Ast
  imports Tokens Floats
begin

text \<open>
  The syntax tree, \<open>src/compiler/frontend/ast.rs\<close>. The source's types are mutually recursive;
  here every type is polymorphic in the expressions (\<open>'e\<close>) and statements (\<open>'s\<close>) it holds, and
  \<open>Statement\<close> ties the knot, so that each is a datatype of its own. Struct fields come in the
  order of the source; \<open>Box\<close> is transparent, and the \<open>RefCell\<close> of an array literal, which the
  front end fills with no value, is the option in it.
\<close>

section \<open>Types, bindings and declarations\<close>

datatype (plugins only: size) BindingNode =
    BIdentifier string
  | ArrayBinding "BindingNode list" "BindingNode option"
  | ObjectBinding "(string \<times> BindingNode) list"

datatype AccessModifier = Public | Private | Protected

datatype (plugins only: size) 'e TypeNode =
    TNNamed string
  | TNGeneric string "'e TypeNode list"
  | TNOptional "'e TypeNode"
  | TNArray "'e TypeNode"
  | TNSizedArray "'e TypeNode" 'e
  | TNFunction "'e TypeNode list" "'e TypeNode"
  | TNObject "(string \<times> bool \<times> 'e TypeNode) list"
  | TNIntersection "'e TypeNode list"
  | TNAny

text \<open>Name and bound.\<close>

datatype (plugins only: size) 'e GenericParam = GenericParam string "'e TypeNode option"

text \<open>Name, type, default value, rest flag.\<close>

datatype (plugins only: size) 'e Parameter =
  Parameter (param_name: string) (param_type: "'e TypeNode") (param_default: "'e option") (param_rest: bool)

text \<open>Name, parameters, return type, body, extern flag, generic parameters, line, column.\<close>

datatype (plugins only: size) ('e, 's) FunctionDeclaration =
  FunctionDeclaration (fn_name: string) (fn_params: "'e Parameter list") (fn_return_type: "'e TypeNode")
    (fn_body: 's) (fn_is_extern: bool) (fn_generics: "'e GenericParam list") (fn_line: nat) (fn_col: nat)

section \<open>Expressions\<close>

text \<open>The last two numbers of a constructor are line and column.\<close>

datatype (plugins only: size) 's Expression =
    NumberLiteral f64 bool nat nat
  | StringLiteral string nat nat
  | CharLiteral char nat nat
  | BooleanLiteral bool nat nat
  | Identifier string nat nat
  | BinaryExpr "'s Expression" TokenType "'s Expression" nat nat
  | UnaryExpr TokenType "'s Expression" bool nat nat
  | AssignmentExpr "'s Expression" "'s Expression" TokenType nat nat
  | CallExpr "'s Expression" "'s Expression TypeNode list option" "'s Expression list" nat nat
  | SequenceExpr "'s Expression list" nat nat
  | MemberAccessExpr "'s Expression" string nat nat bool
  | ArrayAccessExpr "'s Expression" "'s Expression" nat nat
  | ObjectLiteralExpr "(string \<times> 's Expression) list" "'s Expression list" nat nat
  | ArrayLiteral "'s Expression list" "string option" nat nat
  | NewExpr string "'s Expression list" nat nat
  | ThisExpr nat nat
  | SuperExpr nat nat
  | LambdaExpr "'s Expression Parameter list" 's nat nat
  | TernaryExpr "'s Expression" "'s Expression" "'s Expression" nat nat
  | OptionalMemberAccessExpr "'s Expression" string nat nat
  | OptionalCallExpr "'s Expression" "'s Expression TypeNode list option" "'s Expression list" nat nat
  | OptionalArrayAccessExpr "'s Expression" "'s Expression" nat nat
  | NullishCoalescingExpr "'s Expression" "'s Expression" nat nat
  | SpreadExpr "'s Expression" nat nat
  | NoneLiteral nat nat
  | SomeExpr "'s Expression" nat nat
  | CastExpr "'s Expression" "'s Expression TypeNode" nat nat

section \<open>Class, enum and interface members\<close>

text \<open>Name, type, access, static flag, initializer.\<close>

datatype (plugins only: size) 'e ClassMember =
  ClassMember string "'e TypeNode" AccessModifier bool "'e option"

text \<open>Function, access, static flag, abstract flag.\<close>

datatype (plugins only: size) ('e, 's) ClassMethod =
  ClassMethod "('e, 's) FunctionDeclaration" AccessModifier bool bool

datatype (plugins only: size) ('e, 's) ClassGetter = ClassGetter string "'e TypeNode" 's AccessModifier

datatype (plugins only: size) ('e, 's) ClassSetter =
  ClassSetter string string "'e TypeNode" 's AccessModifier

text \<open>
  Name, parent name, generic parameters, abstract flag, implemented protocols, members,
  methods, getters, setters, constructor, line, column.
\<close>

datatype (plugins only: size) ('e, 's) ClassDeclaration =
  ClassDeclaration string string "'e GenericParam list" bool "string list" "'e ClassMember list"
    "('e, 's) ClassMethod list" "('e, 's) ClassGetter list" "('e, 's) ClassSetter list"
    "('e, 's) FunctionDeclaration option" (class_line: nat) (class_col: nat)

datatype (plugins only: size) 'e EnumMember = EnumMember string "'e option"

datatype (plugins only: size) 'e EnumDeclaration =
  EnumDeclaration string "'e EnumMember list" (enum_line: nat) (enum_col: nat)

text \<open>Value (none for the default) and statements.\<close>

datatype (plugins only: size) ('e, 's) Case = Case "'e option" "'s list"

datatype (plugins only: size) 'e InterfaceMethod = InterfaceMethod string "'e Parameter list" "'e TypeNode"

datatype (plugins only: size) ('e, 's) ExtensionDeclaration =
  ExtensionDeclaration "'e TypeNode" "('e, 's) FunctionDeclaration list" (ext_line: nat) (ext_col: nat)

text \<open>Name and alias.\<close>

datatype ImportItem = ImportItem string "string option"

section \<open>Statements\<close>

datatype (plugins only: size) Statement =
    VarDeclaration BindingNode "Statement Expression TypeNode" "Statement Expression option" bool nat nat
  | FunctionDeclarationStmt "(Statement Expression, Statement) FunctionDeclaration"
  | ClassDeclarationStmt "(Statement Expression, Statement) ClassDeclaration"
  | ExtensionDeclarationStmt "(Statement Expression, Statement) ExtensionDeclaration"
  | EnumDeclarationStmt "Statement Expression EnumDeclaration"
  | TypeAliasDeclaration string "Statement Expression TypeNode" nat nat
  | InterfaceDeclaration string "Statement Expression InterfaceMethod list" nat nat
  | ReturnStmt "Statement Expression option" nat nat
  | BreakStmt nat nat
  | ContinueStmt nat nat
  | BlockStmt "Statement list" nat nat
  | IfStmt "Statement Expression" Statement "Statement option" nat nat
  | WhileStmt "Statement Expression" Statement nat nat
  | ForStmt "Statement option" "Statement Expression option" "Statement Expression option" Statement nat nat
  | ForOfStmt BindingNode "Statement Expression" Statement nat nat
  | SwitchStmt "Statement Expression" "(Statement Expression, Statement) Case list" nat nat
  | ExpressionStmt "Statement Expression" nat nat
  | TryStmt Statement string Statement "Statement option" nat nat
  | DelStmt "Statement Expression" nat nat
  | ThrowStmt "Statement Expression" nat nat
  | ImportDecl "ImportItem list" string bool nat nat
  | ExportDecl Statement bool nat nat

type_synonym Expr = "Statement Expression"
type_synonym Type_Node = "Statement Expression TypeNode"

datatype Program = Program "Statement list"

section \<open>Printing types\<close>

definition size_op_string :: "TokenType \<Rightarrow> string" where
  "size_op_string op =
     (case op of TkPlus \<Rightarrow> ''+'' | TkMinus \<Rightarrow> ''-'' | TkStar \<Rightarrow> ''*'' | TkSlash \<Rightarrow> ''/''
      | TkModulo \<Rightarrow> ''%'' | _ \<Rightarrow> ''?'')"

text \<open>
  \<open>TypeNode::size_expr_to_string\<close>; \<open>value == value.trunc()\<close> is integrality. It also holds of the
  infinities, where \<open>f64_is_integral\<close> does not, but both formats print those alike.
\<close>

primrec size_expr_to_string :: "'s Expression \<Rightarrow> string" where
  "size_expr_to_string (NumberLiteral v f l c) =
     (if f64_is_integral v then f64_to_string0 v else f64_to_string v)"
| "size_expr_to_string (Identifier n l c) = n"
| "size_expr_to_string (BinaryExpr a op b l c) =
     size_expr_to_string a @ '' '' @ size_op_string op @ '' '' @ size_expr_to_string b"
| "size_expr_to_string (StringLiteral v l c) = ''(expr)''"
| "size_expr_to_string (CharLiteral v' l c) = ''(expr)''"
| "size_expr_to_string (BooleanLiteral b l c) = ''(expr)''"
| "size_expr_to_string (UnaryExpr op a p l c) = ''(expr)''"
| "size_expr_to_string (AssignmentExpr a b op l c) = ''(expr)''"
| "size_expr_to_string (CallExpr a ts es l c) = ''(expr)''"
| "size_expr_to_string (SequenceExpr es l c) = ''(expr)''"
| "size_expr_to_string (MemberAccessExpr a m l c ns) = ''(expr)''"
| "size_expr_to_string (ArrayAccessExpr a b l c) = ''(expr)''"
| "size_expr_to_string (ObjectLiteralExpr en sp l c) = ''(expr)''"
| "size_expr_to_string (ArrayLiteral es t l c) = ''(expr)''"
| "size_expr_to_string (NewExpr n es l c) = ''(expr)''"
| "size_expr_to_string (ThisExpr l c) = ''(expr)''"
| "size_expr_to_string (SuperExpr l c) = ''(expr)''"
| "size_expr_to_string (LambdaExpr ps s l c) = ''(expr)''"
| "size_expr_to_string (TernaryExpr a b d l c) = ''(expr)''"
| "size_expr_to_string (OptionalMemberAccessExpr a m l c) = ''(expr)''"
| "size_expr_to_string (OptionalCallExpr a ts es l c) = ''(expr)''"
| "size_expr_to_string (OptionalArrayAccessExpr a b l c) = ''(expr)''"
| "size_expr_to_string (NullishCoalescingExpr a b l c) = ''(expr)''"
| "size_expr_to_string (SpreadExpr a l c) = ''(expr)''"
| "size_expr_to_string (NoneLiteral l c) = ''(expr)''"
| "size_expr_to_string (SomeExpr a l c) = ''(expr)''"
| "size_expr_to_string (CastExpr a t l c) = ''(expr)''"

text \<open>The loop over the dimensions of an array type: the base and the texts of the dimensions.\<close>

fun array_dims :: "'s Expression TypeNode \<Rightarrow> 's Expression TypeNode \<times> string list" where
  "array_dims (TNSizedArray t e) = apsnd ((#) (''['' @ size_expr_to_string e @ '']'')) (array_dims t)"
| "array_dims (TNArray t) = apsnd ((#) ''[]'') (array_dims t)"
| "array_dims t = (t, [])"

lemma size_array_dims [simp]: "size (fst (array_dims t)) \<le> size t"
  by (induction t rule: array_dims.induct) (auto simp: apsnd_def map_prod_def split: prod.splits)

lemma size_array_dims_less: "array_dims t = (b, ds) \<Longrightarrow> size b \<le> size t"
  using size_array_dims [of t] by simp

lemma size_member_type: "(k, opt, t) \<in> set ms \<Longrightarrow>
    size t < Suc (size_list (size_prod (\<lambda>_. 0) (size_prod (\<lambda>_. 0) size)) ms)"
  by (induction ms) auto

text \<open>\<open>TypeNode::to_string\<close>, also its \<open>Display\<close>.\<close>

fun type_node_to_string :: "'s Expression TypeNode \<Rightarrow> string" where
  "type_node_to_string (TNNamed n) = n"
| "type_node_to_string (TNGeneric n args) = n @ ''<'' @ join_with '', '' (map type_node_to_string args) @ ''>''"
| "type_node_to_string (TNOptional t) = ''Optional<'' @ type_node_to_string t @ ''>''"
| "type_node_to_string (TNArray t) =
     type_node_to_string (fst (array_dims t)) @ ''[]'' @ concat (snd (array_dims t))"
| "type_node_to_string (TNSizedArray t e) =
     type_node_to_string (fst (array_dims t)) @ ''['' @ size_expr_to_string e @ '']'' @ concat (snd (array_dims t))"
| "type_node_to_string (TNFunction args rty) =
     ''('' @ join_with '', '' (map type_node_to_string args) @ '') => '' @ type_node_to_string rty"
| "type_node_to_string (TNObject ms) =
     ''{ '' @ join_with ''; '' (map (\<lambda>(k, opt, t). k @ (if opt then ''?'' else []) @ '': '' @ type_node_to_string t) ms)
       @ '' }''"
| "type_node_to_string (TNIntersection ts) = join_with '' & '' (map type_node_to_string ts)"
| "type_node_to_string TNAny = ''any''"

section \<open>Names and lines of nodes\<close>

text \<open>\<open>Expression::to_callee_name\<close>.\<close>

definition dotted :: "string \<Rightarrow> string \<Rightarrow> string" where
  "dotted base m = (if base = [] then m else base @ ''.'' @ m)"

primrec to_callee_name :: "'s Expression \<Rightarrow> string" where
  "to_callee_name (Identifier n l c) = n"
| "to_callee_name (ThisExpr l c) = ''this''"
| "to_callee_name (SuperExpr l c) = ''super''"
| "to_callee_name (NewExpr n es l c) = ''$new_'' @ n"
| "to_callee_name (MemberAccessExpr a m l c ns) = dotted (to_callee_name a) m"
| "to_callee_name (OptionalMemberAccessExpr a m l c) = dotted (to_callee_name a) m"
| "to_callee_name (ArrayAccessExpr a b l c) =
     (if to_callee_name a = [] then [] else to_callee_name a @ ''[...]'')"
| "to_callee_name (StringLiteral v l c) = ''String''"
| "to_callee_name (CharLiteral v' l c) = ''(char)''"
| "to_callee_name (NumberLiteral v f l c) = ''(number)''"
| "to_callee_name (BooleanLiteral b l c) = ''(bool)''"
| "to_callee_name (ArrayLiteral es t l c) = ''(array)''"
| "to_callee_name (ObjectLiteralExpr en sp l c) = ''(object)''"
| "to_callee_name (NoneLiteral l c) = ''None''"
| "to_callee_name (SomeExpr a l c) = ''Some''"
| "to_callee_name (CastExpr a t l c) = to_callee_name a"
| "to_callee_name (BinaryExpr a op b l c) = []"
| "to_callee_name (UnaryExpr op a p l c) = []"
| "to_callee_name (AssignmentExpr a b op l c) = []"
| "to_callee_name (CallExpr a ts es l c) = []"
| "to_callee_name (SequenceExpr es l c) = []"
| "to_callee_name (LambdaExpr ps s l c) = []"
| "to_callee_name (TernaryExpr a b d l c) = []"
| "to_callee_name (OptionalCallExpr a ts es l c) = []"
| "to_callee_name (OptionalArrayAccessExpr a b l c) = []"
| "to_callee_name (NullishCoalescingExpr a b l c) = []"
| "to_callee_name (SpreadExpr a l c) = []"

text \<open>\<open>Expression::get_line\<close>.\<close>

definition expr_line :: "'s Expression \<Rightarrow> nat" where
  "expr_line e =
     (case e of NumberLiteral _ _ l c \<Rightarrow> l | StringLiteral _ l c \<Rightarrow> l | CharLiteral _ l c \<Rightarrow> l
      | BooleanLiteral _ l c \<Rightarrow> l | Identifier _ l c \<Rightarrow> l | BinaryExpr _ _ _ l c \<Rightarrow> l
      | UnaryExpr _ _ _ l c \<Rightarrow> l | AssignmentExpr _ _ _ l c \<Rightarrow> l | CallExpr _ _ _ l c \<Rightarrow> l
      | MemberAccessExpr _ _ l c _ \<Rightarrow> l | ArrayAccessExpr _ _ l c \<Rightarrow> l
      | ObjectLiteralExpr _ _ l c \<Rightarrow> l | ArrayLiteral _ _ l c \<Rightarrow> l | NewExpr _ _ l c \<Rightarrow> l
      | ThisExpr l c \<Rightarrow> l | SuperExpr l c \<Rightarrow> l | LambdaExpr _ _ l c \<Rightarrow> l | TernaryExpr _ _ _ l c \<Rightarrow> l
      | OptionalMemberAccessExpr _ _ l c \<Rightarrow> l | OptionalCallExpr _ _ _ l c \<Rightarrow> l
      | OptionalArrayAccessExpr _ _ l c \<Rightarrow> l | NullishCoalescingExpr _ _ l c \<Rightarrow> l
      | SpreadExpr _ l c \<Rightarrow> l | SequenceExpr _ l c \<Rightarrow> l | NoneLiteral l c \<Rightarrow> l | SomeExpr _ l c \<Rightarrow> l
      | CastExpr _ _ l c \<Rightarrow> l)"

text \<open>\<open>Statement::get_line\<close> and \<open>Statement::get_col\<close>.\<close>

definition stmt_pos :: "Statement \<Rightarrow> nat \<times> nat" where
  "stmt_pos s =
     (case s of VarDeclaration _ _ _ _ l c \<Rightarrow> (l, c) | FunctionDeclarationStmt f \<Rightarrow> (fn_line f, fn_col f)
      | ClassDeclarationStmt d \<Rightarrow> (class_line d, class_col d)
      | ExtensionDeclarationStmt d \<Rightarrow> (ext_line d, ext_col d)
      | EnumDeclarationStmt d \<Rightarrow> (enum_line d, enum_col d)
      | TypeAliasDeclaration _ _ l c \<Rightarrow> (l, c) | InterfaceDeclaration _ _ l c \<Rightarrow> (l, c)
      | ReturnStmt _ l c \<Rightarrow> (l, c) | BreakStmt l c \<Rightarrow> (l, c) | ContinueStmt l c \<Rightarrow> (l, c)
      | BlockStmt _ l c \<Rightarrow> (l, c) | IfStmt _ _ _ l c \<Rightarrow> (l, c) | WhileStmt _ _ l c \<Rightarrow> (l, c)
      | ForStmt _ _ _ _ l c \<Rightarrow> (l, c) | ForOfStmt _ _ _ l c \<Rightarrow> (l, c) | SwitchStmt _ _ l c \<Rightarrow> (l, c)
      | ExpressionStmt _ l c \<Rightarrow> (l, c) | TryStmt _ _ _ _ l c \<Rightarrow> (l, c) | DelStmt _ l c \<Rightarrow> (l, c)
      | ThrowStmt _ l c \<Rightarrow> (l, c) | ImportDecl _ _ _ l c \<Rightarrow> (l, c) | ExportDecl _ _ l c \<Rightarrow> (l, c))"

end
