(* ===== verification/ParserBase.thy ===== *)
theory ParserBase
  imports LexerFacts Ast
begin

text \<open>
  The state of the parser, \<open>struct Parser\<close> of \<open>src/compiler/frontend/parser.rs\<close>, its token
  helpers, and the laws by which the parsing functions are shown to end. A parsing function
  takes the state and returns a value and the next state, or panics, or runs out of fuel.
\<close>

section \<open>State and sequencing\<close>

record pstate =
  p_tokens :: "Token list"
  p_current :: nat
  p_errors :: "Diagnostic list"
  p_filename :: string

type_synonym 'a parser = "('a, pstate) program"

definition parser_new :: "Token list \<Rightarrow> string \<Rightarrow> pstate" where
  "parser_new ts file = \<lparr>p_tokens = ts, p_current = 0, p_errors = [], p_filename = file\<rparr>"

definition has_errors :: "pstate \<Rightarrow> bool" where
  "has_errors s \<longleftrightarrow> p_errors s \<noteq> []"

text \<open>
  The tokens from the current one on, and their weight: the number of times a loop that consumes
  a token per round can go round.
\<close>

definition weight :: "pstate \<Rightarrow> nat" where
  "weight s = sum_list (map tok_weight (drop (p_current s) (p_tokens s)))"

text \<open>A loop whose body goes on with \<open>Inl\<close> and leaves with \<open>Inr\<close>.\<close>

fun loop_n :: "nat \<Rightarrow> ('a \<Rightarrow> ('a + 'b) parser) \<Rightarrow> 'a \<Rightarrow> 'b parser" where
  "loop_n 0 body a s = NoFuel"
| "loop_n (Suc n) body a s =
     (case body a s of
        Done (Inl a', s') \<Rightarrow> loop_n n body a' s'
      | Done (Inr c, s') \<Rightarrow> Done (c, s')
      | Panic \<Rightarrow> Panic
      | NoFuel \<Rightarrow> NoFuel)"

definition ploop :: "('a \<Rightarrow> ('a + 'b) parser) \<Rightarrow> 'a \<Rightarrow> 'b parser" where
  "ploop body a s = loop_n (Suc (weight s)) body a s"

abbreviation again :: "'a \<Rightarrow> ('a + 'b) parser" where
  "again a \<equiv> ret (Inl a)"

abbreviation leave :: "'b \<Rightarrow> ('a + 'b) parser" where
  "leave c \<equiv> ret (Inr c)"

section \<open>Reading tokens\<close>

text \<open>\<open>self.tokens[i]\<close>: out of range is a panic.\<close>

definition token_index :: "nat \<Rightarrow> Token parser" where
  "token_index i s = (if i < length (p_tokens s) then Done (p_tokens s ! i, s) else Panic)"

definition peek :: "Token parser" where
  "peek s = token_index (p_current s) s"

definition is_at_end :: "bool parser" where
  "is_at_end = pmap (\<lambda>t. token_type t = TkEndOfFile) peek"

definition check :: "TokenType \<Rightarrow> bool parser" where
  "check ty =
     (pbind is_at_end (\<lambda>e.
       if e then ret False else pmap (\<lambda>t. token_type t = ty) peek))"

definition check_next :: "TokenType \<Rightarrow> bool parser" where
  "check_next ty s =
     (if length (p_tokens s) \<le> p_current s + 1 then Done (False, s)
      else Done (token_type (p_tokens s ! (p_current s + 1)) = ty, s))"

text \<open>\<open>self.tokens[self.current - 1]\<close>: at the start the index is out of range.\<close>

definition before :: "Token parser" where
  "before s = (if p_current s = 0 then Panic else token_index (p_current s - 1) s)"

definition advance :: "Token parser" where
  "advance =
     (pbind is_at_end (\<lambda>e.
       pbind ((\<lambda>s. Done ((), if e then s else s\<lparr>p_current := p_current s + 1\<rparr>))) (\<lambda>_.
       before)))"

definition default_token :: Token where
  "default_token = new_token TkEndOfFile [] 1 1"

definition previous :: "Token parser" where
  "previous s =
     (if p_current s = 0 then Done (case p_tokens s of [] \<Rightarrow> default_token | t # _ \<Rightarrow> t, s)
      else token_index (p_current s - 1) s)"

text \<open>\<open>self.tokens[self.current - 1]\<close> with another type and text, the end of \<open>match_token\<close>.\<close>

definition retype_before :: "TokenType \<Rightarrow> string \<Rightarrow> bool parser" where
  "retype_before ty v s =
     (let i = p_current s - 1 in
      if p_current s = 0 \<or> length (p_tokens s) \<le> i then Panic
      else Done (True, s\<lparr>p_tokens := (p_tokens s)[i := (p_tokens s ! i)\<lparr>token_type := ty, tok_value := v\<rparr>]\<rparr>))"

text \<open>The operators \<open>match_token\<close> also accepts as two tokens: first part and text.\<close>

definition split_operator :: "TokenType \<Rightarrow> (TokenType \<times> TokenType \<times> string) option" where
  "split_operator ty =
     (case ty of
        TkEqualEqual \<Rightarrow> Some (TkEquals, TkEquals, ''=='')
      | TkBangEqual \<Rightarrow> Some (TkBang, TkEquals, ''!='')
      | TkLessEqual \<Rightarrow> Some (TkLess, TkEquals, ''<='')
      | TkGreaterEqual \<Rightarrow> Some (TkGreater, TkEquals, ''>='')
      | TkPlusPlus \<Rightarrow> Some (TkPlus, TkPlus, ''++'')
      | TkMinusMinus \<Rightarrow> Some (TkMinus, TkMinus, ''--'')
      | _ \<Rightarrow> None)"

definition match_split :: "TokenType \<Rightarrow> TokenType \<times> TokenType \<times> string \<Rightarrow> bool parser" where
  "match_split ty r =
     (case r of (t1, t2, v) \<Rightarrow>
        (pbind (check t1) (\<lambda>c.
          pbind (check_next t2) (\<lambda>n.
          if c \<and> n then (pbind advance (\<lambda>_.
             pbind advance (\<lambda>_.
             retype_before ty v)))
           else ret False))))"

definition match_token :: "TokenType \<Rightarrow> bool parser" where
  "match_token ty =
     (pbind (check ty) (\<lambda>c.
       if c then (pbind advance (\<lambda>_.
          ret True))
        else case split_operator ty of None \<Rightarrow> ret False | Some r \<Rightarrow> match_split ty r))"

text \<open>\<open>match_token(a) || match_token(b) || ...\<close>.\<close>

primrec match_any :: "TokenType list \<Rightarrow> bool parser" where
  "match_any [] = ret False"
| "match_any (ty # tys) = (pbind (match_token ty) (\<lambda>m.
  if m then ret True else match_any tys))"

text \<open>\<open>!self.check(ty) && !self.is_at_end()\<close>.\<close>

definition before_token :: "TokenType \<Rightarrow> bool parser" where
  "before_token ty = (pbind (check ty) (\<lambda>c.
    if c then ret False else pmap Not is_at_end))"

section \<open>Errors\<close>

definition push_error :: "string \<Rightarrow> nat \<Rightarrow> nat \<Rightarrow> string \<Rightarrow> unit parser" where
  "push_error msg l c hint s =
     Done ((), s\<lparr>p_errors := p_errors s @
       [with_label msg (with_hint hint (with_code ''E0002'' (diagnostic_new msg l c (p_filename s))))]\<rparr>)"

definition generic_hint :: string where
  "generic_hint = ''Check for a missing, extra, or misplaced token near this location.''"

definition quoted :: "char \<Rightarrow> string" where
  "quoted c = [quote_char, c, quote_char]"

definition error_hint :: "string \<Rightarrow> string" where
  "error_hint msg =
     (if str_contains msg (quoted (CHR '';'')) then
        ''Statements in TejX must end with a semicolon '' @ quoted (CHR '';'')
      else if str_contains msg (quoted (CHR '')'')) then
        ''Check for an unclosed or misplaced parenthesis '' @ quoted (CHR '')'')
      else if str_contains msg (quoted (CHR ''}'')) then
        ''Check for an unclosed or misplaced brace '' @ quoted (CHR ''}'')
      else if str_contains msg (quoted (CHR '']'')) then
        ''Check for an unclosed or misplaced bracket '' @ quoted (CHR '']'')
      else if str_contains msg (quoted (CHR '':'')) then
        ''Type annotations require a colon '' @ quoted (CHR '':'') @ '', e.g., '' @
          quote_char # ''let x: int = 1'' @ [quote_char]
      else generic_hint)"

definition push_parse_error :: "string \<Rightarrow> nat \<Rightarrow> nat \<Rightarrow> unit parser" where
  "push_parse_error msg l c = push_error msg l c (error_hint msg)"

text \<open>\<open>Expected 'x'\<close>, with what follows it.\<close>

definition expected :: "string \<Rightarrow> string \<Rightarrow> string" where
  "expected x suffix = ''Expected '' @ quote_char # x @ quote_char # suffix"

definition after_token :: "Token \<Rightarrow> nat \<times> nat" where
  "after_token t = (tok_line t, tok_column t + byte_len (tok_value t))"

definition consume :: "TokenType \<Rightarrow> string \<Rightarrow> Token parser" where
  "consume ty msg =
     (pbind (check ty) (\<lambda>c.
       if c then advance
        else (pbind peek (\<lambda>t.
          pbind ((\<lambda>s. if ty = TkSemicolon \<and> 0 < p_current s then pmap after_token previous s
                                 else Done ((tok_line t, tok_column t), s))) (\<lambda>(l, col).
          pbind (push_error msg l col generic_hint) (\<lambda>_.
          advance))))))"

definition keyword_identifiers :: "TokenType list" where
  "keyword_identifiers =
     [TkInterface, TkEnum, TkCatch, TkFinally, TkOption, TkOptional, TkString, TkNumber, TkFrom, TkTo,
      TkOf, TkPublic, TkPrivate, TkProtected, TkStatic, TkAbstract, TkExtends, TkSome, TkNone,
      TkNamespace, TkAs, TkTypeAlias, TkTypeVoid, TkTypeInt, TkTypeInt8, TkTypeUInt8, TkTypeFloat,
      TkTypeInt16, TkTypeUInt16, TkTypeUInt, TkTypeInt64, TkTypeUInt64, TkTypeInt128, TkTypeUInt128,
      TkTypeFloat16, TkTypeFloat64, TkTypeChar, TkTypeString, TkTypeBoolean]"

definition is_keyword_identifier :: "bool parser" where
  "is_keyword_identifier = pmap (\<lambda>t. token_type t \<in> set keyword_identifiers) peek"

text \<open>\<open>self.check(TokenType::Identifier) || self.is_keyword_identifier()\<close>.\<close>

definition check_name :: "bool parser" where
  "check_name = (pbind (check TkIdentifier) (\<lambda>c.
    if c then ret True else is_keyword_identifier))"

definition consume_identifier :: "string \<Rightarrow> Token parser" where
  "consume_identifier msg =
     (pbind (check TkIdentifier) (\<lambda>c.
       if c then advance
        else (pbind is_keyword_identifier (\<lambda>k.
          if k then pmap (\<lambda>t. t\<lparr>token_type := TkIdentifier\<rparr>) advance
                else (pbind peek (\<lambda>t.
                  pbind (push_parse_error msg (tok_line t) (tok_column t)) (\<lambda>_.
                  pbind advance (\<lambda>_.
                  ret t))))))))"

definition consume_name :: "string \<Rightarrow> string parser" where
  "consume_name msg = pmap tok_value (consume_identifier msg)"

text \<open>\<open>loop { xs.push(item); if !self.match_token(Comma) { break; } }\<close>.\<close>

definition comma_loop :: "'a parser \<Rightarrow> 'a list parser" where
  "comma_loop item =
     ploop (\<lambda>xs. (pbind item (\<lambda>x.
       pbind (match_token TkComma) (\<lambda>c.
       if c then again (xs @ [x]) else leave (xs @ [x]))))) []"

end
