(* ===== verification/ParserLaws.thy ===== *)
theory ParserLaws
  imports ParserBase
begin

text \<open>
  The laws of the parsing functions. \<open>good b s\<close>: the tokens end in their only end-of-file token
  and the position is inside; unless panics are tolerated (\<open>b\<close>) there is no template literal,
  and the position is past the start or not at the end. \<open>okst b s0 s\<close>: such a state that a
  parsing function can reach from \<open>s0\<close>. A triple \<open>wp b W s0 p Q s\<close> says that \<open>p\<close> ends from \<open>s\<close>
  in a state with \<open>Q\<close>; \<open>eats b W p\<close> is the contract of every parsing function: it ends, goes on
  in the tokens, only adds errors, and consumes a token unless it is at the end.
\<close>

named_theorems wp_rules \<open>triples of the parsing functions\<close>

section \<open>States and the way between them\<close>

definition good :: "bool \<Rightarrow> pstate \<Rightarrow> bool" where
  "good b s \<longleftrightarrow>
     eof_terminated (p_tokens s) \<and> p_current s < length (p_tokens s) \<and>
     (b \<or> ((\<forall>t \<in> set (p_tokens s). token_type t \<noteq> TkTemplateString) \<and> (0 < p_current s \<or> 0 < weight s)))"

definition reach :: "pstate \<Rightarrow> pstate \<Rightarrow> bool" where
  "reach s s' \<longleftrightarrow>
     map tok_weight (p_tokens s') = map tok_weight (p_tokens s) \<and> p_current s \<le> p_current s' \<and>
     p_filename s' = p_filename s \<and> (\<exists>es. p_errors s' = p_errors s @ es)"

definition okst :: "bool \<Rightarrow> pstate \<Rightarrow> pstate \<Rightarrow> bool" where
  "okst b s0 s \<longleftrightarrow> good b s \<and> reach s0 s"

definition moved :: "bool \<Rightarrow> pstate \<Rightarrow> bool" where
  "moved b s \<longleftrightarrow> b \<or> 0 < p_current s"

lemma is_eof_weight: "is_eof t \<longleftrightarrow> tok_weight t = 0"
  by (simp add: tok_weight_def)

lemma eof_terminated_weights:
  "eof_terminated ts \<longleftrightarrow> (\<exists>ws. map tok_weight ts = ws @ [0] \<and> 0 \<notin> set ws)"
proof
  assume "eof_terminated ts"
  then show "\<exists>ws. map tok_weight ts = ws @ [0] \<and> 0 \<notin> set ws"
    by (fastforce simp: eof_terminated_def is_eof_weight)
next
  assume "\<exists>ws. map tok_weight ts = ws @ [0] \<and> 0 \<notin> set ws"
  then obtain ws where ws: "map tok_weight ts = ws @ [0]" "0 \<notin> set ws" by blast
  from ws(1) obtain us t where "ts = us @ [t]" "map tok_weight us = ws" "tok_weight t = 0"
    by (auto simp: map_eq_append_conv)
  with ws(2) show "eof_terminated ts"
    by (fastforce simp: eof_terminated_def is_eof_weight)
qed

lemma weight_map: "weight s = sum_list (drop (p_current s) (map tok_weight (p_tokens s)))"
  by (simp add: weight_def drop_map)

lemma weight_errors [simp]: "weight (s\<lparr>p_errors := es\<rparr>) = weight s"
  by (simp add: weight_def)

lemma reach_refl [simp]: "reach s s"
  by (simp add: reach_def)

lemma reach_trans: "reach s1 s2 \<Longrightarrow> reach s2 s3 \<Longrightarrow> reach s1 s3"
  by (auto simp: reach_def)

lemma sum_list_drop_le: "i \<le> j \<Longrightarrow> sum_list (drop j ws) \<le> sum_list (drop i (ws :: nat list))"
proof -
  assume "i \<le> j"
  then have "drop i ws = take (j - i) (drop i ws) @ drop j ws"
    by (metis append_take_drop_id drop_drop le_add_diff_inverse2)
  then have "sum_list (drop i ws) = sum_list (take (j - i) (drop i ws)) + sum_list (drop j ws)"
    by (metis sum_list_append)
  then show ?thesis by linarith
qed

lemma reach_weight: "reach s s' \<Longrightarrow> weight s' \<le> weight s"
  by (simp add: reach_def weight_map sum_list_drop_le)

lemma good_eof:
  assumes "good b s"
  shows "token_type (p_tokens s ! p_current s) = TkEndOfFile \<longleftrightarrow> weight s = 0"
proof -
  obtain ws where ws: "map tok_weight (p_tokens s) = ws @ [0]" "0 \<notin> set ws"
    using assms by (auto simp: good_def eof_terminated_weights)
  have l: "length (p_tokens s) = Suc (length ws)" using ws(1) by (metis length_append_singleton length_map)
  have n: "tok_weight (p_tokens s ! p_current s) = (ws @ [0]) ! p_current s"
    using assms ws(1) by (metis good_def nth_map)
  have c: "p_current s \<le> length ws" using assms l by (simp add: good_def)
  have d: "drop (p_current s) (ws @ [0]) = (ws @ [0]) ! p_current s # drop (Suc (p_current s)) (ws @ [0])"
    using c by (metis Cons_nth_drop_Suc length_append_singleton le_imp_less_Suc)
  show ?thesis
  proof (cases "p_current s = length ws")
    case True
    then show ?thesis using n is_eof_weight [of "p_tokens s ! p_current s"]
      by (simp add: weight_map ws(1) is_eof_def)
  next
    case False
    then have "ws ! p_current s \<in> set ws" "(ws @ [0]) ! p_current s = ws ! p_current s" using c by (auto simp: nth_append)
    with ws(2) n d show ?thesis using is_eof_weight [of "p_tokens s ! p_current s"]
      by (auto simp: weight_map ws(1) is_eof_def simp del: drop_append)
  qed
qed

lemma good_step:
  assumes "good b s" "0 < weight s"
  shows "good b (s\<lparr>p_current := Suc (p_current s)\<rparr>)" "weight (s\<lparr>p_current := Suc (p_current s)\<rparr>) < weight s"
    "Suc (p_current s) < length (p_tokens s)"
proof -
  obtain ws where ws: "map tok_weight (p_tokens s) = ws @ [0]" "0 \<notin> set ws"
    using assms by (auto simp: good_def eof_terminated_weights)
  have l: "length (p_tokens s) = Suc (length ws)" using ws(1) by (metis length_append_singleton length_map)
  have c: "p_current s < length ws"
    using assms l by (cases "p_current s = length ws") (auto simp: good_def weight_map ws(1))
  then show s: "Suc (p_current s) < length (p_tokens s)" using l by simp
  then show "good b (s\<lparr>p_current := Suc (p_current s)\<rparr>)" using assms(1) by (auto simp: good_def)
  have "drop (p_current s) (ws @ [0]) = ws ! p_current s # drop (Suc (p_current s)) (ws @ [0])"
    using c by (metis Cons_nth_drop_Suc length_append_singleton less_SucI nth_append)
  moreover have "ws ! p_current s \<noteq> 0" using c ws(2) by (metis nth_mem)
  ultimately show "weight (s\<lparr>p_current := Suc (p_current s)\<rparr>) < weight s"
    by (simp add: weight_map ws(1) del: drop_append)
qed

lemma okst_refl [intro]: "good b s \<Longrightarrow> okst b s s"
  by (simp add: okst_def)

lemma okst_trans: "okst b s0 s1 \<Longrightarrow> okst b s1 s2 \<Longrightarrow> okst b s0 s2"
  by (auto simp: okst_def intro: reach_trans)

lemma okst_good: "okst b s0 s \<Longrightarrow> good b s"
  by (simp add: okst_def)

lemma okst_weight: "okst b s0 s \<Longrightarrow> weight s \<le> weight s0"
  by (simp add: okst_def reach_weight)

lemma moved_step: "good b s \<Longrightarrow> okst b s s' \<Longrightarrow> weight s' \<le> weight s - 1 \<Longrightarrow> moved b s'"
proof (cases "b \<or> 0 < p_current s")
  case True
  then show "okst b s s' \<Longrightarrow> moved b s'" by (auto simp: moved_def okst_def reach_def)
next
  case False
  assume a: "good b s" "okst b s s'" "weight s' \<le> weight s - 1"
  with False have "0 < weight s" by (simp add: good_def)
  with a(3) have "weight s' \<noteq> weight s" by simp
  then have "p_current s' \<noteq> p_current s" using a(2) by (auto simp: okst_def reach_def weight_map)
  with False a(2) show ?thesis by (simp add: moved_def okst_def reach_def)
qed

section \<open>Triples\<close>

definition wp :: "bool \<Rightarrow> nat \<Rightarrow> pstate \<Rightarrow> 'a parser \<Rightarrow> ('a \<Rightarrow> pstate \<Rightarrow> bool) \<Rightarrow> pstate \<Rightarrow> bool" where
  "wp b W s0 p Q s \<longleftrightarrow> outcome_sat b (p s) (\<lambda>(a, s'). Q a s')"

definition eats :: "bool \<Rightarrow> nat \<Rightarrow> 'a parser \<Rightarrow> bool" where
  "eats b W p \<longleftrightarrow>
     (\<forall>s. good b s \<longrightarrow> weight s \<le> W \<longrightarrow>
        outcome_sat b (p s) (\<lambda>(a, s'). okst b s s' \<and> weight s' \<le> weight s - 1))"

text \<open>The contract of a function that is only called before a token it consumes.\<close>

definition eats_more :: "bool \<Rightarrow> nat \<Rightarrow> 'a parser \<Rightarrow> bool" where
  "eats_more b W p \<longleftrightarrow>
     (\<forall>s. good b s \<longrightarrow> weight s \<le> W \<longrightarrow> 0 < weight s \<longrightarrow>
        outcome_sat b (p s) (\<lambda>(a, s'). okst b s s' \<and> weight s' \<le> weight s - 1))"

lemma wp_bind [wp_rules]: "wp b W s0 m (\<lambda>a. wp b W s0 (f a) Q) s \<Longrightarrow> wp b W s0 (pbind m f) Q s"
  by (cases "m s") (auto simp: wp_def pbind_def)

lemma wp_ret [wp_rules]: "Q a s \<Longrightarrow> wp b W s0 (ret a) Q s"
  by (simp add: wp_def ret_def)

lemma wp_pmap [wp_rules]: "wp b W s0 m (\<lambda>a. Q (f a)) s \<Longrightarrow> wp b W s0 (pmap f m) Q s"
  unfolding pmap_def by (rule wp_bind) (auto simp: wp_def ret_def)

lemma wp_if [wp_rules]:
  "(c \<Longrightarrow> wp b W s0 p Q s) \<Longrightarrow> (\<not> c \<Longrightarrow> wp b W s0 q Q s) \<Longrightarrow> wp b W s0 (if c then p else q) Q s"
  by simp

lemma wp_option [wp_rules]:
  "(x = None \<Longrightarrow> wp b W s0 p Q s) \<Longrightarrow> (\<And>a. x = Some a \<Longrightarrow> wp b W s0 (f a) Q s) \<Longrightarrow>
     wp b W s0 (case x of None \<Rightarrow> p | Some a \<Rightarrow> f a) Q s"
  by (cases x) auto

lemma wp_prod [wp_rules]:
  "(\<And>a c. x = (a, c) \<Longrightarrow> wp b W s0 (f a c) Q s) \<Longrightarrow> wp b W s0 (case x of (a, c) \<Rightarrow> f a c) Q s"
  by (cases x) auto

lemma wp_mono: "wp b W s0 p Q s \<Longrightarrow> (\<And>a s'. Q a s' \<Longrightarrow> Q' a s') \<Longrightarrow> wp b W' s1 p Q' s"
  by (cases "p s") (auto simp: wp_def)

lemma eatsI:
  "(\<And>s. good b s \<Longrightarrow> okst b s s \<Longrightarrow> weight s \<le> W \<Longrightarrow>
      wp b W s p (\<lambda>a s'. okst b s s' \<and> weight s' \<le> weight s - 1) s) \<Longrightarrow> eats b W p"
  by (auto simp: eats_def wp_def)

lemma eats_moreI:
  "(\<And>s. good b s \<Longrightarrow> okst b s s \<Longrightarrow> weight s \<le> W \<Longrightarrow> 0 < weight s \<Longrightarrow>
      wp b W s p (\<lambda>a s'. okst b s s' \<and> weight s' \<le> weight s - 1) s) \<Longrightarrow> eats_more b W p"
  by (auto simp: eats_more_def wp_def)

lemma wp_from:
  fixes p :: "'c parser"
  assumes "okst b s0 s" "outcome_sat b (p s) (\<lambda>(a, s'). okst b s s' \<and> weight s' \<le> weight s - 1)"
    "\<And>a s'. okst b s0 s' \<Longrightarrow> moved b s' \<Longrightarrow> weight s' \<le> weight s \<Longrightarrow> weight s' \<le> weight s0 - 1 \<Longrightarrow> Q a s'"
  shows "wp b W s0 p Q s"
  unfolding wp_def
proof (rule outcome_sat_mono [OF assms(2)])
  fix r :: "'c \<times> pstate" assume r: "case r of (a, s') \<Rightarrow> okst b s s' \<and> weight s' \<le> weight s - 1"
  obtain a s' where e: "r = (a, s')" by (cases r)
  show "case r of (a, s') \<Rightarrow> Q a s'"
    using assms(3) [of s' a] r okst_trans [OF assms(1)] okst_weight [OF assms(1)]
      moved_step [OF okst_good [OF assms(1)]]
    by (auto simp: e)
qed

lemma wp_eats:
  assumes "eats b W p" "okst b s0 s" "weight s \<le> W"
    "\<And>a s'. okst b s0 s' \<Longrightarrow> moved b s' \<Longrightarrow> weight s' \<le> weight s \<Longrightarrow> weight s' \<le> weight s0 - 1 \<Longrightarrow> Q a s'"
  shows "wp b W s0 p Q s"
  using assms okst_good by (intro wp_from) (auto simp: eats_def)

lemma wp_eats_any:
  assumes "eats b (weight s) p" "okst b s0 s"
    "\<And>a s'. okst b s0 s' \<Longrightarrow> moved b s' \<Longrightarrow> weight s' \<le> weight s \<Longrightarrow> weight s' \<le> weight s0 - 1 \<Longrightarrow> Q a s'"
  shows "wp b W s0 p Q s"
  using assms okst_good by (intro wp_from) (auto simp: eats_def)

lemma wp_eats_more:
  assumes "eats_more b W p" "okst b s0 s" "weight s \<le> W" "0 < weight s"
    "\<And>a s'. okst b s0 s' \<Longrightarrow> moved b s' \<Longrightarrow> weight s' \<le> weight s \<Longrightarrow> weight s' \<le> weight s0 - 1 \<Longrightarrow> Q a s'"
  shows "wp b W s0 p Q s"
  using assms okst_good by (intro wp_from) (auto simp: eats_more_def)

text \<open>Loops: every round that goes on consumes a token.\<close>

lemma loop_n_sat:
  assumes "\<And>a s. okst b s0 s \<Longrightarrow> moved b s \<Longrightarrow>
      outcome_sat b (body a s) (\<lambda>(r, s'). okst b s s' \<and> moved b s' \<and> (\<forall>a'. r = Inl a' \<longrightarrow> weight s' < weight s))"
    "okst b s0 s" "moved b s" "weight s < n"
  shows "outcome_sat b (loop_n n body a s) (\<lambda>(c, s'). okst b s s' \<and> moved b s')"
  using assms(2-)
proof (induction n arbitrary: a s)
  case (Suc n)
  have b: "outcome_sat b (body a s) (\<lambda>(r, s'). okst b s s' \<and> moved b s' \<and> (\<forall>a'. r = Inl a' \<longrightarrow> weight s' < weight s))"
    using assms(1) Suc.prems by blast
  show ?case
  proof (cases "body a s")
    case (Done r)
    obtain x s' where r: "r = (x, s')" by (cases r)
    have ok: "okst b s s'" "moved b s'" using b Done r by auto
    show ?thesis
    proof (cases x)
      case (Inl a')
      then have "weight s' < n" using b Done r Suc.prems by auto
      from Suc.IH [OF okst_trans [OF Suc.prems(1) ok(1)] ok(2) this, of a']
      have "outcome_sat b (loop_n n body a' s') (\<lambda>(c, s''). okst b s' s'' \<and> moved b s'')" .
      then have "outcome_sat b (loop_n n body a' s') (\<lambda>(c, s''). okst b s s'' \<and> moved b s'')"
        by (rule outcome_sat_mono) (auto intro: okst_trans [OF ok(1)])
      then show ?thesis using Done r Inl by simp
    qed (use Done r ok in simp)
  qed (use b in auto)
qed simp

lemma wp_loop [wp_rules]:
  fixes body :: "'d \<Rightarrow> ('d + 'c) parser"
  assumes "okst b s0 s" "moved b s"
    "\<And>a s1. good b s1 \<Longrightarrow> okst b s1 s1 \<Longrightarrow> moved b s1 \<Longrightarrow> weight s1 \<le> weight s \<Longrightarrow>
       wp b W s1 (body a) (\<lambda>r s2. okst b s1 s2 \<and> moved b s2 \<and> (\<forall>a'. r = Inl a' \<longrightarrow> weight s2 < weight s1)) s1"
    "\<And>c s'. okst b s0 s' \<Longrightarrow> moved b s' \<Longrightarrow> weight s' \<le> weight s \<Longrightarrow> Q c s'"
  shows "wp b W s0 (ploop body a) Q s"
  unfolding wp_def ploop_def
proof (rule outcome_sat_mono [OF loop_n_sat [of b s]])
  fix a' s1 assume s1: "okst b s s1" "moved b s1"
  show "outcome_sat b (body a' s1) (\<lambda>(r, s'). okst b s1 s' \<and> moved b s' \<and> (\<forall>a'. r = Inl a' \<longrightarrow> weight s' < weight s1))"
    using assms(3) [of s1 a'] s1 okst_good [OF s1(1)] okst_weight [OF s1(1)] okst_refl by (auto simp: wp_def)
next
  fix r :: "'c \<times> pstate" assume "case r of (c, s') \<Rightarrow> okst b s s' \<and> moved b s'"
  then show "case r of (c, s') \<Rightarrow> Q c s'"
    using assms(4) okst_trans [OF assms(1)] okst_weight by (cases r) auto
qed (use assms okst_good [OF assms(1)] in auto)

text \<open>Functions that are only called after a token was consumed may call the recursive ones.\<close>

definition eats_lt :: "bool \<Rightarrow> nat \<Rightarrow> 'a parser \<Rightarrow> bool" where
  "eats_lt b W p \<longleftrightarrow> (\<forall>n < W. eats b n p)"

lemma wp_eats_lt:
  assumes "eats_lt b W p" "okst b s0 s" "weight s < W"
    "\<And>a s'. okst b s0 s' \<Longrightarrow> moved b s' \<Longrightarrow> weight s' \<le> weight s \<Longrightarrow> weight s' \<le> weight s0 - 1 \<Longrightarrow> Q a s'"
  shows "wp b W s0 p Q s"
  using assms wp_eats [of b "weight s" p s0 s Q] by (auto simp: eats_lt_def wp_def)

lemma eats_ltI:
  "(\<And>s. good b s \<Longrightarrow> okst b s s \<Longrightarrow> weight s < W \<Longrightarrow>
      wp b W s p (\<lambda>a s'. okst b s s' \<and> weight s' \<le> weight s - 1) s) \<Longrightarrow> eats_lt b W p"
  unfolding eats_lt_def eats_def wp_def by (meson le_less_trans okst_refl)

lemma eats_lt_eats: "eats_lt b W p \<Longrightarrow> n < W \<Longrightarrow> eats b n p"
  by (simp add: eats_lt_def)

lemma loop_n_eats:
  assumes "\<And>a s. good b s \<Longrightarrow> weight s \<le> W \<Longrightarrow>
      outcome_sat b (body a s) (\<lambda>(r, s'). okst b s s' \<and> weight s' \<le> weight s - 1 \<and> (\<forall>a'. r = Inl a' \<longrightarrow> weight s' < weight s))"
    "good b s" "weight s \<le> W" "weight s < n"
  shows "outcome_sat b (loop_n n body a s) (\<lambda>(c, s'). okst b s s' \<and> weight s' \<le> weight s - 1)"
  using assms(2-)
proof (induction n arbitrary: a s)
  case (Suc n)
  have b: "outcome_sat b (body a s) (\<lambda>(r, s'). okst b s s' \<and> weight s' \<le> weight s - 1 \<and> (\<forall>a'. r = Inl a' \<longrightarrow> weight s' < weight s))"
    using assms(1) Suc.prems by blast
  show ?case
  proof (cases "body a s")
    case (Done r)
    obtain x s' where r: "r = (x, s')" by (cases r)
    have ok: "okst b s s'" using b Done r by auto
    show ?thesis
    proof (cases x)
      case (Inl a')
      then have w: "weight s' < n" "weight s' \<le> W" "weight s' < weight s" using b Done r Suc.prems by auto
      show ?thesis
        using outcome_sat_mono [OF Suc.IH [OF okst_good [OF ok] w(2,1), of a']] w(3) okst_trans [OF ok]
        by (auto simp: Done r Inl intro!: outcome_sat_mono [OF Suc.IH [OF okst_good [OF ok] w(2,1), of a']])
    qed (use b Done r in auto)
  qed (use b in auto)
qed simp

section \<open>The token helpers\<close>

lemma peek_good: "good b s \<Longrightarrow> peek s = Done (p_tokens s ! p_current s, s)"
  by (simp add: good_def peek_def token_index_def)

lemma at_end_good: "good b s \<Longrightarrow> is_at_end s = Done (weight s = 0, s)"
  by (simp add: is_at_end_def pmap_def pbind_def ret_def peek_good good_eof)

lemma check_good:
  "good b s \<Longrightarrow> check ty s = Done (0 < weight s \<and> token_type (p_tokens s ! p_current s) = ty, s)"
  by (simp add: check_def pbind_def at_end_good pmap_def ret_def peek_good)

lemma advance_good:
  assumes "good b s"
  shows "advance s =
    (if 0 < weight s then Done (p_tokens s ! p_current s, s\<lparr>p_current := Suc (p_current s)\<rparr>)
     else if p_current s = 0 then Panic else Done (p_tokens s ! (p_current s - 1), s))"
  using assms at_end_good [OF assms]
  by (auto simp: advance_def pbind_def before_def token_index_def good_def)

lemma wp_peek [wp_rules]: "okst b s0 s \<Longrightarrow> (\<And>t. Q t s) \<Longrightarrow> wp b W s0 peek Q s"
  using peek_good [of b s] by (simp add: wp_def okst_def)

lemma wp_at_end [wp_rules]:
  "okst b s0 s \<Longrightarrow> (weight s = 0 \<Longrightarrow> Q True s) \<Longrightarrow> (0 < weight s \<Longrightarrow> Q False s) \<Longrightarrow> wp b W s0 is_at_end Q s"
  using at_end_good [of b s] by (cases "weight s = 0") (auto simp: wp_def okst_def)

lemma wp_check [wp_rules]:
  "okst b s0 s \<Longrightarrow> (0 < weight s \<Longrightarrow> Q True s) \<Longrightarrow> Q False s \<Longrightarrow> wp b W s0 (check ty) Q s"
  using check_good [of b s ty]
  by (cases "0 < weight s \<and> token_type (p_tokens s ! p_current s) = ty") (auto simp: wp_def okst_def)

lemma wp_check_next [wp_rules]: "(\<And>c. Q c s) \<Longrightarrow> wp b W s0 (check_next ty) Q s"
  by (simp add: wp_def check_next_def)

lemma wp_before_token [wp_rules]:
  "okst b s0 s \<Longrightarrow> (0 < weight s \<Longrightarrow> Q True s) \<Longrightarrow> Q False s \<Longrightarrow> wp b W s0 (before_token ty) Q s"
  using check_good [of b s ty] at_end_good [of b s]
  by (cases "weight s = 0"; cases "token_type (p_tokens s ! p_current s) = ty")
    (auto simp: wp_def okst_def before_token_def pbind_def pmap_def ret_def)

lemma wp_keyword [wp_rules]: "okst b s0 s \<Longrightarrow> (0 < weight s \<Longrightarrow> Q True s) \<Longrightarrow> Q False s \<Longrightarrow> wp b W s0 is_keyword_identifier Q s"
  using good_eof [of b s] peek_good [of b s]
  by (cases "weight s = 0"; cases "token_type (p_tokens s ! p_current s) \<in> set keyword_identifiers")
    (auto simp: wp_def okst_def is_keyword_identifier_def pbind_def pmap_def ret_def keyword_identifiers_def)

lemma wp_check_name [wp_rules]:
  "okst b s0 s \<Longrightarrow> (0 < weight s \<Longrightarrow> Q True s) \<Longrightarrow> Q False s \<Longrightarrow> wp b W s0 check_name Q s"
  unfolding check_name_def by (auto intro!: wp_rules)

lemma wp_before [wp_rules]: "okst b s0 s \<Longrightarrow> moved b s \<Longrightarrow> (\<And>t. Q t s) \<Longrightarrow> wp b W s0 before Q s"
  by (auto simp: wp_def okst_def before_def token_index_def good_def moved_def)

lemma wp_previous [wp_rules]: "okst b s0 s \<Longrightarrow> (\<And>t. Q t s) \<Longrightarrow> wp b W s0 previous Q s"
  by (auto simp: wp_def okst_def previous_def token_index_def good_def)

lemma okst_errors: "okst b s0 s \<Longrightarrow> okst b s0 (s\<lparr>p_errors := p_errors s @ es\<rparr>)"
  by (auto simp: okst_def good_def reach_def)

lemma wp_push_error [wp_rules]:
  "okst b s0 s \<Longrightarrow> (\<And>s'. okst b s0 s' \<Longrightarrow> weight s' = weight s \<Longrightarrow> p_current s' = p_current s \<Longrightarrow> Q () s') \<Longrightarrow>
     wp b W s0 (push_error msg l c h) Q s"
  by (simp add: wp_def push_error_def okst_errors)

lemma moved_current [simp]: "p_current s' = p_current s \<Longrightarrow> moved b s \<Longrightarrow> moved b s'"
  by (simp add: moved_def)

lemma wp_push_parse_error [wp_rules]:
  "okst b s0 s \<Longrightarrow> (\<And>s'. okst b s0 s' \<Longrightarrow> weight s' = weight s \<Longrightarrow> p_current s' = p_current s \<Longrightarrow> Q () s') \<Longrightarrow>
     wp b W s0 (push_parse_error msg l c) Q s"
  unfolding push_parse_error_def by (rule wp_push_error)

lemma reach_step: "reach s (s\<lparr>p_current := Suc (p_current s)\<rparr>)"
  by (simp add: reach_def)

lemma eats_advance: "eats b W advance"
  unfolding eats_def
proof (intro allI impI)
  fix s assume g: "good b s"
  show "outcome_sat b (advance s) (\<lambda>(a, s'). okst b s s' \<and> weight s' \<le> weight s - 1)"
  proof (cases "0 < weight s")
    case True
    then show ?thesis using good_step [OF g True] g by (simp add: advance_good [OF g] okst_def reach_step)
  next
    case False
    with g show ?thesis by (auto simp: advance_good [OF g] okst_def good_def)
  qed
qed

lemmas wp_advance [wp_rules] = wp_eats_any [OF eats_advance]

lemma consume_position [wp_rules]:
  "okst b s0 s \<Longrightarrow> (\<And>r. Q r s) \<Longrightarrow>
     wp b W s0 (\<lambda>s. if c \<and> 0 < p_current s then pmap after_token previous s else Done ((l, k), s)) Q s"
  using wp_previous [of b s0 s "\<lambda>a. Q (after_token a)" W]
  by (cases "previous s") (auto simp: wp_def pmap_def pbind_def ret_def)

lemma eats_consume: "eats b W (consume ty msg)"
  by (rule eatsI, auto simp: consume_def intro!: wp_rules)

lemmas wp_consume [wp_rules] = wp_eats_any [OF eats_consume]

lemma eats_consume_identifier: "eats b W (consume_identifier msg)"
  by (rule eatsI, auto simp: consume_identifier_def intro!: wp_rules)

lemmas wp_consume_identifier [wp_rules] = wp_eats_any [OF eats_consume_identifier]

lemma eats_consume_name: "eats b W (consume_name msg)"
  by (rule eatsI, auto simp: consume_name_def intro!: wp_rules)

lemmas wp_consume_name [wp_rules] = wp_eats_any [OF eats_consume_name]

text \<open>Matching a token: a token is consumed, or the state stays.\<close>

lemma split_operator_types:
  "split_operator ty = Some (t1, t2, v) \<Longrightarrow>
     t2 \<notin> {TkEndOfFile, TkTemplateString} \<and> ty \<notin> {TkEndOfFile, TkTemplateString}"
  by (auto simp: split_operator_def split: TokenType.splits)

lemma good_retype:
  assumes "good b s" "i < length (p_tokens s)" "token_type (p_tokens s ! i) \<notin> {TkEndOfFile, TkTemplateString}"
    "ty \<notin> {TkEndOfFile, TkTemplateString}" "0 < p_current s"
  shows "okst b s (s\<lparr>p_tokens := (p_tokens s)[i := (p_tokens s ! i)\<lparr>token_type := ty, tok_value := v\<rparr>]\<rparr>)"
proof -
  let ?s = "s\<lparr>p_tokens := (p_tokens s)[i := (p_tokens s ! i)\<lparr>token_type := ty, tok_value := v\<rparr>]\<rparr>"
  have m: "map tok_weight (p_tokens ?s) = map tok_weight (p_tokens s)"
    using assms(2-4) by (intro nth_equalityI) (auto simp: nth_list_update tok_weight_def is_eof_def)
  then have r: "reach s ?s" by (simp add: reach_def)
  have "\<forall>t \<in> set (p_tokens ?s). token_type t \<noteq> TkTemplateString"
    if "\<forall>t \<in> set (p_tokens s). token_type t \<noteq> TkTemplateString"
    using that assms(4) subsetD [OF set_update_subset_insert] by fastforce
  then have "good b ?s"
    using assms m by (auto simp: good_def eof_terminated_weights weight_map)
  with r show ?thesis by (simp add: okst_def)
qed

lemma wp_match_split:
  assumes "okst b s0 s" "split_operator ty = Some r"
    "\<And>s'. okst b s0 s' \<Longrightarrow> moved b s' \<Longrightarrow> 0 < weight s \<Longrightarrow> weight s' < weight s \<Longrightarrow> weight s' \<le> weight s0 - 1 \<Longrightarrow> Q True s'"
    "Q False s"
  shows "wp b W s0 (match_split ty r) Q s"
proof -
  obtain t1 t2 v where r: "r = (t1, t2, v)" by (cases r)
  note ty = split_operator_types [OF assms(2) [unfolded r]]
  have g: "good b s" using assms(1) by (rule okst_good)
  define c where "c = (0 < weight s \<and> token_type (p_tokens s ! p_current s) = t1)"
  define n where "n = (Suc (p_current s) < length (p_tokens s) \<and> token_type (p_tokens s ! Suc (p_current s)) = t2)"
  define s1 where "s1 = s\<lparr>p_current := Suc (p_current s)\<rparr>"
  define s2 where "s2 = s\<lparr>p_current := Suc (Suc (p_current s))\<rparr>"
  have eq: "match_split ty r s =
    (if c \<and> n then pbind advance (\<lambda>_. pbind advance (\<lambda>_. retype_before ty v)) s else Done (False, s))"
    unfolding r by (auto simp: match_split_def pbind_def ret_def check_good [OF g] c_def n_def check_next_def split: if_splits)
  show ?thesis
  proof (cases "c \<and> n")
    case True
    then have w: "0 < weight s" by (simp add: c_def)
    note g1 = good_step [OF g w, folded s1_def]
    have w1: "0 < weight s1" using good_eof [OF g1(1)] True ty by (auto simp: n_def s1_def)
    note g2 = good_step [OF g1(1) w1]
    have s2: "s1\<lparr>p_current := Suc (p_current s1)\<rparr> = s2" by (simp add: s1_def s2_def)
    define s3 where "s3 = s2\<lparr>p_tokens := (p_tokens s2)[Suc (p_current s) :=
      (p_tokens s2 ! Suc (p_current s))\<lparr>token_type := ty, tok_value := v\<rparr>]\<rparr>"
    have d: "match_split ty r s = Done (True, s3)"
      using True g1(3) unfolding eq
      by (simp add: pbind_def advance_good [OF g] advance_good [OF g1(1)] w w1 s1_def [symmetric] s2)
        (simp add: retype_before_def s2_def s1_def s3_def)
    have k: "okst b s2 s3"
      unfolding s3_def
      by (rule good_retype) (use g2(1) True ty in \<open>auto simp: s1_def s2_def n_def\<close>)
    have "reach s s2" by (simp add: s2_def reach_def)
    then have "okst b s s3" using k by (auto simp: okst_def intro: reach_trans)
    moreover have "weight s3 < weight s" using okst_weight [OF k] g1(2) g2(2) unfolding s2 by linarith
    moreover have "moved b s3" by (simp add: moved_def s3_def s2_def)
    ultimately show ?thesis
      using assms(3) [of s3] okst_trans [OF assms(1)] okst_weight [OF assms(1)] w by (simp add: wp_def d)
  qed (use assms(4) eq in \<open>auto simp: wp_def\<close>)
qed

lemma wp_match [wp_rules]:
  assumes "okst b s0 s"
    "\<And>s'. okst b s0 s' \<Longrightarrow> moved b s' \<Longrightarrow> 0 < weight s \<Longrightarrow> weight s' < weight s \<Longrightarrow> weight s' \<le> weight s0 - 1 \<Longrightarrow> Q True s'"
    "Q False s"
  shows "wp b W s0 (match_token ty) Q s"
proof -
  have g: "good b s" using assms(1) by (rule okst_good)
  have "wp b W s0 advance (\<lambda>_. wp b W s0 (ret True) Q) s" if w: "0 < weight s"
  proof -
    have "okst b s (s\<lparr>p_current := Suc (p_current s)\<rparr>)" "moved b (s\<lparr>p_current := Suc (p_current s)\<rparr>)"
      using good_step [OF g w] by (simp_all add: okst_def reach_step moved_def)
    with good_step [OF g w] w show ?thesis
      using assms(2) okst_trans [OF assms(1)] okst_weight [OF assms(1)]
      by (simp add: wp_def advance_good [OF g] ret_def)
  qed
  then show ?thesis
    unfolding match_token_def using assms
    by (auto intro!: wp_bind wp_check wp_option wp_match_split wp_ret)
qed

lemma wp_match_any [wp_rules]:
  assumes "okst b s0 s"
    "\<And>s'. okst b s0 s' \<Longrightarrow> moved b s' \<Longrightarrow> 0 < weight s \<Longrightarrow> weight s' < weight s \<Longrightarrow> weight s' \<le> weight s0 - 1 \<Longrightarrow> Q True s'"
    "Q False s"
  shows "wp b W s0 (match_any tys) Q s"
  using assms by (induction tys) (auto intro!: wp_rules)

section \<open>Lists separated by commas\<close>

lemma eats_comma_loop: "eats b W p \<Longrightarrow> eats b W (comma_loop p)"
  unfolding eats_def [where p = "comma_loop p"]
proof (intro allI impI)
  fix s assume p: "eats b W p" and s: "good b s" "weight s \<le> W"
  have "wp b W s1 (pbind p (\<lambda>x. pbind (match_token TkComma) (\<lambda>c. if c then again (xs @ [x]) else leave (xs @ [x]))))
      (\<lambda>r s2. okst b s1 s2 \<and> weight s2 \<le> weight s1 - 1 \<and> (\<forall>a'. r = Inl a' \<longrightarrow> weight s2 < weight s1)) s1"
    if "good b s1" "weight s1 \<le> W" for s1 xs
    using that by (auto intro!: wp_rules wp_eats [OF p])
  then show "outcome_sat b (comma_loop p s) (\<lambda>(a, s'). okst b s s' \<and> weight s' \<le> weight s - 1)"
    unfolding comma_loop_def ploop_def wp_def
    by (intro loop_n_eats [where W = W]) (use s in simp_all)
qed

lemma eats_lt_comma_loop: "eats_lt b W p \<Longrightarrow> eats_lt b W (comma_loop p)"
  by (simp add: eats_lt_def eats_comma_loop)

lemmas wp_comma_loop [wp_rules] = wp_eats_lt [OF eats_lt_comma_loop]

section \<open>Monotonicity\<close>

lemma loop_n_mono: "(\<And>a. body a \<le> body' a) \<Longrightarrow> loop_n n body a s \<le> loop_n n body' a s"
proof (induction n arbitrary: a s)
  case (Suc n)
  have "body a s \<le> body' a s" using Suc(2) by (auto dest: le_funD)
  with Suc(1) [OF Suc(2)] show ?case
    by (cases "body a s") (auto simp: less_eq_outcome_def split: outcome.splits sum.splits)
qed simp

lemma loop_mono [mono_rules]: "(\<And>a. body a \<le> body' a) \<Longrightarrow> ploop body a \<le> ploop body' a"
  unfolding ploop_def by (rule le_funI, rule loop_n_mono)

lemma comma_loop_mono [mono_rules]: "p \<le> p' \<Longrightarrow> comma_loop p \<le> comma_loop p'"
  unfolding comma_loop_def by (intro mono_rules) simp_all

end
