(* ===== verification/ParserTypes.thy ===== *)
theory ParserTypes
  imports ParserLaws
begin

text \<open>
  Binding patterns, types and parameters, the parts of \<open>src/compiler/frontend/parser.rs\<close> that
  declarations and expressions share. The functions of the parser call each other recursively;
  a function that calls one defined later, or itself, takes it from the record \<open>K\<close>.
\<close>

record parsers =
  k_assignment :: "Expr parser"
  k_expression :: "Expr parser"
  k_unary :: "Expr parser"
  k_type :: "Type_Node parser"
  k_base_type :: "Type_Node parser"
  k_binding :: "BindingNode parser"
  k_declaration :: "Statement option parser"
  k_statement :: "Statement parser"

section \<open>Binding patterns\<close>

text \<open>A comma that may follow an element: \<open>if self.check(Comma) { self.advance(); }\<close>.\<close>

definition skip_comma :: "unit parser" where
  "skip_comma = (pbind (check TkComma) (\<lambda>c.
    if c then pmap (\<lambda>_. ()) advance else ret ()))"

definition array_binding_step ::
  "parsers \<Rightarrow> BindingNode list \<Rightarrow> (BindingNode list + BindingNode list \<times> BindingNode option) parser" where
  "array_binding_step K xs =
     (pbind (before_token TkCloseBracket) (\<lambda>go.
       if \<not> go then leave (xs, None)
        else (pbind (match_token TkEllipsis) (\<lambda>e.
          if e then (pbind (k_binding K) (\<lambda>r.
                  leave (xs, Some r)))
                else (pbind (k_binding K) (\<lambda>x.
                  pbind skip_comma (\<lambda>_.
                  again (xs @ [x]))))))))"

definition object_binding_step ::
  "parsers \<Rightarrow> (string \<times> BindingNode) list \<Rightarrow> ((string \<times> BindingNode) list + (string \<times> BindingNode) list) parser" where
  "object_binding_step K xs =
     (pbind (before_token TkCloseBrace) (\<lambda>go.
       if \<not> go then leave xs
        else (pbind (consume_name ''Expected property name'') (\<lambda>key.
          pbind (match_token TkColon) (\<lambda>c.
          pbind ((if c then k_binding K else ret (BIdentifier key))) (\<lambda>target.
          pbind skip_comma (\<lambda>_.
          again (xs @ [(key, target)]))))))))"

definition parse_binding_pattern :: "parsers \<Rightarrow> BindingNode parser" where
  "parse_binding_pattern K =
     (pbind (check TkOpenBracket) (\<lambda>arr.
       if arr then
          (pbind advance (\<lambda>_.
            pbind (ploop (array_binding_step K) []) (\<lambda>(xs, rest).
            pbind (consume TkCloseBracket (expected '']'' [])) (\<lambda>_.
            ret (ArrayBinding xs rest)))))
        else (pbind (check TkOpenBrace) (\<lambda>obj.
          if obj then
                  (pbind advance (\<lambda>_.
                    pbind (ploop (object_binding_step K) []) (\<lambda>es.
                    pbind (consume TkCloseBrace (expected ''}'' [])) (\<lambda>_.
                    ret (ObjectBinding es)))))
                else (pbind check_name (\<lambda>n.
                  if n then pmap BIdentifier (consume_name ''Expected binding pattern'')
                        else (pbind peek (\<lambda>t.
                          pbind (push_parse_error ''Expected binding pattern'' (tok_line t) (tok_column t)) (\<lambda>_.
                          pbind advance (\<lambda>_.
                          ret (BIdentifier ''__error__'')))))))))))"

section \<open>Types\<close>

definition function_param :: "parsers \<Rightarrow> Type_Node parser" where
  "function_param K =
     (pbind check_name (\<lambda>n.
       pbind (check_next TkColon) (\<lambda>c.
       if n \<and> c then
          (pbind (consume_name ''Param name'') (\<lambda>_.
            pbind (consume TkColon (expected '':'' [])) (\<lambda>_.
            k_type K)))
        else k_type K)))"

definition parse_function_type :: "parsers \<Rightarrow> Type_Node parser" where
  "parse_function_type K =
     (pbind (check TkCloseParen) (\<lambda>c.
       pbind ((if c then ret [] else comma_loop (function_param K))) (\<lambda>ps.
       pbind (consume TkCloseParen (expected '')'' [])) (\<lambda>_.
       pbind (consume TkArrow (expected ''=>'' [])) (\<lambda>_.
       pbind (k_type K) (\<lambda>r.
       ret (TNFunction ps r)))))))"

definition object_type_step ::
  "parsers \<Rightarrow> (string \<times> bool \<times> Type_Node) list \<Rightarrow>
     ((string \<times> bool \<times> Type_Node) list + (string \<times> bool \<times> Type_Node) list) parser" where
  "object_type_step K ms =
     (pbind (before_token TkCloseBrace) (\<lambda>go.
       if \<not> go then leave ms
        else (pbind (consume_name ''Expected property name'') (\<lambda>key.
          pbind (match_token TkQuestion) (\<lambda>opt.
          pbind (consume TkColon (expected '':'' [])) (\<lambda>_.
          pbind (k_type K) (\<lambda>ty.
          pbind (match_any [TkComma, TkSemicolon]) (\<lambda>sep.
          if sep then again (ms @ [(key, opt, ty)]) else leave (ms @ [(key, opt, ty)])))))))))"

definition bracket_step :: "parsers \<Rightarrow> Expr option list \<Rightarrow> (Expr option list + Expr option list) parser" where
  "bracket_step K bs =
     (pbind (match_token TkOpenBracket) (\<lambda>m.
       if \<not> m then leave bs
        else (pbind (match_token TkCloseBracket) (\<lambda>c.
          if c then again (bs @ [None])
                else (pbind (k_expression K) (\<lambda>e.
                  pbind (consume TkCloseBracket (expected '']'' [])) (\<lambda>_.
                  again (bs @ [Some e]))))))))"

definition wrap_bracket :: "Type_Node \<Rightarrow> Expr option \<Rightarrow> Type_Node" where
  "wrap_bracket n b = (case b of None \<Rightarrow> TNArray n | Some e \<Rightarrow> TNSizedArray n e)"

definition parse_brackets :: "parsers \<Rightarrow> Type_Node \<Rightarrow> Type_Node parser" where
  "parse_brackets K n = pmap (\<lambda>bs. foldl wrap_bracket n (rev bs)) (ploop (bracket_step K) [])"

definition parse_object_type :: "parsers \<Rightarrow> Type_Node parser" where
  "parse_object_type K =
     (pbind (ploop (object_type_step K) []) (\<lambda>ms.
       pbind (consume TkCloseBrace (expected ''}'' [])) (\<lambda>_.
       parse_brackets K (TNObject ms))))"

text \<open>
  The end of the type arguments: \<open>>>\<close> is replaced by one \<open>>\<close> that stays the current token, for
  the outer argument list.
\<close>

definition split_shift :: "Token \<Rightarrow> unit parser" where
  "split_shift t s =
     Done ((), s\<lparr>p_tokens := (p_tokens s)[p_current s := new_token TkGreater ''>'' (tok_line t) (tok_column t + 1)]\<rparr>)"

definition close_generics :: "unit parser" where
  "close_generics =
     (pbind (check TkGreater) (\<lambda>g.
       if g then pmap (\<lambda>_. ()) advance
        else (pbind (check TkGreaterGreater) (\<lambda>gg.
          if gg then (pbind peek (\<lambda>t.
                  split_shift t))
                else pmap (\<lambda>_. ()) (consume TkGreater (expected ''>'' []))))))"

definition error_at_previous :: "string \<Rightarrow> string \<Rightarrow> unit parser" where
  "error_at_previous msg hint = (pbind previous (\<lambda>t.
    push_error msg (tok_line t) (tok_column t) hint))"

definition generic_node :: "string \<Rightarrow> Type_Node list \<Rightarrow> Type_Node parser" where
  "generic_node n args =
     (if n = ''Optional'' then
        (if length args \<noteq> 1 then
           (pbind (error_at_previous (CHR ''`'' # ''Optional<T>'' @ CHR ''`'' # '' expects exactly one type argument.'')
                ''Pass exactly one inner type, for example Optional<string>.'') (\<lambda>_.
             ret TNAny))
         else ret (TNOptional (hd args)))
      else if n = ''Option'' then
        (pbind (error_at_previous (''Use '' @ CHR ''`'' # ''Optional<T>'' @ CHR ''`'' # '' instead of ''
                @ CHR ''`'' # ''Option<T>'' @ CHR ''`'' # ''.'')
             ''Rename this type to Optional<T>.'') (\<lambda>_.
          ret (if length args = 1 then TNOptional (hd args) else TNAny)))
      else ret (TNGeneric n args))"

definition primitive_types :: "(TokenType \<times> string) list" where
  "primitive_types =
     [(TkTypeVoid, ''void''), (TkTypeInt, ''int''), (TkTypeInt8, ''int8''), (TkTypeUInt8, ''uint8''),
      (TkTypeInt16, ''int16''), (TkTypeUInt16, ''uint16''), (TkTypeUInt, ''uint''),
      (TkTypeInt64, ''int64''), (TkTypeUInt64, ''uint64''), (TkTypeInt128, ''int128''),
      (TkTypeUInt128, ''uint128''), (TkTypeFloat, ''float''), (TkTypeFloat16, ''float16''),
      (TkTypeFloat64, ''float64''), (TkTypeChar, ''char''), (TkTypeString, ''string''),
      (TkTypeBoolean, ''bool'')]"

fun match_primitive :: "(TokenType \<times> string) list \<Rightarrow> string option parser" where
  "match_primitive [] = ret None"
| "match_primitive ((ty, n) # ps) =
     (pbind (match_token ty) (\<lambda>m.
       if m then ret (Some n) else match_primitive ps))"

text \<open>A name with its type arguments: the node, or none where the name is missing or empty.\<close>

definition parse_type_name :: "parsers \<Rightarrow> Type_Node option parser" where
  "parse_type_name K =
     (pbind check_name (\<lambda>c.
       if \<not> c then ret None
        else (pbind (consume_name ''Expected type name'') (\<lambda>n.
          pbind (match_token TkLess) (\<lambda>lt.
          if lt then
                  (pbind (comma_loop (k_type K)) (\<lambda>args.
                    pbind close_generics (\<lambda>_.
                    pmap Some (generic_node n args))))
                else ret (if n = [] then None else Some (TNNamed n)))))))"

definition intersection_step :: "parsers \<Rightarrow> Type_Node list \<Rightarrow> (Type_Node list + Type_Node list) parser" where
  "intersection_step K ts =
     (pbind (match_token TkAmpersand) (\<lambda>m.
       if m then (pbind (k_base_type K) (\<lambda>t.
          again (ts @ [t]))) else leave ts))"

definition finish_named_type :: "parsers \<Rightarrow> Type_Node \<Rightarrow> Type_Node parser" where
  "finish_named_type K n =
     (pbind (parse_brackets K n) (\<lambda>a.
       pbind (ploop (intersection_step K) []) (\<lambda>ts.
       ret (if ts = [] then a else TNIntersection (a # ts)))))"

definition parse_named_type :: "parsers \<Rightarrow> Type_Node parser" where
  "parse_named_type K =
     (pbind (parse_type_name K) (\<lambda>n.
       case n of
          Some t \<Rightarrow> finish_named_type K t
        | None \<Rightarrow>
            (pbind (match_primitive primitive_types) (\<lambda>p.
              case p of
                 Some v \<Rightarrow> finish_named_type K (TNNamed v)
               | None \<Rightarrow>
                   (pbind peek (\<lambda>t.
                     pbind (push_error ''Expected type'' (tok_line t) (tok_column t)
                        ''Insert a valid type name such as int, string, bool, Optional<T>, or a class name.'') (\<lambda>_.
                     pbind advance (\<lambda>_.
                     ret (TNNamed ''{unknown}'')))))))))"

definition parse_base_type :: "parsers \<Rightarrow> Type_Node parser" where
  "parse_base_type K =
     (pbind (match_token TkOpenParen) (\<lambda>f.
       if f then parse_function_type K
        else (pbind (match_token TkOpenBrace) (\<lambda>ob.
          if ob then parse_object_type K else parse_named_type K))))"

text \<open>Union types are read and refused; \<open>T | None\<close> becomes an optional type.\<close>

definition union_step :: "parsers \<Rightarrow> Type_Node list \<Rightarrow> (Type_Node list + Type_Node list) parser" where
  "union_step K ts =
     (pbind (match_token TkPipe) (\<lambda>m.
       if m then (pbind (parse_base_type K) (\<lambda>t.
          again (ts @ [t]))) else leave ts))"

definition is_none_type :: "'e TypeNode \<Rightarrow> bool" where
  "is_none_type t = (case t of TNNamed n \<Rightarrow> n = ''None'' | _ \<Rightarrow> False)"

definition union_node :: "Type_Node \<Rightarrow> Type_Node list \<Rightarrow> Type_Node parser" where
  "union_node t ts =
     (case ts of
        [] \<Rightarrow> ret t
      | [u] \<Rightarrow>
          if is_none_type t \<noteq> is_none_type u then
            (pbind (error_at_previous (''Use '' @ CHR ''`'' # ''Optional<T>'' @ CHR ''`'' # '' instead of ''
                 @ CHR ''`'' # ''T | None'' @ CHR ''`'' # ''.'')
                 ''Rewrite this type as Optional<T>.'') (\<lambda>_.
              ret (TNOptional (if is_none_type t then u else t))))
          else (pbind (error_at_previous (''Union types are not supported. Only '' @ CHR ''`'' # ''Optional<T>'' @ CHR ''`'' # '' is allowed.'')
                    ''Use Optional<T> for nullable values, or refactor the type into a class/interface.'') (\<lambda>_.
            ret TNAny))
      | _ \<Rightarrow>
          (pbind (error_at_previous (''Union types are not supported. Only '' @ CHR ''`'' # ''Optional<T>'' @ CHR ''`'' # '' is allowed.'')
               ''Use Optional<T> for nullable values, or refactor the type into a class/interface.'') (\<lambda>_.
            ret TNAny)))"

definition parse_type_annotation :: "parsers \<Rightarrow> Type_Node parser" where
  "parse_type_annotation K =
     (pbind (parse_base_type K) (\<lambda>t.
       pbind (ploop (union_step K) []) (\<lambda>ts.
       union_node t ts)))"

section \<open>Parameters\<close>

text \<open>\<open>: type\<close> and \<open>= value\<close>, both optional.\<close>

definition parse_opt_type :: "parsers \<Rightarrow> Type_Node \<Rightarrow> Type_Node parser" where
  "parse_opt_type K d = (pbind (match_token TkColon) (\<lambda>c.
    if c then parse_type_annotation K else ret d))"

definition parse_opt_init :: "parsers \<Rightarrow> Expr option parser" where
  "parse_opt_init K = (pbind (match_token TkEquals) (\<lambda>c.
    if c then pmap Some (k_assignment K) else ret None))"

definition parse_parameter :: "parsers \<Rightarrow> bool \<Rightarrow> string \<Rightarrow> Type_Node \<Rightarrow> Expr Parameter parser" where
  "parse_parameter K rest_allowed msg d =
     (pbind ((if rest_allowed then match_token TkEllipsis else ret False)) (\<lambda>rest.
       pbind (consume_name msg) (\<lambda>n.
       pbind (parse_opt_type K d) (\<lambda>t.
       pbind (parse_opt_init K) (\<lambda>i.
       ret (Parameter n t i rest))))))"

text \<open>A list of parameters after the opening parenthesis, without the closing one.\<close>

definition parse_parameters :: "parsers \<Rightarrow> bool \<Rightarrow> string \<Rightarrow> Type_Node \<Rightarrow> Expr Parameter list parser" where
  "parse_parameters K rest_allowed msg d =
     (pbind (check TkCloseParen) (\<lambda>c.
       if c then ret [] else comma_loop (parse_parameter K rest_allowed msg d)))"

text \<open>\<open><T, U: Bound>\<close>, after the opening bracket.\<close>

definition parse_generic_param :: "parsers \<Rightarrow> Expr GenericParam parser" where
  "parse_generic_param K =
     (pbind (consume TkIdentifier ''Expected type parameter'') (\<lambda>n.
       pbind (match_token TkColon) (\<lambda>c.
       pbind ((if c then pmap Some (parse_type_annotation K) else ret None)) (\<lambda>b.
       ret (GenericParam (tok_value n) b)))))"

definition parse_generic_params :: "parsers \<Rightarrow> Expr GenericParam list parser" where
  "parse_generic_params K =
     (pbind (comma_loop (parse_generic_param K)) (\<lambda>ps.
       pbind (consume TkGreater (expected ''>'' [])) (\<lambda>_.
       ret ps)))"

section \<open>Laws\<close>

text \<open>What a function may assume of the recursive ones: their contract below the weight \<open>W\<close>.\<close>

definition kgood :: "bool \<Rightarrow> nat \<Rightarrow> parsers \<Rightarrow> bool" where
  "kgood b W K \<longleftrightarrow>
     eats_lt b W (k_assignment K) \<and> eats_lt b W (k_expression K) \<and> eats_lt b W (k_unary K) \<and>
     eats_lt b W (k_type K) \<and> eats_lt b W (k_base_type K) \<and> eats_lt b W (k_binding K) \<and>
     eats_lt b W (k_declaration K) \<and> eats_lt b W (k_statement K)"

definition kle :: "parsers \<Rightarrow> parsers \<Rightarrow> bool" where
  "kle K K' \<longleftrightarrow>
     k_assignment K \<le> k_assignment K' \<and> k_expression K \<le> k_expression K' \<and> k_unary K \<le> k_unary K' \<and>
     k_type K \<le> k_type K' \<and> k_base_type K \<le> k_base_type K' \<and> k_binding K \<le> k_binding K' \<and>
     k_declaration K \<le> k_declaration K' \<and> k_statement K \<le> k_statement K'"

lemma kgood_sel [wp_rules]:
  assumes "kgood b W K"
  shows "eats_lt b W (k_assignment K)" "eats_lt b W (k_expression K)" "eats_lt b W (k_unary K)"
    "eats_lt b W (k_type K)" "eats_lt b W (k_base_type K)" "eats_lt b W (k_binding K)"
    "eats_lt b W (k_declaration K)" "eats_lt b W (k_statement K)"
  using assms by (simp_all add: kgood_def)

lemmas wp_kgood [wp_rules] = kgood_sel [THEN wp_eats_lt]

lemma kle_sel [mono_rules]:
  assumes "kle K K'"
  shows "k_assignment K \<le> k_assignment K'" "k_expression K \<le> k_expression K'" "k_unary K \<le> k_unary K'"
    "k_type K \<le> k_type K'" "k_base_type K \<le> k_base_type K'" "k_binding K \<le> k_binding K'"
    "k_declaration K \<le> k_declaration K'" "k_statement K \<le> k_statement K'"
  using assms by (simp_all add: kle_def)

text \<open>The contract of a function that may leave the state as it is.\<close>

definition goes_lt :: "bool \<Rightarrow> nat \<Rightarrow> 'a parser \<Rightarrow> bool" where
  "goes_lt b W p \<longleftrightarrow>
     (\<forall>s. good b s \<longrightarrow> moved b s \<longrightarrow> weight s < W \<longrightarrow> outcome_sat b (p s) (\<lambda>(a, s'). okst b s s' \<and> moved b s'))"

lemma goes_ltI:
  "(\<And>s. good b s \<Longrightarrow> okst b s s \<Longrightarrow> moved b s \<Longrightarrow> weight s < W \<Longrightarrow>
      wp b W s p (\<lambda>a s'. okst b s s' \<and> moved b s') s) \<Longrightarrow> goes_lt b W p"
  by (auto simp: goes_lt_def wp_def)

lemma wp_goes_lt:
  fixes p :: "'c parser"
  assumes "goes_lt b W p" "okst b s0 s" "moved b s" "weight s < W"
    "\<And>a s'. okst b s0 s' \<Longrightarrow> moved b s' \<Longrightarrow> weight s' \<le> weight s \<Longrightarrow> Q a s'"
  shows "wp b W s0 p Q s"
  unfolding wp_def
proof (rule outcome_sat_mono)
  show "outcome_sat b (p s) (\<lambda>(a, s'). okst b s s' \<and> moved b s')"
    using assms okst_good by (auto simp: goes_lt_def)
  fix r :: "'c \<times> pstate" assume "case r of (a, s') \<Rightarrow> okst b s s' \<and> moved b s'"
  then show "case r of (a, s') \<Rightarrow> Q a s'"
    using assms(5) okst_trans [OF assms(2)] okst_weight by (cases r) auto
qed

text \<open>The same up to the weight \<open>W\<close>.\<close>

lemma goes_leI:
  "(\<And>s. good b s \<Longrightarrow> okst b s s \<Longrightarrow> moved b s \<Longrightarrow> weight s \<le> W \<Longrightarrow>
      wp b W s p (\<lambda>a s'. okst b s s' \<and> moved b s') s) \<Longrightarrow> goes_lt b (Suc W) p"
  by (simp add: goes_lt_def wp_def less_Suc_eq_le okst_refl)

lemma wp_goes_le:
  assumes "goes_lt b (Suc W) p" "okst b s0 s" "moved b s" "weight s \<le> W"
    "\<And>a s'. okst b s0 s' \<Longrightarrow> moved b s' \<Longrightarrow> weight s' \<le> weight s \<Longrightarrow> Q a s'"
  shows "wp b W s0 p Q s"
  using wp_goes_lt [OF assms(1-3), of Q] assms(4,5) by (simp add: wp_def)

lemma wp_skip_comma [wp_rules]:
  "okst b s0 s \<Longrightarrow> moved b s \<Longrightarrow>
     (\<And>s'. okst b s0 s' \<Longrightarrow> moved b s' \<Longrightarrow> weight s' \<le> weight s \<Longrightarrow> Q () s') \<Longrightarrow> wp b W s0 skip_comma Q s"
  by (auto simp: skip_comma_def intro!: wp_rules)

lemma eats_parse_binding_pattern: "kgood b W K \<Longrightarrow> eats b W (parse_binding_pattern K)"
  by (rule eatsI)
    (auto simp: parse_binding_pattern_def array_binding_step_def object_binding_step_def intro!: wp_rules)

lemmas wp_parse_binding_pattern [wp_rules] = wp_eats [OF eats_parse_binding_pattern]

text \<open>Functions that only report.\<close>

lemma wp_error_at_previous [wp_rules]:
  "okst b s0 s \<Longrightarrow> (\<And>s'. okst b s0 s' \<Longrightarrow> weight s' = weight s \<Longrightarrow> p_current s' = p_current s \<Longrightarrow> Q () s') \<Longrightarrow>
     wp b W s0 (error_at_previous msg h) Q s"
  unfolding error_at_previous_def by (auto intro!: wp_rules)

lemma wp_generic_node [wp_rules]:
  "okst b s0 s \<Longrightarrow> (\<And>a s'. okst b s0 s' \<Longrightarrow> weight s' = weight s \<Longrightarrow> p_current s' = p_current s \<Longrightarrow> Q a s') \<Longrightarrow>
     wp b W s0 (generic_node n args) Q s"
  unfolding generic_node_def by (auto intro!: wp_rules)

lemma wp_union_node [wp_rules]:
  "okst b s0 s \<Longrightarrow> (\<And>a s'. okst b s0 s' \<Longrightarrow> weight s' = weight s \<Longrightarrow> p_current s' = p_current s \<Longrightarrow> Q a s') \<Longrightarrow>
     wp b W s0 (union_node t ts) Q s"
  unfolding union_node_def by (cases ts; cases "tl ts") (auto intro!: wp_rules)

lemma check_type:
  "okst b s0 s \<Longrightarrow> (0 < weight s \<Longrightarrow> token_type (p_tokens s ! p_current s) = ty \<Longrightarrow> Q True s) \<Longrightarrow> Q False s \<Longrightarrow>
     wp b W s0 (check ty) Q s"
  using check_good [of b s ty]
  by (cases "0 < weight s \<and> token_type (p_tokens s ! p_current s) = ty") (auto simp: wp_def okst_def)

lemma wp_split_shift:
  assumes "okst b s0 s" "moved b s" "token_type (p_tokens s ! p_current s) = TkGreaterGreater"
    "\<And>s'. okst b s0 s' \<Longrightarrow> moved b s' \<Longrightarrow> weight s' \<le> weight s \<Longrightarrow> Q () s'"
  shows "wp b W s0 (split_shift t) Q s"
proof -
  let ?s = "s\<lparr>p_tokens := (p_tokens s)[p_current s := new_token TkGreater ''>'' (tok_line t) (tok_column t + 1)]\<rparr>"
  have i: "p_current s < length (p_tokens s)" using okst_good [OF assms(1)] by (simp add: good_def)
  have m: "map tok_weight (p_tokens ?s) = map tok_weight (p_tokens s)"
    using assms(3) i by (intro nth_equalityI) (auto simp: nth_list_update tok_weight_def is_eof_def)
  have "\<forall>u \<in> set (p_tokens ?s). token_type u \<noteq> TkTemplateString"
    if "\<forall>u \<in> set (p_tokens s). token_type u \<noteq> TkTemplateString"
    using that subsetD [OF set_update_subset_insert] by fastforce
  then have "okst b s ?s"
    using okst_good [OF assms(1)] m by (auto simp: okst_def reach_def good_def eof_terminated_weights weight_map)
  then have "okst b s0 ?s" "weight ?s \<le> weight s" using okst_trans [OF assms(1)] okst_weight by auto
  moreover have "moved b ?s" using assms(2) by (simp add: moved_def)
  ultimately show ?thesis using assms(4) [of ?s] by (simp add: wp_def split_shift_def)
qed

lemma wp_close_generics [wp_rules]:
  "okst b s0 s \<Longrightarrow> moved b s \<Longrightarrow>
     (\<And>s'. okst b s0 s' \<Longrightarrow> moved b s' \<Longrightarrow> weight s' \<le> weight s \<Longrightarrow> Q () s') \<Longrightarrow> wp b W s0 close_generics Q s"
  unfolding close_generics_def
  by (auto intro!: check_type wp_bind wp_if wp_split_shift wp_pmap wp_peek wp_advance wp_consume)

lemma wp_match_primitive [wp_rules]:
  assumes "okst b s0 s"
    "\<And>v s'. okst b s0 s' \<Longrightarrow> moved b s' \<Longrightarrow> 0 < weight s \<Longrightarrow> weight s' < weight s \<Longrightarrow> weight s' \<le> weight s0 - 1 \<Longrightarrow> Q (Some v) s'"
    "Q None s"
  shows "wp b W s0 (match_primitive ps) Q s"
  using assms by (induction ps rule: match_primitive.induct) (auto intro!: wp_rules)

text \<open>Types.\<close>

lemma eats_function_param [wp_rules]: "kgood b W K \<Longrightarrow> eats_lt b W (function_param K)"
  by (rule eats_ltI) (auto simp: function_param_def intro!: wp_rules)

lemma eats_parse_function_type: "kgood b W K \<Longrightarrow> eats_lt b W (parse_function_type K)"
  by (rule eats_ltI) (auto simp: parse_function_type_def intro!: wp_rules)

lemmas wp_parse_function_type [wp_rules] = wp_eats_lt [OF eats_parse_function_type]

lemma goes_parse_brackets: "kgood b W K \<Longrightarrow> goes_lt b W (parse_brackets K n)"
  by (rule goes_ltI) (auto simp: parse_brackets_def bracket_step_def intro!: wp_rules)

lemmas wp_parse_brackets [wp_rules] = wp_goes_lt [OF goes_parse_brackets]

lemma goes_parse_object_type: "kgood b W K \<Longrightarrow> goes_lt b W (parse_object_type K)"
  by (rule goes_ltI) (auto simp: parse_object_type_def object_type_step_def intro!: wp_rules)

lemmas wp_parse_object_type [wp_rules] = wp_goes_lt [OF goes_parse_object_type]

lemma goes_finish_named_type: "kgood b W K \<Longrightarrow> goes_lt b W (finish_named_type K n)"
  by (rule goes_ltI) (auto simp: finish_named_type_def intersection_step_def intro!: wp_rules)

lemmas wp_finish_named_type [wp_rules] = wp_goes_lt [OF goes_finish_named_type]

lemma eats_parse_named_type: "kgood b W K \<Longrightarrow> eats b W (parse_named_type K)"
  by (rule eatsI) (auto simp: parse_named_type_def parse_type_name_def intro!: wp_rules)

lemmas wp_parse_named_type [wp_rules] = wp_eats [OF eats_parse_named_type]

lemma eats_parse_base_type: "kgood b W K \<Longrightarrow> eats b W (parse_base_type K)"
  by (rule eatsI) (auto simp: parse_base_type_def intro!: wp_rules)

lemmas wp_parse_base_type [wp_rules] = wp_eats [OF eats_parse_base_type]

lemma eats_parse_type_annotation: "kgood b W K \<Longrightarrow> eats b W (parse_type_annotation K)"
  by (rule eatsI) (auto simp: parse_type_annotation_def union_step_def intro!: wp_rules)

lemmas wp_parse_type_annotation [wp_rules] = wp_eats [OF eats_parse_type_annotation]

text \<open>Parameters.\<close>

lemma goes_parse_opt_type: "kgood b W K \<Longrightarrow> goes_lt b W (parse_opt_type K d)"
  by (rule goes_ltI) (auto simp: parse_opt_type_def intro!: wp_rules)

lemmas wp_parse_opt_type [wp_rules] = wp_goes_lt [OF goes_parse_opt_type]

lemma goes_parse_opt_init: "kgood b W K \<Longrightarrow> goes_lt b W (parse_opt_init K)"
  by (rule goes_ltI) (auto simp: parse_opt_init_def intro!: wp_rules)

lemmas wp_parse_opt_init [wp_rules] = wp_goes_lt [OF goes_parse_opt_init]

lemma eats_parse_parameter [wp_rules]: "kgood b W K \<Longrightarrow> eats_lt b W (parse_parameter K r msg d)"
  by (rule eats_ltI) (auto simp: parse_parameter_def intro!: wp_rules)

lemma goes_parse_parameters: "kgood b W K \<Longrightarrow> goes_lt b W (parse_parameters K r msg d)"
  by (rule goes_ltI) (auto simp: parse_parameters_def intro!: wp_rules)

lemmas wp_parse_parameters [wp_rules] = wp_goes_lt [OF goes_parse_parameters]

lemma eats_parse_generic_param [wp_rules]: "kgood b W K \<Longrightarrow> eats_lt b W (parse_generic_param K)"
  by (rule eats_ltI) (auto simp: parse_generic_param_def intro!: wp_rules)

lemma eats_parse_generic_params: "kgood b W K \<Longrightarrow> eats_lt b W (parse_generic_params K)"
  by (rule eats_ltI) (auto simp: parse_generic_params_def intro!: wp_rules)

lemmas wp_parse_generic_params [wp_rules] = wp_eats_lt [OF eats_parse_generic_params]

end
