(* ===== verification/ParserExpr.thy ===== *)
theory ParserExpr
  imports ParserTypes
begin

text \<open>
  Expressions, the middle of \<open>src/compiler/frontend/parser.rs\<close>: the precedence levels from
  assignment down to calls and primary expressions, lambdas and blocks, literals, and template
  strings with the expressions in them.
\<close>

section \<open>Blocks\<close>

definition block_step :: "parsers \<Rightarrow> Statement list \<Rightarrow> (Statement list + Statement list) parser" where
  "block_step K xs =
     (pbind (before_token TkCloseBrace) (\<lambda>go.
       if \<not> go then leave xs
        else (pbind (k_declaration K) (\<lambda>d.
          again (case d of Some x \<Rightarrow> xs @ [x] | None \<Rightarrow> xs)))))"

text \<open>The end of a block or class body: an error at the end of the file, else a closing brace.\<close>

definition close_body :: "string \<Rightarrow> string \<Rightarrow> string \<Rightarrow> unit parser" where
  "close_body unclosed hint msg =
     (pbind is_at_end (\<lambda>e.
       if e then (pbind previous (\<lambda>t.
          push_error unclosed (tok_line t) (tok_column t + byte_len (tok_value t)) hint))
        else pmap (\<lambda>_. ()) (consume TkCloseBrace msg)))"

definition position_text :: "Token \<Rightarrow> string" where
  "position_text t = '' starting at line '' @ nat_to_string (tok_line t) @ '':'' @ nat_to_string (tok_column t)"

definition parse_block :: "parsers \<Rightarrow> Statement parser" where
  "parse_block K =
     (pbind (consume TkOpenBrace (expected ''{'' [])) (\<lambda>start.
       pbind (ploop (block_step K) []) (\<lambda>xs.
       pbind (close_body (''Unclosed block'' @ position_text start)
          (''Add the missing '' @ quoted (CHR ''}'') @ '' to close this block.'')
          (expected ''}'' '' after block.'')) (\<lambda>_.
       ret (BlockStmt xs (tok_line start) (tok_column start))))))"

section \<open>Literals, lambdas and template strings\<close>

definition parse_lambda_body :: "parsers \<Rightarrow> nat \<Rightarrow> nat \<Rightarrow> Statement parser" where
  "parse_lambda_body K l c =
     (pbind (check TkOpenBrace) (\<lambda>br.
       if br then parse_block K
        else (pbind (k_assignment K) (\<lambda>e.
          ret (BlockStmt [ReturnStmt (Some e) l c] l c)))))"

definition parse_lambda :: "parsers \<Rightarrow> Expr parser" where
  "parse_lambda K =
     (pbind peek (\<lambda>start.
       pbind check_name (\<lambda>n.
       pbind ((if n then pmap (\<lambda>x. [Parameter x TNAny None False]) (consume_name ''Expected param name'')
               else (pbind (consume TkOpenParen (expected ''('' [])) (\<lambda>_.
                 pbind (parse_parameters K True ''Expected param name'' TNAny) (\<lambda>ps.
                 pbind (consume TkCloseParen (expected '')'' [])) (\<lambda>_.
                 ret ps)))))) (\<lambda>ps.
       pbind (consume TkArrow (expected ''=>'' [])) (\<lambda>_.
       pbind (parse_lambda_body K (tok_line start) (tok_column start)) (\<lambda>b.
       ret (LambdaExpr ps b (tok_line start) (tok_column start))))))))"

definition object_literal_step ::
  "parsers \<Rightarrow> (string \<times> Expr) list \<times> Expr list \<Rightarrow> ((string \<times> Expr) list \<times> Expr list + (string \<times> Expr) list \<times> Expr list) parser" where
  "object_literal_step K r =
     (pbind (before_token TkCloseBrace) (\<lambda>go.
       if \<not> go then leave r
        else (pbind (match_token TkEllipsis) (\<lambda>sp.
          pbind ((if sp then pmap (\<lambda>e. (fst r, snd r @ [e])) (k_assignment K)
                       else (pbind (consume_identifier ''Expected property name'') (\<lambda>key.
                         pbind (match_token TkColon) (\<lambda>c.
                         pbind ((if c then k_assignment K
                                     else ret (Identifier (tok_value key) (tok_line key) (tok_column key)))) (\<lambda>v.
                         ret (fst r @ [(tok_value key, v)], snd r))))))) (\<lambda>r'.
          pbind skip_comma (\<lambda>_.
          again r'))))))"

definition parse_object_literal :: "parsers \<Rightarrow> Expr parser" where
  "parse_object_literal K =
     (pbind (consume TkOpenBrace (expected ''{'' [])) (\<lambda>start.
       pbind (ploop (object_literal_step K) ([], [])) (\<lambda>(es, sps).
       pbind (consume TkCloseBrace (expected ''}'' [])) (\<lambda>_.
       ret (ObjectLiteralExpr es sps (tok_line start) (tok_column start))))))"

definition array_literal_step :: "parsers \<Rightarrow> Expr list \<Rightarrow> (Expr list + Expr list) parser" where
  "array_literal_step K xs =
     (pbind (before_token TkCloseBracket) (\<lambda>go.
       if \<not> go then leave xs
        else (pbind (match_token TkEllipsis) (\<lambda>sp.
          pbind ((if sp then (pbind before (\<lambda>t.
                  pbind (k_assignment K) (\<lambda>e.
                  ret (SpreadExpr e (tok_line t) (tok_column t)))))
                      else k_assignment K)) (\<lambda>x.
          pbind skip_comma (\<lambda>_.
          again (xs @ [x])))))))"

definition parse_array_literal :: "parsers \<Rightarrow> Expr parser" where
  "parse_array_literal K =
     (pbind (consume TkOpenBracket (expected ''['' [])) (\<lambda>start.
       pbind (ploop (array_literal_step K) []) (\<lambda>xs.
       pbind (consume TkCloseBracket (expected '']'' [])) (\<lambda>_.
       ret (ArrayLiteral xs None (tok_line start) (tok_column start))))))"

text \<open>Arguments after the opening parenthesis, with the closing one.\<close>

definition parse_args :: "parsers \<Rightarrow> (Expr list \<times> Token) parser" where
  "parse_args K =
     (pbind (check TkCloseParen) (\<lambda>c.
       pbind ((if c then ret [] else comma_loop (k_assignment K))) (\<lambda>as.
       pbind (consume TkCloseParen (expected '')'' [])) (\<lambda>t.
       ret (as, t)))))"

definition parse_new_expression :: "parsers \<Rightarrow> Expr parser" where
  "parse_new_expression K =
     (pbind (consume TkNew (expected ''new'' [])) (\<lambda>start.
       pbind (consume TkIdentifier ''Expected class name'') (\<lambda>name.
       pbind (match_token TkLess) (\<lambda>lt.
       pbind ((if lt then (pbind (comma_loop (k_type K)) (\<lambda>ts.
          pbind (consume TkGreater (expected ''>'' [])) (\<lambda>_.
          ret (''<'' @ join_with '', '' (map type_node_to_string ts) @ ''>''))))
               else ret [])) (\<lambda>gs.
       pbind (consume TkOpenParen (expected ''('' [])) (\<lambda>_.
       pbind (parse_args K) (\<lambda>(as, _).
       ret (NewExpr (tok_value name @ gs) as (tok_line start) (tok_column start)))))))))"

definition parse_some_expression :: "parsers \<Rightarrow> Expr parser" where
  "parse_some_expression K =
     (pbind previous (\<lambda>start.
       pbind (consume TkOpenParen (expected ''('' ('' after '' @ quote_char # ''Some'' @ [quote_char]))) (\<lambda>_.
       pbind (k_expression K) (\<lambda>v.
       pbind (consume TkCloseParen (expected '')'' ('' after '' @ quote_char # ''Some'' @ quote_char # '' value''))) (\<lambda>_.
       ret (SomeExpr v (tok_line start) (tok_column start)))))))"

definition char_literal_value :: "string \<Rightarrow> char" where
  "char_literal_value v =
     (case v of
        [] \<Rightarrow> CHR 0x00
      | [c] \<Rightarrow> c
      | c # d # _ \<Rightarrow>
          (if c = backslash \<and> byte_len v = 2 then
             (if d = CHR ''n'' then CHR 0x0A else if d = CHR ''r'' then CHR 0x0D
              else if d = CHR ''t'' then CHR 0x09 else if d = CHR ''0'' then CHR 0x00 else d)
           else c))"

text \<open>
  The texts of a template string: the byte offset of the next \<open>${\<close>, and the number of
  characters up to the brace that closes it. The source takes that number for a byte offset.
\<close>

fun find_interpolation :: "nat \<Rightarrow> string \<Rightarrow> nat option" where
  "find_interpolation i (c # d # s) =
     (if c = CHR ''$'' \<and> d = CHR ''{'' then Some i else find_interpolation (i + utf8_len c) (d # s))"
| "find_interpolation i s = None"

fun closing_brace :: "nat \<Rightarrow> nat \<Rightarrow> string \<Rightarrow> nat option" where
  "closing_brace d i [] = None"
| "closing_brace d i (c # s) =
     (if c = CHR ''{'' then closing_brace (d + 1) (i + 1) s
      else if c = CHR ''}'' then (if d = 1 then Some i else closing_brace (d - 1) (i + 1) s)
      else closing_brace d (i + 1) s)"

definition from_option :: "'a option \<Rightarrow> 'a parser" where
  "from_option x s = (case x of Some a \<Rightarrow> Done (a, s) | None \<Rightarrow> Panic)"

definition template_concat :: "Token \<Rightarrow> Expr option \<Rightarrow> Expr \<Rightarrow> Expr" where
  "template_concat t e p =
     (case e of None \<Rightarrow> p | Some x \<Rightarrow> BinaryExpr x TkPlus p (tok_line t) (tok_column t))"

definition template_text :: "Token \<Rightarrow> string \<Rightarrow> Expr option \<Rightarrow> Expr option" where
  "template_text t v e =
     (if v = [] then e else Some (template_concat t e (StringLiteral v (tok_line t) (tok_column t))))"

text \<open>The text of an interpolation is lexed and parsed by a new parser, whose errors are lost.\<close>

definition parse_interpolation :: "parsers \<Rightarrow> string \<Rightarrow> Expr parser" where
  "parse_interpolation K v s =
     (case k_expression K (parser_new (fst (lex_source v (p_filename s))) (p_filename s)) of
        Done (e, _) \<Rightarrow> Done (e, s)
      | Panic \<Rightarrow> Panic
      | NoFuel \<Rightarrow> NoFuel)"

definition template_step ::
  "parsers \<Rightarrow> Token \<Rightarrow> string \<times> Expr option \<Rightarrow> (string \<times> Expr option + string \<times> Expr option) parser" where
  "template_step K t r =
     (case find_interpolation 0 (fst r) of
        None \<Rightarrow> leave r
      | Some i \<Rightarrow>
          (pbind (from_option (byte_take (fst r) i)) (\<lambda>prefix.
            pbind (from_option (byte_drop (fst r) (i + 2))) (\<lambda>after.
            let e = template_text t prefix (snd r) in
            case closing_brace 1 0 after of
               None \<Rightarrow> leave (fst r, e)
             | Some n \<Rightarrow>
                 (pbind (from_option (byte_take after n)) (\<lambda>v.
                   pbind (parse_interpolation K v) (\<lambda>x.
                   pbind (from_option (byte_drop after (n + 1))) (\<lambda>rest.
                   again (rest, Some (template_concat t e x))))))))))"

definition parse_template_string :: "parsers \<Rightarrow> Token \<Rightarrow> Expr parser" where
  "parse_template_string K t =
     (pbind (loop_n (Suc (length (tok_value t))) (template_step K t) (tok_value t, None)) (\<lambda>(rest, e).
       ret (case template_text t rest e of
               Some x \<Rightarrow> x
             | None \<Rightarrow> StringLiteral [] (tok_line t) (tok_column t))))"

section \<open>Primary expressions\<close>

text \<open>\<open>while !self.is_at_offset_end(i)\<close>: a parenthesis that ends a parameter list.\<close>

fun lambda_ahead :: "Token list \<Rightarrow> bool" where
  "lambda_ahead [] = False"
| "lambda_ahead (t # ts) =
     (if token_type t = TkCloseParen then ts \<noteq> [] \<and> token_type (hd ts) = TkArrow
      else if token_type t = TkSemicolon then False else lambda_ahead ts)"

definition is_lambda :: "bool parser" where
  "is_lambda s = Done (lambda_ahead (drop (p_current s) (p_tokens s)), s)"

definition name_tokens :: "TokenType list" where
  "name_tokens =
     [TkIdentifier, TkFrom, TkTo, TkOf, TkTypeAlias, TkAs, TkPublic, TkPrivate, TkProtected, TkStatic,
      TkAbstract, TkNamespace]"

text \<open>\<open>if self.match_token(a) { return ... } if self.match_token(b) ...\<close>.\<close>

primrec first_match :: "(TokenType \<times> 'a parser) list \<Rightarrow> 'a parser \<Rightarrow> 'a parser" where
  "first_match [] p = p"
| "first_match (x # xs) p = (pbind (match_token (fst x)) (\<lambda>m.
  if m then snd x else first_match xs p))"

definition parse_parenthesized :: "parsers \<Rightarrow> Expr parser" where
  "parse_parenthesized K =
     (pbind advance (\<lambda>_.
       pbind (k_expression K) (\<lambda>e.
       pbind (consume TkCloseParen (expected '')'' [])) (\<lambda>_.
       ret e))))"

definition parse_name :: "parsers \<Rightarrow> Token \<Rightarrow> Expr parser" where
  "parse_name K t =
     (pbind (check_next TkArrow) (\<lambda>a.
       if a then parse_lambda K
        else (pbind advance (\<lambda>_.
          ret (Identifier (tok_value t) (tok_line t) (tok_column t))))))"

definition primary_token :: "parsers \<Rightarrow> Token \<Rightarrow> Expr parser" where
  "primary_token K t =
     (let ty = token_type t; v = tok_value t; l = tok_line t; c = tok_column t in
      if ty = TkNumber then
        (pbind advance (\<lambda>_.
          ret (NumberLiteral (case parse_f64 v of Some x \<Rightarrow> x | None \<Rightarrow> f64_zero False) (CHR ''.'' \<in> set v) l c)))
      else if ty = TkString then (pbind advance (\<lambda>_.
        ret (StringLiteral v l c)))
      else if ty = TkCharLiteral then (pbind advance (\<lambda>_.
        ret (CharLiteral (char_literal_value v) l c)))
      else if ty = TkTemplateString then (pbind advance (\<lambda>_.
        parse_template_string K t))
      else if ty \<in> set name_tokens then parse_name K t
      else if ty = TkOpenBracket then parse_array_literal K
      else if ty = TkOpenParen then
        (pbind is_lambda (\<lambda>lam.
          if lam then parse_lambda K else parse_parenthesized K))
      else if ty = TkOpenBrace then parse_object_literal K
      else (pbind (push_parse_error (''Unexpected token '' @ quote_char # v @ [quote_char]) l c) (\<lambda>_.
        pbind advance (\<lambda>_.
        ret (Identifier ''__error__'' l c)))))"

definition parse_primary :: "parsers \<Rightarrow> Expr parser" where
  "parse_primary K =
     first_match
       [(TkTrue, ret (BooleanLiteral True 0 0)), (TkFalse, ret (BooleanLiteral False 0 0)),
        (TkThis, ret (ThisExpr 0 0)), (TkSuper, ret (SuperExpr 0 0))]
       ((pbind (check TkNew) (\<lambda>n.
         if n then parse_new_expression K
           else first_match
                  [(TkNone, pmap (\<lambda>t. NoneLiteral (tok_line t) (tok_column t)) previous),
                   (TkSome, parse_some_expression K)]
                  ((pbind peek (\<lambda>t.
                    primary_token K t))))))"

section \<open>Calls and member accesses\<close>

text \<open>
  \<open>is_generic_call_lookahead\<close> on the tokens after the \<open><\<close>: whether the matching \<open>>\<close> is followed
  by a parenthesis or by \<open>?.\<close>; \<open>self.tokens[i + 1]\<close> past the end is a panic.
\<close>

fun generic_scan :: "nat \<Rightarrow> Token list \<Rightarrow> bool outcome" where
  "generic_scan d [] = Done False"
| "generic_scan d (t # ts) =
     (let ty = token_type t in
      if ty = TkEndOfFile then Done False
      else if ty = TkLess then generic_scan (d + 1) ts
      else if ty = TkGreater then
        (if d = 1 then
           (case ts of [] \<Rightarrow> Panic | u # _ \<Rightarrow> Done (token_type u = TkOpenParen \<or> token_type u = TkQuestionDot))
         else generic_scan (d - 1) ts)
      else if ty \<in> {TkSemicolon, TkOpenBrace, TkEquals, TkLet, TkFunction} then Done False
      else generic_scan d ts)"

definition is_generic_call_lookahead :: "bool parser" where
  "is_generic_call_lookahead s =
     (if length (p_tokens s) \<le> p_current s then Panic
      else if token_type (p_tokens s ! p_current s) \<noteq> TkLess then Done (False, s)
      else case generic_scan 1 (drop (p_current s + 1) (p_tokens s)) of
             Done r \<Rightarrow> Done (r, s) | Panic \<Rightarrow> Panic | NoFuel \<Rightarrow> NoFuel)"

definition parse_type_args :: "parsers \<Rightarrow> Type_Node list option parser" where
  "parse_type_args K =
     (pbind is_generic_call_lookahead (\<lambda>g.
       if \<not> g then ret None
        else (pbind advance (\<lambda>_.
          pbind (check TkGreater) (\<lambda>c.
          pbind ((if c then ret [] else comma_loop (parse_type_annotation K))) (\<lambda>ts.
          pbind (consume TkGreater (expected ''>'' '' after type arguments'')) (\<lambda>_.
          ret (Some ts))))))))"

text \<open>The error where type arguments are not followed by a call.\<close>

definition refuse_type_args :: "'a option \<Rightarrow> Token \<Rightarrow> string \<Rightarrow> string \<Rightarrow> unit parser" where
  "refuse_type_args ta start msg hint =
     (if ta = None then ret () else push_error msg (tok_line start) (tok_column start) hint)"

definition array_access_message :: string where
  "array_access_message = ''Type arguments not allowed before array access''"

definition array_access_hint :: string where
  "array_access_hint = ''Remove the type arguments here or move them to a real generic function call.''"

definition member_hint :: string where
  "member_hint = ''Remove the type arguments here or apply them on a generic call instead.''"

text \<open>After \<open>?.\<close>.\<close>

definition optional_access :: "parsers \<Rightarrow> Token \<Rightarrow> Type_Node list option \<Rightarrow> Expr \<Rightarrow> Expr parser" where
  "optional_access K start ta e =
     (pbind (match_token TkOpenParen) (\<lambda>call.
       if call then
          (pbind (parse_args K) (\<lambda>(as, t).
            ret (OptionalCallExpr e ta as (tok_line t) (tok_column t))))
        else (pbind (match_token TkOpenBracket) (\<lambda>ix.
          if ix then
                  (pbind (refuse_type_args ta start array_access_message array_access_hint) (\<lambda>_.
                    pbind previous (\<lambda>t.
                    pbind (k_assignment K) (\<lambda>i.
                    pbind (consume TkCloseBracket (expected '']'' [])) (\<lambda>_.
                    ret (OptionalArrayAccessExpr e i (tok_line t) (tok_column t)))))))
                else
                  (pbind (refuse_type_args ta start ''Type arguments not allowed before member access'' member_hint) (\<lambda>_.
                    pbind (consume_identifier (''Expected property name after '' @ quote_char # ''?.'' @ [quote_char])) (\<lambda>m.
                    ret (OptionalMemberAccessExpr e (tok_value m) (tok_line m) (tok_column m)))))))))"

text \<open>After \<open>.\<close> or \<open>::\<close>.\<close>

definition member_access :: "parsers \<Rightarrow> Token \<Rightarrow> Type_Node list option \<Rightarrow> Expr \<Rightarrow> Expr parser" where
  "member_access K start ta e =
     (pbind (refuse_type_args ta start ''Type arguments not allowed before static/member access'' member_hint) (\<lambda>_.
       pbind before (\<lambda>sep.
       pbind (consume_name ''Expected property name after separator'') (\<lambda>m.
       pbind before (\<lambda>t.
       ret (MemberAccessExpr e m (tok_line t) (tok_column t) (token_type sep = TkDoubleColon)))))))"

definition index_access :: "parsers \<Rightarrow> Token \<Rightarrow> Type_Node list option \<Rightarrow> Expr \<Rightarrow> Expr parser" where
  "index_access K start ta e =
     (pbind previous (\<lambda>t.
       pbind (refuse_type_args ta start array_access_message array_access_hint) (\<lambda>_.
       pbind (k_assignment K) (\<lambda>i.
       pbind (consume TkCloseBracket (expected '']'' [])) (\<lambda>_.
       ret (ArrayAccessExpr e i (tok_line t) (tok_column t)))))))"

definition call_step :: "parsers \<Rightarrow> Token \<Rightarrow> Expr \<Rightarrow> (Expr + Expr) parser" where
  "call_step K start e =
     (pbind (parse_type_args K) (\<lambda>ta.
       pbind (match_token TkOpenParen) (\<lambda>call.
       if call then
          (pbind (parse_args K) (\<lambda>(as, _).
            again (CallExpr e ta as (tok_line start) (tok_column start))))
        else (pbind (match_token TkQuestionDot) (\<lambda>q.
          if q then pmap Inl (optional_access K start ta e)
          else (pbind (match_any [TkDot, TkDoubleColon]) (\<lambda>m.
            if m then pmap Inl (member_access K start ta e)
            else (pbind (match_token TkOpenBracket) (\<lambda>ix.
              if ix then pmap Inl (index_access K start ta e)
              else (pbind (match_token TkAs) (\<lambda>as.
                if as then (pbind (parse_type_annotation K) (\<lambda>ty.
                  again (CastExpr e ty (tok_line start) (tok_column start))))
                else (pbind (refuse_type_args ta start ''Unused type arguments''
                          ''Type arguments must be followed by a generic call like foo<T>(...).'') (\<lambda>_.
                  leave e)))))))))))))"

definition parse_call :: "parsers \<Rightarrow> Expr parser" where
  "parse_call K =
     (pbind peek (\<lambda>start.
       pbind (parse_primary K) (\<lambda>e.
       ploop (call_step K start) e)))"

section \<open>Operators\<close>

definition unary_at :: "Token \<Rightarrow> Expr \<Rightarrow> bool \<Rightarrow> Expr" where
  "unary_at t e postfix = UnaryExpr (token_type t) e postfix (tok_line t) (tok_column t)"

definition parse_unary :: "parsers \<Rightarrow> Expr parser" where
  "parse_unary K =
     (pbind (match_any [TkPlusPlus, TkMinusMinus, TkBang, TkTilde, TkMinus]) (\<lambda>m.
       if m then (pbind before (\<lambda>t.
          pbind (k_unary K) (\<lambda>e.
          ret (unary_at t e False))))
        else (pbind (parse_call K) (\<lambda>e.
          pbind (match_any [TkPlusPlus, TkMinusMinus]) (\<lambda>p.
          if p then (pbind previous (\<lambda>t.
                  ret (unary_at t e True))) else ret e)))))"

text \<open>
  One level of left-associative operators: the first operand, then operators of the level with
  a right operand each. The levels differ in the operators and in the two operand parsers.
\<close>

definition binary_step :: "TokenType list \<Rightarrow> Expr parser \<Rightarrow> Expr \<Rightarrow> (Expr + Expr) parser" where
  "binary_step ops right e =
     (pbind (match_any ops) (\<lambda>m.
       if \<not> m then leave e
        else (pbind before (\<lambda>t.
          pbind right (\<lambda>r.
          again (BinaryExpr e (token_type t) r (tok_line t) (tok_column t)))))))"

definition binary_level :: "Expr parser \<Rightarrow> TokenType list \<Rightarrow> Expr parser \<Rightarrow> Expr parser" where
  "binary_level first ops right = (pbind first (\<lambda>e.
    ploop (binary_step ops right) e))"

definition parse_factor :: "parsers \<Rightarrow> Expr parser" where
  "parse_factor K = binary_level (parse_unary K) [TkStar, TkSlash, TkModulo] (parse_unary K)"

definition parse_term :: "parsers \<Rightarrow> Expr parser" where
  "parse_term K = binary_level (parse_factor K) [TkPlus, TkMinus] (parse_factor K)"

definition parse_shift :: "parsers \<Rightarrow> Expr parser" where
  "parse_shift K = binary_level (parse_term K) [TkLessLess, TkGreaterGreater] (parse_term K)"

definition parse_comparison :: "parsers \<Rightarrow> Expr parser" where
  "parse_comparison K =
     binary_level (parse_shift K) [TkGreaterEqual, TkGreater, TkLessEqual, TkLess, TkInstanceof] (parse_term K)"

definition parse_equality :: "parsers \<Rightarrow> Expr parser" where
  "parse_equality K = binary_level (parse_comparison K) [TkEqualEqual, TkBangEqual] (parse_comparison K)"

definition parse_bitwise_and :: "parsers \<Rightarrow> Expr parser" where
  "parse_bitwise_and K = binary_level (parse_equality K) [TkAmpersand] (parse_equality K)"

definition parse_bitwise_xor :: "parsers \<Rightarrow> Expr parser" where
  "parse_bitwise_xor K = binary_level (parse_bitwise_and K) [TkCaret] (parse_bitwise_and K)"

definition parse_bitwise_or :: "parsers \<Rightarrow> Expr parser" where
  "parse_bitwise_or K = binary_level (parse_bitwise_xor K) [TkPipe] (parse_bitwise_xor K)"

definition parse_logical_and :: "parsers \<Rightarrow> Expr parser" where
  "parse_logical_and K = binary_level (parse_bitwise_or K) [TkAmpersandAmpersand] (parse_equality K)"

definition parse_logical_or :: "parsers \<Rightarrow> Expr parser" where
  "parse_logical_or K = binary_level (parse_logical_and K) [TkPipePipe] (parse_logical_and K)"

definition nullish_step :: "parsers \<Rightarrow> Expr \<Rightarrow> (Expr + Expr) parser" where
  "nullish_step K e =
     (pbind (match_token TkQuestionQuestion) (\<lambda>m.
       if m then (pbind (parse_logical_or K) (\<lambda>r.
          again (NullishCoalescingExpr e r 0 0))) else leave e))"

definition parse_nullish_coalescing :: "parsers \<Rightarrow> Expr parser" where
  "parse_nullish_coalescing K = (pbind (parse_logical_or K) (\<lambda>e.
    ploop (nullish_step K) e))"

definition parse_conditional :: "parsers \<Rightarrow> Expr parser" where
  "parse_conditional K =
     (pbind (parse_nullish_coalescing K) (\<lambda>e.
       pbind (match_token TkQuestion) (\<lambda>m.
       if m then
          (pbind (k_expression K) (\<lambda>a.
            pbind (consume TkColon (expected '':'' '' in ternary'')) (\<lambda>_.
            pbind (k_expression K) (\<lambda>c.
            ret (TernaryExpr e a c 0 0)))))
        else ret e)))"

definition assignment_tokens :: "TokenType list" where
  "assignment_tokens =
     [TkEquals, TkPlusEquals, TkMinusEquals, TkStarEquals, TkSlashEquals, TkModuloEquals,
      TkAmpersandEquals, TkPipeEquals, TkCaretEquals, TkLessLessEquals, TkGreaterGreaterEquals]"

definition parse_assignment :: "parsers \<Rightarrow> Expr parser" where
  "parse_assignment K =
     (pbind (parse_conditional K) (\<lambda>e.
       pbind (match_any assignment_tokens) (\<lambda>m.
       if m then
          (pbind before (\<lambda>t.
            pbind (k_assignment K) (\<lambda>v.
            ret (AssignmentExpr e v (token_type t) (tok_line t) (tok_column t)))))
        else ret e)))"

definition comma_step :: "parsers \<Rightarrow> Expr list \<Rightarrow> (Expr list + Expr list) parser" where
  "comma_step K es =
     (pbind (match_token TkComma) (\<lambda>m.
       if m then (pbind (parse_assignment K) (\<lambda>e.
          again (es @ [e]))) else leave es))"

definition parse_expression :: "parsers \<Rightarrow> Expr parser" where
  "parse_expression K =
     (pbind (parse_assignment K) (\<lambda>e.
       pbind peek (\<lambda>t.
       pbind (check TkComma) (\<lambda>c.
       if c then
          (pbind (ploop (comma_step K) [e]) (\<lambda>es.
            ret (SequenceExpr es (tok_line t) (tok_column t))))
        else ret e))))"

section \<open>Laws\<close>

lemma wp_close_body [wp_rules]:
  "okst b s0 s \<Longrightarrow> moved b s \<Longrightarrow>
     (\<And>s'. okst b s0 s' \<Longrightarrow> moved b s' \<Longrightarrow> weight s' \<le> weight s \<Longrightarrow> Q () s') \<Longrightarrow> wp b W s0 (close_body u h m) Q s"
  unfolding close_body_def by (auto intro!: wp_rules)

lemma eats_more_lt: "eats_lt b W p \<Longrightarrow> 0 < n \<Longrightarrow> n < W \<Longrightarrow> eats_more b n p"
  by (simp add: eats_lt_def eats_def eats_more_def)

text \<open>
  Blocks and the literals start with a token they consume, so from the end of the file on they
  call nothing else.
\<close>

lemma eats_parse_block: "kgood b W K \<Longrightarrow> eats b W (parse_block K)"
  by (rule eatsI) (auto simp: parse_block_def block_step_def intro!: wp_rules)

lemmas wp_parse_block [wp_rules] = wp_eats [OF eats_parse_block]

lemma goes_parse_lambda_body: "kgood b W K \<Longrightarrow> goes_lt b W (parse_lambda_body K l c)"
  by (rule goes_ltI) (auto simp: parse_lambda_body_def intro!: wp_rules)

lemmas wp_parse_lambda_body [wp_rules] = wp_goes_lt [OF goes_parse_lambda_body]

lemma eats_parse_lambda: "kgood b W K \<Longrightarrow> eats_more b W (parse_lambda K)"
  by (rule eats_moreI) (auto simp: parse_lambda_def intro!: wp_rules)

lemmas wp_parse_lambda [wp_rules] = wp_eats_more [OF eats_parse_lambda]

lemma eats_parse_object_literal: "kgood b W K \<Longrightarrow> eats b W (parse_object_literal K)"
  by (rule eatsI) (auto simp: parse_object_literal_def object_literal_step_def intro!: wp_rules)

lemmas wp_parse_object_literal [wp_rules] = wp_eats [OF eats_parse_object_literal]

lemma eats_parse_array_literal: "kgood b W K \<Longrightarrow> eats b W (parse_array_literal K)"
  by (rule eatsI) (auto simp: parse_array_literal_def array_literal_step_def intro!: wp_rules)

lemmas wp_parse_array_literal [wp_rules] = wp_eats [OF eats_parse_array_literal]

lemma eats_parse_args: "kgood b W K \<Longrightarrow> eats_lt b W (parse_args K)"
  by (rule eats_ltI) (auto simp: parse_args_def intro!: wp_rules)

lemmas wp_parse_args [wp_rules] = wp_eats_lt [OF eats_parse_args]

lemma eats_parse_new: "kgood b W K \<Longrightarrow> eats_more b W (parse_new_expression K)"
  by (rule eats_moreI) (auto simp: parse_new_expression_def intro!: wp_rules)

lemmas wp_parse_new [wp_rules] = wp_eats_more [OF eats_parse_new]

lemma eats_parse_some: "kgood b W K \<Longrightarrow> eats_lt b W (parse_some_expression K)"
  by (rule eats_ltI) (auto simp: parse_some_expression_def intro!: wp_rules)

lemmas wp_parse_some [wp_rules] = wp_eats_lt [OF eats_parse_some]

lemma eats_parse_parenthesized: "kgood b W K \<Longrightarrow> eats_more b W (parse_parenthesized K)"
  by (rule eats_moreI) (auto simp: parse_parenthesized_def intro!: wp_rules)

lemmas wp_parse_parenthesized [wp_rules] = wp_eats_more [OF eats_parse_parenthesized]

lemma eats_parse_name: "kgood b W K \<Longrightarrow> eats_more b W (parse_name K t)"
  by (rule eats_moreI) (auto simp: parse_name_def intro!: wp_rules)

lemmas wp_parse_name [wp_rules] = wp_eats_more [OF eats_parse_name]

lemma wp_is_lambda [wp_rules]: "(\<And>c. Q c s) \<Longrightarrow> wp b W s0 is_lambda Q s"
  by (simp add: wp_def is_lambda_def)

text \<open>
  Template strings. The text of an interpolation is shorter than the literal, so the tokens of
  the inner parser weigh less than the template token.
\<close>

lemma good_lexed: "good True (parser_new (fst (lex_source v file)) file)"
  using lex_source_shape [of v "file"]
  by (auto simp: good_def parser_new_def eof_terminated_def)

lemma weight_lexed: "weight (parser_new (fst (lex_source v file)) file) \<le> length v"
  using lex_source_shape [of v "file"] by (simp add: weight_def parser_new_def)

lemma parse_interpolation_ends:
  "kgood True W K \<Longrightarrow> length v < W \<Longrightarrow> outcome_sat True (parse_interpolation K v s) (\<lambda>(x, s'). s' = s)"
proof -
  let ?s = "parser_new (fst (lex_source v (p_filename s))) (p_filename s)"
  assume "kgood True W K" "length v < W"
  then have "eats True (weight ?s) (k_expression K)"
    using weight_lexed [of v "p_filename s"] by (auto simp: kgood_def eats_lt_def)
  then have "outcome_sat True (k_expression K ?s) (\<lambda>(x, s'). okst True ?s s' \<and> weight s' \<le> weight ?s - 1)"
    using good_lexed by (simp add: eats_def)
  then show ?thesis by (cases "k_expression K ?s") (auto simp: parse_interpolation_def)
qed

lemma from_option_ends: "outcome_sat True (from_option x s) (\<lambda>(a, s'). x = Some a \<and> s' = s)"
  by (cases x) (auto simp: from_option_def)

lemma sat_bind:
  "outcome_sat b (m s) (\<lambda>(a, s'). outcome_sat b (f a s') Q) \<Longrightarrow> outcome_sat b (pbind m f s) Q"
  by (cases "m s") (auto simp: pbind_def)

lemma closing_brace_bound: "closing_brace d i s = Some n \<Longrightarrow> i \<le> n \<and> n < i + length s"
  by (induction d i s rule: closing_brace.induct) (fastforce split: if_splits)+

lemma template_step_ends:
  assumes "kgood True W K" "length (fst r) \<le> W"
  shows "outcome_sat True (template_step K t r s)
    (\<lambda>(x, s'). s' = s \<and> (\<forall>r'. x = Inl r' \<longrightarrow> length (fst r') < length (fst r)))"
proof (cases "find_interpolation 0 (fst r)")
  case (Some i)
  show ?thesis
    unfolding template_step_def Some option.case
  proof (rule sat_bind, rule outcome_sat_mono [OF from_option_ends], clarify,
      rule sat_bind, rule outcome_sat_mono [OF from_option_ends], clarify)
    fix pre s1 after' s2
    assume a: "byte_drop (fst r) (i + 2) = Some after'"
    then have la: "length after' < length (fst r)" using byte_drop_length_pos [of "fst r" "i + 2" after'] by simp
    show "outcome_sat True
        ((let e = template_text t pre (snd r) in
          case closing_brace 1 0 after' of
            None \<Rightarrow> leave (fst r, e)
          | Some n \<Rightarrow>
              pbind (from_option (byte_take after' n)) (\<lambda>v.
              pbind (parse_interpolation K v) (\<lambda>x.
              pbind (from_option (byte_drop after' (n + 1))) (\<lambda>rest.
              again (rest, Some (template_concat t e x)))))) s)
        (\<lambda>(x, s'). s' = s \<and> (\<forall>r'. x = Inl r' \<longrightarrow> length (fst r') < length (fst r)))"
    proof (cases "closing_brace 1 0 after'")
      case (Some n)
      show ?thesis
        unfolding Some Let_def option.case
      proof (rule sat_bind, rule outcome_sat_mono [OF from_option_ends], clarify,
          rule sat_bind)
        fix v s3 assume v: "byte_take after' n = Some v"
        then have "length v < W" using byte_take_length [OF v] la assms(2) by linarith
        note p = parse_interpolation_ends [OF assms(1) this, of s]
        show "outcome_sat True (parse_interpolation K v s) (\<lambda>(x, s').
           outcome_sat True (pbind (from_option (byte_drop after' (n + 1))) (\<lambda>rest.
              again (rest, Some (template_concat t (template_text t pre (snd r)) x))) s')
            (\<lambda>(x, s'). s' = s \<and> (\<forall>r'. x = Inl r' \<longrightarrow> length (fst r') < length (fst r))))"
          using byte_drop_length la
          by (intro outcome_sat_mono [OF p]) (force intro!: sat_bind outcome_sat_mono [OF from_option_ends] simp: ret_def)
      qed
    qed (simp add: ret_def)
  qed
qed (simp add: template_step_def ret_def)

lemma template_loop_ends:
  "kgood True W K \<Longrightarrow> length (fst r) \<le> W \<Longrightarrow> length (fst r) < n \<Longrightarrow>
     outcome_sat True (loop_n n (template_step K t) r s) (\<lambda>(x, s'). s' = s)"
proof (induction n arbitrary: r)
  case (Suc n)
  note st = template_step_ends [OF Suc.prems(1,2), of t s]
  show ?case
  proof (cases "template_step K t r s")
    case (Done x)
    obtain y s' where x: "x = (y, s')" by (cases x)
    with st Done have "s' = s" "\<forall>r'. y = Inl r' \<longrightarrow> length (fst r') < length (fst r)" by auto
    with Suc Done x show ?thesis by (cases y) auto
  qed (use st in auto)
qed simp

lemma parse_template_ends:
  "kgood True W K \<Longrightarrow> length (tok_value t) \<le> W \<Longrightarrow>
     outcome_sat True (parse_template_string K t s) (\<lambda>(x, s'). s' = s)"
  unfolding parse_template_string_def
  by (rule sat_bind, rule outcome_sat_mono [OF template_loop_ends]) (auto simp: ret_def)

lemma wp_parse_template:
  assumes "kgood b W K" b "length (tok_value t) \<le> W" "\<And>e. Q e s"
  shows "wp b W s0 (parse_template_string K t) Q s"
  unfolding wp_def using parse_template_ends [of W K t s] assms by (auto elim: outcome_sat_mono)

text \<open>Primary expressions and calls.\<close>

lemma wp_primary_token:
  assumes "kgood b W K" "okst b s0 s" "weight s \<le> W" "t = p_tokens s ! p_current s"
    "\<And>a s'. okst b s0 s' \<Longrightarrow> moved b s' \<Longrightarrow> weight s' \<le> weight s \<Longrightarrow> weight s' \<le> weight s0 - 1 \<Longrightarrow> Q a s'"
  shows "wp b W s0 (primary_token K t) Q s"
proof -
  have g: "good b s" using assms(2) by (rule okst_good)
  have eof: "token_type t = TkEndOfFile \<longleftrightarrow> weight s = 0" using good_eof [OF g] assms(4) by simp
  have tmpl: b if "token_type t = TkTemplateString"
  proof -
    have "t \<in> set (p_tokens s)" using g assms(4) by (simp add: good_def)
    with that g show b by (auto simp: good_def)
  qed
  have len: "length (tok_value t) \<le> W" if "token_type t = TkTemplateString"
  proof -
    have "drop (p_current s) (p_tokens s) = t # drop (Suc (p_current s)) (p_tokens s)"
      using g assms(4) by (simp add: good_def Cons_nth_drop_Suc)
    then have "tok_weight t \<le> weight s" by (simp add: weight_def)
    with assms(3) that show ?thesis by (simp add: tok_weight_def is_eof_def)
  qed
  have pos: "token_type t \<in> {TkOpenParen} \<union> set name_tokens \<Longrightarrow> 0 < weight s"
    using eof by (auto simp: name_tokens_def)
  show ?thesis
    unfolding primary_token_def Let_def using assms(1-3,5) tmpl len pos
    by (auto intro!: wp_rules wp_parse_template)
qed

lemma eats_parse_primary: "kgood b W K \<Longrightarrow> eats b W (parse_primary K)"
proof (rule eatsI)
  fix s assume K: "kgood b W K" and s: "good b s" "okst b s s" "weight s \<le> W"
  have "wp b W s (pbind peek (primary_token K)) (\<lambda>a s'. okst b s s' \<and> weight s' \<le> weight s - 1) s"
    using wp_primary_token [OF K s(2,3) refl] peek_good [OF s(1)] by (simp add: wp_def pbind_def)
  then show "wp b W s (parse_primary K) (\<lambda>a s'. okst b s s' \<and> weight s' \<le> weight s - 1) s"
    using K s unfolding parse_primary_def by (auto intro!: wp_rules)
qed

lemmas wp_parse_primary [wp_rules] = wp_eats [OF eats_parse_primary]

lemma generic_scan_ends: "token_type t = TkEndOfFile \<Longrightarrow> \<exists>r. generic_scan d (us @ [t]) = Done r"
  by (induction us arbitrary: d) (auto simp: Let_def split: list.splits)

lemma wp_generic_lookahead [wp_rules]:
  assumes "okst b s0 s" "0 < weight s \<Longrightarrow> Q True s" "Q False s"
  shows "wp b W s0 is_generic_call_lookahead Q s"
proof -
  have g: "good b s" using assms(1) by (rule okst_good)
  show ?thesis
  proof (cases "token_type (p_tokens s ! p_current s) = TkLess")
    case True
    then have w: "0 < weight s" using good_eof [OF g] by auto
    obtain us t where us: "p_tokens s = us @ [t]" "token_type t = TkEndOfFile"
      using g by (auto simp: good_def eof_terminated_def is_eof_def)
    have c: "Suc (p_current s) \<le> length us" using good_step(3) [OF g w] us by simp
    have "drop (p_current s + 1) (p_tokens s) = drop (p_current s + 1) us @ [t]"
      using us(1) c by simp
    with generic_scan_ends [OF us(2)] obtain r where
      "generic_scan 1 (drop (p_current s + 1) (p_tokens s)) = Done r" by metis
    with assms(2,3) w g True show ?thesis
      by (cases r) (simp_all add: wp_def is_generic_call_lookahead_def good_def)
  next
    case False
    with assms(3) g show ?thesis by (simp add: wp_def is_generic_call_lookahead_def good_def)
  qed
qed

lemma wp_refuse_type_args [wp_rules]:
  "okst b s0 s \<Longrightarrow> (\<And>s'. okst b s0 s' \<Longrightarrow> weight s' = weight s \<Longrightarrow> p_current s' = p_current s \<Longrightarrow> Q () s') \<Longrightarrow>
     wp b W s0 (refuse_type_args ta t m h) Q s"
  unfolding refuse_type_args_def by (auto intro!: wp_rules)

lemma eats_lt_parse_type_annotation [wp_rules]: "kgood b W K \<Longrightarrow> eats_lt b W (parse_type_annotation K)"
  using eats_parse_type_annotation by (auto simp: eats_lt_def kgood_def)

lemma goes_parse_type_args: "kgood b W K \<Longrightarrow> goes_lt b (Suc W) (parse_type_args K)"
  by (rule goes_leI) (auto simp: parse_type_args_def intro!: wp_rules)

lemmas wp_parse_type_args [wp_rules] = wp_goes_le [OF goes_parse_type_args]

lemma goes_accesses:
  assumes "kgood b W K"
  shows "goes_lt b W (optional_access K t ta e)" "goes_lt b W (member_access K t ta e)"
    "goes_lt b W (index_access K t ta e)"
  using assms
  by (auto simp: optional_access_def member_access_def index_access_def intro!: wp_rules goes_ltI)

lemmas wp_accesses [wp_rules] = goes_accesses [THEN wp_goes_lt]

lemma goes_call_loop: "kgood b W K \<Longrightarrow> goes_lt b (Suc W) (ploop (call_step K t) e)"
  by (rule goes_leI) (auto simp: call_step_def intro!: wp_rules)

lemmas wp_call_loop = wp_goes_le [OF goes_call_loop]

lemma eats_parse_call: "kgood b W K \<Longrightarrow> eats b W (parse_call K)"
  by (rule eatsI) (auto simp: parse_call_def intro!: wp_bind wp_peek wp_parse_primary wp_call_loop)

lemmas wp_parse_call [wp_rules] = wp_eats [OF eats_parse_call]

lemma eats_parse_unary: "kgood b W K \<Longrightarrow> eats b W (parse_unary K)"
  by (rule eatsI) (auto simp: parse_unary_def intro!: wp_rules)

text \<open>Operators: a level keeps the contract of its operands.\<close>

lemma eats_binary_level: "eats b W p \<Longrightarrow> eats b W q \<Longrightarrow> eats b W (binary_level p ops q)"
  by (rule eatsI) (auto simp: binary_level_def binary_step_def intro!: wp_rules wp_eats [of b W p] wp_eats [of b W q])

lemma eats_levels:
  assumes "kgood b W K"
  shows "eats b W (parse_factor K)" "eats b W (parse_term K)" "eats b W (parse_shift K)"
    "eats b W (parse_comparison K)" "eats b W (parse_equality K)" "eats b W (parse_bitwise_and K)"
    "eats b W (parse_bitwise_xor K)" "eats b W (parse_bitwise_or K)" "eats b W (parse_logical_and K)"
    "eats b W (parse_logical_or K)"
  using eats_parse_unary [OF assms]
  by (auto simp: parse_factor_def parse_term_def parse_shift_def parse_comparison_def parse_equality_def
      parse_bitwise_and_def parse_bitwise_xor_def parse_bitwise_or_def parse_logical_and_def
      parse_logical_or_def intro!: eats_binary_level)

lemmas wp_parse_logical_or [wp_rules] = wp_eats [OF eats_levels(10)]

lemma eats_parse_conditional: "kgood b W K \<Longrightarrow> eats b W (parse_conditional K)"
  by (rule eatsI)
    (auto simp: parse_conditional_def parse_nullish_coalescing_def nullish_step_def intro!: wp_rules)

lemmas wp_parse_conditional [wp_rules] = wp_eats [OF eats_parse_conditional]

lemma eats_parse_assignment: "kgood b W K \<Longrightarrow> eats b W (parse_assignment K)"
  by (rule eatsI) (auto simp: parse_assignment_def intro!: wp_rules)

lemmas wp_parse_assignment [wp_rules] = wp_eats [OF eats_parse_assignment]

lemma eats_parse_expression: "kgood b W K \<Longrightarrow> eats b W (parse_expression K)"
  by (rule eatsI) (auto simp: parse_expression_def comma_step_def intro!: wp_rules)

lemmas wp_parse_expression [wp_rules] = wp_eats [OF eats_parse_expression]

end
