(* ===== verification/ParserStmt.thy ===== *)
theory ParserStmt
  imports ParserExpr
begin

text \<open>
  Statements and declarations, the rest of \<open>src/compiler/frontend/parser.rs\<close>, up to
  \<open>parse_program\<close>.
\<close>

definition quote_word :: "string \<Rightarrow> string" where
  "quote_word w = quote_char # w @ [quote_char]"

text \<open>\<open>let saved = self.current; ...; self.current = saved;\<close>.\<close>

definition lookahead :: "'a parser \<Rightarrow> 'a parser" where
  "lookahead p s =
     (case p s of
        Done (a, s') \<Rightarrow> Done (a, s'\<lparr>p_current := p_current s\<rparr>)
      | Panic \<Rightarrow> Panic
      | NoFuel \<Rightarrow> NoFuel)"

definition empty_block :: "nat \<Rightarrow> nat \<Rightarrow> Statement" where
  "empty_block l c = BlockStmt [] l c"

definition semicolon :: "unit parser" where
  "semicolon = pmap (\<lambda>_. ()) (consume TkSemicolon (expected '';'' []))"

section \<open>Variables\<close>

definition is_object_node :: "'e TypeNode \<Rightarrow> bool" where
  "is_object_node t = (case t of TNObject _ \<Rightarrow> True | _ \<Rightarrow> False)"

definition parse_declarator :: "parsers \<Rightarrow> Token \<Rightarrow> Statement parser" where
  "parse_declarator K start =
     (pbind (parse_binding_pattern K) (\<lambda>p.
       pbind (parse_opt_type K (TNNamed [])) (\<lambda>t.
       pbind (parse_opt_init K) (\<lambda>i.
       pbind ((if i = None \<and> is_object_node t
         then push_error ''Object-typed variables must be initialized at declaration'' (tok_line start)
                (tok_column start) ''Provide an initializer when declaring an object-typed variable.''
         else ret ())) (\<lambda>_.
       ret (VarDeclaration p t i (token_type start = TkConst) (tok_line start) (tok_column start)))))))"

definition declarator_step :: "parsers \<Rightarrow> Token \<Rightarrow> Statement list \<Rightarrow> (Statement list + Statement list) parser" where
  "declarator_step K start ds =
     (pbind (match_token TkComma) (\<lambda>c.
       if c then (pbind (parse_declarator K start) (\<lambda>d.
          again (ds @ [d]))) else leave ds))"

definition parse_var_declaration :: "parsers \<Rightarrow> bool \<Rightarrow> Statement parser" where
  "parse_var_declaration K semi =
     (pbind advance (\<lambda>start.
       pbind (parse_declarator K start) (\<lambda>d.
       pbind (ploop (declarator_step K start) [d]) (\<lambda>ds.
       pbind ((if semi then pmap (\<lambda>_. ()) (consume TkSemicolon (expected '';'' '' after variable declaration.''))
         else ret ())) (\<lambda>_.
       ret (if length ds = 1 then hd ds else BlockStmt ds (tok_line start) (tok_column start)))))))"

section \<open>Functions and classes\<close>

definition parse_opt_generics :: "parsers \<Rightarrow> Expr GenericParam list parser" where
  "parse_opt_generics K = (pbind (match_token TkLess) (\<lambda>lt.
    if lt then parse_generic_params K else ret []))"

definition parse_function_declaration ::
  "parsers \<Rightarrow> bool \<Rightarrow> (Expr, Statement) FunctionDeclaration parser" where
  "parse_function_declaration K is_extern =
     (pbind (consume TkFunction (expected ''function'' [])) (\<lambda>start.
       pbind (consume_name ''Expected function name'') (\<lambda>name.
       pbind (parse_opt_generics K) (\<lambda>gs.
       pbind (consume TkOpenParen (expected ''('' [])) (\<lambda>_.
       pbind (parse_parameters K True ''Expected param name'' (TNNamed [])) (\<lambda>ps.
       pbind (consume TkCloseParen (expected '')'' [])) (\<lambda>_.
       pbind (parse_opt_type K (TNNamed [])) (\<lambda>r.
       pbind ((if is_extern then
                   (pbind (consume TkSemicolon (expected '';'' '' after extern function declaration.'')) (\<lambda>_.
                     ret (empty_block (tok_line start) (tok_column start))))
                 else parse_block K)) (\<lambda>body.
       ret (FunctionDeclaration name ps r body is_extern gs (tok_line start) (tok_column start)))))))))))"

definition default_constructor :: "nat \<Rightarrow> nat \<Rightarrow> (Expr, Statement) FunctionDeclaration" where
  "default_constructor l c =
     FunctionDeclaration ''constructor'' [] (TNNamed ''void'') (empty_block l c) False [] l c"

text \<open>Access, static flag, abstract flag.\<close>

definition modifier_step ::
  "AccessModifier \<times> bool \<times> bool \<Rightarrow> (AccessModifier \<times> bool \<times> bool + AccessModifier \<times> bool \<times> bool) parser" where
  "modifier_step m =
     (case m of (a, st, ab) \<Rightarrow>
        first_match
          [(TkPublic, again (Public, st, ab)), (TkPrivate, again (Private, st, ab)),
           (TkProtected, again (Protected, st, ab)), (TkStatic, again (a, True, ab)),
           (TkAbstract, again (a, st, True))]
          (leave m))"

definition parse_constructor :: "parsers \<Rightarrow> (Expr, Statement) FunctionDeclaration parser" where
  "parse_constructor K =
     (pbind previous (\<lambda>start.
       pbind (consume TkOpenParen (expected ''('' [])) (\<lambda>_.
       pbind (parse_parameters K False ''Expected param name'' (TNNamed [])) (\<lambda>ps.
       pbind (consume TkCloseParen (expected '')'' '' after constructor parameters.'')) (\<lambda>_.
       pbind (parse_block K) (\<lambda>body.
       ret (FunctionDeclaration ''constructor'' ps (TNNamed ''void'') body False [] (tok_line start) (tok_column start))))))))"

definition method_generics_ahead :: "bool parser" where
  "method_generics_ahead =
     lookahead
       ((pbind advance (\<lambda>_.
         pbind (check TkIdentifier) (\<lambda>i.
         pbind (check_next TkComma) (\<lambda>c.
         pbind (check_next TkGreater) (\<lambda>g.
         ret (i \<and> (c \<or> g))))))))"

definition parse_method_generics :: "parsers \<Rightarrow> Expr GenericParam list parser" where
  "parse_method_generics K =
     (pbind (check TkLess) (\<lambda>lt.
       pbind ((if lt then method_generics_ahead else ret False)) (\<lambda>g.
       if g then (pbind advance (\<lambda>_.
          parse_generic_params K)) else ret [])))"

definition parse_method ::
  "parsers \<Rightarrow> string \<Rightarrow> Expr GenericParam list \<Rightarrow> AccessModifier \<times> bool \<times> bool \<Rightarrow> (Expr, Statement) ClassMethod parser" where
  "parse_method K name gs m =
     (case m of (a, st, ab) \<Rightarrow>
        (pbind (consume TkOpenParen (expected ''('' [])) (\<lambda>_.
          pbind (parse_parameters K False ''Expected param'' (TNNamed [])) (\<lambda>ps.
          pbind (consume TkCloseParen (expected '')'' [])) (\<lambda>_.
          pbind (parse_opt_type K (TNNamed [])) (\<lambda>r.
          pbind ((if ab then (pbind semicolon (\<lambda>_.
             ret (empty_block 0 0))) else parse_block K)) (\<lambda>body.
          ret (ClassMethod (FunctionDeclaration name ps r body False gs 0 0) a st ab))))))))"

definition parse_field :: "parsers \<Rightarrow> string \<Rightarrow> AccessModifier \<times> bool \<times> bool \<Rightarrow> Expr ClassMember parser" where
  "parse_field K name m =
     (case m of (a, st, ab) \<Rightarrow>
        (pbind (parse_opt_type K (TNNamed [])) (\<lambda>t.
          pbind (match_token TkEquals) (\<lambda>c.
          pbind ((if c then pmap Some (parse_expression K) else ret None)) (\<lambda>i.
          pbind semicolon (\<lambda>_.
          ret (ClassMember name t a st i)))))))"

text \<open>Members, methods and the constructor read so far.\<close>

type_synonym class_parts =
  "Expr ClassMember list \<times> (Expr, Statement) ClassMethod list \<times> (Expr, Statement) FunctionDeclaration option"

definition parse_member :: "parsers \<Rightarrow> class_parts \<Rightarrow> class_parts parser" where
  "parse_member K cp =
     (case cp of (ms, fs, ctor) \<Rightarrow>
        (pbind (ploop modifier_step (Public, False, False)) (\<lambda>m.
          pbind (match_token TkConstructor) (\<lambda>c.
          if c then pmap (\<lambda>f. (ms, fs, Some f)) (parse_constructor K)
           else (pbind (consume_name ''Expected member name'') (\<lambda>name.
             pbind (parse_method_generics K) (\<lambda>gs.
             pbind (check TkOpenParen) (\<lambda>p.
             if p then pmap (\<lambda>f. (ms, fs @ [f], ctor)) (parse_method K name gs m)
                   else pmap (\<lambda>x. (ms @ [x], fs, ctor)) (parse_field K name m)))))))))"

definition member_step :: "parsers \<Rightarrow> class_parts \<Rightarrow> (class_parts + class_parts) parser" where
  "member_step K cp =
     (pbind (before_token TkCloseBrace) (\<lambda>go.
       if go then pmap Inl (parse_member K cp) else leave cp))"

definition parse_protocols :: "string list parser" where
  "parse_protocols =
     (pbind (match_token TkImplements) (\<lambda>c.
       if c then comma_loop (pmap tok_value (consume TkIdentifier ''Expected protocol name''))
        else ret []))"

definition parse_class_declaration :: "parsers \<Rightarrow> bool \<Rightarrow> Statement parser" where
  "parse_class_declaration K is_abstract =
     (pbind (consume TkClass (expected ''class'' [])) (\<lambda>start.
       pbind (consume_name ''Expected class name'') (\<lambda>name.
       pbind (parse_opt_generics K) (\<lambda>gs.
       pbind (match_token TkExtends) (\<lambda>ext.
       pbind ((if ext then pmap tok_value (consume TkIdentifier ''Expected parent name'') else ret [])) (\<lambda>parent.
       pbind parse_protocols (\<lambda>prots.
       pbind (consume TkOpenBrace (expected ''{'' '' before class body.'')) (\<lambda>_.
       pbind (ploop (member_step K) ([], [], None)) (\<lambda>(ms, fs, ctor).
       pbind (close_body (''Unclosed class body for '' @ quote_word name @ position_text start)
          (''Add the missing '' @ quoted (CHR ''}'') @ '' to close the class body.'')
          (expected ''}'' '' after class body.'')) (\<lambda>_.
       ret (ClassDeclarationStmt
          (ClassDeclaration name parent gs is_abstract prots ms fs [] []
             (Some (case ctor of Some f \<Rightarrow> f | None \<Rightarrow> default_constructor (tok_line start) (tok_column start)))
             (tok_line start) (tok_column start)))))))))))))"

section \<open>Type aliases, enums, interfaces, imports and namespaces\<close>

definition parse_type_alias_declaration :: "parsers \<Rightarrow> Statement parser" where
  "parse_type_alias_declaration K =
     (pbind (consume TkTypeAlias (expected ''type'' [])) (\<lambda>start.
       pbind (consume_name ''Expected type name'') (\<lambda>name.
       pbind (consume TkEquals (expected ''='' [])) (\<lambda>_.
       pbind (parse_type_annotation K) (\<lambda>t.
       pbind semicolon (\<lambda>_.
       ret (TypeAliasDeclaration name t (tok_line start) (tok_column start))))))))"

definition enum_step :: "parsers \<Rightarrow> Expr EnumMember list \<Rightarrow> (Expr EnumMember list + Expr EnumMember list) parser" where
  "enum_step K ms =
     (pbind (before_token TkCloseBrace) (\<lambda>go.
       if \<not> go then leave ms
        else (pbind (consume_name ''Expected enum member'') (\<lambda>n.
          pbind (parse_opt_init K) (\<lambda>v.
          pbind skip_comma (\<lambda>_.
          again (ms @ [EnumMember n v])))))))"

definition parse_enum_declaration :: "parsers \<Rightarrow> Statement parser" where
  "parse_enum_declaration K =
     (pbind (consume TkEnum (expected ''enum'' [])) (\<lambda>start.
       pbind (consume_name ''Expected enum name'') (\<lambda>name.
       pbind (consume TkOpenBrace (expected ''{'' [])) (\<lambda>_.
       pbind (ploop (enum_step K) []) (\<lambda>ms.
       pbind (consume TkCloseBrace (expected ''}'' [])) (\<lambda>_.
       ret (EnumDeclarationStmt (EnumDeclaration name ms (tok_line start) (tok_column start)))))))))"

text \<open>\<open>self.check(Identifier) && self.peek().value == w\<close>.\<close>

definition word_ahead :: "string \<Rightarrow> bool parser" where
  "word_ahead w = (pbind (check TkIdentifier) (\<lambda>c.
    pbind peek (\<lambda>t.
    ret (c \<and> tok_value t = w))))"

definition parse_import_item :: "ImportItem parser" where
  "parse_import_item =
     (pbind (consume_name ''Expected import name'') (\<lambda>n.
       pbind (word_ahead ''as'') (\<lambda>a.
       if a then (pbind advance (\<lambda>_.
          pbind (consume_name (''Expected alias after '' @ quote_word ''as'')) (\<lambda>x.
          ret (ImportItem n (Some x)))))
        else ret (ImportItem n None))))"

definition import_step :: "ImportItem list \<Rightarrow> (ImportItem list + ImportItem list) parser" where
  "import_step xs =
     (pbind (before_token TkCloseBrace) (\<lambda>go.
       if go then (pbind parse_import_item (\<lambda>x.
          pbind skip_comma (\<lambda>_.
          again (xs @ [x])))) else leave xs))"

definition skip_from :: "unit parser" where
  "skip_from =
     (pbind (check TkIdentifier) (\<lambda>c.
       if c then (pbind (word_ahead ''from'') (\<lambda>w.
          if w then pmap (\<lambda>_. ()) advance else ret ()))
        else pmap (\<lambda>_. ()) (match_token TkFrom)))"

definition finish_import :: "Token \<Rightarrow> ImportItem list \<Rightarrow> bool \<Rightarrow> Statement parser" where
  "finish_import start names is_default =
     (pbind skip_from (\<lambda>_.
       pbind (consume TkString ''Expected module path'') (\<lambda>src.
       pbind semicolon (\<lambda>_.
       ret (ImportDecl names (tok_value src) is_default (tok_line start) (tok_column start))))))"

definition parse_import_names :: "(ImportItem list \<times> bool) parser" where
  "parse_import_names =
     (pbind (check TkIdentifier) (\<lambda>c.
       if c then pmap (\<lambda>x. ([x], True)) parse_import_item
        else (pbind (match_token TkOpenBrace) (\<lambda>br.
          if br then (pbind (ploop import_step []) (\<lambda>xs.
                  pbind (consume TkCloseBrace (expected ''}'' [])) (\<lambda>_.
                  ret (xs, False))))
                else ret ([], False)))))"

definition parse_import_statement :: "Statement parser" where
  "parse_import_statement =
     (pbind (consume TkImport (expected ''import'' [])) (\<lambda>start.
       pbind (word_ahead ''std'') (\<lambda>std.
       if std then
          (pbind advance (\<lambda>_.
            pbind (match_token TkColon) (\<lambda>c.
            if c then (pbind (consume TkIdentifier ''Expected module name'') (\<lambda>m.
               pbind semicolon (\<lambda>_.
               ret (ImportDecl [] (''std:'' @ tok_value m) False (tok_line start) (tok_column start)))))
             else finish_import start [ImportItem ''std'' None] True)))
        else (pbind parse_import_names (\<lambda>(names, d).
          finish_import start names d)))))"

definition interface_param :: "parsers \<Rightarrow> Expr Parameter parser" where
  "interface_param K =
     (pbind (consume_name ''Param name'') (\<lambda>n.
       pbind (consume TkColon (expected '':'' [])) (\<lambda>_.
       pbind (parse_type_annotation K) (\<lambda>t.
       ret (Parameter n t None False)))))"

definition interface_step ::
  "parsers \<Rightarrow> Expr InterfaceMethod list \<Rightarrow> (Expr InterfaceMethod list + Expr InterfaceMethod list) parser" where
  "interface_step K ms =
     (pbind (before_token TkCloseBrace) (\<lambda>go.
       if \<not> go then leave ms
        else (pbind (consume_name ''Expected member name'') (\<lambda>n.
          pbind (check TkOpenParen) (\<lambda>p.
          if p then
                  (pbind (consume TkOpenParen (expected ''('' [])) (\<lambda>_.
                    pbind (check TkCloseParen) (\<lambda>c.
                    pbind ((if c then ret [] else comma_loop (interface_param K))) (\<lambda>ps.
                    pbind (consume TkCloseParen (expected '')'' [])) (\<lambda>_.
                    pbind (consume TkColon (expected '':'' [])) (\<lambda>_.
                    pbind (parse_type_annotation K) (\<lambda>r.
                    pbind semicolon (\<lambda>_.
                    again (ms @ [InterfaceMethod n ps r])))))))))
                else
                  (pbind (consume TkColon (expected '':'' [])) (\<lambda>_.
                    pbind (parse_type_annotation K) (\<lambda>_.
                    pbind semicolon (\<lambda>_.
                    again ms)))))))))"

definition parse_interface_declaration :: "parsers \<Rightarrow> Statement parser" where
  "parse_interface_declaration K =
     (pbind (consume TkInterface (expected ''interface'' [])) (\<lambda>start.
       pbind (consume_name ''Expected interface name'') (\<lambda>name.
       pbind (consume TkOpenBrace (expected ''{'' [])) (\<lambda>_.
       pbind (ploop (interface_step K) []) (\<lambda>ms.
       pbind (consume TkCloseBrace (expected ''}'' [])) (\<lambda>_.
       ret (InterfaceDeclaration name ms (tok_line start) (tok_column start))))))))"

text \<open>The static fields a variable declaration of a namespace becomes.\<close>

definition binding_name :: "BindingNode \<Rightarrow> string" where
  "binding_name b = (case b of BIdentifier n \<Rightarrow> n | _ \<Rightarrow> ''__anon__'')"

definition var_member :: "Statement \<Rightarrow> Expr ClassMember option" where
  "var_member s =
     (case s of VarDeclaration p t i _ _ _ \<Rightarrow> Some (ClassMember (binding_name p) t Public True i) | _ \<Rightarrow> None)"

definition namespace_members :: "Statement \<Rightarrow> Expr ClassMember list" where
  "namespace_members s =
     (case s of BlockStmt ss _ _ \<Rightarrow> List.map_filter var_member ss | _ \<Rightarrow> List.map_filter var_member [s])"

definition namespace_step ::
  "parsers \<Rightarrow> Expr ClassMember list \<times> (Expr, Statement) ClassMethod list \<Rightarrow>
     (Expr ClassMember list \<times> (Expr, Statement) ClassMethod list + Expr ClassMember list \<times> (Expr, Statement) ClassMethod list) parser" where
  "namespace_step K r =
     (case r of (ms, fs) \<Rightarrow>
        (pbind (before_token TkCloseBrace) (\<lambda>go.
          if \<not> go then leave r
           else (pbind (match_token TkExport) (\<lambda>_.
             pbind (check TkFunction) (\<lambda>f.
             if f then (pbind (parse_function_declaration K False) (\<lambda>d.
                     again (ms, fs @ [ClassMethod d Public True False])))
                   else (pbind (check TkLet) (\<lambda>l.
                     pbind (check TkConst) (\<lambda>c.
                     if l \<or> c then (pbind (parse_var_declaration K True) (\<lambda>v.
                             again (ms @ namespace_members v, fs)))
                           else (pbind advance (\<lambda>_.
                             again r)))))))))))"

definition parse_namespace_declaration :: "parsers \<Rightarrow> Statement parser" where
  "parse_namespace_declaration K =
     (pbind advance (\<lambda>start.
       pbind (consume_name ''Expected namespace name'') (\<lambda>name.
       pbind (consume TkOpenBrace (expected ''{'' '' before namespace body.'')) (\<lambda>_.
       pbind (ploop (namespace_step K) ([], [])) (\<lambda>(ms, fs).
       pbind (consume TkCloseBrace (expected ''}'' '' after namespace body.'')) (\<lambda>_.
       ret (ClassDeclarationStmt
          (ClassDeclaration name [] [] False [] ms fs [] []
             (Some (default_constructor (tok_line start) (tok_column start))) (tok_line start) (tok_column start)))))))))"

section \<open>Statements\<close>

text \<open>\<open>(condition)\<close> of \<open>if\<close>, \<open>while\<close> and \<open>switch\<close>.\<close>

definition parse_condition :: "parsers \<Rightarrow> string \<Rightarrow> string \<Rightarrow> Expr parser" where
  "parse_condition K opn close =
     (pbind (consume TkOpenParen (expected ''('' opn)) (\<lambda>_.
       pbind (parse_expression K) (\<lambda>e.
       pbind (consume TkCloseParen (expected '')'' close)) (\<lambda>_.
       ret e))))"

definition parse_if_statement :: "parsers \<Rightarrow> Statement parser" where
  "parse_if_statement K =
     (pbind (consume TkIf (expected ''if'' [])) (\<lambda>start.
       pbind (parse_condition K ('' after '' @ quote_word ''if'' @ ''.'') '' after if condition.'') (\<lambda>c.
       pbind (k_statement K) (\<lambda>t.
       pbind (match_token TkElse) (\<lambda>el.
       pbind ((if el then pmap Some (k_statement K) else ret None)) (\<lambda>e.
       ret (IfStmt c t e (tok_line start) (tok_column start))))))))"

definition parse_while_statement :: "parsers \<Rightarrow> Statement parser" where
  "parse_while_statement K =
     (pbind (consume TkWhile (expected ''while'' [])) (\<lambda>start.
       pbind (parse_condition K ('' after '' @ quote_word ''while'' @ ''.'') '' after while condition.'') (\<lambda>c.
       pbind (k_statement K) (\<lambda>b.
       ret (WhileStmt c b (tok_line start) (tok_column start))))))"

definition for_of_ahead :: "parsers \<Rightarrow> bool parser" where
  "for_of_ahead K =
     lookahead
       ((pbind (match_any [TkLet, TkConst]) (\<lambda>m.
         if \<not> m then ret False
           else (pbind (check TkIdentifier) (\<lambda>i.
             if \<not> i then ret False
                   else (pbind advance (\<lambda>_.
                     pbind (parse_opt_type K TNAny) (\<lambda>_.
                     check TkOf))))))))"

definition parse_for_of :: "parsers \<Rightarrow> Token \<Rightarrow> Statement parser" where
  "parse_for_of K start =
     (pbind (match_token TkConst) (\<lambda>c.
       pbind ((if c then ret () else pmap (\<lambda>_. ()) (consume TkLet (expected ''let'' [])))) (\<lambda>_.
       pbind (parse_binding_pattern K) (\<lambda>p.
       pbind (parse_opt_type K TNAny) (\<lambda>_.
       pbind (consume TkOf (expected ''of'' [])) (\<lambda>_.
       pbind (parse_expression K) (\<lambda>e.
       pbind (consume TkCloseParen (expected '')'' [])) (\<lambda>_.
       pbind (k_statement K) (\<lambda>b.
       ret (ForOfStmt p e b (tok_line start) (tok_column start)))))))))))"

definition parse_for_init :: "parsers \<Rightarrow> Token \<Rightarrow> Statement option parser" where
  "parse_for_init K start =
     (pbind (match_token TkSemicolon) (\<lambda>m.
       if m then ret None
        else (pbind (check TkLet) (\<lambda>l.
          pbind (check TkConst) (\<lambda>c.
          pbind ((if l \<or> c then parse_var_declaration K False
                      else (pbind (parse_expression K) (\<lambda>e.
                        ret (ExpressionStmt e (tok_line start) (tok_column start)))))) (\<lambda>i.
          pbind (consume TkSemicolon (expected '';'' '' after for init.'')) (\<lambda>_.
          ret (Some i))))))))"

definition parse_for_clauses :: "parsers \<Rightarrow> Token \<Rightarrow> Statement parser" where
  "parse_for_clauses K start =
     (pbind (parse_for_init K start) (\<lambda>i.
       pbind (check TkSemicolon) (\<lambda>s.
       pbind ((if s then ret None else pmap Some (parse_expression K))) (\<lambda>c.
       pbind semicolon (\<lambda>_.
       pbind (check TkCloseParen) (\<lambda>p.
       pbind ((if p then ret None else pmap Some (parse_expression K))) (\<lambda>n.
       pbind (consume TkCloseParen (expected '')'' '' after for clauses.'')) (\<lambda>_.
       pbind (k_statement K) (\<lambda>b.
       ret (ForStmt i c n b (tok_line start) (tok_column start)))))))))))"

definition parse_for_statement :: "parsers \<Rightarrow> Statement parser" where
  "parse_for_statement K =
     (pbind (consume TkFor (expected ''for'' [])) (\<lambda>start.
       pbind (consume TkOpenParen (expected ''('' ('' after '' @ quote_word ''for'' @ ''.''))) (\<lambda>_.
       pbind (for_of_ahead K) (\<lambda>f.
       if f then parse_for_of K start else parse_for_clauses K start))))"

definition parse_return_statement :: "parsers \<Rightarrow> Statement parser" where
  "parse_return_statement K =
     (pbind (consume TkReturn (expected ''return'' [])) (\<lambda>start.
       pbind (check TkSemicolon) (\<lambda>s.
       pbind ((if s then ret None else pmap Some (parse_expression K))) (\<lambda>v.
       pbind semicolon (\<lambda>_.
       ret (ReturnStmt v (tok_line start) (tok_column start)))))))"

definition parse_break_statement :: "Statement parser" where
  "parse_break_statement =
     (pbind (consume TkBreak (expected ''break'' [])) (\<lambda>start.
       pbind semicolon (\<lambda>_.
       ret (BreakStmt (tok_line start) (tok_column start)))))"

definition parse_continue_statement :: "Statement parser" where
  "parse_continue_statement =
     (pbind (consume TkContinue (expected ''continue'' [])) (\<lambda>start.
       pbind semicolon (\<lambda>_.
       ret (ContinueStmt (tok_line start) (tok_column start)))))"

definition case_body_step :: "parsers \<Rightarrow> Statement list \<Rightarrow> (Statement list + Statement list) parser" where
  "case_body_step K xs =
     (pbind (check TkCase) (\<lambda>c.
       pbind (check TkDefault) (\<lambda>d.
       pbind (before_token TkCloseBrace) (\<lambda>go.
       if c \<or> d \<or> \<not> go then leave xs
        else (pbind (k_declaration K) (\<lambda>x.
          again (case x of Some y \<Rightarrow> xs @ [y] | None \<Rightarrow> xs)))))))"

definition parse_case_body :: "parsers \<Rightarrow> Expr option \<Rightarrow> (Expr, Statement) Case parser" where
  "parse_case_body K v =
     (pbind (consume TkColon (expected '':'' [])) (\<lambda>_.
       pbind (ploop (case_body_step K) []) (\<lambda>xs.
       ret (Case v xs))))"

definition case_step ::
  "parsers \<Rightarrow> (Expr, Statement) Case list \<Rightarrow> ((Expr, Statement) Case list + (Expr, Statement) Case list) parser" where
  "case_step K cs =
     (pbind (before_token TkCloseBrace) (\<lambda>go.
       if \<not> go then leave cs
        else first_match
               [(TkCase, (pbind (parse_expression K) (\<lambda>v.
                 pbind (parse_case_body K (Some v)) (\<lambda>c.
                 again (cs @ [c]))))),
                (TkDefault, (pbind (parse_case_body K None) (\<lambda>c.
                  again (cs @ [c]))))]
               (leave cs)))"

definition parse_switch_statement :: "parsers \<Rightarrow> Statement parser" where
  "parse_switch_statement K =
     (pbind (consume TkSwitch (expected ''switch'' [])) (\<lambda>start.
       pbind (parse_condition K ('' after '' @ quote_word ''switch'' @ ''.'') '' after switch condition.'') (\<lambda>e.
       pbind (consume TkOpenBrace (expected ''{'' '' before switch body.'')) (\<lambda>_.
       pbind (ploop (case_step K) []) (\<lambda>cs.
       pbind (consume TkCloseBrace (expected ''}'' [])) (\<lambda>_.
       ret (SwitchStmt e cs (tok_line start) (tok_column start))))))))"

definition parse_try_statement :: "parsers \<Rightarrow> Statement parser" where
  "parse_try_statement K =
     (pbind (consume TkTry (expected ''try'' [])) (\<lambda>start.
       pbind (parse_block K) (\<lambda>t.
       pbind (match_token TkCatch) (\<lambda>c.
       pbind ((if c then
                     (pbind (consume TkOpenParen (expected ''('' [])) (\<lambda>_.
                       pbind (consume TkIdentifier ''Expected catch variable'') (\<lambda>x.
                       pbind (consume TkCloseParen (expected '')'' [])) (\<lambda>_.
                       pbind (parse_block K) (\<lambda>h.
                       ret (tok_value x, h))))))
                   else ret ([], empty_block 0 0))) (\<lambda>(v, h).
       pbind (match_token TkFinally) (\<lambda>f.
       pbind ((if f then pmap Some (parse_block K) else ret None)) (\<lambda>fb.
       ret (TryStmt t v h fb (tok_line start) (tok_column start)))))))))"

definition parse_keyword_statement ::
  "parsers \<Rightarrow> TokenType \<Rightarrow> string \<Rightarrow> (Expr \<Rightarrow> nat \<Rightarrow> nat \<Rightarrow> Statement) \<Rightarrow> Statement parser" where
  "parse_keyword_statement K ty word mk =
     (pbind (consume ty (expected word [])) (\<lambda>start.
       pbind (parse_expression K) (\<lambda>e.
       pbind semicolon (\<lambda>_.
       ret (mk e (tok_line start) (tok_column start))))))"

definition parse_expression_statement :: "parsers \<Rightarrow> Statement parser" where
  "parse_expression_statement K =
     (pbind (parse_expression K) (\<lambda>e.
       pbind before (\<lambda>t.
       pbind semicolon (\<lambda>_.
       ret (ExpressionStmt e (tok_line t) (tok_column t))))))"

text \<open>\<open>if self.check(a) { return ... } if self.check(b) ...\<close>.\<close>

primrec first_check :: "(TokenType \<times> 'a parser) list \<Rightarrow> 'a parser \<Rightarrow> 'a parser" where
  "first_check [] p = p"
| "first_check (x # xs) p = (pbind (check (fst x)) (\<lambda>c.
  if c then snd x else first_check xs p))"

definition parse_statement :: "parsers \<Rightarrow> Statement parser" where
  "parse_statement K =
     first_check
       [(TkOpenBrace, parse_block K), (TkIf, parse_if_statement K), (TkWhile, parse_while_statement K),
        (TkFor, parse_for_statement K), (TkReturn, parse_return_statement K), (TkBreak, parse_break_statement),
        (TkContinue, parse_continue_statement), (TkSwitch, parse_switch_statement K),
        (TkTry, parse_try_statement K), (TkThrow, parse_keyword_statement K TkThrow ''throw'' ThrowStmt),
        (TkDel, parse_keyword_statement K TkDel ''del'' DelStmt)]
       (parse_expression_statement K)"

section \<open>Declarations and the program\<close>

definition skip_attribute_step :: "unit \<Rightarrow> (unit + unit) parser" where
  "skip_attribute_step u =
     (pbind (before_token TkCloseBracket) (\<lambda>go.
       if go then (pbind advance (\<lambda>_.
       again ())) else leave ()))"

definition parse_attribute :: "parsers \<Rightarrow> Statement option parser" where
  "parse_attribute K =
     (pbind advance (\<lambda>_.
       pbind (match_token TkOpenBracket) (\<lambda>m.
       if m then (pbind (ploop skip_attribute_step ()) (\<lambda>_.
          pbind (match_token TkCloseBracket) (\<lambda>_.
          k_declaration K)))
        else ret None)))"

definition parse_function_stmt :: "parsers \<Rightarrow> bool \<Rightarrow> Statement parser" where
  "parse_function_stmt K is_extern = pmap FunctionDeclarationStmt (parse_function_declaration K is_extern)"

definition parse_export :: "parsers \<Rightarrow> Statement option parser" where
  "parse_export K =
     (pbind advance (\<lambda>start.
       pbind (match_token TkDefault) (\<lambda>is_default.
       pbind (match_token TkExtern) (\<lambda>is_extern.
       pbind (first_check
               [(TkLet, pmap Some (parse_var_declaration K True)), (TkConst, pmap Some (parse_var_declaration K True)),
                (TkFunction, pmap Some (parse_function_stmt K is_extern)),
                (TkClass, pmap Some (parse_class_declaration K False)),
                (TkAbstract, (pbind advance (\<lambda>_.
                  pmap Some (parse_class_declaration K True)))),
                (TkInterface, pmap Some (parse_interface_declaration K)),
                (TkEnum, pmap Some (parse_enum_declaration K)),
                (TkTypeAlias, pmap Some (parse_type_alias_declaration K)),
                (TkNamespace, pmap Some (parse_namespace_declaration K))]
               (ret None)) (\<lambda>d.
       ret (map_option (\<lambda>x. ExportDecl x is_default (tok_line start) (tok_column start)) d))))))"

definition parse_abstract :: "parsers \<Rightarrow> Statement parser" where
  "parse_abstract K =
     (pbind (check_next TkClass) (\<lambda>c.
       if c then (pbind advance (\<lambda>_.
          parse_class_declaration K True)) else parse_statement K))"

definition parse_declaration :: "parsers \<Rightarrow> Statement option parser" where
  "parse_declaration K =
     first_check
       [(TkHash, parse_attribute K),
        (TkLet, pmap Some (parse_var_declaration K True)), (TkConst, pmap Some (parse_var_declaration K True)),
        (TkFunction, pmap Some (parse_function_stmt K False)),
        (TkClass, pmap Some (parse_class_declaration K False)),
        (TkAbstract, pmap Some (parse_abstract K)),
        (TkInterface, pmap Some (parse_interface_declaration K)),
        (TkEnum, pmap Some (parse_enum_declaration K)),
        (TkTypeAlias, pmap Some (parse_type_alias_declaration K)),
        (TkExport, parse_export K),
        (TkNamespace, pmap Some (parse_namespace_declaration K)),
        (TkExtern, (pbind advance (\<lambda>_.
          pmap Some (parse_function_stmt K True)))),
        (TkImport, pmap Some parse_import_statement)]
       (pmap Some (parse_statement K))"

definition boundary_tokens :: "TokenType list" where
  "boundary_tokens =
     [TkClass, TkFunction, TkLet, TkConst, TkFor, TkIf, TkWhile, TkReturn, TkSwitch, TkExport, TkImport, TkCloseBrace]"

definition at_boundary :: "bool parser" where
  "at_boundary = pmap (\<lambda>t. token_type t \<in> set boundary_tokens) peek"

definition synchronize_step :: "unit \<Rightarrow> (unit + unit) parser" where
  "synchronize_step u =
     (pbind is_at_end (\<lambda>e.
       pbind previous (\<lambda>p.
       pbind at_boundary (\<lambda>b.
       if e \<or> token_type p = TkSemicolon \<or> b then leave () else (pbind advance (\<lambda>_.
          again ()))))))"

definition synchronize :: "unit parser" where
  "synchronize = (pbind at_boundary (\<lambda>b.
    if b then ret () else (pbind advance (\<lambda>_.
    ploop synchronize_step ()))))"

definition program_step :: "parsers \<Rightarrow> Statement list \<Rightarrow> (Statement list + Statement list) parser" where
  "program_step K xs =
     (pbind is_at_end (\<lambda>e.
       if e then leave xs
        else (pbind (parse_declaration K) (\<lambda>d.
          case d of Some x \<Rightarrow> again (xs @ [x]) | None \<Rightarrow> (pbind synchronize (\<lambda>_.
                  again xs))))))"

definition parse_program :: "parsers \<Rightarrow> Program parser" where
  "parse_program K = pmap Program (ploop (program_step K) [])"

section \<open>Laws\<close>

lemma wp_lookahead:
  fixes p :: "'c parser"
  assumes "okst b s0 s" "moved b s" "wp b W s p (\<lambda>a s'. okst b s s') s"
    "\<And>a s'. okst b s0 s' \<Longrightarrow> moved b s' \<Longrightarrow> weight s' = weight s \<Longrightarrow> Q a s'"
  shows "wp b W s0 (lookahead p) Q s"
proof (cases "p s")
  case (Done r)
  obtain a s' where r: "r = (a, s')" by (cases r)
  let ?s = "s'\<lparr>p_current := p_current s\<rparr>"
  have ok: "okst b s s'" using assms(3) Done r by (simp add: wp_def)
  have w: "weight ?s = weight s" using ok by (simp add: weight_map okst_def reach_def)
  have "length (p_tokens s') = length (p_tokens s)" using ok by (metis length_map okst_def reach_def)
  then have "okst b s ?s"
    using ok w okst_good [OF assms(1)] by (auto simp: okst_def reach_def good_def)
  moreover have "moved b ?s" using assms(2) by (simp add: moved_def)
  ultimately show ?thesis
    using assms(4) [of ?s a] okst_trans [OF assms(1)] w by (simp add: wp_def lookahead_def Done r)
qed (use assms(3) in \<open>auto simp: wp_def lookahead_def\<close>)

lemma wp_semicolon [wp_rules]:
  "okst b s0 s \<Longrightarrow>
     (\<And>s'. okst b s0 s' \<Longrightarrow> moved b s' \<Longrightarrow> weight s' \<le> weight s \<Longrightarrow> weight s' \<le> weight s0 - 1 \<Longrightarrow> Q () s') \<Longrightarrow>
     wp b W s0 semicolon Q s"
  unfolding semicolon_def by (auto intro!: wp_rules)

text \<open>Variables.\<close>

lemma eats_parse_declarator: "kgood b W K \<Longrightarrow> eats_lt b W (parse_declarator K t)"
  by (rule eats_ltI) (auto simp: parse_declarator_def intro!: wp_rules)

lemmas wp_parse_declarator [wp_rules] = wp_eats_lt [OF eats_parse_declarator]

text \<open>The functions from here on are only used below a positive weight, or after a token.\<close>

lemma eats_parse_var_declaration: "kgood b W K \<Longrightarrow> 0 < W \<Longrightarrow> eats b W (parse_var_declaration K semi)"
  by (rule eatsI) (auto simp: parse_var_declaration_def declarator_step_def intro!: wp_rules)

lemmas wp_parse_var_declaration [wp_rules] = wp_eats [OF eats_parse_var_declaration]

text \<open>Functions and classes.\<close>

lemma goes_parse_opt_generics: "kgood b W K \<Longrightarrow> goes_lt b W (parse_opt_generics K)"
  by (rule goes_ltI) (auto simp: parse_opt_generics_def intro!: wp_rules)

lemmas wp_parse_opt_generics [wp_rules] = wp_goes_lt [OF goes_parse_opt_generics]

lemma eats_parse_function: "kgood b W K \<Longrightarrow> 0 < W \<Longrightarrow> eats b W (parse_function_declaration K x)"
  by (rule eatsI) (auto simp: parse_function_declaration_def intro!: wp_rules)

lemmas wp_parse_function [wp_rules] = wp_eats [OF eats_parse_function]

lemma eats_parse_constructor: "kgood b W K \<Longrightarrow> eats_lt b W (parse_constructor K)"
  by (rule eats_ltI) (auto simp: parse_constructor_def intro!: wp_rules)

lemmas wp_parse_constructor [wp_rules] = wp_eats_lt [OF eats_parse_constructor]

lemma wp_method_generics_ahead [wp_rules]:
  "okst b s0 s \<Longrightarrow> moved b s \<Longrightarrow>
     (\<And>a s'. okst b s0 s' \<Longrightarrow> moved b s' \<Longrightarrow> weight s' = weight s \<Longrightarrow> Q a s') \<Longrightarrow>
     wp b W s0 method_generics_ahead Q s"
  unfolding method_generics_ahead_def
  by (rule wp_lookahead) (auto intro!: wp_rules okst_refl dest: okst_good)

lemma goes_parse_method_generics: "kgood b W K \<Longrightarrow> goes_lt b W (parse_method_generics K)"
  by (rule goes_ltI) (auto simp: parse_method_generics_def intro!: wp_rules)

lemmas wp_parse_method_generics [wp_rules] = wp_goes_lt [OF goes_parse_method_generics]

lemma eats_parse_method: "kgood b W K \<Longrightarrow> eats_lt b W (parse_method K n gs m)"
  by (rule eats_ltI) (auto simp: parse_method_def intro!: wp_rules)

lemmas wp_parse_method [wp_rules] = wp_eats_lt [OF eats_parse_method]

lemma goes_parse_field: "kgood b W K \<Longrightarrow> goes_lt b W (parse_field K n m)"
  by (rule goes_ltI) (auto simp: parse_field_def intro!: wp_rules)

lemmas wp_parse_field [wp_rules] = wp_goes_lt [OF goes_parse_field]

lemma goes_modifiers: "goes_lt b W (ploop modifier_step m)"
  by (rule goes_ltI) (auto simp: modifier_step_def intro!: wp_rules)

lemmas wp_modifiers [wp_rules] = wp_goes_lt [OF goes_modifiers]

lemma goes_member_loop: "kgood b W K \<Longrightarrow> goes_lt b W (ploop (member_step K) cp)"
  by (rule goes_ltI) (auto simp: member_step_def parse_member_def intro!: wp_rules, linarith+)

lemmas wp_member_loop = wp_goes_lt [OF goes_member_loop]

lemma eats_protocol [wp_rules]: "eats_lt b W (pmap tok_value (consume ty msg))"
  by (rule eats_ltI) (auto intro!: wp_rules)

lemma goes_parse_protocols: "goes_lt b W parse_protocols"
  by (rule goes_ltI) (auto simp: parse_protocols_def intro!: wp_rules)

lemmas wp_parse_protocols [wp_rules] = wp_goes_lt [OF goes_parse_protocols]

lemma goes_class_header:
  "goes_lt b W (if ext then pmap tok_value (consume ty msg) else ret [])"
  by (rule goes_ltI) (auto intro!: wp_rules)

lemma eats_parse_class: "kgood b W K \<Longrightarrow> 0 < W \<Longrightarrow> eats b W (parse_class_declaration K x)"
  by (rule eatsI)
    (auto simp: parse_class_declaration_def intro!: wp_goes_lt [OF goes_class_header] wp_member_loop
      wp_bind wp_consume wp_consume_name wp_parse_opt_generics wp_match wp_parse_protocols wp_prod
      wp_close_body wp_ret)

lemmas wp_parse_class [wp_rules] = wp_eats [OF eats_parse_class]

text \<open>The other declarations.\<close>

lemma eats_parse_type_alias: "kgood b W K \<Longrightarrow> 0 < W \<Longrightarrow> eats b W (parse_type_alias_declaration K)"
  by (rule eatsI) (auto simp: parse_type_alias_declaration_def intro!: wp_rules)

lemmas wp_parse_type_alias [wp_rules] = wp_eats [OF eats_parse_type_alias]

lemma eats_parse_enum: "kgood b W K \<Longrightarrow> 0 < W \<Longrightarrow> eats b W (parse_enum_declaration K)"
  by (rule eatsI) (auto simp: parse_enum_declaration_def enum_step_def intro!: wp_rules)

lemmas wp_parse_enum [wp_rules] = wp_eats [OF eats_parse_enum]

lemma wp_word_ahead [wp_rules]:
  "okst b s0 s \<Longrightarrow> (0 < weight s \<Longrightarrow> Q True s) \<Longrightarrow> Q False s \<Longrightarrow> wp b W s0 (word_ahead w) Q s"
  using check_good [of b s TkIdentifier] peek_good [of b s]
  by (cases "0 < weight s \<and> token_type (p_tokens s ! p_current s) = TkIdentifier \<and>
        tok_value (p_tokens s ! p_current s) = w")
    (auto simp: wp_def word_ahead_def pbind_def ret_def okst_def)

lemma eats_parse_import_item: "eats b W parse_import_item"
  by (rule eatsI) (auto simp: parse_import_item_def intro!: wp_rules)

lemmas wp_parse_import_item [wp_rules] = wp_eats_any [OF eats_parse_import_item]

lemma goes_skip_from: "goes_lt b W skip_from"
  by (rule goes_ltI) (auto simp: skip_from_def intro!: wp_rules)

lemmas wp_skip_from = wp_goes_lt [OF goes_skip_from]

lemma goes_import: "goes_lt b W parse_import_names"
  by (rule goes_ltI) (auto simp: parse_import_names_def import_step_def intro!: wp_rules)

lemmas wp_import_names = wp_goes_lt [OF goes_import]

lemma goes_finish_import: "goes_lt b W (finish_import t ns d)"
  by (rule goes_ltI) (auto simp: finish_import_def intro!: wp_rules wp_skip_from)

lemmas wp_finish_import = wp_goes_lt [OF goes_finish_import]

lemma eats_parse_import: "0 < W \<Longrightarrow> eats b W parse_import_statement"
  by (rule eatsI)
    (auto simp: parse_import_statement_def intro!: wp_rules wp_import_names wp_finish_import)

lemmas wp_parse_import [wp_rules] = wp_eats [OF eats_parse_import]

lemma eats_interface_param [wp_rules]: "kgood b W K \<Longrightarrow> eats_lt b W (interface_param K)"
  by (rule eats_ltI) (auto simp: interface_param_def intro!: wp_rules)

lemma eats_parse_interface: "kgood b W K \<Longrightarrow> 0 < W \<Longrightarrow> eats b W (parse_interface_declaration K)"
  by (rule eatsI) (auto simp: parse_interface_declaration_def interface_step_def intro!: wp_rules)

lemmas wp_parse_interface [wp_rules] = wp_eats [OF eats_parse_interface]

lemma goes_namespace_loop: "kgood b W K \<Longrightarrow> goes_lt b W (ploop (namespace_step K) r)"
  by (rule goes_ltI) (auto simp: namespace_step_def intro!: wp_rules)

lemmas wp_namespace_loop = wp_goes_lt [OF goes_namespace_loop]

lemma eats_parse_namespace: "kgood b W K \<Longrightarrow> 0 < W \<Longrightarrow> eats b W (parse_namespace_declaration K)"
  by (rule eatsI)
    (auto simp: parse_namespace_declaration_def
      intro!: wp_namespace_loop wp_bind wp_advance wp_consume wp_consume_name wp_prod wp_ret)

lemmas wp_parse_namespace [wp_rules] = wp_eats [OF eats_parse_namespace]

end
