(* ===== verification/ParserTotal.thy ===== *)
theory ParserTotal
  imports ParserStmt
begin

text \<open>
  The parser as a whole: the recursion is tied with as much fuel as the tokens weigh, and the
  parser ends on every token list, in a state past all tokens.
\<close>

section \<open>Statements\<close>

lemma eats_parse_condition: "kgood b W K \<Longrightarrow> eats_lt b W (parse_condition K o1 c1)"
  by (rule eats_ltI) (auto simp: parse_condition_def intro!: wp_rules)

lemmas wp_parse_condition [wp_rules] = wp_eats_lt [OF eats_parse_condition]

lemma eats_parse_if: "kgood b W K \<Longrightarrow> 0 < W \<Longrightarrow> eats b W (parse_if_statement K)"
  by (rule eatsI) (auto simp: parse_if_statement_def intro!: wp_rules)

lemma eats_parse_while: "kgood b W K \<Longrightarrow> 0 < W \<Longrightarrow> eats b W (parse_while_statement K)"
  by (rule eatsI) (auto simp: parse_while_statement_def intro!: wp_rules)

lemma goes_parse_opt_type_le: "kgood b W K \<Longrightarrow> 0 < W \<Longrightarrow> goes_lt b (Suc W) (parse_opt_type K d)"
  by (rule goes_leI) (auto simp: parse_opt_type_def intro!: wp_rules)

lemma wp_for_of_ahead:
  assumes "kgood b W K" "okst b s0 s" "moved b s" "weight s < W"
    "\<And>a s'. okst b s0 s' \<Longrightarrow> moved b s' \<Longrightarrow> weight s' = weight s \<Longrightarrow> Q a s'"
  shows "wp b W s0 (for_of_ahead K) Q s"
proof -
  have g: "good b s" "okst b s s" using assms(2) okst_good okst_refl by blast+
  show ?thesis
    unfolding for_of_ahead_def
    by (rule wp_lookahead [OF assms(2,3) _ assms(5)])
      (use assms g in \<open>auto intro!: wp_rules\<close>)
qed

lemma eats_parse_for_of: "kgood b W K \<Longrightarrow> eats_lt b W (parse_for_of K t)"
  by (rule eats_ltI) (auto simp: parse_for_of_def intro!: wp_rules)

lemma goes_parse_for_init: "kgood b W K \<Longrightarrow> goes_lt b W (parse_for_init K t)"
  by (rule goes_ltI) (auto simp: parse_for_init_def intro!: wp_rules)

lemma goes_parse_for_clauses: "kgood b W K \<Longrightarrow> goes_lt b W (parse_for_clauses K t)"
  by (rule goes_ltI)
    (auto simp: parse_for_clauses_def intro!: wp_rules wp_goes_lt [OF goes_parse_for_init])

lemma eats_parse_for: "kgood b W K \<Longrightarrow> 0 < W \<Longrightarrow> eats b W (parse_for_statement K)"
  by (rule eatsI)
    (auto simp: parse_for_statement_def intro!: wp_rules wp_for_of_ahead wp_eats_lt [OF eats_parse_for_of]
      wp_goes_lt [OF goes_parse_for_clauses])

lemma eats_parse_return: "kgood b W K \<Longrightarrow> 0 < W \<Longrightarrow> eats b W (parse_return_statement K)"
  by (rule eatsI) (auto simp: parse_return_statement_def intro!: wp_rules)

lemma eats_parse_jumps: "eats b W parse_break_statement" "eats b W parse_continue_statement"
  by (rule eatsI, auto simp: parse_break_statement_def parse_continue_statement_def intro!: wp_rules)+

lemma eats_parse_case_body: "kgood b W K \<Longrightarrow> eats_lt b W (parse_case_body K v)"
  by (rule eats_ltI) (auto simp: parse_case_body_def case_body_step_def intro!: wp_rules)

lemma eats_parse_switch: "kgood b W K \<Longrightarrow> 0 < W \<Longrightarrow> eats b W (parse_switch_statement K)"
  by (rule eatsI)
    (auto simp: parse_switch_statement_def case_step_def
      intro!: wp_rules wp_eats_lt [OF eats_parse_case_body])

lemma goes_catch:
  "kgood b W K \<Longrightarrow> goes_lt b W
     (if c then pbind (consume TkOpenParen m1) (\<lambda>_. pbind (consume TkIdentifier m2) (\<lambda>x.
        pbind (consume TkCloseParen m3) (\<lambda>_. pbind (parse_block K) (\<lambda>h. ret (tok_value x, h)))))
      else ret ([], empty_block 0 0))"
  by (rule goes_ltI) (auto intro!: wp_rules)

lemma eats_parse_try: "kgood b W K \<Longrightarrow> 0 < W \<Longrightarrow> eats b W (parse_try_statement K)"
  by (rule eatsI) (auto simp: parse_try_statement_def intro!: wp_goes_lt [OF goes_catch] wp_rules)

lemma eats_parse_keyword: "kgood b W K \<Longrightarrow> 0 < W \<Longrightarrow> eats b W (parse_keyword_statement K ty w mk)"
  by (rule eatsI) (auto simp: parse_keyword_statement_def intro!: wp_rules)

lemma eats_parse_expression_statement: "kgood b W K \<Longrightarrow> eats b W (parse_expression_statement K)"
  by (rule eatsI) (auto simp: parse_expression_statement_def intro!: wp_rules)

lemma wp_first_check:
  assumes "okst b s0 s" "\<And>x. x \<in> set xs \<Longrightarrow> 0 < weight s \<Longrightarrow> wp b W s0 (snd x) Q s" "wp b W s0 p Q s"
  shows "wp b W s0 (first_check xs p) Q s"
  using assms(2,3)
proof (induction xs)
  case (Cons x xs)
  have "wp b W s0 (first_check xs p) Q s" using Cons by simp
  then show ?case
    unfolding first_check.simps
    by (intro wp_bind wp_check [OF assms(1)]) (use Cons.prems in auto)
qed simp

lemma eats_parse_statement: "kgood b W K \<Longrightarrow> eats b W (parse_statement K)"
proof (rule eatsI)
  fix s assume K: "kgood b W K" and s: "good b s" "okst b s s" "weight s \<le> W"
  have pos: "0 < W" if "0 < weight s" using s(3) that by simp
  have e: "eats b W p \<Longrightarrow> wp b W s p (\<lambda>a s'. okst b s s' \<and> weight s' \<le> weight s - 1) s" for p :: "Statement parser"
    using s by (auto intro: wp_eats)
  show "wp b W s (parse_statement K) (\<lambda>a s'. okst b s s' \<and> weight s' \<le> weight s - 1) s"
    unfolding parse_statement_def
    by (rule wp_first_check [OF s(2)])
      (use K pos in \<open>auto simp del: One_nat_def intro!: e eats_parse_block eats_parse_if eats_parse_while eats_parse_for
        eats_parse_return eats_parse_jumps eats_parse_switch eats_parse_try eats_parse_keyword
        eats_parse_expression_statement\<close>)
qed

lemmas wp_parse_statement [wp_rules] = wp_eats [OF eats_parse_statement]

section \<open>Declarations\<close>

lemma eats_parse_attribute: "kgood b W K \<Longrightarrow> 0 < W \<Longrightarrow> eats b W (parse_attribute K)"
  by (rule eatsI) (auto simp: parse_attribute_def skip_attribute_step_def intro!: wp_rules)

lemma eats_pmap: "eats b W p \<Longrightarrow> eats b W (pmap f p)"
  by (rule eatsI) (auto intro!: wp_pmap wp_eats)

lemma eats_parse_function_stmt: "kgood b W K \<Longrightarrow> 0 < W \<Longrightarrow> eats b W (parse_function_stmt K x)"
  unfolding parse_function_stmt_def by (intro eats_pmap eats_parse_function)

lemma eats_advance_bind: "eats b W p \<Longrightarrow> eats b W (pbind advance (\<lambda>_. p))"
  by (rule eatsI) (auto intro!: wp_bind wp_advance wp_eats [of b W p])

lemma eats_parse_abstract: "kgood b W K \<Longrightarrow> 0 < W \<Longrightarrow> eats b W (parse_abstract K)"
  by (rule eatsI) (auto simp: parse_abstract_def intro!: wp_rules)

lemma wp_export_choice:
  assumes "kgood b W K" "0 < W" "okst b s0 s" "moved b s" "weight s \<le> W"
    "\<And>a s'. okst b s0 s' \<Longrightarrow> moved b s' \<Longrightarrow> weight s' \<le> weight s \<Longrightarrow> Q a s'"
  shows "wp b W s0 (first_check
     [(TkLet, pmap Some (parse_var_declaration K True)), (TkConst, pmap Some (parse_var_declaration K True)),
      (TkFunction, pmap Some (parse_function_stmt K e)),
      (TkClass, pmap Some (parse_class_declaration K False)),
      (TkAbstract, pbind advance (\<lambda>_. pmap Some (parse_class_declaration K True))),
      (TkInterface, pmap Some (parse_interface_declaration K)),
      (TkEnum, pmap Some (parse_enum_declaration K)),
      (TkTypeAlias, pmap Some (parse_type_alias_declaration K)),
      (TkNamespace, pmap Some (parse_namespace_declaration K))] (ret None)) Q s"
proof (rule wp_first_check [OF assms(3)])
  have e: "eats b W p \<Longrightarrow> wp b W s0 p Q s" for p :: "Statement option parser"
    using assms(3,5,6) by (auto intro: wp_eats)
  fix x assume "x \<in> set [(TkLet, pmap Some (parse_var_declaration K True)), (TkConst, pmap Some (parse_var_declaration K True)),
      (TkFunction, pmap Some (parse_function_stmt K e)),
      (TkClass, pmap Some (parse_class_declaration K False)),
      (TkAbstract, pbind advance (\<lambda>_. pmap Some (parse_class_declaration K True))),
      (TkInterface, pmap Some (parse_interface_declaration K)),
      (TkEnum, pmap Some (parse_enum_declaration K)),
      (TkTypeAlias, pmap Some (parse_type_alias_declaration K)),
      (TkNamespace, pmap Some (parse_namespace_declaration K))]"
  then show "wp b W s0 (snd x) Q s"
    using assms(1,2)
    by (auto intro!: e eats_pmap eats_advance_bind eats_parse_var_declaration eats_parse_function_stmt
      eats_parse_class eats_parse_interface eats_parse_enum eats_parse_type_alias eats_parse_namespace)
qed (use assms in \<open>auto intro!: wp_ret\<close>)

lemma eats_parse_export: "kgood b W K \<Longrightarrow> 0 < W \<Longrightarrow> eats b W (parse_export K)"
  by (rule eatsI) (auto simp: parse_export_def simp del: first_check.simps intro!: wp_export_choice wp_bind wp_advance wp_match wp_ret)

lemma eats_parse_declaration: "kgood b W K \<Longrightarrow> eats b W (parse_declaration K)"
proof (rule eatsI)
  fix s assume K: "kgood b W K" and s: "good b s" "okst b s s" "weight s \<le> W"
  have pos: "0 < W" if "0 < weight s" using s(3) that by simp
  have e: "eats b W p \<Longrightarrow> wp b W s p (\<lambda>a s'. okst b s s' \<and> weight s' \<le> weight s - 1) s" for p :: "Statement option parser"
    using s by (auto intro: wp_eats)
  show "wp b W s (parse_declaration K) (\<lambda>a s'. okst b s s' \<and> weight s' \<le> weight s - 1) s"
    unfolding parse_declaration_def
    by (rule wp_first_check [OF s(2)])
      (use K pos in \<open>auto simp del: One_nat_def intro!: e eats_parse_attribute eats_parse_export eats_advance_bind eats_pmap
        eats_parse_var_declaration eats_parse_function_stmt eats_parse_class eats_parse_abstract
        eats_parse_interface eats_parse_enum eats_parse_type_alias eats_parse_namespace eats_parse_import
        eats_parse_statement\<close>)
qed

section \<open>The recursive parsers\<close>

text \<open>With no fuel every call runs out of it; a further unit allows one more level of calls.\<close>

primrec knot :: "nat \<Rightarrow> parsers" where
  "knot 0 =
     \<lparr>k_assignment = (\<lambda>s. NoFuel), k_expression = (\<lambda>s. NoFuel), k_unary = (\<lambda>s. NoFuel), k_type = (\<lambda>s. NoFuel),
      k_base_type = (\<lambda>s. NoFuel), k_binding = (\<lambda>s. NoFuel), k_declaration = (\<lambda>s. NoFuel),
      k_statement = (\<lambda>s. NoFuel)\<rparr>"
| "knot (Suc n) =
     \<lparr>k_assignment = parse_assignment (knot n), k_expression = parse_expression (knot n),
      k_unary = parse_unary (knot n), k_type = parse_type_annotation (knot n),
      k_base_type = parse_base_type (knot n), k_binding = parse_binding_pattern (knot n),
      k_declaration = parse_declaration (knot n), k_statement = parse_statement (knot n)\<rparr>"

lemma kgood_mono: "kgood b W K \<Longrightarrow> n \<le> W \<Longrightarrow> kgood b n K"
  by (auto simp: kgood_def eats_lt_def)

lemma knot_good: "kgood b n (knot n)"
proof (induction n)
  case (Suc n)
  have "kgood b m (knot n)" if "m < Suc n" for m using kgood_mono [OF Suc] that by simp
  then show ?case
    by (simp add: kgood_def eats_lt_def eats_parse_assignment eats_parse_expression eats_parse_unary
        eats_parse_type_annotation eats_parse_base_type eats_parse_binding_pattern eats_parse_declaration
        eats_parse_statement)
qed (simp add: kgood_def eats_lt_def)

section \<open>The program\<close>

lemma goes_synchronize:
  assumes "okst b s0 s" "moved b s" "\<And>s'. okst b s0 s' \<Longrightarrow> moved b s' \<Longrightarrow> weight s' \<le> weight s \<Longrightarrow> Q () s'"
  shows "wp b W s0 synchronize Q s"
  unfolding synchronize_def synchronize_step_def at_boundary_def using assms
  by (auto intro!: wp_rules)

lemma eats_parse_program: "kgood b W K \<Longrightarrow> eats b W (parse_program K)"
  unfolding eats_def [where p = "parse_program K"]
proof (intro allI impI)
  fix s assume K: "kgood b W K" and s: "good b s" "weight s \<le> W"
  have d: "0 < W \<Longrightarrow> eats b W (parse_declaration K)" using K by (intro eats_parse_declaration)
  have st: "outcome_sat b (program_step K xs s1)
      (\<lambda>(r, s2). okst b s1 s2 \<and> weight s2 \<le> weight s1 - 1 \<and> (\<forall>a'. r = Inl a' \<longrightarrow> weight s2 < weight s1))"
    if "good b s1" "weight s1 \<le> W" for s1 xs
  proof -
    have "wp b W s1 (program_step K xs)
      (\<lambda>r s2. okst b s1 s2 \<and> weight s2 \<le> weight s1 - 1 \<and> (\<forall>a'. r = Inl a' \<longrightarrow> weight s2 < weight s1)) s1"
      using that K unfolding program_step_def
      by (auto intro!: wp_bind wp_at_end wp_ret wp_eats [OF eats_parse_declaration] wp_option goes_synchronize)
    then show ?thesis by (simp add: wp_def)
  qed
  have "outcome_sat b (ploop (program_step K) [] s) (\<lambda>(c, s'). okst b s s' \<and> weight s' \<le> weight s - 1)"
    unfolding ploop_def using loop_n_eats [where body = "program_step K" and n = "Suc (weight s)" and a = "[]", OF st s] by simp
  then show "outcome_sat b (parse_program K s) (\<lambda>(a, s'). okst b s s' \<and> weight s' \<le> weight s - 1)"
    by (cases "ploop (program_step K) [] s") (auto simp: parse_program_def pmap_def pbind_def ret_def)
qed

text \<open>The parser on a token list, with its errors, and the front end on a source text.\<close>

definition parse_tokens :: "Token list \<Rightarrow> string \<Rightarrow> (Program \<times> Diagnostic list) outcome" where
  "parse_tokens ts file =
     (case parse_program (knot (weight (parser_new ts file))) (parser_new ts file) of
        Done (p, s) \<Rightarrow> Done (p, p_errors s)
      | Panic \<Rightarrow> Panic
      | NoFuel \<Rightarrow> NoFuel)"

definition parse_source :: "string \<Rightarrow> string \<Rightarrow> (Program \<times> Diagnostic list) outcome" where
  "parse_source src file = parse_tokens (fst (lex_source src file)) file"

end
