(* ===== verification/ParserFuel.thy ===== *)
theory ParserFuel
  imports ParserTotal
begin

text \<open>
  The fuel does not matter: every parsing function is monotone in the recursive parsers, so a
  result reached with some fuel is the result with any more fuel.
\<close>

lemma first_match_mono [mono_rules]:
  assumes "list_all2 (\<lambda>x y. fst x = fst y \<and> snd x \<le> (snd y :: 'a parser)) xs ys" "p \<le> q"
  shows "first_match xs p \<le> first_match ys q"
  using assms by (induction rule: list_all2_induct) (auto intro!: bind_mono if_mono)

lemma first_check_mono [mono_rules]:
  assumes "list_all2 (\<lambda>x y. fst x = fst y \<and> snd x \<le> (snd y :: 'a parser)) xs ys" "p \<le> q"
  shows "first_check xs p \<le> first_check ys q"
  using assms by (induction rule: list_all2_induct) (auto intro!: bind_mono if_mono)

lemma lookahead_mono [mono_rules]: "p \<le> p' \<Longrightarrow> lookahead p \<le> lookahead p'"
proof (rule le_funI)
  fix s assume "p \<le> p'"
  then have "p s \<le> p' s" by (rule le_funD)
  then show "lookahead p s \<le> lookahead p' s" by (auto simp: lookahead_def less_eq_outcome_def)
qed

lemma binary_level_mono [mono_rules]:
  "p \<le> p' \<Longrightarrow> q \<le> q' \<Longrightarrow> binary_level p ops q \<le> binary_level p' ops q'"
  by (auto simp: binary_level_def binary_step_def intro!: mono_rules)

lemma mono_interpolation [mono_rules]: "kle K K' \<Longrightarrow> parse_interpolation K v \<le> parse_interpolation K' v"
proof (rule le_funI)
  fix s :: pstate assume K: "kle K K'"
  define s1 where "s1 = parser_new (fst (lex_source v (p_filename s))) (p_filename s)"
  have "k_expression K s1 \<le> k_expression K' s1" using K by (auto simp: kle_def dest: le_funD)
  then show "parse_interpolation K v s \<le> parse_interpolation K' v s"
    unfolding parse_interpolation_def s1_def [symmetric] less_eq_outcome_def by auto
qed

lemma mono_template [mono_rules]: "kle K K' \<Longrightarrow> parse_template_string K t \<le> parse_template_string K' t"
proof -
  assume K: "kle K K'"
  have "template_step K t r \<le> template_step K' t r" for r
    using K by (auto simp: template_step_def Let_def intro!: mono_rules)
  then have "loop_n n (template_step K t) r s \<le> loop_n n (template_step K' t) r s" for n r s
    by (intro loop_n_mono)
  then have "loop_n n (template_step K t) r \<le> loop_n n (template_step K' t) r" for n r
    by (simp add: le_fun_def)
  then show ?thesis unfolding parse_template_string_def by (intro bind_mono prod_mono) auto
qed

lemma mono_steps [mono_rules]:
  assumes "kle K K'"
  shows
    "array_binding_step K xs0 \<le> array_binding_step K' xs0"
    "object_binding_step K xs1 \<le> object_binding_step K' xs1"
    "function_param K \<le> function_param K'"
    "object_type_step K ms3 \<le> object_type_step K' ms3"
    "bracket_step K bs4 \<le> bracket_step K' bs4"
    "parse_type_name K \<le> parse_type_name K'"
    "intersection_step K ts6 \<le> intersection_step K' ts6"
    "parse_opt_init K \<le> parse_opt_init K'"
    "block_step K xs8 \<le> block_step K' xs8"
    "object_literal_step K r9 \<le> object_literal_step K' r9"
    "array_literal_step K xs10 \<le> array_literal_step K' xs10"
    "parse_args K \<le> parse_args K'"
    "parse_some_expression K \<le> parse_some_expression K'"
    "template_step K t13 r13 \<le> template_step K' t13 r13"
    "parse_parenthesized K \<le> parse_parenthesized K'"
    "member_access K start15 ta15 e15 \<le> member_access K' start15 ta15 e15"
    "index_access K start16 ta16 e16 \<le> index_access K' start16 ta16 e16"
    "case_body_step K xs17 \<le> case_body_step K' xs17"
    "parse_attribute K \<le> parse_attribute K'"
  using assms
  by (auto simp: Let_def
     array_binding_step_def object_binding_step_def function_param_def object_type_step_def
     bracket_step_def parse_type_name_def intersection_step_def parse_opt_init_def
     block_step_def object_literal_step_def array_literal_step_def parse_args_def
     parse_some_expression_def template_step_def parse_parenthesized_def member_access_def
     index_access_def case_body_step_def parse_attribute_def
      intro!: mono_rules)

lemma mono_literals [mono_rules]:
  assumes "kle K K'"
  shows
    "parse_binding_pattern K \<le> parse_binding_pattern K'"
    "parse_function_type K \<le> parse_function_type K'"
    "parse_brackets K n2 \<le> parse_brackets K' n2"
    "parse_block K \<le> parse_block K'"
    "parse_object_literal K \<le> parse_object_literal K'"
    "parse_array_literal K \<le> parse_array_literal K'"
    "parse_new_expression K \<le> parse_new_expression K'"
    "optional_access K start7 ta7 e7 \<le> optional_access K' start7 ta7 e7"
    "enum_step K ms8 \<le> enum_step K' ms8"
    "parse_case_body K v9 \<le> parse_case_body K' v9"
  using assms
  by (auto simp: Let_def
     parse_binding_pattern_def parse_function_type_def parse_brackets_def parse_block_def
     parse_object_literal_def parse_array_literal_def parse_new_expression_def
     optional_access_def enum_step_def parse_case_body_def
      intro!: mono_rules)

lemma mono_types [mono_rules]:
  assumes "kle K K'"
  shows
    "parse_object_type K \<le> parse_object_type K'"
    "finish_named_type K n1 \<le> finish_named_type K' n1"
    "parse_lambda_body K l2 c2 \<le> parse_lambda_body K' l2 c2"
    "parse_enum_declaration K \<le> parse_enum_declaration K'"
    "parse_try_statement K \<le> parse_try_statement K'"
    "parse_named_type K \<le> parse_named_type K'"
    "parse_base_type K \<le> parse_base_type K'"
    "union_step K ts7 \<le> union_step K' ts7"
    "parse_type_annotation K \<le> parse_type_annotation K'"
  using assms
  by (auto simp: Let_def
     parse_object_type_def finish_named_type_def parse_lambda_body_def
     parse_enum_declaration_def parse_try_statement_def parse_named_type_def parse_base_type_def
     union_step_def parse_type_annotation_def
      intro!: mono_rules)

lemma mono_type_users [mono_rules]:
  assumes "kle K K'"
  shows
    "parse_opt_type K d0 \<le> parse_opt_type K' d0"
    "parse_generic_param K \<le> parse_generic_param K'"
    "parse_type_args K \<le> parse_type_args K'"
    "parse_type_alias_declaration K \<le> parse_type_alias_declaration K'"
    "interface_param K \<le> interface_param K'"
  using assms
  by (auto simp: Let_def
     parse_opt_type_def parse_generic_param_def parse_type_args_def
     parse_type_alias_declaration_def interface_param_def
      intro!: mono_rules)

lemma mono_parameters [mono_rules]:
  assumes "kle K K'"
  shows
    "parse_parameter K rest_allowed0 msg0 d0 \<le> parse_parameter K' rest_allowed0 msg0 d0"
    "parse_generic_params K \<le> parse_generic_params K'"
    "call_step K start2 e2 \<le> call_step K' start2 e2"
    "parse_declarator K start3 \<le> parse_declarator K' start3"
    "interface_step K ms4 \<le> interface_step K' ms4"
    "for_of_ahead K \<le> for_of_ahead K'"
  using assms
  by (auto simp: Let_def
     parse_parameter_def parse_generic_params_def call_step_def parse_declarator_def
     interface_step_def for_of_ahead_def
      intro!: mono_rules)

lemma mono_parameter_lists [mono_rules]:
  assumes "kle K K'"
  shows
    "parse_parameters K rest_allowed0 msg0 d0 \<le> parse_parameters K' rest_allowed0 msg0 d0"
    "declarator_step K start1 ds1 \<le> declarator_step K' start1 ds1"
    "parse_opt_generics K \<le> parse_opt_generics K'"
    "parse_method_generics K \<le> parse_method_generics K'"
    "parse_interface_declaration K \<le> parse_interface_declaration K'"
  using assms
  by (auto simp: Let_def
     parse_parameters_def declarator_step_def parse_opt_generics_def parse_method_generics_def
     parse_interface_declaration_def
      intro!: mono_rules)

lemma mono_functions [mono_rules]:
  assumes "kle K K'"
  shows
    "parse_lambda K \<le> parse_lambda K'"
    "parse_var_declaration K semi1 \<le> parse_var_declaration K' semi1"
    "parse_function_declaration K is_extern2 \<le> parse_function_declaration K' is_extern2"
    "parse_constructor K \<le> parse_constructor K'"
    "parse_method K name4 gs4 m4 \<le> parse_method K' name4 gs4 m4"
  using assms
  by (auto simp: Let_def
     parse_lambda_def parse_var_declaration_def parse_function_declaration_def
     parse_constructor_def parse_method_def
      intro!: mono_rules)

lemma mono_primary_token [mono_rules]:
  assumes "kle K K'"
  shows
    "parse_name K t0 \<le> parse_name K' t0"
    "namespace_step K r1 \<le> namespace_step K' r1"
    "parse_function_stmt K is_extern2 \<le> parse_function_stmt K' is_extern2"
    "primary_token K t3 \<le> primary_token K' t3"
    "parse_namespace_declaration K \<le> parse_namespace_declaration K'"
  using assms
  by (auto simp: Let_def
     parse_name_def namespace_step_def parse_function_stmt_def primary_token_def
     parse_namespace_declaration_def
      intro!: mono_rules)

lemma mono_operands [mono_rules]:
  assumes "kle K K'"
  shows
    "parse_primary K \<le> parse_primary K'"
    "parse_call K \<le> parse_call K'"
    "parse_unary K \<le> parse_unary K'"
  using assms
  by (auto simp: Let_def
     parse_primary_def parse_call_def parse_unary_def
      intro!: mono_rules)

lemma mono_levels [mono_rules]:
  assumes "kle K K'"
  shows
    "parse_factor K \<le> parse_factor K'"
    "parse_term K \<le> parse_term K'"
    "parse_shift K \<le> parse_shift K'"
    "parse_comparison K \<le> parse_comparison K'"
    "parse_equality K \<le> parse_equality K'"
    "parse_bitwise_and K \<le> parse_bitwise_and K'"
    "parse_bitwise_xor K \<le> parse_bitwise_xor K'"
    "parse_bitwise_or K \<le> parse_bitwise_or K'"
    "parse_logical_and K \<le> parse_logical_and K'"
    "parse_logical_or K \<le> parse_logical_or K'"
  using assms
  by (auto simp: Let_def
     parse_factor_def parse_term_def parse_shift_def parse_comparison_def parse_equality_def
     parse_bitwise_and_def parse_bitwise_xor_def parse_bitwise_or_def parse_logical_and_def
     parse_logical_or_def
      intro!: mono_rules)

lemma mono_conditional [mono_rules]:
  assumes "kle K K'"
  shows
    "nullish_step K e0 \<le> nullish_step K' e0"
    "parse_nullish_coalescing K \<le> parse_nullish_coalescing K'"
    "parse_conditional K \<le> parse_conditional K'"
  using assms
  by (auto simp: Let_def
     nullish_step_def parse_nullish_coalescing_def parse_conditional_def
      intro!: mono_rules)

lemma mono_expression [mono_rules]:
  assumes "kle K K'"
  shows
    "parse_assignment K \<le> parse_assignment K'"
    "comma_step K es1 \<le> comma_step K' es1"
    "parse_expression K \<le> parse_expression K'"
  using assms
  by (auto simp: Let_def
     parse_assignment_def comma_step_def parse_expression_def
      intro!: mono_rules)

lemma mono_clauses [mono_rules]:
  assumes "kle K K'"
  shows
    "parse_field K name0 m0 \<le> parse_field K' name0 m0"
    "parse_condition K opn1 close1 \<le> parse_condition K' opn1 close1"
    "parse_for_of K start2 \<le> parse_for_of K' start2"
    "parse_for_init K start3 \<le> parse_for_init K' start3"
    "parse_return_statement K \<le> parse_return_statement K'"
    "case_step K cs5 \<le> case_step K' cs5"
    "parse_keyword_statement K ty6 word6 mk6 \<le> parse_keyword_statement K' ty6 word6 mk6"
    "parse_expression_statement K \<le> parse_expression_statement K'"
  using assms
  by (auto simp: Let_def
     parse_field_def parse_condition_def parse_for_of_def parse_for_init_def
     parse_return_statement_def case_step_def parse_keyword_statement_def
     parse_expression_statement_def
      intro!: mono_rules)

lemma mono_members [mono_rules]:
  assumes "kle K K'"
  shows
    "parse_member K cp0 \<le> parse_member K' cp0"
    "parse_if_statement K \<le> parse_if_statement K'"
    "parse_while_statement K \<le> parse_while_statement K'"
    "parse_for_clauses K start3 \<le> parse_for_clauses K' start3"
    "parse_switch_statement K \<le> parse_switch_statement K'"
    "member_step K cp5 \<le> member_step K' cp5"
    "parse_for_statement K \<le> parse_for_statement K'"
  using assms
  by (auto simp: Let_def
     parse_member_def parse_if_statement_def parse_while_statement_def parse_for_clauses_def
     parse_switch_statement_def member_step_def parse_for_statement_def
      intro!: mono_rules)

lemma mono_statement [mono_rules]:
  assumes "kle K K'"
  shows
    "parse_class_declaration K is_abstract0 \<le> parse_class_declaration K' is_abstract0"
    "parse_statement K \<le> parse_statement K'"
  using assms
  by (auto simp: Let_def
     parse_class_declaration_def parse_statement_def
      intro!: mono_rules)

lemma mono_declaration [mono_rules]:
  assumes "kle K K'"
  shows
    "parse_export K \<le> parse_export K'"
    "parse_abstract K \<le> parse_abstract K'"
    "parse_declaration K \<le> parse_declaration K'"
    "program_step K xs3 \<le> program_step K' xs3"
    "parse_program K \<le> parse_program K'"
  using assms
  by (auto simp: Let_def
     parse_export_def parse_abstract_def parse_declaration_def program_step_def
     parse_program_def
      intro!: mono_rules)

section \<open>More fuel\<close>

lemma knot_sel:
  "k_assignment (knot (Suc n)) = parse_assignment (knot n)" "k_expression (knot (Suc n)) = parse_expression (knot n)"
  "k_unary (knot (Suc n)) = parse_unary (knot n)" "k_type (knot (Suc n)) = parse_type_annotation (knot n)"
  "k_base_type (knot (Suc n)) = parse_base_type (knot n)" "k_binding (knot (Suc n)) = parse_binding_pattern (knot n)"
  "k_declaration (knot (Suc n)) = parse_declaration (knot n)" "k_statement (knot (Suc n)) = parse_statement (knot n)"
  by simp_all

lemma knot_step: "kle (knot n) (knot (Suc n))"
proof (induction n)
  case 0
  show ?case by (simp add: kle_def le_fun_def)
next
  case (Suc n)
  show ?case
    unfolding kle_def knot_sel
    using mono_expression [OF Suc] mono_operands [OF Suc] mono_types [OF Suc] mono_literals [OF Suc]
      mono_statement [OF Suc] mono_declaration [OF Suc]
    by blast
qed

lemma kle_trans: "kle K1 K2 \<Longrightarrow> kle K2 K3 \<Longrightarrow> kle K1 K3"
  by (auto simp: kle_def)

lemma kle_refl: "kle K K"
  by (simp add: kle_def)

lemma knot_le: "n \<le> m \<Longrightarrow> kle (knot n) (knot m)"
  by (induction m rule: dec_induct) (auto simp del: knot.simps intro: kle_refl kle_trans knot_step)

section \<open>The parser ends\<close>

lemma loop_n_exit:
  "loop_n n body a s = Done (c, s') \<Longrightarrow>
     (\<And>a s c s'. body a s = Done (Inr c, s') \<Longrightarrow> P s') \<Longrightarrow> P s'"
proof (induction n arbitrary: a s)
  case (Suc n)
  from Suc.prems(1) show ?case
    by (auto split: outcome.splits sum.splits dest: Suc.prems(2) intro: Suc.IH [OF _ Suc.prems(2)])
qed simp

lemma program_step_exit: "program_step K xs s = Done (Inr c, s') \<Longrightarrow> is_at_end s' = Done (True, s')"
proof -
  assume a: "program_step K xs s = Done (Inr c, s')"
  have p: "is_at_end s = Done (e, s1) \<Longrightarrow> s1 = s" for e s1
    by (auto simp: is_at_end_def pmap_def pbind_def ret_def peek_def token_index_def split: if_splits)
  from a obtain e s1 where e: "is_at_end s = Done (e, s1)"
    by (cases "is_at_end s") (auto simp: program_step_def pbind_def)
  have nb: "m s = Done (Inl x, s2) \<or> m s = Panic \<or> m s = NoFuel \<Longrightarrow> m s \<noteq> Done (Inr c, s')" for m :: "(Statement list + Statement list) parser" and x s2
    by auto
  show ?thesis
  proof (cases e)
    case True
    with a e p [OF e] show ?thesis by (simp add: program_step_def pbind_def ret_def)
  next
    case False
    with a e have "pbind (parse_declaration K) (\<lambda>d. case d of Some x \<Rightarrow> again (xs @ [x])
        | None \<Rightarrow> pbind synchronize (\<lambda>_. again xs)) s1 = Done (Inr c, s')"
      by (simp add: program_step_def pbind_def)
    then have False
      by (auto simp: pbind_def ret_def split: outcome.splits option.splits)
    then show ?thesis ..
  qed
qed

text \<open>The result of \<open>parse_program\<close> does not depend on the fuel once it is enough.\<close>

lemma program_fuel:
  assumes "good b s" "weight s \<le> n"
  shows "parse_program (knot n) s = parse_program (knot (weight s)) s"
proof -
  have "eats b (weight s) (parse_program (knot (weight s)))" by (intro eats_parse_program knot_good)
  with assms(1) have "parse_program (knot (weight s)) s \<noteq> NoFuel"
    by (auto simp: eats_def)
  moreover have "parse_program (knot (weight s)) s \<le> parse_program (knot n) s"
    using mono_declaration [OF knot_le [OF assms(2)]] by (auto dest: le_funD)
  ultimately show ?thesis by (auto simp: less_eq_outcome_def)
qed

text \<open>
  Property C6: the parser ends on every source text, with a program and its errors or with a
  panic of the compiler, and a panic needs a template string in the text. The result is the one
  of every run with more fuel.
\<close>

theorem parser_total:
  "(case parse_source src file of
      Done r \<Rightarrow> True
    | Panic \<Rightarrow> \<exists>t \<in> set (fst (lex_source src file)). token_type t = TkTemplateString
    | NoFuel \<Rightarrow> False) \<and>
   (let s = parser_new (fst (lex_source src file)) file in
    parse_program (knot (weight s + n)) s = parse_program (knot (weight s)) s)"
proof -
  define s where "s = parser_new (fst (lex_source src file)) file"
  have g: "good True s" unfolding s_def by (rule good_lexed)
  have e: "eats b (weight s) (parse_program (knot (weight s)))" for b by (intro eats_parse_program knot_good)
  have f: "parse_source src file = (case parse_program (knot (weight s)) s of
      Done (p, s) \<Rightarrow> Done (p, p_errors s) | Panic \<Rightarrow> Panic | NoFuel \<Rightarrow> NoFuel)"
    by (simp add: parse_source_def parse_tokens_def s_def)
  have t: "\<exists>t \<in> set (fst (lex_source src file)). token_type t = TkTemplateString"
    if p: "parse_program (knot (weight s)) s = Panic"
  proof (rule ccontr)
    assume "\<not> ?thesis"
    then have n: "\<forall>t \<in> set (p_tokens s). token_type t \<noteq> TkTemplateString" by (auto simp: s_def parser_new_def)
    show False
    proof (cases "weight s = 0")
      case True
      then show False using p at_end_good [OF g]
        by (simp add: parse_program_def pmap_def pbind_def ploop_def program_step_def ret_def)
    next
      case False
      then have "good False s" using g n by (simp add: good_def)
      with e [of False] p show False by (auto simp: eats_def)
    qed
  qed
  have "parse_program (knot (weight s)) s \<noteq> NoFuel" using e [of True] g by (auto simp: eats_def)
  with t f have "case parse_source src file of Done r \<Rightarrow> True
      | Panic \<Rightarrow> \<exists>t \<in> set (fst (lex_source src file)). token_type t = TkTemplateString | NoFuel \<Rightarrow> False"
    by (auto split: outcome.splits)
  with program_fuel [OF g, of "weight s + n"] show ?thesis by (simp add: Let_def s_def)
qed

lemma program_end:
  assumes "good True s" "parse_program (knot (weight s)) s = Done (p, s')"
  shows "okst True s s'" "weight s' = 0" "p_current s' = length (p_tokens s') - 1"
proof -
  have "eats True (weight s) (parse_program (knot (weight s)))" by (intro eats_parse_program knot_good)
  with assms show ok: "okst True s s'" by (auto simp: eats_def)
  then have g': "good True s'" by (rule okst_good)
  have "is_at_end s' = Done (True, s')"
    using assms(2) by (auto simp: parse_program_def pmap_def pbind_def ret_def ploop_def simp del: loop_n.simps
        split: outcome.splits dest!: loop_n_exit [OF _ program_step_exit])
  then show w: "weight s' = 0" using at_end_good [OF g'] by simp
  show "p_current s' = length (p_tokens s') - 1"
  proof (rule ccontr)
    assume n: "p_current s' \<noteq> length (p_tokens s') - 1"
    obtain us t where us: "p_tokens s' = us @ [t]" "\<forall>u \<in> set us. \<not> is_eof u"
      using g' by (auto simp: good_def eof_terminated_def)
    with n g' have "p_current s' < length us" by (auto simp: good_def)
    then have "\<not> is_eof (p_tokens s' ! p_current s')" using us by (simp add: nth_append)
    with good_eof [OF g'] w show False by (simp add: is_eof_def)
  qed
qed

text \<open>
  Property C7: the parser reads the whole token list: where it returns, the position is at the
  end-of-file token, and no token was dropped or added.
\<close>

theorem parser_consumes_all:
  "let s = parser_new (fst (lex_source src file)) file in
   case parse_program (knot (weight s)) s of
     Done (p, s') \<Rightarrow> length (p_tokens s') = length (p_tokens s) \<and> p_current s' = length (p_tokens s) - 1
   | _ \<Rightarrow> True"
proof -
  define s where "s = parser_new (fst (lex_source src file)) file"
  have g: "good True s" unfolding s_def by (rule good_lexed)
  have "length (p_tokens s') = length (p_tokens s) \<and> p_current s' = length (p_tokens s) - 1"
    if "parse_program (knot (weight s)) s = Done (p, s')" for p s'
    using program_end [OF g that] by (metis length_map okst_def reach_def)
  then show ?thesis by (auto simp: Let_def s_def split: outcome.splits)
qed

end
