(* ===== verification/Types.thy ===== *)
theory Types
  imports Ast
begin

text \<open>
  The types of the compiler and their two encodings, \<open>src/compiler/common/types.rs\<close>: the
  translations to and from syntax trees, the printer \<open>to_name\<close> and the parser \<open>from_name\<close> of the
  textual form, and the substitution of generic parameters.
\<close>

datatype TejxType =
    TyInt8 | TyUInt8 | TyInt16 | TyUInt16 | TyUInt32 | TyInt32 | TyUInt64 | TyInt64
  | TyInt128 | TyUInt128 | TyFloat16 | TyFloat32 | TyFloat64 | TyBool | TyString | TyChar
  | TyClass string "TejxType list"
  | TyOptional TejxType
  | TyFixedArray TejxType nat
  | TyDynamicArray TejxType
  | TySlice TejxType
  | TyVoid
  | TyFunction "TejxType list" TejxType
  | TyObject "(string \<times> bool \<times> TejxType) list"
  | TyAny

section \<open>Classification and size\<close>

fun is_float :: "TejxType \<Rightarrow> bool" where
  "is_float TyFloat16 = True"
| "is_float TyFloat32 = True"
| "is_float TyFloat64 = True"
| "is_float _ = False"

fun is_unsigned_integer :: "TejxType \<Rightarrow> bool" where
  "is_unsigned_integer TyUInt8 = True"
| "is_unsigned_integer TyUInt16 = True"
| "is_unsigned_integer TyUInt32 = True"
| "is_unsigned_integer TyUInt64 = True"
| "is_unsigned_integer TyUInt128 = True"
| "is_unsigned_integer _ = False"

fun is_signed_integer :: "TejxType \<Rightarrow> bool" where
  "is_signed_integer TyInt8 = True"
| "is_signed_integer TyInt16 = True"
| "is_signed_integer TyInt32 = True"
| "is_signed_integer TyInt64 = True"
| "is_signed_integer TyInt128 = True"
| "is_signed_integer _ = False"

definition is_integer :: "TejxType \<Rightarrow> bool" where
  "is_integer t \<longleftrightarrow> is_signed_integer t \<or> is_unsigned_integer t"

definition is_numeric :: "TejxType \<Rightarrow> bool" where
  "is_numeric t \<longleftrightarrow>
     t \<in> {TyInt8, TyUInt8, TyInt16, TyUInt16, TyUInt32, TyInt32, TyUInt64, TyInt64, TyInt128,
          TyUInt128, TyFloat16, TyFloat32, TyFloat64}"

fun is_array :: "TejxType \<Rightarrow> bool" where
  "is_array (TyFixedArray _ _) = True"
| "is_array (TyDynamicArray _) = True"
| "is_array (TySlice _) = True"
| "is_array _ = False"

fun is_object :: "TejxType \<Rightarrow> bool" where
  "is_object (TyClass _ _) = True"
| "is_object (TyObject _) = True"
| "is_object TyAny = True"
| "is_object _ = False"

fun is_slice :: "TejxType \<Rightarrow> bool" where
  "is_slice (TySlice _) = True"
| "is_slice _ = False"

fun get_array_element_type :: "TejxType \<Rightarrow> TejxType" where
  "get_array_element_type (TyFixedArray t _) = t"
| "get_array_element_type (TyDynamicArray t) = t"
| "get_array_element_type (TySlice t) = t"
| "get_array_element_type (TyFunction _ _) = TyVoid"
| "get_array_element_type _ = TyAny"

text \<open>\<open>TejxType::size\<close>, in bytes; the product of a fixed array wraps at the width of \<open>usize\<close>.\<close>

fun type_size :: "TejxType \<Rightarrow> nat" where
  "type_size TyInt8 = 1" | "type_size TyUInt8 = 1" | "type_size TyBool = 1"
| "type_size TyInt16 = 2" | "type_size TyUInt16 = 2" | "type_size TyFloat16 = 2"
| "type_size TyInt32 = 4" | "type_size TyUInt32 = 4" | "type_size TyFloat32 = 4"
| "type_size TyInt64 = 8" | "type_size TyUInt64 = 8" | "type_size TyFloat64 = 8"
| "type_size TyInt128 = 16" | "type_size TyUInt128 = 16" | "type_size TyChar = 4"
| "type_size TyString = 8" | "type_size (TyClass _ _) = 8" | "type_size (TyOptional _) = 8"
| "type_size (TyDynamicArray _) = 8" | "type_size (TyObject _) = 8"
| "type_size (TyFunction _ _) = 16" | "type_size (TySlice _) = 16"
| "type_size (TyFixedArray t n) = (type_size t * n) mod 2 ^ 64"
| "type_size TyAny = 8" | "type_size TyVoid = 0"

section \<open>Scanning at the top level\<close>

text \<open>
  The four depths every scanner keeps: angle, brace, bracket, parenthesis. Closing saturates
  at zero, as subtraction on \<open>nat\<close> does.
\<close>

type_synonym depths = "nat \<times> nat \<times> nat \<times> nat"

definition depth_step :: "char \<Rightarrow> depths \<Rightarrow> depths" where
  "depth_step c d =
     (case d of (a, b, k, p) \<Rightarrow>
        if c = CHR ''<'' then (a + 1, b, k, p) else if c = CHR ''>'' then (a - 1, b, k, p)
        else if c = CHR ''{'' then (a, b + 1, k, p) else if c = CHR ''}'' then (a, b - 1, k, p)
        else if c = CHR ''['' then (a, b, k + 1, p) else if c = CHR '']'' then (a, b, k - 1, p)
        else if c = CHR ''('' then (a, b, k, p + 1) else if c = CHR '')'' then (a, b, k, p - 1)
        else (a, b, k, p))"

text \<open>\<open>split_top_level\<close>: the pieces between top-level separators, each trimmed.\<close>

fun split_loop :: "char \<Rightarrow> depths \<Rightarrow> string \<Rightarrow> string \<Rightarrow> string list" where
  "split_loop sep d cur [] = [trim cur]"
| "split_loop sep d cur (c # s) =
     (let d' = depth_step c d in
      if c = sep \<and> d' = (0, 0, 0, 0) then trim cur # split_loop sep d' [] s
      else split_loop sep d' (cur @ [c]) s)"

definition split_top_level :: "string \<Rightarrow> char \<Rightarrow> string list" where
  "split_top_level s sep = split_loop sep (0, 0, 0, 0) [] s"

text \<open>\<open>find_top_level_generic_bounds\<close>: here \<open><\<close> opens only where the other depths are zero.\<close>

fun generic_bounds_loop :: "nat \<Rightarrow> depths \<Rightarrow> nat option \<Rightarrow> string \<Rightarrow> (nat \<times> nat) option" where
  "generic_bounds_loop i d opn [] = None"
| "generic_bounds_loop i (a, b, k, p) opn (c # s) =
     (if c = CHR ''<'' then
        generic_bounds_loop (i + 1) (a + 1, b, k, p)
          (if b = 0 \<and> k = 0 \<and> p = 0 \<and> a = 0 then Some i else opn) s
      else if c = CHR ''>'' then
        (if 0 < a then
           (case (a - 1 = 0, opn) of (True, Some j) \<Rightarrow> Some (j, i)
            | _ \<Rightarrow> generic_bounds_loop (i + 1) (a - 1, b, k, p) opn s)
         else generic_bounds_loop (i + 1) (a, b, k, p) opn s)
      else generic_bounds_loop (i + 1) (depth_step c (a, b, k, p)) opn s)"

definition find_top_level_generic_bounds :: "string \<Rightarrow> (nat \<times> nat) option" where
  "find_top_level_generic_bounds s = generic_bounds_loop 0 (0, 0, 0, 0) None s"

fun find_char_loop :: "nat \<Rightarrow> depths \<Rightarrow> char \<Rightarrow> string \<Rightarrow> nat option" where
  "find_char_loop i d target [] = None"
| "find_char_loop i d target (c # s) =
     (let d' = depth_step c d in
      if c = target \<and> d' = (0, 0, 0, 0) then Some i else find_char_loop (i + 1) d' target s)"

definition find_top_level_char :: "string \<Rightarrow> char \<Rightarrow> nat option" where
  "find_top_level_char s target = find_char_loop 0 (0, 0, 0, 0) target s"

fun find_arrow_loop :: "nat \<Rightarrow> depths \<Rightarrow> string \<Rightarrow> nat option" where
  "find_arrow_loop i d [] = None"
| "find_arrow_loop i d (c # s) =
     (if c = CHR ''='' \<and> s \<noteq> [] \<and> hd s = CHR ''>'' \<and> d = (0, 0, 0, 0) then Some i
      else find_arrow_loop (i + 1) (depth_step c d) s)"

definition find_top_level_arrow :: "string \<Rightarrow> nat option" where
  "find_top_level_arrow s = find_arrow_loop 0 (0, 0, 0, 0) s"

section \<open>Printing\<close>

fun type_array_dims :: "TejxType \<Rightarrow> TejxType \<times> string list" where
  "type_array_dims (TyFixedArray t n) = apsnd ((#) (''['' @ nat_to_string n @ '']'')) (type_array_dims t)"
| "type_array_dims (TyDynamicArray t) = apsnd ((#) ''[]'') (type_array_dims t)"
| "type_array_dims t = (t, [])"

lemma size_type_array_dims [simp]: "size (fst (type_array_dims t)) \<le> size t"
  by (induction t rule: type_array_dims.induct) (auto simp: apsnd_def map_prod_def split: prod.splits)

lemma size_prop_type: "(k, opt, t) \<in> set ms \<Longrightarrow>
    size t < Suc (size_list (size_prod (\<lambda>_. 0) (size_prod (\<lambda>_. 0) size)) ms)"
  by (induction ms) auto

definition escape_key :: "string \<Rightarrow> string" where
  "escape_key k = replace_char CHR 0x22 [backslash, CHR 0x22] (replace_char backslash [backslash, backslash] k)"

definition safe_key :: "string \<Rightarrow> string" where
  "safe_key k =
     (if list_all (\<lambda>c. is_alphanumeric c \<or> c = CHR ''_'') k then k
      else CHR 0x22 # escape_key k @ [CHR 0x22])"

fun to_name :: "TejxType \<Rightarrow> string" where
  "to_name TyInt8 = ''int8''" | "to_name TyUInt8 = ''uint8''" | "to_name TyInt16 = ''int16''"
| "to_name TyUInt16 = ''uint16''" | "to_name TyUInt32 = ''uint''" | "to_name TyInt32 = ''int''"
| "to_name TyUInt64 = ''uint64''" | "to_name TyInt64 = ''int64''" | "to_name TyInt128 = ''int128''"
| "to_name TyUInt128 = ''uint128''" | "to_name TyFloat16 = ''float16''" | "to_name TyFloat32 = ''float32''"
| "to_name TyFloat64 = ''float64''" | "to_name TyBool = ''bool''" | "to_name TyString = ''string''"
| "to_name TyChar = ''char''"
| "to_name (TyClass n ts) = (if ts = [] then n else n @ ''<'' @ join_with '', '' (map to_name ts) @ ''>'')"
| "to_name (TyOptional t) = ''Optional<'' @ to_name t @ ''>''"
| "to_name TyAny = ''any''"
| "to_name (TyFixedArray t n) =
     to_name (fst (type_array_dims t)) @ ''['' @ nat_to_string n @ '']'' @ concat (snd (type_array_dims t))"
| "to_name (TyDynamicArray t) = to_name (fst (type_array_dims t)) @ ''[]'' @ concat (snd (type_array_dims t))"
| "to_name (TySlice t) = ''slice<'' @ to_name t @ ''>''"
| "to_name TyVoid = ''void''"
| "to_name (TyFunction ps r) = ''('' @ join_with '', '' (map to_name ps) @ '') => '' @ to_name r"
| "to_name (TyObject ms) =
     ''{ '' @ join_with ''; '' (map (\<lambda>(k, opt, t). safe_key k @ (if opt then ''?'' else []) @ '': '' @ to_name t) ms)
       @ '' }''"

section \<open>The parser of the textual form\<close>

text \<open>Two parts of a union, one of them \<open>None\<close>, are an optional type.\<close>

definition union_type :: "string \<Rightarrow> TejxType list \<Rightarrow> TejxType" where
  "union_type name parts =
     (case parts of
        [x, y] \<Rightarrow>
          (let l = (to_name x = ''None''); r = (to_name y = ''None'')
           in if l \<noteq> r then TyOptional (if l then y else x) else TyClass name [])
      | _ \<Rightarrow> TyClass name [])"

text \<open>The slice \<open>s[i..j]\<close>.\<close>

definition slice :: "nat \<Rightarrow> nat \<Rightarrow> string \<Rightarrow> string" where
  "slice i j s = take (j - i) (drop i s)"

text \<open>The properties of an object type: the buffers the character loop flushes.\<close>

fun object_pieces :: "bool \<Rightarrow> char option \<Rightarrow> depths \<Rightarrow> string \<Rightarrow> string \<Rightarrow> string list" where
  "object_pieces esc q d cur [] = (if trim cur \<noteq> [] then [cur] else [])"
| "object_pieces esc q d cur (c # s) =
     (if esc then object_pieces False q d (cur @ [c]) s
      else case q of
        Some qc \<Rightarrow> object_pieces (c = backslash) (if c \<noteq> backslash \<and> c = qc then None else q) d (cur @ [c]) s
      | None \<Rightarrow>
          if c = CHR 0x22 \<or> c = quote_char then object_pieces False (Some c) d (cur @ [c]) s
          else if (c = CHR '';'' \<or> c = CHR '','') \<and> d = (0, 0, 0, 0)
          then cur # object_pieces False None d [] s
          else object_pieces False None (depth_step c d) (cur @ [c]) s)"

text \<open>The position of the closing quote of a quoted key.\<close>

fun close_quote_loop :: "nat \<Rightarrow> bool \<Rightarrow> char \<Rightarrow> string \<Rightarrow> nat option" where
  "close_quote_loop i esc q [] = None"
| "close_quote_loop i esc q (c # s) =
     (if esc then close_quote_loop (i + 1) False q s
      else if c = backslash then close_quote_loop (i + 1) True q s
      else if c = q then Some i else close_quote_loop (i + 1) False q s)"

definition colon_position :: "string \<Rightarrow> nat option" where
  "colon_position p =
     (if starts_with p [CHR 0x22] \<or> starts_with p [quote_char] then
        (case close_quote_loop 1 False (hd p) (tl p) of
           Some close \<Rightarrow> map_option ((+) (close + 1)) (find_char (CHR '':'') (drop (close + 1) p))
         | None \<Rightarrow> find_char (CHR '':'') p)
      else find_char (CHR '':'') p)"

text \<open>\<open>flush_prop\<close>: key, optional flag and type text of a buffer, when it has a colon.\<close>

definition flush_prop :: "string \<Rightarrow> (string \<times> bool \<times> string) option" where
  "flush_prop buf =
     (let p = trim buf in
      if p = [] then None
      else case colon_position p of
          None \<Rightarrow> None
        | Some colon \<Rightarrow>
            (let raw = trim (take colon p); is_opt = ends_with raw ''?'';
                 raw' = (if is_opt then trim (take (length raw - 1) raw) else raw)
             in Some (trim_matches quote_char (trim_matches (CHR 0x22) raw'), is_opt, trim (drop (colon + 1) p))))"

definition object_props :: "string \<Rightarrow> (string \<times> bool \<times> string) list" where
  "object_props inner = List.map_filter flush_prop (object_pieces False None (0, 0, 0, 0) [] inner)"

text \<open>The parameter types and the return type of a function type.\<close>

definition param_text :: "string \<Rightarrow> string" where
  "param_text param =
     (let t = trim param in
      case find_top_level_char t (CHR '':'') of Some colon \<Rightarrow> trim (drop (colon + 1) t) | None \<Rightarrow> t)"

definition function_parts :: "string \<Rightarrow> (string list \<times> string) option" where
  "function_parts name =
     (case find_top_level_arrow name of
        None \<Rightarrow> None
      | Some arrow \<Rightarrow>
          (let pp = trim (take arrow name); rp = trim (drop (arrow + 2) name) in
           if starts_with pp ''('' \<and> ends_with pp '')'' \<and> rp \<noteq> [] then
             (let inner = trim (slice 1 (length pp - 1) pp)
              in Some (if inner = [] then []
                       else map param_text (filter (\<lambda>p. trim p \<noteq> []) (split_top_level inner (CHR '',''))), rp))
           else None))"

text \<open>
  The bracketed suffixes of an array type, last first: the offset where they begin and their
  contents.
\<close>

fun open_index :: "string \<Rightarrow> nat \<Rightarrow> int \<Rightarrow> nat option" where
  "open_index s 0 depth = None"
| "open_index s (Suc i) depth =
     (if s ! i = CHR '']'' then open_index s i (depth + 1)
      else if s ! i = CHR ''['' then
        (if depth - 1 = 0 then Some i else open_index s i (depth - 1))
      else open_index s i depth)"

lemma open_index_less: "open_index s e d = Some i \<Longrightarrow> i < e"
  by (induction s e d rule: open_index.induct) (auto split: if_splits intro: less_SucI)

function bracket_loop :: "string \<Rightarrow> nat \<Rightarrow> nat \<times> string list" where
  "bracket_loop s e =
     (if 0 < e \<and> s ! (e - 1) = CHR '']'' then
        (case open_index s e 0 of
           Some i \<Rightarrow> apsnd ((#) (slice (i + 1) (e - 1) s)) (bracket_loop s i)
         | None \<Rightarrow> (e, []))
      else (e, []))"
  by pat_completeness auto
termination
  by (relation "measure snd") (auto dest: open_index_less)

declare bracket_loop.simps [simp del]

definition array_parts :: "string \<Rightarrow> (string \<times> string list) option" where
  "array_parts name =
     (if ends_with name '']'' then
        (let (e, brackets) = bracket_loop name (length name)
         in if brackets \<noteq> [] \<and> 0 < e then Some (take e name, brackets) else None)
      else None)"

text \<open>Wrap the base in the dimensions, the last bracket innermost; no value for a bad size.\<close>

fun wrap_dims :: "TejxType \<Rightarrow> string list \<Rightarrow> TejxType option" where
  "wrap_dims t [] = Some t"
| "wrap_dims t (b # bs) =
     (if b = [] then wrap_dims (TyDynamicArray t) bs
      else case parse_usize b of Some n \<Rightarrow> wrap_dims (TyFixedArray t n) bs | None \<Rightarrow> None)"

definition builtin_types :: "(string \<times> TejxType) list" where
  "builtin_types =
     [(''int8'', TyInt8), (''uint8'', TyUInt8), (''int'', TyInt32), (''int32'', TyInt32),
      (''int16'', TyInt16), (''uint16'', TyUInt16), (''uint'', TyUInt32), (''uint32'', TyUInt32),
      (''int64'', TyInt64), (''uint64'', TyUInt64), (''int128'', TyInt128), (''uint128'', TyUInt128),
      (''float'', TyFloat32), (''float32'', TyFloat32), (''float64'', TyFloat64),
      (''float16'', TyFloat16), (''string'', TyString), (''char'', TyChar), (''bool'', TyBool),
      (''void'', TyVoid), ([], TyVoid), (''any'', TyAny)]"

text \<open>The name and the argument texts of a generic instance.\<close>

definition generic_parts :: "string \<Rightarrow> (string \<times> string list) option" where
  "generic_parts name =
     (case find_top_level_generic_bounds name of
        Some (opn, close) \<Rightarrow>
          (if close + 1 = length name
           then Some (trim (take opn name),
             filter (\<lambda>a. a \<noteq> []) (map trim (split_top_level (slice (opn + 1) close name) (CHR '',''))))
           else None)
      | None \<Rightarrow> None)"

subsection \<open>Every part is shorter than the whole\<close>

lemma split_loop_nonempty [simp]: "split_loop sep d cur s \<noteq> []"
  by (induction sep d cur s rule: split_loop.induct) (auto simp: Let_def)

lemma split_loop_length:
  "p \<in> set (split_loop sep d cur s) \<Longrightarrow>
     length p + (length (split_loop sep d cur s) - 1) \<le> length cur + length s"
proof (induction sep d cur s arbitrary: p rule: split_loop.induct)
  case (1 sep d cur)
  then show ?case using length_trim [of cur] by simp
next
  case (2 sep d cur c s)
  let ?d = "depth_step c d"
  show ?case
  proof (cases "c = sep \<and> ?d = (0, 0, 0, 0)")
    case True
    let ?r = "split_loop sep ?d [] s"
    have ne: "?r \<noteq> []" by simp
    have r: "length q + (length ?r - 1) \<le> length s" if "q \<in> set ?r" for q
      using "2.IH"(1) [OF refl True that] by simp
    have "length ?r - 1 \<le> length s" using r [of "hd ?r"] ne by simp
    with 2(3) True r ne length_trim [of cur] show ?thesis
      by (cases ?r) (fastforce simp: Let_def)+
  next
    case False
    then have e: "split_loop sep d cur (c # s) = split_loop sep ?d (cur @ [c]) s"
      by (simp only: split_loop.simps(2) Let_def False if_False)
    from "2.IH"(2) [OF refl False] 2(3) show ?thesis unfolding e by fastforce
  qed
qed

lemma split_top_level_length: "p \<in> set (split_top_level s sep) \<Longrightarrow> length p \<le> length s"
  using split_loop_length by (fastforce simp: split_top_level_def)

lemma split_top_level_shorter:
  "p \<in> set (split_top_level s sep) \<Longrightarrow> 1 < length (split_top_level s sep) \<Longrightarrow> length p < length s"
  using split_loop_length [of p sep "(0, 0, 0, 0)" "[]" s] by (simp add: split_top_level_def)

lemma length_slice: "length (slice i j s) \<le> length s - i" "length (slice i j s) \<le> j - i"
  by (auto simp: slice_def)

lemma flush_prop_length: "flush_prop buf = Some (k, opt, t) \<Longrightarrow> length t < length buf"
proof -
  assume a: "flush_prop buf = Some (k, opt, t)"
  then have "trim buf \<noteq> []" and "\<exists>colon. t = trim (drop (colon + 1) (trim buf))"
    by (auto simp: flush_prop_def Let_def split: option.splits if_splits)
  then obtain colon where "0 < length (trim buf)" "length t \<le> length (drop (colon + 1) (trim buf))"
    using length_trim by fastforce
  then show ?thesis using length_trim [of buf] by (simp add: length_greater_0_conv [symmetric] del: length_greater_0_conv)
qed

lemma object_pieces_length: "p \<in> set (object_pieces esc q d cur s) \<Longrightarrow> length p \<le> length cur + length s"
proof (induction esc q d cur s rule: object_pieces.induct)
  case (2 esc q d cur c s)
  consider "esc" | "\<not> esc" "q \<noteq> None" | "\<not> esc" "q = None" "c = CHR 0x22 \<or> c = quote_char"
    | "\<not> esc" "q = None" "\<not> (c = CHR 0x22 \<or> c = quote_char)" "(c = CHR '';'' \<or> c = CHR '','') \<and> d = (0, 0, 0, 0)"
    | "\<not> esc" "q = None" "\<not> (c = CHR 0x22 \<or> c = quote_char)" "\<not> ((c = CHR '';'' \<or> c = CHR '','') \<and> d = (0, 0, 0, 0))"
    by blast
  then show ?case
  proof cases
    case 1 then show ?thesis using 2(1,6) by simp
  next
    case 2
    then obtain y where q: "q = Some y" by blast
    show ?thesis using "2.IH"(5) [OF 2(1) q] "2.prems" 2(1) unfolding q by simp
  next
    case 3 then show ?thesis using "2.IH"(2) "2.prems" by simp
  next
    case 4 then show ?thesis using "2.IH"(3) "2.prems" by fastforce
  next
    case 5 then show ?thesis using "2.IH"(4) "2.prems" by (auto split: if_splits)
  qed
qed (auto split: if_splits)

lemma object_props_length: "(k, opt, t) \<in> set (object_props inner) \<Longrightarrow> length t < length inner"
  by (fastforce simp: object_props_def map_filter_def dest: flush_prop_length object_pieces_length)

lemma param_text_length: "length (param_text p) \<le> length p"
  using length_trim [of p] length_trim [of "drop n (trim p)" for n]
  by (auto simp: param_text_def Let_def split: option.splits)
    (metis diff_le_self dual_order.trans length_drop length_trim)

lemma function_parts_length:
  assumes "function_parts name = Some (ps, r)"
  shows "length r < length name" "p \<in> set ps \<Longrightarrow> length p < length name"
proof -
  from assms obtain arrow where a: "find_top_level_arrow name = Some arrow"
    and pp: "starts_with (trim (take arrow name)) ''(''" and r: "r = trim (drop (arrow + 2) name)" "r \<noteq> []"
    and ps: "ps = (let inner = trim (slice 1 (length (trim (take arrow name)) - 1) (trim (take arrow name)))
       in if inner = [] then []
          else map param_text (filter (\<lambda>p. trim p \<noteq> []) (split_top_level inner (CHR '',''))))"
    by (auto simp: function_parts_def Let_def split: option.splits if_splits)
  have "length r \<le> length name - (arrow + 2)" using r(1) length_trim [of "drop (arrow + 2) name"] by simp
  moreover have "0 < length r" using r(2) by simp
  ultimately show "length r < length name" by linarith
  assume p: "p \<in> set ps"
  define tn where "tn = trim (take arrow name)"
  have tn: "0 < length tn" "length tn \<le> length name"
    using pp length_trim [of "take arrow name"] unfolding tn_def by (auto simp: starts_with_def)
  from p ps obtain q where q: "q \<in> set (split_top_level (trim (slice 1 (length tn - 1) tn)) (CHR '',''))"
    "p = param_text q"
    unfolding tn_def [symmetric] by (auto simp: Let_def split: if_splits)
  have "length p \<le> length (trim (slice 1 (length tn - 1) tn))"
    using q param_text_length [of q] split_top_level_length [OF q(1)] by simp
  also have "\<dots> \<le> length tn - 1" using length_trim length_slice(1) order.trans by blast
  finally show "length p < length name" using tn by linarith
qed

lemma bracket_loop_less: "snd (bracket_loop s e) \<noteq> [] \<Longrightarrow> fst (bracket_loop s e) < e"
proof (induction s e rule: bracket_loop.induct)
  case (1 s e)
  show ?case
  proof (cases "0 < e \<and> s ! (e - 1) = CHR '']''")
    case True
    show ?thesis
    proof (cases "open_index s e 0")
      case (Some i)
      then have i: "i < e" by (rule open_index_less)
      have e: "bracket_loop s e = apsnd ((#) (slice (i + 1) (e - 1) s)) (bracket_loop s i)"
        using True Some by (subst bracket_loop.simps) simp
      show ?thesis
      proof (cases "snd (bracket_loop s i) = []")
        case True
        then have "fst (bracket_loop s i) = i"
          by (subst (asm) bracket_loop.simps, subst bracket_loop.simps) (auto split: if_splits option.splits)
        with i e show ?thesis by (simp add: apsnd_def map_prod_def split_beta)
      next
        case False
        from 1(1) [OF True Some False] i e show ?thesis by (simp add: apsnd_def map_prod_def split_beta)
      qed
    next
      case None
      then show ?thesis using 1(2) True by (subst (asm) bracket_loop.simps) simp
    qed
  next
    case False
    then show ?thesis using 1(2) by (subst (asm) bracket_loop.simps) auto
  qed
qed

lemma array_parts_length: "array_parts name = Some (base, bs) \<Longrightarrow> length base < length name"
  using bracket_loop_less [of name "length name"]
  by (auto simp: array_parts_def split: if_splits prod.splits)

lemma generic_bounds_loop_bounds:
  "generic_bounds_loop i d opn s = Some (j, e) \<Longrightarrow> e < i + length s"
proof (induction i d opn s arbitrary: j e rule: generic_bounds_loop.induct)
  case (2 i a b k p opn c s)
  consider "c = CHR ''<''" | "c = CHR ''>''" "0 < a" | "c = CHR ''>''" "a = 0"
    | "c \<noteq> CHR ''<''" "c \<noteq> CHR ''>''" by blast
  then show ?case
  proof cases
    case 1 then show ?thesis using "2.IH"(1) "2.prems" by fastforce
  next
    case 2
    then show ?thesis
      using "2.prems" "2.IH"(2,3) by (cases "a = 1"; cases opn) fastforce+
  next
    case 3 then show ?thesis using 2 by fastforce
  next
    case 4 then show ?thesis using 2 by fastforce
  qed
qed simp

lemma generic_parts_length:
  assumes "generic_parts name = Some (n, args)"
  shows "a \<in> set args \<Longrightarrow> length a < length name"
proof -
  from assms obtain opn close where oc: "find_top_level_generic_bounds name = Some (opn, close)"
    and args: "args = filter (\<lambda>a. a \<noteq> []) (map trim (split_top_level (slice (opn + 1) close name) (CHR '','')))"
    by (auto simp: generic_parts_def split: option.splits if_splits)
  have "close < length name"
    using generic_bounds_loop_bounds [of 0 "(0, 0, 0, 0)" None name opn close] oc
    by (simp add: find_top_level_generic_bounds_def)
  moreover assume "a \<in> set args"
  then obtain b where "b \<in> set (split_top_level (slice (opn + 1) close name) (CHR '',''))" "a = trim b"
    using args by auto
  then have "length a \<le> length (slice (opn + 1) close name)"
    using split_top_level_length length_trim order.trans by blast
  ultimately show ?thesis using length_slice(2) [of "opn + 1" close name] by linarith
qed

subsection \<open>\<open>from_name\<close>\<close>

lemma trim_shorter: "length u < length (trim s) \<Longrightarrow> length u < length s"
  using length_trim [of s] by simp

lemma slice_shorter: "0 < i \<Longrightarrow> s \<noteq> [] \<Longrightarrow> length (slice i j s) < length s"
  using length_slice(1) [of i j s] by (simp add: length_greater_0_conv [symmetric] del: length_greater_0_conv)

lemma starts_with_nonempty: "starts_with s p \<Longrightarrow> p \<noteq> [] \<Longrightarrow> s \<noteq> []"
  by (auto simp: starts_with_def)

lemma union_part_shorter:
  "p \<in> set (filter P (split_top_level (trim s) sep)) \<Longrightarrow> 1 < length (split_top_level (trim s) sep) \<Longrightarrow>
     length (trim p) < length s"
proof -
  assume "p \<in> set (filter P (split_top_level (trim s) sep))" "1 < length (split_top_level (trim s) sep)"
  then have "length p < length (trim s)" using split_top_level_shorter by force
  with length_trim [of p] length_trim [of s] show ?thesis by linarith
qed

lemma object_part_shorter:
  "(k, opt, t) \<in> set (object_props (trim (slice 1 n s))) \<Longrightarrow> length t < length s"
  using object_props_length [of k opt t "trim (slice 1 n s)"] length_trim [of "slice 1 n s"]
    length_slice(1) [of 1 n s] by linarith

function (sequential) from_name :: "string \<Rightarrow> TejxType" where
  "from_name name0 =
     (let name = trim name0; us = split_top_level name (CHR ''|'') in
      if 1 < length us then union_type name (map (\<lambda>s. from_name (trim s)) (filter (\<lambda>p. p \<noteq> []) us))
      else if starts_with name ''{'' \<and> ends_with name ''}'' then
        TyObject (map (\<lambda>(k, opt, t). (k, opt, from_name t)) (object_props (trim (slice 1 (length name - 1) name))))
      else case function_parts name of
          Some (ps, r) \<Rightarrow> TyFunction (map (\<lambda>p. from_name p) ps) (from_name r)
        | None \<Rightarrow> case array_parts name of
          Some (base, dims) \<Rightarrow>
            (case wrap_dims (from_name base) dims of Some t \<Rightarrow> t | None \<Rightarrow> TyClass name [])
        | None \<Rightarrow>
          if starts_with name ''slice<'' \<and> ends_with name ''>''
          then TySlice (from_name (slice 6 (length name - 1) name))
          else if starts_with name ''Optional<'' \<and> ends_with name ''>''
          then TyOptional (from_name (slice 9 (length name - 1) name))
          else case map_of builtin_types name of
              Some t \<Rightarrow> t
            | None \<Rightarrow> (case generic_parts name of
                Some (n, args) \<Rightarrow> TyClass n (map (\<lambda>a. from_name a) args)
              | None \<Rightarrow> TyClass name []))"
  by pat_completeness auto
termination
proof (relation "measure length", goal_cases)
  case (2 name0 name us s)
  then show ?case unfolding in_measure using union_part_shorter by blast
next
  case (3 name0 name us z k y opt t)
  then show ?case
    unfolding in_measure by (metis object_part_shorter trim_shorter)
next
  case (4 name0 name us)
  then show ?case
    unfolding in_measure by (metis slice_shorter starts_with_nonempty trim_shorter list.simps(3) zero_less_numeral)
next
  case (5 name0 name us)
  then show ?case
    unfolding in_measure by (metis slice_shorter starts_with_nonempty trim_shorter list.simps(3) zero_less_numeral)
next
  case (6 name0 name us z n args a)
  then show ?case unfolding in_measure by (metis generic_parts_length trim_shorter)
next
  case (7 name0 name us z base dims)
  then show ?case unfolding in_measure by (metis array_parts_length trim_shorter)
next
  case (8 name0 name us z ps r p)
  then show ?case unfolding in_measure by (metis function_parts_length(2) trim_shorter)
next
  case (9 name0 name us z ps r)
  then show ?case unfolding in_measure by (metis function_parts_length(1) trim_shorter)
qed simp

declare from_name.simps [simp del]

section \<open>Types of syntax trees\<close>

fun from_node :: "Type_Node \<Rightarrow> TejxType" where
  "from_node (TNNamed n) = from_name n"
| "from_node (TNGeneric n args) = TyClass n (map from_node args)"
| "from_node (TNOptional t) = TyOptional (from_node t)"
| "from_node (TNArray t) = TyDynamicArray (from_node t)"
| "from_node (TNSizedArray t e) =
     (case e of
        NumberLiteral v _ _ _ \<Rightarrow>
          (if f64_nonneg v \<and> f64_is_integral v then TyFixedArray (from_node t) (f64_as_usize v)
           else TyDynamicArray (from_node t))
      | _ \<Rightarrow> TyDynamicArray (from_node t))"
| "from_node (TNFunction ps r) = TyFunction (map from_node ps) (from_node r)"
| "from_node (TNObject ms) = TyObject (map (\<lambda>(k, opt, t). (k, opt, from_node t)) ms)"
| "from_node (TNIntersection ts) = TyAny"
| "from_node TNAny = TyAny"

fun to_type_node :: "TejxType \<Rightarrow> Type_Node" where
  "to_type_node TyInt8 = TNNamed ''int8''" | "to_type_node TyUInt8 = TNNamed ''uint8''"
| "to_type_node TyInt16 = TNNamed ''int16''" | "to_type_node TyUInt16 = TNNamed ''uint16''"
| "to_type_node TyUInt32 = TNNamed ''uint''" | "to_type_node TyInt32 = TNNamed ''int32''"
| "to_type_node TyUInt64 = TNNamed ''uint64''" | "to_type_node TyInt64 = TNNamed ''int64''"
| "to_type_node TyInt128 = TNNamed ''int128''" | "to_type_node TyUInt128 = TNNamed ''uint128''"
| "to_type_node TyFloat16 = TNNamed ''float16''" | "to_type_node TyFloat32 = TNNamed ''float32''"
| "to_type_node TyFloat64 = TNNamed ''float64''" | "to_type_node TyBool = TNNamed ''bool''"
| "to_type_node TyString = TNNamed ''string''" | "to_type_node TyChar = TNNamed ''char''"
| "to_type_node TyVoid = TNNamed ''void''" | "to_type_node TyAny = TNAny"
| "to_type_node (TyClass n ts) = (if ts = [] then TNNamed n else TNGeneric n (map to_type_node ts))"
| "to_type_node (TyOptional t) = TNOptional (to_type_node t)"
| "to_type_node (TyFixedArray t n) =
     TNSizedArray (to_type_node t) (NumberLiteral (f64_of_nat n) False 0 0)"
| "to_type_node (TyDynamicArray t) = TNArray (to_type_node t)"
| "to_type_node (TySlice t) = TNGeneric ''slice'' [to_type_node t]"
| "to_type_node (TyFunction ps r) = TNFunction (map to_type_node ps) (to_type_node r)"
| "to_type_node (TyObject ms) = TNObject (map (\<lambda>(k, opt, t). (k, opt, to_type_node t)) ms)"

section \<open>Substitution of generic parameters\<close>

fun substitute_generics :: "(string \<rightharpoonup> TejxType) \<Rightarrow> TejxType \<Rightarrow> TejxType" where
  "substitute_generics b (TyClass n ts) =
     (if ts = [] then (case b n of Some t \<Rightarrow> t | None \<Rightarrow> TyClass n [])
      else TyClass n (map (substitute_generics b) ts))"
| "substitute_generics b (TyOptional t) = TyOptional (substitute_generics b t)"
| "substitute_generics b (TyFixedArray t n) = TyFixedArray (substitute_generics b t) n"
| "substitute_generics b (TyDynamicArray t) = TyDynamicArray (substitute_generics b t)"
| "substitute_generics b (TySlice t) = TySlice (substitute_generics b t)"
| "substitute_generics b (TyFunction ps r) =
     TyFunction (map (substitute_generics b) ps) (substitute_generics b r)"
| "substitute_generics b (TyObject ms) =
     TyObject (map (\<lambda>(k, opt, t). (k, opt, substitute_generics b t)) ms)"
| "substitute_generics b t = t"

end
