(* ===== verification/TypesFacts.thy ===== *)
theory TypesFacts
  imports Types
begin

text \<open>
  Facts of the type encodings: the printer and the parser of the textual form are inverse on the
  types whose text is unambiguous, so are the translations to and from syntax trees, and the
  substitution of generic parameters is a substitution (identity, composition, names).
\<close>

section \<open>Depths of balanced text\<close>

definition depth_end :: "depths \<Rightarrow> string \<Rightarrow> depths" where
  "depth_end d s = fold depth_step s d"

definition depth_le :: "depths \<Rightarrow> depths \<Rightarrow> bool" where
  "depth_le x y \<longleftrightarrow>
     (case (x, y) of ((a, b, k, p), (a', b', k', p')) \<Rightarrow> a \<le> a' \<and> b \<le> b' \<and> k \<le> k' \<and> p \<le> p')"

text \<open>Every depth on the way is at least the limit.\<close>

fun above :: "depths \<Rightarrow> depths \<Rightarrow> string \<Rightarrow> bool" where
  "above m d [] = True"
| "above m d (c # s) = (depth_le m (depth_step c d) \<and> above m (depth_step c d) s)"

definition balanced :: "depths \<Rightarrow> string \<Rightarrow> bool" where
  "balanced d s \<longleftrightarrow> depth_end d s = d \<and> above d d s"

lemma depth_end_simps [simp]:
  "depth_end d [] = d" "depth_end d (c # s) = depth_end (depth_step c d) s"
  "depth_end d (s @ t) = depth_end (depth_end d s) t"
  by (simp_all add: depth_end_def)

lemma depth_le_refl [simp]: "depth_le d d"
  by (cases d) (simp add: depth_le_def)

lemma depth_le_trans: "depth_le a b \<Longrightarrow> depth_le b c \<Longrightarrow> depth_le a c"
  by (auto simp: depth_le_def)

lemma above_append: "above m d (s @ t) \<longleftrightarrow> above m d s \<and> above m (depth_end d s) t"
  by (induction s arbitrary: d) auto

lemma above_mono: "depth_le m' m \<Longrightarrow> above m d s \<Longrightarrow> above m' d s"
  by (induction s arbitrary: d) (auto intro: depth_le_trans)

lemma balanced_append: "balanced d s \<Longrightarrow> balanced d t \<Longrightarrow> balanced d (s @ t)"
  by (simp add: balanced_def above_append)

lemma balanced_Nil [simp]: "balanced d []"
  by (simp add: balanced_def)

definition neutral_char :: "char \<Rightarrow> bool" where
  "neutral_char c \<longleftrightarrow> c \<notin> set ''<>{}[]()''"

lemma neutral_step: "neutral_char c \<Longrightarrow> depth_step c d = d"
  by (cases d) (simp add: neutral_char_def depth_step_def)

lemma balanced_neutral: "list_all neutral_char s \<Longrightarrow> balanced d s"
  by (induction s) (auto simp: balanced_def neutral_step)

lemma balanced_wrap:
  "balanced (Suc a, b, k, p) s \<Longrightarrow> balanced (a, b, k, p) (''<'' @ s @ ''>'')"
  "balanced (a, Suc b, k, p) s \<Longrightarrow> balanced (a, b, k, p) (''{'' @ s @ ''}'')"
  "balanced (a, b, Suc k, p) s \<Longrightarrow> balanced (a, b, k, p) (''['' @ s @ '']'')"
  "balanced (a, b, k, Suc p) s \<Longrightarrow> balanced (a, b, k, p) (''('' @ s @ '')'')"
  by (auto simp: balanced_def above_append depth_step_def depth_le_def intro: above_mono [rotated])

lemma balanced_arrow: "balanced (0, b, k, p) '' => ''"
  by (simp add: balanced_def depth_step_def depth_le_def)

lemma balanced_join:
  "list_all (balanced d) ss \<Longrightarrow> balanced d sep \<Longrightarrow> balanced d (join_with sep ss)"
  by (induction sep ss rule: join_with.induct) (auto intro!: balanced_append)

section \<open>Text without a separator at the top level\<close>

fun clear :: "char \<Rightarrow> depths \<Rightarrow> string \<Rightarrow> bool" where
  "clear sep d [] = True"
| "clear sep d (c # s) =
     (let d' = depth_step c d in \<not> (c = sep \<and> d' = (0, 0, 0, 0)) \<and> clear sep d' s)"

lemma clear_append: "clear sep d (s @ t) \<longleftrightarrow> clear sep d s \<and> clear sep (depth_end d s) t"
  by (induction s arbitrary: d) (auto simp: Let_def)

lemma clear_absent: "sep \<notin> set s \<Longrightarrow> clear sep d s"
  by (induction s arbitrary: d) (auto simp: Let_def)

lemma clear_above: "above m d s \<Longrightarrow> m \<noteq> (0, 0, 0, 0) \<Longrightarrow> clear sep d s"
proof (induction s arbitrary: d)
  case (Cons c s)
  then have "depth_step c d \<noteq> (0, 0, 0, 0)" by (cases m) (auto simp: depth_le_def)
  with Cons show ?case by (auto simp: Let_def)
qed simp

lemma clear_balanced: "balanced d s \<Longrightarrow> d \<noteq> (0, 0, 0, 0) \<Longrightarrow> clear sep d s"
  by (auto simp: balanced_def intro: clear_above)

lemma split_loop_clear:
  "clear sep d s \<Longrightarrow> split_loop sep d cur (s @ t) = split_loop sep (depth_end d s) (cur @ s) t"
  by (induction s arbitrary: d cur) (auto simp: Let_def)

lemma split_clear: "clear sep (0, 0, 0, 0) s \<Longrightarrow> split_top_level s sep = [trim s]"
  using split_loop_clear [of sep "(0, 0, 0, 0)" s "[]" "[]"] by (simp add: split_top_level_def)

lemma find_char_clear: "clear c d s \<Longrightarrow> find_char_loop i d c s = None"
  by (induction s arbitrary: d i) (auto simp: Let_def)

text \<open>A text at the top level between separators.\<close>

definition item :: "char \<Rightarrow> string \<Rightarrow> bool" where
  "item sep s \<longleftrightarrow> balanced (0, 0, 0, 0) s \<and> clear sep (0, 0, 0, 0) s \<and> trim s = s \<and> s \<noteq> []"

lemma trim_space: "trim (CHR '' '' # s) = trim s"
  by (simp add: trim_def trim_start_def is_whitespace_def)

lemma split_loop_join:
  assumes "list_all (item sep) ss" "neutral_char sep" "sep \<noteq> CHR '' ''" "ss \<noteq> []" "cur \<in> {[], '' ''}"
  shows "split_loop sep (0, 0, 0, 0) cur (join_with [sep, CHR '' ''] ss) = ss"
  using assms
proof (induction "[sep, CHR '' '']" ss arbitrary: cur rule: join_with.induct)
  case (2 x)
  then show ?case
    using split_loop_clear [of sep "(0, 0, 0, 0)" x cur "[]"]
    by (auto simp: item_def balanced_def trim_space)
next
  case (3 x y ys)
  have sp: "depth_step (CHR '' '') d = d" "depth_step sep d = d" for d
    using 3(3) by (auto simp: neutral_step neutral_char_def)
  have "split_loop sep (0, 0, 0, 0) cur (x @ [sep, CHR '' ''] @ join_with [sep, CHR '' ''] (y # ys))
      = trim (cur @ x) # split_loop sep (0, 0, 0, 0) '' '' (join_with [sep, CHR '' ''] (y # ys))"
    using 3(2,4) sp split_loop_clear [of sep "(0, 0, 0, 0)" x cur]
    by (simp add: item_def balanced_def Let_def)
  moreover have "trim (cur @ x) = x" using 3(2,6) by (auto simp: item_def trim_space)
  moreover have "split_loop sep (0, 0, 0, 0) '' '' (join_with [sep, CHR '' ''] (y # ys)) = y # ys"
    by (rule 3(1)) (use 3 in simp_all)
  ultimately show ?case by (simp only: join_with.simps)
qed simp

section \<open>The types with an unambiguous text\<close>

definition plain_name :: "string \<Rightarrow> bool" where
  "plain_name n \<longleftrightarrow> n \<noteq> [] \<and> list_all is_ident_char n"

definition class_name :: "string \<Rightarrow> bool" where
  "class_name n \<longleftrightarrow> plain_name n \<and> map_of builtin_types n = None"

text \<open>No function type inside.\<close>

fun no_function :: "TejxType \<Rightarrow> bool" where
  "no_function (TyClass n ts) = list_all no_function ts"
| "no_function (TyOptional t) = no_function t"
| "no_function (TyFixedArray t n) = no_function t"
| "no_function (TyDynamicArray t) = no_function t"
| "no_function (TySlice t) = no_function t"
| "no_function (TyFunction ps r) = False"
| "no_function (TyObject ms) = list_all (\<lambda>(k, opt, t). no_function t) ms"
| "no_function t = True"

text \<open>
  Class names and keys are words, array sizes fit \<open>usize\<close>, and function types stand only at the
  top level, in parameters, results and object members: not inside angle brackets, where the
  \<open>>\<close> of an arrow closes a bracket, and not as array elements, where the dimensions would belong
  to the result.
\<close>

fun printable :: "TejxType \<Rightarrow> bool" where
  "printable (TyClass n ts) =
     (if ts = [] then class_name n
      else plain_name n \<and> n \<noteq> ''slice'' \<and> n \<noteq> ''Optional'' \<and> list_all (\<lambda>t. printable t \<and> no_function t) ts)"
| "printable (TyOptional t) = (printable t \<and> no_function t)"
| "printable (TyFixedArray t n) = (printable t \<and> no_function t \<and> n < 2 ^ 64)"
| "printable (TyDynamicArray t) = (printable t \<and> no_function t)"
| "printable (TySlice t) = (printable t \<and> no_function t)"
| "printable (TyFunction ps r) = (list_all printable ps \<and> printable r)"
| "printable (TyObject ms) = list_all (\<lambda>(k, opt, t). list_all is_ident_char k \<and> printable t) ms"
| "printable t = True"

section \<open>The text of a printable type\<close>

lemma ident_neutral: "is_ident_char c \<Longrightarrow> neutral_char c"
  by (auto simp: neutral_char_def str_simps)

lemma ident_not_space: "is_ident_char c \<Longrightarrow> \<not> is_whitespace c"
  by (auto simp: str_simps)

lemma plain_neutral: "list_all is_ident_char n \<Longrightarrow> list_all neutral_char n"
  by (auto simp: list_all_iff ident_neutral)

lemma digits_ident: "list_all is_ident_char (nat_to_string n)"
  using nat_to_string_digits [of n] digit_is_ident_char by (auto simp: list_all_iff)

text \<open>The characters a printed type can have.\<close>

definition name_char :: "char \<Rightarrow> bool" where
  "name_char c \<longleftrightarrow> is_ident_char c \<or> c \<in> set ''<>{}[]()=,;:? ''"

lemma name_char_punct [simp]:
  "c \<in> set ''<>{}[]()=,;:? '' \<Longrightarrow> name_char c"
  by (simp add: name_char_def)

lemma name_char_join: "list_all name_char sep \<Longrightarrow> list_all (list_all name_char) ss \<Longrightarrow>
    list_all name_char (join_with sep ss)"
  by (induction sep ss rule: join_with.induct) auto

text \<open>Base and dimensions of an array type.\<close>

definition dims_text :: "string list \<Rightarrow> bool" where
  "dims_text ds \<longleftrightarrow> (\<forall>x \<in> set ds. \<exists>u. x = ''['' @ u @ '']'' \<and> (u = [] \<or> (\<exists>n. u = nat_to_string n \<and> n < 2 ^ 64)))"

lemma dims_printable:
  "printable t \<Longrightarrow> no_function t \<Longrightarrow>
     printable (fst (type_array_dims t)) \<and> no_function (fst (type_array_dims t)) \<and>
     dims_text (snd (type_array_dims t))"
  by (induction t rule: type_array_dims.induct)
    (auto simp: dims_text_def apsnd_def map_prod_def split_beta)

lemma dims_neutral: "dims_text ds \<Longrightarrow> balanced d (concat ds)"
proof (induction ds)
  case (Cons x ds)
  then obtain u where u: "x = ''['' @ u @ '']''" "u = [] \<or> (\<exists>n. u = nat_to_string n)"
    by (auto simp: dims_text_def)
  then have "balanced d' u" for d'
    using balanced_neutral [OF plain_neutral [OF digits_ident], of d'] by auto
  then have "balanced d x" unfolding u(1) by (cases d) (auto intro: balanced_wrap(3) [simplified])
  with Cons show ?case by (auto simp: dims_text_def intro: balanced_append)
qed simp

lemma array_text:
  "to_name (TyFixedArray t n)
     = to_name (fst (type_array_dims (TyFixedArray t n))) @ concat (snd (type_array_dims (TyFixedArray t n)))"
  "to_name (TyDynamicArray t)
     = to_name (fst (type_array_dims (TyDynamicArray t))) @ concat (snd (type_array_dims (TyDynamicArray t)))"
  by (simp_all add: apsnd_def map_prod_def split_beta)

lemma balanced_plain: "list_all is_ident_char n \<Longrightarrow> balanced d n"
  by (rule balanced_neutral [OF plain_neutral])

lemma balanced_sep: "list_all neutral_char sep \<Longrightarrow> list_all (balanced d) ss \<Longrightarrow> balanced d (join_with sep ss)"
  by (rule balanced_join) (auto simp: balanced_neutral)

lemma safe_key_plain: "list_all is_ident_char k \<Longrightarrow> safe_key k = k"
  by (simp add: safe_key_def is_ident_char_def [abs_def])

lemma printable_generic:
  "printable (TyClass n ts) \<Longrightarrow> list_all is_ident_char n \<and> list_all (\<lambda>t. printable t \<and> no_function t) ts"
  by (auto simp: class_name_def plain_name_def split: if_splits)

abbreviation prop_text :: "string \<times> bool \<times> TejxType \<Rightarrow> string" where
  "prop_text \<equiv> (\<lambda>(k, opt, t). safe_key k @ (if opt then ''?'' else []) @ '': '' @ to_name t)"

lemma balanced_prop:
  assumes t: "balanced d (to_name t)" and k: "list_all is_ident_char k"
  shows "balanced d (prop_text (k, opt, t))"
proof -
  have "balanced d (k @ (if opt then ''?'' else []) @ '': '')"
    using plain_neutral [OF k] by (intro balanced_neutral) (simp add: neutral_char_def)
  from balanced_append [OF this t] show ?thesis by (simp add: safe_key_plain [OF k])
qed

lemma balanced_object_inner:
  assumes "list_all (\<lambda>(k, opt, t). list_all is_ident_char k \<and> balanced d (to_name t)) ms"
  shows "balanced d ('' '' @ join_with ''; '' (map prop_text ms) @ '' '')"
proof -
  have "balanced d (prop_text m)" if m: "m \<in> set ms" for m
  proof -
    obtain k opt t where e: "m = (k, opt, t)" by (cases m)
    have "balanced d (to_name t)" "list_all is_ident_char k"
      using m assms unfolding e by (auto simp: list_all_iff)
    then show ?thesis unfolding e by (rule balanced_prop)
  qed
  then have "balanced d (join_with ''; '' (map prop_text ms))"
    by (intro balanced_sep) (simp_all add: list_all_iff neutral_char_def)
  then show ?thesis
    by (intro balanced_append) (auto intro: balanced_neutral simp: neutral_char_def)
qed

lemma object_text: "to_name (TyObject ms) = ''{'' @ ('' '' @ join_with ''; '' (map prop_text ms) @ '' '') @ ''}''"
  by simp

lemma balanced_object:
  assumes "list_all (\<lambda>(k, opt, t). list_all is_ident_char k \<and> balanced (a, Suc b, k', p) (to_name t)) ms"
  shows "balanced (a, b, k', p) (to_name (TyObject ms))"
  unfolding object_text by (rule balanced_wrap(2) [OF balanced_object_inner [OF assms]])

lemma balanced_no_function: "printable t \<Longrightarrow> no_function t \<Longrightarrow> balanced d (to_name t)"
proof (induction t arbitrary: d rule: to_name.induct)
  case (17 n ts)
  have n: "balanced d' n" for d' using printable_generic [OF 17(2)] by (simp add: balanced_plain)
  have "balanced d' (join_with '', '' (map to_name ts))" if "ts \<noteq> []" for d'
    using 17 that printable_generic [OF 17(2)] by (intro balanced_sep) (auto simp: list_all_iff neutral_char_def)
  with n show ?case by (cases d) (auto intro!: balanced_append balanced_wrap(1) [simplified])
next
  case (18 t)
  obtain a b k p where d: "d = (a, b, k, p)" by (cases d)
  have "balanced d ''Optional''" by (rule balanced_neutral) (simp add: neutral_char_def)
  from balanced_append [OF this [unfolded d] balanced_wrap(1) [of a b k p]] 18 show ?case by (simp add: d)
next
  case (20 t n)
  have b: "fst (type_array_dims (TyFixedArray t n)) = fst (type_array_dims t)"
    by (simp add: apsnd_def map_prod_def split_beta)
  note dims = dims_printable [OF 20(2,3)]
  have "balanced d (to_name (fst (type_array_dims t)))" using 20(1) [of d] dims b by simp
  from balanced_append [OF this dims_neutral] dims show ?case unfolding array_text b by blast
next
  case (21 t)
  have b: "fst (type_array_dims (TyDynamicArray t)) = fst (type_array_dims t)"
    by (simp add: apsnd_def map_prod_def split_beta)
  note dims = dims_printable [OF 21(2,3)]
  have "balanced d (to_name (fst (type_array_dims t)))" using 21(1) [of d] dims b by simp
  from balanced_append [OF this dims_neutral] dims show ?case unfolding array_text b by blast
next
  case (22 t)
  obtain a b k p where d: "d = (a, b, k, p)" by (cases d)
  have "balanced d ''slice''" by (rule balanced_neutral) (simp add: neutral_char_def)
  from balanced_append [OF this [unfolded d] balanced_wrap(1) [of a b k p]] 22 show ?case by (simp add: d)
next
  case (25 ms)
  obtain a b k p where d: "d = (a, b, k, p)" by (cases d)
  have "list_all (\<lambda>(k, opt, t). list_all is_ident_char k \<and> balanced (a, Suc b, k', p) (to_name t)) ms" for k'
    using 25 by (fastforce simp: list_all_iff)
  from balanced_object [OF this] show ?case unfolding d .
qed (simp_all add: balanced_neutral neutral_char_def)

text \<open>At angle depth zero every printable type is balanced.\<close>

lemma balanced_printable: "printable t \<Longrightarrow> balanced (0, b, k, p) (to_name t)"
proof (induction t arbitrary: b k p rule: to_name.induct)
  case (24 ps r)
  have "balanced (0, b, k, Suc p) (join_with '', '' (map to_name ps))"
    using 24 by (intro balanced_sep) (auto simp: list_all_iff neutral_char_def)
  from balanced_append [OF balanced_wrap(4) [OF this] balanced_append [OF balanced_arrow 24(2)]]
  show ?case using 24(3) by simp
next
  case (25 ms)
  have "list_all (\<lambda>(k, opt, t). list_all is_ident_char k \<and> balanced (0, Suc b, k', p) (to_name t)) ms" for k'
    using 25 by (fastforce simp: list_all_iff)
  from balanced_object [OF this] show ?case .
qed (rule balanced_no_function; simp add: list_all_iff split: if_splits; fail)+

text \<open>A printed type has no characters but these; arrays are handled once, through \<open>array_text\<close>.\<close>

lemma array_base [simp]:
  "fst (type_array_dims (TyFixedArray t n)) = fst (type_array_dims t)"
  "fst (type_array_dims (TyDynamicArray t)) = fst (type_array_dims t)"
  by (simp_all add: apsnd_def map_prod_def split_beta)

lemma ident_name_chars: "list_all is_ident_char n \<Longrightarrow> list_all name_char n"
  by (auto simp: list_all_iff name_char_def)

lemma dims_chars: "dims_text ds \<Longrightarrow> list_all name_char (concat ds)"
  using ident_name_chars [OF digits_ident]
  by (induction ds) (auto simp: dims_text_def name_char_def str_simps)

lemma name_chars: "printable t \<Longrightarrow> list_all name_char (to_name t)"
proof (induction t rule: to_name.induct)
  case (17 n ts)
  then have "list_all name_char (join_with '', '' (map to_name ts))" if "ts \<noteq> []"
    using printable_generic [OF 17(2)] that
    by (intro name_char_join) (auto simp: list_all_iff)
  then show ?case using ident_name_chars [of n] printable_generic [OF 17(2)] by simp
next
  case (20 t n)
  note dims = dims_printable [of "TyFixedArray t n"]
  show ?case unfolding array_text using 20 dims dims_chars by (simp del: type_array_dims.simps)
next
  case (21 t)
  note dims = dims_printable [of "TyDynamicArray t"]
  show ?case unfolding array_text using 21 dims dims_chars by (simp del: type_array_dims.simps)
next
  case (24 ps r)
  then have "list_all name_char (join_with '', '' (map to_name ps))"
    by (intro name_char_join) (auto simp: list_all_iff)
  with 24 show ?case by simp
next
  case (25 ms)
  then have "list_all name_char (join_with ''; ''
      (map prop_text ms))"
    using ident_name_chars safe_key_plain
    by (intro name_char_join) (fastforce simp: list_all_iff)+
  then show ?case by simp
qed (auto simp: name_char_def str_simps)

lemma in_join: "c \<in> set (join_with sep ss) \<Longrightarrow> c \<in> set sep \<or> (\<exists>s \<in> set ss. c \<in> set s)"
  by (induction sep ss rule: join_with.induct) auto

lemma dims_no_eq: "dims_text ds \<Longrightarrow> CHR ''='' \<notin> set (concat ds)"
proof (induction ds)
  case (Cons x ds)
  then obtain u where u: "x = ''['' @ u @ '']''" "u = [] \<or> (\<exists>n. u = nat_to_string n)"
    by (auto simp: dims_text_def)
  then have "list_all is_ident_char u" using digits_ident by auto
  then have "CHR ''='' \<notin> set u" by (auto simp: list_all_iff str_simps)
  with Cons u(1) show ?case by (simp add: dims_text_def)
qed simp

lemma no_arrow: "printable t \<Longrightarrow> no_function t \<Longrightarrow> CHR ''='' \<notin> set (to_name t)"
proof (induction t rule: to_name.induct)
  case (17 n ts)
  then show ?case using printable_generic [OF 17(2)]
    by (auto simp: list_all_iff str_simps dest!: in_join)
next
  case (20 t n)
  note dims = dims_printable [of "TyFixedArray t n"] dims_no_eq
  show ?case unfolding array_text using 20 dims by (simp del: type_array_dims.simps set_concat)
next
  case (21 t)
  note dims = dims_printable [of "TyDynamicArray t"] dims_no_eq
  show ?case unfolding array_text using 21 dims by (simp del: type_array_dims.simps set_concat)
next
  case (25 ms)
  have "CHR ''='' \<notin> set (safe_key k)" if "(k, opt, t) \<in> set ms" for k opt t
    using 25 that safe_key_plain [of k] by (fastforce simp: list_all_iff str_simps)
  with 25 show ?case by (fastforce simp: list_all_iff dest!: in_join split: if_splits)
qed (auto simp: str_simps)

text \<open>The first and the last character.\<close>

definition tight :: "string \<Rightarrow> bool" where
  "tight s \<longleftrightarrow> s \<noteq> [] \<and> \<not> is_whitespace (hd s) \<and> \<not> is_whitespace (last s)"

lemma tight_trim: "tight s \<Longrightarrow> trim s = s"
  by (simp add: tight_def trim_id)

definition word_start :: "string \<Rightarrow> bool" where
  "word_start s \<longleftrightarrow> s \<noteq> [] \<and> is_ident_char (hd s)"

lemma plain_tight: "plain_name n \<Longrightarrow> tight n \<and> word_start n"
  using hd_in_set [of n] last_in_set [of n]
  by (auto simp: plain_name_def tight_def word_start_def list_all_iff ident_not_space)

lemma tight_append:
  "s \<noteq> [] \<Longrightarrow> t \<noteq> [] \<Longrightarrow> \<not> is_whitespace (hd s) \<Longrightarrow> \<not> is_whitespace (last t) \<Longrightarrow> tight (s @ t)"
  by (simp add: tight_def)

lemma dims_last: "dims_text ds \<Longrightarrow> ds \<noteq> [] \<Longrightarrow> last (concat ds) = CHR '']'' \<and> concat ds \<noteq> []"
proof (induction ds)
  case (Cons x ds)
  then obtain u where "x = ''['' @ u @ '']''" by (auto simp: dims_text_def)
  with Cons show ?case by (cases ds) (auto simp: dims_text_def)
qed simp


text \<open>The shape of a printed type: what it starts and ends with.\<close>

lemma array_dims_nonempty:
  "snd (type_array_dims (TyFixedArray t n)) \<noteq> []" "snd (type_array_dims (TyDynamicArray t)) \<noteq> []"
  by (simp_all add: apsnd_def map_prod_def split_beta)

lemma tight_array:
  assumes "tight s" "dims_text ds" "ds \<noteq> []"
  shows "tight (s @ concat ds) \<and> last (s @ concat ds) = CHR '']'' \<and> hd (s @ concat ds) = hd s"
  using assms dims_last [OF assms(2,3)] by (auto simp: tight_def is_whitespace_def)

lemma tight_name: "printable t \<Longrightarrow> tight (to_name t)"
proof (induction t rule: to_name.induct)
  case (17 n ts)
  then show ?case
    by (auto simp: class_name_def plain_tight tight_def hd_append is_whitespace_def
        dest!: plain_tight split: if_splits)
next
  case (20 t n)
  note dims = dims_printable [of "TyFixedArray t n"]
  show ?case unfolding array_text
    using 20 dims tight_array array_dims_nonempty by (simp del: type_array_dims.simps)
next
  case (21 t)
  note dims = dims_printable [of "TyDynamicArray t"]
  show ?case unfolding array_text
    using 21 dims tight_array array_dims_nonempty by (simp del: type_array_dims.simps)
qed (auto simp: tight_def is_whitespace_def)

lemma trim_name [simp]: "printable t \<Longrightarrow> trim (to_name t) = to_name t"
  by (simp add: tight_name tight_trim)

lemma name_nonempty [simp]: "printable t \<Longrightarrow> to_name t \<noteq> []"
  using tight_name [of t] by (simp add: tight_def)

text \<open>No separator stands at the top level of a printed type.\<close>

definition separator :: "char \<Rightarrow> bool" where
  "separator c \<longleftrightarrow> c \<in> set '',;:|''"

lemma separator_facts: "separator sep \<Longrightarrow> \<not> is_ident_char sep \<and> neutral_char sep \<and> sep \<noteq> CHR '' '' \<and> sep \<notin> set ''=>''"
  by (auto simp: separator_def neutral_char_def str_simps)

lemma clear_wrap:
  assumes "balanced (depth_step p (0, 0, 0, 0)) s" "depth_step p (0, 0, 0, 0) \<noteq> (0, 0, 0, 0)" "sep \<noteq> q"
  shows "clear sep (0, 0, 0, 0) (p # s @ [q])"
  using assms clear_balanced [OF assms(1,2), of sep] by (auto simp: clear_append Let_def)

lemma clear_dims: "dims_text ds \<Longrightarrow> separator sep \<Longrightarrow> clear sep (0, 0, 0, 0) (concat ds)"
proof (induction ds)
  case (Cons x ds)
  then obtain u where u: "x = ''['' @ u @ '']''" "u = [] \<or> (\<exists>n. u = nat_to_string n)"
    by (auto simp: dims_text_def)
  then have b: "balanced (depth_step (CHR ''['') (0, 0, 0, 0)) u"
    using balanced_plain [OF digits_ident] by (auto simp: depth_step_def)
  have "clear sep (0, 0, 0, 0) x"
    using clear_wrap [OF b, of sep "CHR '']''"] u Cons(3) by (auto simp: separator_def depth_step_def)
  moreover have "balanced (0, 0, 0, 0) x"
    using dims_neutral [of "[x]"] Cons(2) by (simp add: dims_text_def)
  ultimately show ?case using Cons by (simp add: clear_append dims_text_def balanced_def)
qed simp

lemma clear_name: "printable t \<Longrightarrow> separator sep \<Longrightarrow> clear sep (0, 0, 0, 0) (to_name t)"
proof (induction t rule: to_name.induct)
  case (17 n ts)
  have n: "clear sep (0, 0, 0, 0) n" "balanced (0, 0, 0, 0) n"
    using printable_generic [OF 17(2)] separator_facts [OF 17(3)]
    by (auto intro!: clear_absent balanced_plain simp: list_all_iff)
  have "balanced (1, 0, 0, 0) (join_with '', '' (map to_name ts))" if "ts \<noteq> []"
    using that printable_generic [OF 17(2)]
    by (intro balanced_sep) (auto simp: list_all_iff neutral_char_def balanced_no_function)
  then have "clear sep (0, 0, 0, 0) (''<'' @ join_with '', '' (map to_name ts) @ ''>'')" if "ts \<noteq> []"
    using that clear_wrap [of "CHR ''<''" "join_with '', '' (map to_name ts)" sep "CHR ''>''"] 17(3)
    by (auto simp: depth_step_def separator_def)
  with n show ?case by (auto simp: clear_append balanced_def)
next
  case (18 t)
  then have "clear sep (0, 0, 0, 0) (''<'' @ to_name t @ ''>'')"
    using clear_wrap [of "CHR ''<''" "to_name t" sep "CHR ''>''"]
    by (auto simp: depth_step_def separator_def balanced_no_function)
  moreover have "clear sep (0, 0, 0, 0) ''Optional''" using 18(3) by (intro clear_absent) (auto simp: separator_def)
  moreover have "balanced (0, 0, 0, 0) ''Optional''" by (rule balanced_neutral) (simp add: neutral_char_def)
  ultimately have "clear sep (0, 0, 0, 0) (''Optional'' @ ''<'' @ to_name t @ ''>'')"
    by (simp only: clear_append balanced_def)
  then show ?case by simp
next
  case (22 t)
  then have "clear sep (0, 0, 0, 0) (''<'' @ to_name t @ ''>'')"
    using clear_wrap [of "CHR ''<''" "to_name t" sep "CHR ''>''"]
    by (auto simp: depth_step_def separator_def balanced_no_function)
  moreover have "clear sep (0, 0, 0, 0) ''slice''" using 22(3) by (intro clear_absent) (auto simp: separator_def)
  moreover have "balanced (0, 0, 0, 0) ''slice''" by (rule balanced_neutral) (simp add: neutral_char_def)
  ultimately have "clear sep (0, 0, 0, 0) (''slice'' @ ''<'' @ to_name t @ ''>'')"
    by (simp only: clear_append balanced_def)
  then show ?case by simp
next
  case (20 t n)
  have "clear sep (0, 0, 0, 0) (to_name (fst (type_array_dims t)))"
    using 20 dims_printable [of "TyFixedArray t n"] by simp
  moreover have "balanced (0, 0, 0, 0) (to_name (fst (type_array_dims t)))"
    using 20(2) dims_printable [of "TyFixedArray t n"] balanced_no_function by simp
  moreover have "clear sep (0, 0, 0, 0) (concat (snd (type_array_dims (TyFixedArray t n))))"
    by (rule clear_dims) (use 20 dims_printable [of "TyFixedArray t n"] in simp_all)
  ultimately show ?case unfolding array_text array_base by (simp only: clear_append balanced_def)
next
  case (21 t)
  have "clear sep (0, 0, 0, 0) (to_name (fst (type_array_dims t)))"
    using 21 dims_printable [of "TyDynamicArray t"] by simp
  moreover have "balanced (0, 0, 0, 0) (to_name (fst (type_array_dims t)))"
    using 21(2) dims_printable [of "TyDynamicArray t"] balanced_no_function by simp
  moreover have "clear sep (0, 0, 0, 0) (concat (snd (type_array_dims (TyDynamicArray t))))"
    by (rule clear_dims) (use 21 dims_printable [of "TyDynamicArray t"] in simp_all)
  ultimately show ?case unfolding array_text array_base by (simp only: clear_append balanced_def)
next
  case (24 ps r)
  have b: "balanced (0, 0, 0, 1) (join_with '', '' (map to_name ps))"
    using 24 by (intro balanced_sep) (auto simp: list_all_iff neutral_char_def intro: balanced_printable)
  have "clear sep (0, 0, 0, 0) (''('' @ join_with '', '' (map to_name ps) @ '')'')"
    using clear_wrap [of "CHR ''(''" "join_with '', '' (map to_name ps)" sep "CHR '')''"] b 24(4)
    by (auto simp: depth_step_def separator_def)
  moreover have "balanced (0, 0, 0, 0) (''('' @ join_with '', '' (map to_name ps) @ '')'')"
    using balanced_wrap(4) [of 0 0 0 0] b by simp
  moreover have "clear sep (0, 0, 0, 0) '' => ''" using 24(4) by (intro clear_absent) (auto simp: separator_def)
  moreover note balanced_arrow [of 0 0 0] 24(2)
  ultimately have "clear sep (0, 0, 0, 0)
      ((''('' @ join_with '', '' (map to_name ps) @ '')'') @ '' => '' @ to_name r)"
    using 24(3,4) by (simp only: clear_append balanced_def printable.simps)
  then show ?case by simp
next
  case (25 ms)
  have "balanced (0, 1, 0, 0) ('' '' @ join_with ''; '' (map prop_text ms) @ '' '')"
    using 25 by (intro balanced_object_inner) (auto simp: list_all_iff intro: balanced_printable)
  then have "clear sep (0, 0, 0, 0) (CHR ''{'' # ('' '' @ join_with ''; '' (map prop_text ms) @ '' '') @ ''}'')"
    using 25(3) by (intro clear_wrap) (auto simp: depth_step_def separator_def simp del: append.simps)
  then show ?case by simp
qed (auto simp: separator_def depth_step_def Let_def)

end
