(* ===== verification/TypesRoundTrip.thy ===== *)
theory TypesRoundTrip
  imports TypesFacts
begin

text \<open>The parser of the textual form of types reads back every printable type.\<close>

section \<open>Generic string facts\<close>

lemma starts_with_single: "starts_with s [c] \<longleftrightarrow> s \<noteq> [] \<and> hd s = c"
  by (cases s) (auto simp: starts_with_def)

lemma ends_with_single: "ends_with s [c] \<longleftrightarrow> s \<noteq> [] \<and> last s = c"
  by (auto simp: ends_with_def starts_with_single hd_rev)

lemma trim_tight_spaces: "tight s \<Longrightarrow> trim ('' '' @ s @ '' '') = s" "tight s \<Longrightarrow> trim (s @ '' '') = s"
  "tight s \<Longrightarrow> trim (CHR '' '' # s) = s"
proof -
  assume s: "tight s"
  have e: "trim_end (s @ '' '') = trim_end s" by (simp add: trim_end_def is_whitespace_def)
  have "trim_start (s @ u) = s @ u" for u
    using s by (cases s) (auto simp: trim_start_def tight_def)
  from this [of "'' ''"] this [of "[]"] e show t: "trim (s @ '' '') = s"
    using tight_trim [OF s] by (simp add: trim_def)
  show "trim (CHR '' '' # s) = s" using s by (simp add: trim_space tight_trim)
  show "trim ('' '' @ s @ '' '') = s" using t by (simp add: trim_space)
qed

lemma tight_join: "ss \<noteq> [] \<Longrightarrow> list_all tight ss \<Longrightarrow> tight (join_with sep ss)"
  by (induction sep ss rule: join_with.induct) (auto simp: tight_def hd_append)

lemma starts_with_prefix:
  assumes "c \<notin> set n" "c \<notin> set m"
  shows "starts_with (n @ c # s) (m @ [c]) \<longleftrightarrow> n = m"
  using assms
proof (induction n arbitrary: m)
  case Nil
  then show ?case by (cases m) (auto simp: starts_with_def)
next
  case (Cons a n)
  then show ?case by (cases m) (auto simp: starts_with_def)
qed

lemma starts_with_absent: "c \<notin> set s \<Longrightarrow> c \<in> set p \<Longrightarrow> \<not> starts_with s p"
  unfolding starts_with_def by (metis in_set_takeD)

section \<open>Where the top-level searches fail or succeed\<close>

lemma no_equals_arrow: "CHR ''='' \<notin> set s \<Longrightarrow> find_arrow_loop i d s = None"
  by (induction s arbitrary: i d) auto

lemma find_arrow_above:
  "above m d s \<Longrightarrow> depth_le m d \<Longrightarrow> m \<noteq> (0, 0, 0, 0) \<Longrightarrow>
     find_arrow_loop i d (s @ t) = find_arrow_loop (i + length s) (depth_end d s) t"
proof (induction s arbitrary: i d)
  case (Cons c s)
  have "d \<noteq> (0, 0, 0, 0)" using Cons(3,4) by (cases m) (auto simp: depth_le_def)
  with Cons show ?case by simp
qed simp

lemma find_arrow_balanced:
  "balanced d s \<Longrightarrow> d \<noteq> (0, 0, 0, 0) \<Longrightarrow>
     find_arrow_loop i d (s @ t) = find_arrow_loop (i + length s) d t"
  using find_arrow_above [of d d s i t] by (simp add: balanced_def)

lemma no_angle_bounds: "CHR ''<'' \<notin> set s \<Longrightarrow> generic_bounds_loop i (0, b, k, p) opn s = None"
  by (induction s arbitrary: i b k p) (auto simp: depth_step_def)

lemma bounds_above:
  "above (1, 0, 0, 0) (Suc a, b, k, p) s \<Longrightarrow>
     generic_bounds_loop i (Suc a, b, k, p) opn (s @ t)
       = generic_bounds_loop (i + length s) (depth_end (Suc a, b, k, p) s) opn t"
proof (induction s arbitrary: i a b k p)
  case (Cons c s)
  consider "c = CHR ''<''" | "c = CHR ''>''" | "c \<noteq> CHR ''<''" "c \<noteq> CHR ''>''" by blast
  then show ?case
  proof cases
    case 1
    then show ?thesis using Cons by (simp add: depth_step_def)
  next
    case 2
    then obtain a' where "a = Suc a'" using Cons(2) by (cases a) (auto simp: depth_step_def depth_le_def)
    with 2 Cons show ?thesis by (simp add: depth_step_def)
  next
    case 3
    then have "fst (depth_step c (Suc a, b, k, p)) = Suc a" by (simp add: depth_step_def)
    then obtain b' k' p' where "depth_step c (Suc a, b, k, p) = (Suc a, b', k', p')"
      by (cases "depth_step c (Suc a, b, k, p)") auto
    with 3 Cons show ?thesis by simp
  qed
qed simp

lemma bounds_neutral:
  "list_all neutral_char n \<Longrightarrow> generic_bounds_loop i d opn (n @ t) = generic_bounds_loop (i + length n) d opn t"
  by (induction n arbitrary: i) (cases d; auto simp: neutral_step neutral_char_def)+

lemma generic_bounds_name:
  assumes "list_all is_ident_char n" "balanced (1, 0, 0, 0) s"
  shows "find_top_level_generic_bounds (n @ ''<'' @ s @ ''>'') = Some (length n, length n + 1 + length s)"
proof -
  have "above (1, 0, 0, 0) (Suc 0, 0, 0, 0) s" "depth_end (Suc 0, 0, 0, 0) s = (Suc 0, 0, 0, 0)"
    using assms(2) by (simp_all add: balanced_def)
  with bounds_above [OF this(1), of _ "Some (length n)" "''>''"] show ?thesis
    using bounds_neutral [OF plain_neutral [OF assms(1)], of 0 "(0, 0, 0, 0)" None "''<'' @ s @ ''>''"]
    by (simp add: find_top_level_generic_bounds_def)
qed

section \<open>One unfolding of the parser\<close>

text \<open>\<open>from_name\<close> on a trimmed text that is no union.\<close>

lemma from_name_step:
  assumes "trim n = n" "clear (CHR ''|'') (0, 0, 0, 0) n"
  shows "from_name n =
     (if starts_with n ''{'' \<and> ends_with n ''}'' then
        TyObject (map (\<lambda>(k, opt, t). (k, opt, from_name t)) (object_props (trim (slice 1 (length n - 1) n))))
      else case function_parts n of
          Some (ps, r) \<Rightarrow> TyFunction (map from_name ps) (from_name r)
        | None \<Rightarrow> case array_parts n of
          Some (base, dims) \<Rightarrow> (case wrap_dims (from_name base) dims of Some t \<Rightarrow> t | None \<Rightarrow> TyClass n [])
        | None \<Rightarrow>
          if starts_with n ''slice<'' \<and> ends_with n ''>'' then TySlice (from_name (slice 6 (length n - 1) n))
          else if starts_with n ''Optional<'' \<and> ends_with n ''>''
          then TyOptional (from_name (slice 9 (length n - 1) n))
          else case map_of builtin_types n of
              Some t \<Rightarrow> t
            | None \<Rightarrow> (case generic_parts n of
                Some (m, args) \<Rightarrow> TyClass m (map from_name args)
              | None \<Rightarrow> TyClass n []))"
  using assms by (subst from_name.simps) (simp add: split_clear)

lemma from_name_word:
  assumes "plain_name n"
  shows "from_name n = (case map_of builtin_types n of Some t \<Rightarrow> t | None \<Rightarrow> TyClass n [])"
proof -
  have ident: "c \<in> set n \<Longrightarrow> is_ident_char c" for c using assms by (auto simp: plain_name_def list_all_iff)
  have abs: "CHR ''='' \<notin> set n" "CHR ''<'' \<notin> set n" "CHR '']'' \<notin> set n" "CHR ''{'' \<notin> set n" "CHR ''|'' \<notin> set n"
    using ident [of "CHR ''=''"] ident [of "CHR ''<''"] ident [of "CHR '']''"] ident [of "CHR ''{''"]
      ident [of "CHR ''|''"]
    by (auto simp: str_simps)
  have ne: "n \<noteq> []" using assms by (simp add: plain_name_def)
  have "\<not> starts_with n ''{''" "\<not> ends_with n '']''"
    using abs hd_in_set [OF ne] last_in_set [OF ne] by (metis starts_with_single, metis ends_with_single)
  moreover have "\<not> starts_with n ''slice<''" "\<not> starts_with n ''Optional<''"
    using abs by (auto dest!: starts_with_absent [of "CHR ''<''" n])
  moreover have "function_parts n = None"
    using abs by (simp add: function_parts_def find_top_level_arrow_def no_equals_arrow)
  moreover have "generic_parts n = None"
    using abs by (simp add: generic_parts_def find_top_level_generic_bounds_def no_angle_bounds)
  moreover have "trim n = n" using plain_tight [OF assms] tight_trim by blast
  moreover have "clear (CHR ''|'') (0, 0, 0, 0) n" by (rule clear_absent [OF abs(5)])
  ultimately show ?thesis
    by (subst from_name_step) (simp_all add: array_parts_def split: option.splits)
qed

text \<open>An angle-bracketed type: what \<open>from_name\<close> does with its argument text.\<close>

lemma from_name_angle:
  assumes n: "plain_name n" and s: "balanced (1, 0, 0, 0) s" "list_all name_char s" "CHR ''='' \<notin> set s"
  shows "from_name (n @ ''<'' @ s @ ''>'') =
     (if n = ''slice'' then TySlice (from_name s) else if n = ''Optional'' then TyOptional (from_name s)
      else TyClass n (map from_name (filter (\<lambda>a. a \<noteq> []) (map trim (split_top_level s (CHR '',''))))))"
proof -
  define m where "m = n @ ''<'' @ s @ ''>''"
  have ident: "c \<in> set n \<Longrightarrow> is_ident_char c" for c using n by (auto simp: plain_name_def list_all_iff)
  have abs: "CHR ''='' \<notin> set m" "CHR ''<'' \<notin> set n" "CHR ''|'' \<notin> set m"
    using ident [of "CHR ''=''"] ident [of "CHR ''<''"] ident [of "CHR ''|''"] s(2,3)
    by (auto simp: m_def str_simps list_all_iff name_char_def)
  have tn: "tight n" "word_start n" using plain_tight [OF n] by auto
  have hd: "m \<noteq> []" "hd m = hd n" "last m = CHR ''>''" using tn by (auto simp: m_def tight_def hd_append)
  have "tight m" using tn by (simp add: m_def tight_def hd_append is_whitespace_def)
  then have t: "trim m = m" by (rule tight_trim)
  have "\<not> starts_with m ''{''"
    using tn hd by (auto simp: starts_with_single word_start_def str_simps)
  moreover have "function_parts m = None"
    using abs by (simp add: function_parts_def find_top_level_arrow_def no_equals_arrow)
  moreover have "array_parts m = None" using hd by (simp add: array_parts_def ends_with_single)
  moreover have "starts_with m ''slice<'' \<longleftrightarrow> n = ''slice''" "starts_with m ''Optional<'' \<longleftrightarrow> n = ''Optional''"
    using starts_with_prefix [OF abs(2), of "''slice''" "s @ ''>''"]
      starts_with_prefix [OF abs(2), of "''Optional''" "s @ ''>''"] by (simp_all add: m_def)
  moreover have "ends_with m ''>''" using hd by (simp add: ends_with_single)
  moreover have "map_of builtin_types m = None"
  proof (cases "map_of builtin_types m")
    case (Some t)
    then have "(m, t) \<in> set builtin_types" by (rule map_of_SomeD)
    moreover have "\<forall>x \<in> set builtin_types. CHR ''<'' \<notin> set (fst x)" by (simp add: builtin_types_def)
    ultimately have "CHR ''<'' \<notin> set m" by force
    then show ?thesis by (simp add: m_def)
  qed
  moreover have "generic_parts m = Some (n, filter (\<lambda>a. a \<noteq> []) (map trim (split_top_level s (CHR '',''))))"
    using generic_bounds_name [of n s] n s(1) tight_trim [OF tn(1)]
    by (simp add: generic_parts_def m_def plain_name_def slice_def)
  moreover have "n = ''slice'' \<Longrightarrow> slice 6 (length m - 1) m = s" "n = ''Optional'' \<Longrightarrow> slice 9 (length m - 1) m = s"
    by (simp_all add: m_def slice_def)
  ultimately have "from_name m =
     (if n = ''slice'' then TySlice (from_name s) else if n = ''Optional'' then TyOptional (from_name s)
      else TyClass n (map from_name (filter (\<lambda>a. a \<noteq> []) (map trim (split_top_level s (CHR '',''))))))"
    using abs t by (subst from_name_step) (simp_all add: clear_absent)
  then show ?thesis by (simp add: m_def)
qed

section \<open>Arrays\<close>

text \<open>The contents of brackets: nothing, or a size.\<close>

definition size_text :: "string \<Rightarrow> bool" where
  "size_text u \<longleftrightarrow> u = [] \<or> (\<exists>n. u = nat_to_string n \<and> n < 2 ^ 64)"

abbreviation bracketed :: "string \<Rightarrow> string" where
  "bracketed u \<equiv> ''['' @ u @ '']''"

lemma dims_contents: "dims_text ds \<Longrightarrow> \<exists>us. ds = map bracketed us \<and> list_all size_text us"
proof (induction ds)
  case (Cons x ds)
  then obtain u where u: "x = bracketed u" "size_text u" by (auto simp: dims_text_def size_text_def)
  from Cons obtain us where "ds = map bracketed us" "list_all size_text us" by (auto simp: dims_text_def)
  with u show ?case by (intro exI [of _ "u # us"]) simp
qed simp

lemma size_text_chars: "size_text u \<Longrightarrow> list_all is_ident_char u"
  using digits_ident by (auto simp: size_text_def)

lemma open_index_skip:
  "CHR ''['' \<notin> set u \<Longrightarrow> CHR '']'' \<notin> set u \<Longrightarrow>
     open_index (s @ u @ r) (length s + length u) d = open_index (s @ u @ r) (length s) d"
proof (induction u arbitrary: r rule: rev_induct)
  case (snoc c u)
  then have "c \<noteq> CHR ''[''" "c \<noteq> CHR '']''" by auto
  with snoc show ?case using snoc(1) [of "c # r"] by (simp add: nth_append)
qed simp

lemma open_index_bracketed:
  assumes "list_all is_ident_char u"
  shows "open_index (s @ bracketed u @ r) (length s + length u + 2) 0 = Some (length s)"
proof -
  have nb: "CHR ''['' \<notin> set u" "CHR '']'' \<notin> set u" using assms by (auto simp: list_all_iff str_simps)
  have "open_index (s @ bracketed u @ r) (length s + length u + 2) 0
      = open_index ((s @ ''['') @ u @ ('']'' @ r)) (length (s @ ''['') + length u) 1"
    by (simp add: nth_append)
  also have "\<dots> = open_index ((s @ ''['') @ u @ ('']'' @ r)) (length (s @ ''['')) 1"
    by (rule open_index_skip [OF nb])
  also have "\<dots> = Some (length s)" by (simp add: nth_append)
  finally show ?thesis .
qed

lemma bracket_loop_dims:
  assumes "s \<noteq> []" "last s \<noteq> CHR '']''" "list_all size_text us"
  shows "bracket_loop (s @ concat (map bracketed us) @ r) (length (s @ concat (map bracketed us)))
    = (length s, rev us)"
  using assms(3)
proof (induction us arbitrary: r rule: rev_induct)
  case Nil
  have "(s @ r) ! (length s - 1) = last s" using assms(1) by (simp add: nth_append last_conv_nth)
  then show ?case using assms by (subst bracket_loop.simps) simp
next
  case (snoc u us)
  define s' where "s' = s @ concat (map bracketed us)"
  have u: "list_all is_ident_char u" using snoc(2) size_text_chars by simp
  have o: "open_index (s' @ bracketed u @ r) (length s' + length u + 2) 0 = Some (length s')"
    by (rule open_index_bracketed [OF u])
  have sl: "slice (length s' + 1) (length s' + length u + 2 - 1) (s' @ bracketed u @ r) = u"
    by (simp add: slice_def)
  have l: "(s' @ bracketed u @ r) ! (length s' + length u + 2 - 1) = CHR '']''"
    by (simp add: nth_append)
  have ih: "bracket_loop (s' @ bracketed u @ r) (length s') = (length s, rev us)"
    using snoc(1) [of "bracketed u @ r"] snoc(2) by (simp add: s'_def)
  have "bracket_loop (s' @ bracketed u @ r) (length s' + length u + 2) = (length s, u # rev us)"
    using o l sl ih by (subst bracket_loop.simps) (simp add: apsnd_def map_prod_def)
  then show ?case by (simp add: s'_def add.assoc)
qed

lemma wrap_dims_text:
  "snd (type_array_dims t) = map bracketed us \<Longrightarrow> printable t \<Longrightarrow>
     wrap_dims (fst (type_array_dims t)) (rev us @ rest) = wrap_dims t rest"
proof (induction t arbitrary: us rest rule: type_array_dims.induct)
  case (1 t n)
  then obtain us' where us: "us = nat_to_string n # us'" "snd (type_array_dims t) = map bracketed us'"
    by (cases us) (auto simp: apsnd_def map_prod_def split_beta)
  then show ?case using 1(1) [OF us(2)] 1(3) parse_usize_to_string [of n] by simp
next
  case (2 t)
  then obtain us' where us: "us = [] # us'" "snd (type_array_dims t) = map bracketed us'"
    by (cases us) (auto simp: apsnd_def map_prod_def split_beta)
  then show ?case using 2(1) [OF us(2)] 2(3) by simp
qed (auto simp: apsnd_def map_prod_def)

lemma base_not_array: "fst (type_array_dims t) = b \<Longrightarrow> (\<forall>t' n. b \<noteq> TyFixedArray t' n) \<and> (\<forall>t'. b \<noteq> TyDynamicArray t')"
  by (induction t arbitrary: b rule: type_array_dims.induct) (auto simp: apsnd_def map_prod_def split_beta)

lemma base_last:
  assumes "printable b" "no_function b" "\<forall>t n. b \<noteq> TyFixedArray t n" "\<forall>t. b \<noteq> TyDynamicArray t"
  shows "last (to_name b) \<noteq> CHR '']''"
proof (cases b)
  case (TyClass n ts)
  have "is_ident_char (last n)" if "plain_name n"
    using that last_in_set [of n] by (auto simp: plain_name_def list_all_iff)
  with TyClass assms(1) show ?thesis by (auto simp: class_name_def str_simps split: if_splits)
qed (use assms in auto)

text \<open>Any text with dimensions: the base is parsed and wrapped.\<close>

lemma from_name_array:
  assumes s: "tight s" "last s \<noteq> CHR '']''" "CHR ''='' \<notin> set s" "clear (CHR ''|'') (0, 0, 0, 0) (s @ concat ds)"
    and ds: "ds = map bracketed us" "list_all size_text us" "us \<noteq> []"
    and w: "wrap_dims (from_name s) (rev us) = Some t"
  shows "from_name (s @ concat ds) = t"
proof -
  define m where "m = s @ concat ds"
  have dt: "dims_text ds" using ds by (auto simp: dims_text_def size_text_def list_all_iff)
  have m: "tight m" "last m = CHR '']''" "m \<noteq> []"
    using tight_array [OF s(1) dt] ds by (auto simp: m_def tight_def)
  have "array_parts m = Some (s, rev us)"
    using bracket_loop_dims [of s us "[]"] s(1,2) ds m
    by (simp add: array_parts_def ends_with_single m_def tight_def)
  moreover have "function_parts m = None"
    using s(3) dims_no_eq [OF dt] by (simp add: function_parts_def find_top_level_arrow_def no_equals_arrow m_def)
  moreover have "\<not> ends_with m ''}''" using m by (simp add: ends_with_single)
  ultimately show ?thesis
    using w from_name_step [OF tight_trim [OF m(1)]] s(4) by (simp add: m_def)
qed

section \<open>Functions\<close>

lemma item_name: "printable t \<Longrightarrow> separator sep \<Longrightarrow> item sep (to_name t)"
  by (simp add: item_def balanced_printable clear_name)

lemma split_names:
  assumes "list_all printable ts" "ts \<noteq> []"
  shows "split_top_level (join_with '', '' (map to_name ts)) (CHR '','') = map to_name ts"
proof -
  have "list_all (item (CHR '','')) (map to_name ts)"
    using assms(1) item_name by (auto simp: list_all_iff separator_def)
  from split_loop_join [OF this, of "[]"] assms(2) show ?thesis
    by (simp add: split_top_level_def neutral_char_def)
qed

lemma param_text_name: "printable t \<Longrightarrow> param_text (to_name t) = to_name t"
  using clear_name [of t "CHR '':''"]
  by (simp add: param_text_def find_top_level_char_def find_char_clear separator_def)

lemma tight_names: "list_all printable ts \<Longrightarrow> ts \<noteq> [] \<Longrightarrow> tight (join_with sep (map to_name ts))"
  by (rule tight_join) (auto simp: list_all_iff tight_name)

lemma function_parts_name:
  assumes "list_all printable ps" "printable r"
  shows "function_parts (to_name (TyFunction ps r)) = Some (map to_name ps, to_name r)"
proof -
  define P where "P = join_with '', '' (map to_name ps)"
  have n: "to_name (TyFunction ps r) = ''('' @ P @ '') => '' @ to_name r" by (simp add: P_def)
  have b: "balanced (0, 0, 0, 1) P"
    unfolding P_def using assms by (intro balanced_sep) (auto simp: list_all_iff neutral_char_def intro: balanced_printable)
  have "find_arrow_loop 1 (0, 0, 0, 1) (P @ '') => '' @ to_name r)
      = find_arrow_loop (1 + length P) (0, 0, 0, 1) ('') => '' @ to_name r)"
    by (rule find_arrow_balanced [OF b]) simp
  then have a: "find_top_level_arrow (''('' @ P @ '') => '' @ to_name r) = Some (length P + 3)"
    by (simp add: find_top_level_arrow_def depth_step_def)
  have "tight (''('' @ P @ '')'')" by (simp add: tight_def is_whitespace_def)
  moreover have "take (length P + 3) (''('' @ P @ '') => '' @ to_name r) = (''('' @ P @ '')'') @ '' ''"
    by (simp add: numeral_3_eq_3)
  ultimately have t1: "trim (take (length P + 3) (''('' @ P @ '') => '' @ to_name r)) = ''('' @ P @ '')''"
    by (metis trim_tight_spaces(2))
  have t2: "trim (drop (length P + 3 + 2) (''('' @ P @ '') => '' @ to_name r)) = to_name r"
  proof -
    have "drop (length P + 3 + 2) (''('' @ P @ '') => '' @ to_name r) = CHR '' '' # to_name r"
      by (simp add: eval_nat_numeral)
    then show ?thesis using trim_tight_spaces(3) [OF tight_name [OF assms(2)]] by simp
  qed
  have t3: "trim (slice 1 (length (''('' @ P @ '')'') - 1) (''('' @ P @ '')'')) = P"
    using tight_trim [OF tight_names [OF assms(1)]] by (cases "ps = []") (simp_all add: slice_def P_def)
  have t4: "P = [] \<longleftrightarrow> ps = []"
    using tight_names [OF assms(1), of "'', ''"] by (cases "ps = []") (auto simp: P_def tight_def)
  have t5: "ps \<noteq> [] \<Longrightarrow> map param_text (filter (\<lambda>p. trim p \<noteq> []) (split_top_level P (CHR '',''))) = map to_name ps"
    using assms(1) unfolding P_def
    by (subst split_names) (auto simp: list_all_iff filter_True param_text_name)
  show ?thesis
    unfolding n function_parts_def a option.case Let_def t1 t2 t3
    using t4 t5 assms(2) by (simp add: starts_with_single ends_with_single)
qed

section \<open>Objects\<close>

definition quote_free :: "string \<Rightarrow> bool" where
  "quote_free s \<longleftrightarrow> CHR 0x22 \<notin> set s \<and> quote_char \<notin> set s"

lemma object_pieces_clear:
  assumes "clear (CHR '';'') d s" "clear (CHR '','') d s" "quote_free s"
  shows "object_pieces False None d cur (s @ t) = object_pieces False None (depth_end d s) (cur @ s) t"
  using assms
proof (induction s arbitrary: d cur)
  case (Cons c s)
  have "depth_step (CHR '';'') d = d" "depth_step (CHR '','') d = d"
    by (simp_all add: neutral_step neutral_char_def)
  then have n: "\<not> ((c = CHR '';'' \<or> c = CHR '','') \<and> d = (0, 0, 0, 0))"
    using Cons(2,3) by (auto simp: Let_def)
  have q: "\<not> (c = CHR 0x22 \<or> c = quote_char)" using Cons(4) by (auto simp: quote_free_def)
  have "object_pieces False None d cur ((c # s) @ t) = object_pieces False None (depth_step c d) (cur @ [c]) (s @ t)"
    using n q by (auto simp del: split_paired_All)
  also have "\<dots> = object_pieces False None (depth_end (depth_step c d) s) ((cur @ [c]) @ s) t"
    using Cons by (intro Cons(1)) (auto simp: Let_def quote_free_def)
  finally show ?case by simp
qed simp

text \<open>A property as the splitter sees it.\<close>

definition piece :: "string \<Rightarrow> bool" where
  "piece s \<longleftrightarrow> balanced (0, 0, 0, 0) s \<and> clear (CHR '';'') (0, 0, 0, 0) s \<and> clear (CHR '','') (0, 0, 0, 0) s \<and>
     quote_free s \<and> tight s"

lemma object_pieces_join:
  assumes "list_all piece ss" "ss \<noteq> []" "cur \<in> {[], '' ''}"
  shows "object_pieces False None (0, 0, 0, 0) cur (join_with ''; '' ss) = (cur @ hd ss) # map ((@) '' '') (tl ss)"
  using assms
proof (induction "''; ''" ss arbitrary: cur rule: join_with.induct)
  case (2 x)
  then have "trim (cur @ x) \<noteq> []" by (auto simp: piece_def trim_tight_spaces tight_trim) (simp_all add: tight_def)
  with 2 object_pieces_clear [of "(0, 0, 0, 0)" x cur "[]"] show ?case
    by (simp add: piece_def balanced_def)
next
  case (3 x y ys)
  have x: "piece x" using 3(2) by simp
  have "object_pieces False None (0, 0, 0, 0) cur (x @ ''; '' @ join_with ''; '' (y # ys))
      = (cur @ x) # object_pieces False None (0, 0, 0, 0) '' '' (join_with ''; '' (y # ys))"
    using x object_pieces_clear [of "(0, 0, 0, 0)" x cur] by (simp add: piece_def balanced_def depth_step_def)
  moreover have "object_pieces False None (0, 0, 0, 0) '' '' (join_with ''; '' (y # ys)) = ('' '' @ y) # map ((@) '' '') ys"
    using 3(1) [of "'' ''"] 3(2) by simp
  ultimately show ?case by (simp only: join_with.simps list.sel list.map)
qed simp

lemma find_from_first: "c \<notin> set s \<Longrightarrow> find_from i (\<lambda>d. d = c) (s @ c # t) = Some (i + length s)"
  by (induction s arbitrary: i) auto

lemma trim_matches_absent: "c \<notin> set s \<Longrightarrow> trim_matches c s = s"
proof -
  assume c: "c \<notin> set s"
  have d: "dropWhile (\<lambda>d. d = c) u = u" if "c \<notin> set u" for u
    using that by (cases u) auto
  have "dropWhile (\<lambda>d. d = c) s = s" "dropWhile (\<lambda>d. d = c) (rev s) = rev s"
    using c by (simp_all add: d)
  then show ?thesis by (simp add: trim_matches_def)
qed

lemma ident_trim: "list_all is_ident_char k \<Longrightarrow> trim k = k"
  using plain_tight [of k] tight_trim by (cases "k = []") (auto simp: plain_name_def)

lemma flush_prop_text:
  assumes k: "list_all is_ident_char k" and t: "printable t" and c: "cur \<in> {[], '' ''}"
  shows "flush_prop (cur @ prop_text (k, opt, t)) = Some (k, opt, to_name t)"
proof -
  define o' where "o' = (if opt then ''?'' else [])"
  define p where "p = k @ o' @ '': '' @ to_name t"
  have pt: "prop_text (k, opt, t) = p" by (simp add: p_def o'_def safe_key_plain [OF k])
  have ident: "c \<in> set k \<Longrightarrow> is_ident_char c" for c using k by (auto simp: list_all_iff)
  have abs: "CHR '':'' \<notin> set k" "CHR 0x22 \<notin> set k" "quote_char \<notin> set k" "CHR ''?'' \<notin> set k"
    using ident [of "CHR '':''"] ident [of "CHR 0x22"] ident [of quote_char] ident [of "CHR ''?''"]
    by (auto simp: str_simps)
  have "tight p"
    using tight_name [OF t] k
    by (cases k) (auto simp: p_def o'_def tight_def is_whitespace_def ident_not_space dest: ident_not_space)
  then have tp: "trim (cur @ p) = p" "p \<noteq> []"
    using c by (auto simp: trim_tight_spaces tight_trim) (simp_all add: tight_def)
  have col: "find_char (CHR '':'') p = Some (length k + length o')"
    using find_from_first [of "CHR '':''" "k @ o'" 0 "'' '' @ to_name t"] abs by (simp add: p_def o'_def)
  have "hd p \<in> set k \<union> set ''?:''"
    by (cases k; cases opt) (simp_all add: p_def o'_def)
  then have "hd p \<noteq> CHR 0x22" "hd p \<noteq> quote_char" using abs(2,3) by auto
  then have cp: "colon_position p = Some (length k + length o')"
    using col by (simp add: colon_position_def starts_with_single)
  have raw: "trim (take (length k + length o') p) = k @ o'"
  proof (cases opt)
    case True
    have "tight (k @ ''?'')" using k by (cases k) (auto simp: tight_def is_whitespace_def dest: ident_not_space)
    with True show ?thesis by (simp add: p_def o'_def tight_trim)
  next
    case False
    then show ?thesis by (simp add: p_def o'_def ident_trim [OF k])
  qed
  have io: "ends_with (k @ o') ''?'' \<longleftrightarrow> opt"
    using abs by (cases k rule: rev_cases) (auto simp: o'_def ends_with_single)
  have raw': "(if opt then trim (take (length (k @ o') - 1) (k @ o')) else k @ o') = k"
    by (simp add: o'_def ident_trim [OF k])
  have ty: "trim (drop (length k + length o' + 1) p) = to_name t"
    using trim_tight_spaces(3) [OF tight_name [OF t]] by (simp add: p_def)
  show ?thesis
    unfolding flush_prop_def Let_def pt tp(1) cp option.case raw io raw' ty
    using tp(2) abs by (simp add: trim_matches_absent)
qed

lemma prop_piece:
  assumes k: "list_all is_ident_char k" and t: "printable t"
  shows "piece (prop_text (k, opt, t))"
proof -
  define u where "u = k @ (if opt then ''?'' else []) @ '': ''"
  have pt: "prop_text (k, opt, t) = u @ to_name t" by (simp add: u_def safe_key_plain [OF k])
  have ident: "c \<in> set k \<Longrightarrow> is_ident_char c" for c using k by (auto simp: list_all_iff)
  have u: "CHR '';'' \<notin> set u" "CHR '','' \<notin> set u" "quote_free u"
    using ident [of "CHR '';''"] ident [of "CHR '',''"] ident [of "CHR 0x22"] ident [of quote_char]
    by (auto simp: u_def quote_free_def str_simps)
  have "quote_free (to_name t)"
    using name_chars [OF t] by (auto simp: quote_free_def list_all_iff name_char_def str_simps)
  with u have q: "quote_free (u @ to_name t)" by (simp add: quote_free_def)
  have un: "list_all neutral_char u" using plain_neutral [OF k] by (simp add: u_def neutral_char_def)
  have b: "balanced (0, 0, 0, 0) u" by (rule balanced_neutral [OF un])
  have c: "clear sep (0, 0, 0, 0) (u @ to_name t)" if "sep \<in> {CHR '';'', CHR '',''}" for sep
    using that u b clear_name [OF t, of sep] by (auto simp: clear_append clear_absent balanced_def separator_def)
  have "\<not> is_whitespace (hd u)"
    using k by (cases k; cases opt) (auto simp: u_def is_whitespace_def dest: ident_not_space)
  moreover have "u \<noteq> []" by (simp add: u_def)
  ultimately have "tight (u @ to_name t)" using tight_name [OF t] by (simp add: tight_def)
  with q c b balanced_printable [OF t, of 0 0 0] show ?thesis
    unfolding pt piece_def by (auto intro: balanced_append)
qed

lemma map_filter_Some: "xs = zs \<Longrightarrow> map f zs = map Some ys \<Longrightarrow> List.map_filter f xs = ys"
  by (induction zs arbitrary: xs ys) (auto simp: List.map_filter_simps)

lemma object_props_text:
  assumes "list_all (\<lambda>(k, opt, t). list_all is_ident_char k \<and> printable t) ms"
  shows "object_props (join_with ''; '' (map prop_text ms)) = map (\<lambda>(k, opt, t). (k, opt, to_name t)) ms"
proof (cases ms)
  case Nil
  then show ?thesis by (simp add: object_props_def List.map_filter_simps)
next
  case (Cons m ms')
  have pc: "list_all piece (map prop_text ms)" using assms prop_piece by (auto simp: list_all_iff)
  have f: "flush_prop (cur @ prop_text x) = Some (case x of (k, opt, t) \<Rightarrow> (k, opt, to_name t))"
    if "x \<in> set ms" "cur \<in> {[], '' ''}" for x cur
  proof -
    obtain k opt t where x: "x = (k, opt, t)" by (cases x)
    show ?thesis using flush_prop_text [of k t cur opt] assms that unfolding x by (auto simp: list_all_iff)
  qed
  have "object_pieces False None (0, 0, 0, 0) [] (join_with ''; '' (map prop_text ms))
      = ([] @ prop_text m) # map (\<lambda>x. '' '' @ prop_text x) ms'"
    using object_pieces_join [OF pc, of "[]"] Cons by simp
  moreover have "map flush_prop (([] @ prop_text m) # map (\<lambda>x. '' '' @ prop_text x) ms')
      = map Some (map (\<lambda>(k, opt, t). (k, opt, to_name t)) ms)"
    using f [of _ "[]"] f [of _ "'' ''"] Cons by simp
  ultimately show ?thesis
    unfolding object_props_def by (rule map_filter_Some)
qed

lemma from_name_object:
  assumes "printable (TyObject ms)"
  shows "from_name (to_name (TyObject ms)) = TyObject (map (\<lambda>(k, opt, t). (k, opt, from_name (to_name t))) ms)"
proof -
  define J where "J = join_with ''; '' (map prop_text ms)"
  have n: "to_name (TyObject ms) = ''{ '' @ J @ '' }''" by (simp add: J_def)
  have ms: "list_all (\<lambda>(k, opt, t). list_all is_ident_char k \<and> printable t) ms" using assms by simp
  have "trim (slice 1 (length (''{ '' @ J @ '' }'') - 1) (''{ '' @ J @ '' }'')) = trim ('' '' @ J @ '' '')"
    by (simp add: slice_def)
  also have "\<dots> = J"
  proof (cases "ms = []")
    case True
    then show ?thesis by (simp add: J_def trim_def trim_start_def trim_end_def is_whitespace_def)
  next
    case False
    have "list_all tight (map prop_text ms)"
      using ms prop_piece by (fastforce simp: list_all_iff piece_def simp del: append.simps)
    with False have "tight J" unfolding J_def by (intro tight_join) simp_all
    then show ?thesis by (rule trim_tight_spaces(1))
  qed
  finally have inner: "object_props (trim (slice 1 (length (''{ '' @ J @ '' }'') - 1) (''{ '' @ J @ '' }'')))
      = map (\<lambda>(k, opt, t). (k, opt, to_name t)) ms"
    using object_props_text [OF ms] by (simp add: J_def)
  have "from_name (to_name (TyObject ms)) = TyObject (map (\<lambda>(k, opt, t). (k, opt, from_name t))
      (map (\<lambda>(k, opt, t). (k, opt, to_name t)) ms))"
    unfolding inner [symmetric] n [symmetric]
    using assms clear_name [OF assms, of "CHR ''|''"]
    by (subst from_name_step) (simp_all add: separator_def starts_with_single ends_with_single del: to_name.simps, simp_all add: n)
  then show ?thesis by (simp add: comp_def split_beta)
qed

section \<open>The round trip\<close>

lemma from_name_names:
  assumes "list_all (\<lambda>t. printable t \<and> no_function t) ts" "ts \<noteq> []"
  shows "filter (\<lambda>a. a \<noteq> []) (map trim (split_top_level (join_with '', '' (map to_name ts)) (CHR '',''))) = map to_name ts"
proof -
  have p: "list_all printable ts" using assms by (simp add: list_all_iff)
  then have "map trim (map to_name ts) = map to_name ts" by (simp add: list_all_iff)
  with p show ?thesis by (simp add: split_names [OF p assms(2)] list_all_iff filter_True)
qed

lemma angle_text:
  assumes "list_all (\<lambda>t. printable t \<and> no_function t) ts" "ts \<noteq> []"
  defines "s \<equiv> join_with '', '' (map to_name ts)"
  shows "balanced (1, 0, 0, 0) s" "list_all name_char s" "CHR ''='' \<notin> set s"
proof -
  show "balanced (1, 0, 0, 0) s" unfolding s_def using assms(1)
    by (intro balanced_sep) (auto simp: list_all_iff neutral_char_def balanced_no_function)
  show "list_all name_char s" unfolding s_def using assms(1) name_chars
    by (intro name_char_join) (auto simp: list_all_iff)
  show "CHR ''='' \<notin> set s" unfolding s_def using assms(1) no_arrow by (auto simp: list_all_iff dest!: in_join)
qed

lemma from_name_dims:
  assumes p: "printable t" "no_function t" and ih: "from_name (to_name b) = b"
    and b: "b = fst (type_array_dims t)" "snd (type_array_dims t) \<noteq> []"
  shows "from_name (to_name b @ concat (snd (type_array_dims t))) = t"
proof -
  note d = dims_printable [OF p]
  obtain us where us: "snd (type_array_dims t) = map bracketed us" "list_all size_text us"
    using dims_contents d by blast
  have pb: "printable b" "no_function b" using d b by simp_all
  have "clear (CHR ''|'') (0, 0, 0, 0) (to_name b @ concat (snd (type_array_dims t)))"
    using clear_name [OF pb(1), of "CHR ''|''"] clear_dims [of "snd (type_array_dims t)" "CHR ''|''"] d
      balanced_printable [OF pb(1), of 0 0 0]
    by (simp add: clear_append separator_def balanced_def)
  moreover have "wrap_dims (from_name (to_name b)) (rev us) = Some t"
    using wrap_dims_text [OF us(1) p(1), of "[]"] ih b by simp
  ultimately show ?thesis
    using from_name_array [of "to_name b" "snd (type_array_dims t)" us t] tight_name [OF pb(1)] us b
      base_last [OF pb] base_not_array [OF b(1) [symmetric]] no_arrow [OF pb] by auto
qed

text \<open>
  Property C3: the textual form of types is unambiguous: for every printable type, \<open>from_name\<close>
  reads what \<open>to_name\<close> prints back as the same type.
\<close>

theorem from_name_to_name:
  assumes "printable t"
  shows "from_name (to_name t) = t"
  using assms
proof (induction t rule: to_name.induct)
  case (17 n ts)
  show ?case
  proof (cases "ts = []")
    case True
    with 17 show ?thesis by (simp add: class_name_def from_name_word)
  next
    case False
    then have a: "plain_name n" "n \<noteq> ''slice''" "n \<noteq> ''Optional''" "list_all (\<lambda>t. printable t \<and> no_function t) ts"
      using 17(2) by auto
    have "map (from_name \<circ> to_name) ts = ts"
      using 17(1) [OF False] a(4) by (simp add: list_all_iff map_idI)
    then show ?thesis
      using from_name_angle [OF a(1) angle_text [OF a(4) False]] from_name_names [OF a(4) False] a(2,3) False
      by simp
  qed
next
  case (18 t)
  have "plain_name ''Optional''" by (simp add: plain_name_def str_simps)
  moreover have "list_all (\<lambda>t. printable t \<and> no_function t) [t]" using 18(2) by simp
  ultimately show ?case using from_name_angle [OF _ angle_text [of "[t]"], of "''Optional''"] 18 by simp
next
  case (20 t n)
  have "from_name (to_name (fst (type_array_dims t))) = fst (type_array_dims t)"
    using 20 dims_printable [of "TyFixedArray t n"] by simp
  then show ?case unfolding array_text array_base
    by (rule from_name_dims [rotated 2]) (use 20(2) array_dims_nonempty in simp_all)
next
  case (21 t)
  have "from_name (to_name (fst (type_array_dims t))) = fst (type_array_dims t)"
    using 21 dims_printable [of "TyDynamicArray t"] by simp
  then show ?case unfolding array_text array_base
    by (rule from_name_dims [rotated 2]) (use 21(2) array_dims_nonempty in simp_all)
next
  case (22 t)
  have "plain_name ''slice''" by (simp add: plain_name_def str_simps)
  moreover have "list_all (\<lambda>t. printable t \<and> no_function t) [t]" using 22(2) by simp
  ultimately show ?case using from_name_angle [OF _ angle_text [of "[t]"], of "''slice''"] 22 by simp
next
  case (24 ps r)
  then have p: "list_all printable ps" "printable r" by simp_all
  have "map (from_name \<circ> to_name) ps = ps" using 24(1) p(1) by (simp add: list_all_iff map_idI)
  moreover have "from_name (to_name r) = r" using 24(2) p(2) by simp
  moreover have "\<not> starts_with (to_name (TyFunction ps r)) ''{''" by (simp add: starts_with_def)
  ultimately show ?case
    using clear_name [OF 24(3), of "CHR ''|''"] function_parts_name [OF p]
    by (subst from_name_step) (simp_all add: separator_def trim_name [OF 24(3)] del: to_name.simps)
next
  case (25 ms)
  have "map (\<lambda>(k, opt, t). (k, opt, from_name (to_name t))) ms = ms"
    using 25 by (intro map_idI) (fastforce simp: list_all_iff)
  with from_name_object [OF 25(2)] show ?case by simp
qed (simp_all add: from_name_word plain_name_def str_simps builtin_types_def)

theorem from_name_to_name_witness:
  "from_name (to_name (TyFunction [TyClass ''Map'' [TyString, TyFixedArray (TyDynamicArray TyInt32) 3],
        TyObject [(''x'', True, TyFunction [] TyVoid)]] (TyOptional (TyClass ''T'' []))))
   = TyFunction [TyClass ''Map'' [TyString, TyFixedArray (TyDynamicArray TyInt32) 3],
        TyObject [(''x'', True, TyFunction [] TyVoid)]] (TyOptional (TyClass ''T'' []))"
  by (rule from_name_to_name) (simp add: class_name_def plain_name_def builtin_types_def str_simps)

text \<open>
  Note: function types are where the text is ambiguous: as a generic argument the arrow
  closes the bracket and the whole text becomes a class name, and an array of functions reads
  back as a function that returns an array.
\<close>

theorem function_text_ambiguous:
  "from_name (to_name (TyClass ''Box'' [TyFunction [] TyInt32])) = TyClass ''Box<() => int>'' [] \<and>
   from_name (to_name (TyDynamicArray (TyFunction [] TyInt32))) = TyFunction [] (TyDynamicArray TyInt32)"
proof
  define box where "box = ''Box<() => int>''"
  have "trim box = box" "clear (CHR ''|'') (0, 0, 0, 0) box"
    by (simp_all add: box_def trim_id str_simps depth_step_def)
  moreover have "function_parts box = None" "array_parts box = None" "generic_parts box = None"
    "\<not> starts_with box ''{''" "\<not> starts_with box ''slice<''" "\<not> starts_with box ''Optional<''"
    "map_of builtin_types box = None"
    by (simp_all add: box_def function_parts_def find_top_level_arrow_def depth_step_def array_parts_def
        ends_with_def starts_with_def generic_parts_def find_top_level_generic_bounds_def builtin_types_def)
  ultimately have "from_name box = TyClass box []" by (simp add: from_name_step)
  then show "from_name (to_name (TyClass ''Box'' [TyFunction [] TyInt32])) = TyClass ''Box<() => int>'' []"
    by (simp add: box_def)
next
  have "to_name (TyDynamicArray (TyFunction [] TyInt32)) = to_name (TyFunction [] (TyDynamicArray TyInt32))"
    by simp
  then show "from_name (to_name (TyDynamicArray (TyFunction [] TyInt32))) = TyFunction [] (TyDynamicArray TyInt32)"
    using from_name_to_name [of "TyFunction [] (TyDynamicArray TyInt32)"] by (simp del: to_name.simps)
qed

section \<open>Types as syntax trees\<close>

text \<open>The types a syntax tree keeps: no slices, exact array sizes, nullary classes that are words.\<close>

fun node_exact :: "TejxType \<Rightarrow> bool" where
  "node_exact (TyClass n ts) = (if ts = [] then class_name n else list_all node_exact ts)"
| "node_exact (TyOptional t) = node_exact t"
| "node_exact (TyFixedArray t n) = (node_exact t \<and> n < 2 ^ 53)"
| "node_exact (TyDynamicArray t) = node_exact t"
| "node_exact (TySlice t) = False"
| "node_exact (TyFunction ps r) = (list_all node_exact ps \<and> node_exact r)"
| "node_exact (TyObject ms) = list_all (\<lambda>(k, opt, t). node_exact t) ms"
| "node_exact t = True"

lemma from_name_builtin: "plain_name n \<Longrightarrow> map_of builtin_types n = Some t \<Longrightarrow> from_name n = t"
  by (simp add: from_name_word)

text \<open>
  Property C12: a type survives the way through its syntax tree: \<open>from_node\<close> inverts
  \<open>to_type_node\<close> on types without slices whose array sizes a double represents exactly.
\<close>

theorem from_node_to_type_node:
  assumes "node_exact t"
  shows "from_node (to_type_node t) = t"
  using assms
proof (induction t rule: to_type_node.induct)
  case (19 n ts)
  then show ?case by (auto simp: class_name_def from_name_word list_all_iff map_idI)
next
  case (21 t n)
  then show ?case using f64_of_nat_roundtrip [of n] by simp
next
  case (24 ps r)
  then show ?case by (simp add: list_all_iff map_idI)
next
  case (25 ms)
  have "map (\<lambda>(k, opt, t). (k, opt, from_node (to_type_node t))) ms = ms"
    using 25 by (intro map_idI) (fastforce simp: list_all_iff)
  then show ?case by (simp add: comp_def case_prod_unfold)
qed (simp_all add: from_name_builtin plain_name_def str_simps builtin_types_def)

theorem from_node_to_type_node_witness:
  "from_node (to_type_node (TyFixedArray (TyClass ''Map'' [TyString, TyClass ''T'' []]) 640))
   = TyFixedArray (TyClass ''Map'' [TyString, TyClass ''T'' []]) 640"
  by (rule from_node_to_type_node) (simp add: class_name_def plain_name_def builtin_types_def str_simps)

text \<open>
  Note: a slice does not survive that way: its syntax tree is the generic class of the
  name \<open>slice\<close>, which \<open>from_node\<close> reads as a class, never as a slice.
\<close>

theorem slice_becomes_class:
  "from_node (to_type_node (TySlice t)) = TyClass ''slice'' [from_node (to_type_node t)] \<and>
   \<not> is_slice (from_node (to_type_node (TySlice t)))"
  by simp

section \<open>Substitution\<close>

text \<open>First \<open>a\<close>, then \<open>b\<close>, as one binding.\<close>

definition then_bind :: "(string \<rightharpoonup> TejxType) \<Rightarrow> (string \<rightharpoonup> TejxType) \<Rightarrow> (string \<rightharpoonup> TejxType)" where
  "then_bind a b n = (case a n of Some t \<Rightarrow> Some (substitute_generics b t) | None \<Rightarrow> b n)"

text \<open>The names a substitution can replace: those of the nullary classes.\<close>

fun type_params :: "TejxType \<Rightarrow> string set" where
  "type_params (TyClass n ts) = (if ts = [] then {n} else (\<Union>t \<in> set ts. type_params t))"
| "type_params (TyOptional t) = type_params t"
| "type_params (TyFixedArray t n) = type_params t"
| "type_params (TyDynamicArray t) = type_params t"
| "type_params (TySlice t) = type_params t"
| "type_params (TyFunction ps r) = (\<Union>p \<in> set ps. type_params p) \<union> type_params r"
| "type_params (TyObject ms) = (\<Union>(k, opt, t) \<in> set ms. type_params t)"
| "type_params t = {}"

lemma substitute_id: "dom b \<inter> type_params t = {} \<Longrightarrow> substitute_generics b t = t"
proof (induction b t rule: substitute_generics.induct)
  case (1 b n ts)
  show ?case
  proof (cases "ts = []")
    case True
    with 1 show ?thesis by (auto simp: domIff)
  next
    case False
    then have "map (substitute_generics b) ts = ts" using 1 by (intro map_idI) auto
    with False show ?thesis by simp
  qed
next
  case (6 b ps r)
  then have "map (substitute_generics b) ps = ps" by (intro map_idI) auto
  with 6 show ?case by auto
next
  case (7 b ms)
  have "map (\<lambda>(k, opt, t). (k, opt, substitute_generics b t)) ms = ms"
    using 7 by (intro map_idI) fastforce
  then show ?case by simp
qed auto

text \<open>
  Note: substitution of generic parameters composes: two substitutions in sequence are
  the one that applies the second to the images of the first.
\<close>

theorem substitute_compose:
  "substitute_generics b (substitute_generics a t) = substitute_generics (then_bind a b) t"
proof (induction a t rule: substitute_generics.induct)
  case (1 a n ts)
  then show ?case by (auto simp: then_bind_def split: option.splits)
qed (auto simp: then_bind_def)

text \<open>
  Note: the names left after a substitution are the unbound names of the type and the
  names of the images; so a closed binding of all names leaves none.
\<close>

theorem substitute_params:
  "type_params (substitute_generics b t)
     = (type_params t - dom b) \<union> (\<Union>n \<in> type_params t \<inter> dom b. type_params (the (b n)))"
proof (induction b t rule: substitute_generics.induct)
  case (1 b n ts)
  show ?case
  proof (cases "ts = []")
    case True
    then show ?thesis by (auto simp: domIff split: option.splits)
  next
    case False
    with 1 show ?thesis by (auto 4 3)
  qed
next
  case (6 b ps r)
  then show ?case by (auto 4 3)
next
  case (7 b ms)
  define g where "g = (\<lambda>t. (type_params t - dom b) \<union> (\<Union>n \<in> type_params t \<inter> dom b. type_params (the (b n))))"
  have "type_params (substitute_generics b (TyObject ms)) = (\<Union>x \<in> set ms. type_params (substitute_generics b (snd (snd x))))"
    by (simp add: case_prod_unfold)
  also have "\<dots> = (\<Union>x \<in> set ms. g (snd (snd x)))"
    using 7 unfolding g_def by (intro SUP_cong) (auto simp: prod_eq_iff)
  also have "\<dots> = g (TyObject ms)" by (auto simp: g_def case_prod_unfold)
  finally show ?case by (simp add: g_def)
qed auto

section \<open>Substitution by positions\<close>

text \<open>The parts of a type, the type without them, and the part at a position.\<close>

fun type_parts :: "TejxType \<Rightarrow> TejxType list" where
  "type_parts (TyClass n ts) = ts"
| "type_parts (TyOptional t) = [t]"
| "type_parts (TyFixedArray t n) = [t]"
| "type_parts (TyDynamicArray t) = [t]"
| "type_parts (TySlice t) = [t]"
| "type_parts (TyFunction ps r) = ps @ [r]"
| "type_parts (TyObject ms) = map (\<lambda>(k, opt, t). t) ms"
| "type_parts t = []"

fun skeleton :: "TejxType \<Rightarrow> TejxType" where
  "skeleton (TyClass n ts) = TyClass n (map (\<lambda>_. TyVoid) ts)"
| "skeleton (TyOptional t) = TyOptional TyVoid"
| "skeleton (TyFixedArray t n) = TyFixedArray TyVoid n"
| "skeleton (TyDynamicArray t) = TyDynamicArray TyVoid"
| "skeleton (TySlice t) = TySlice TyVoid"
| "skeleton (TyFunction ps r) = TyFunction (map (\<lambda>_. TyVoid) ps) TyVoid"
| "skeleton (TyObject ms) = TyObject (map (\<lambda>(k, opt, t). (k, opt, TyVoid)) ms)"
| "skeleton t = t"

fun part_at :: "nat list \<Rightarrow> TejxType \<Rightarrow> TejxType option" where
  "part_at [] t = Some t"
| "part_at (i # is) t = (if i < length (type_parts t) then part_at is (type_parts t ! i) else None)"

definition bound_type :: "(string \<rightharpoonup> TejxType) \<Rightarrow> TejxType \<Rightarrow> TejxType option" where
  "bound_type b t = (case t of TyClass n [] \<Rightarrow> b n | _ \<Rightarrow> None)"

lemma substitute_parts:
  assumes "bound_type b t = None"
  shows "type_parts (substitute_generics b t) = map (substitute_generics b) (type_parts t)"
    "skeleton (substitute_generics b t) = skeleton t"
  using assms by (cases t; auto simp: bound_type_def split: list.splits option.splits)+

lemma substitute_bound: "bound_type b t = Some v \<Longrightarrow> substitute_generics b t = v"
  by (auto simp: bound_type_def split: TejxType.splits list.splits)

text \<open>
  Property C13: what substitution of generic parameters does at every position of a type: a bound
  name is replaced by what it is bound to, and everything else stays what it is, with the same
  number of parts, in every constructor of types.
\<close>

theorem substitute_generics_positions:
  assumes "part_at p t = Some u"
  shows "part_at p (substitute_generics b t) = Some (substitute_generics b u) \<and>
    (case bound_type b u of
       Some v \<Rightarrow> substitute_generics b u = v
     | None \<Rightarrow> skeleton (substitute_generics b u) = skeleton u \<and>
         length (type_parts (substitute_generics b u)) = length (type_parts u))"
proof -
  have "part_at p (substitute_generics b t) = Some (substitute_generics b u)"
    using assms
  proof (induction p arbitrary: t)
    case (Cons i p)
    then have "bound_type b t = None"
      by (auto simp: bound_type_def split: TejxType.splits list.splits if_splits)
    with Cons show ?case by (simp add: substitute_parts split: if_splits)
  qed simp
  then show ?thesis by (simp add: substitute_parts substitute_bound split: option.split)
qed
theorem substitute_generics_positions_witness:
  "let t = TyFunction [TyString] (TySlice (TyOptional (TyClass ''T'' [])))
   in part_at [1, 0, 0] (substitute_generics [''T'' \<mapsto> TyInt32] t) = Some TyInt32 \<and>
      skeleton (substitute_generics [''T'' \<mapsto> TyInt32] t) = skeleton t"
  using substitute_generics_positions [of "[1, 0, 0]" "TyFunction [TyString] (TySlice (TyOptional (TyClass ''T'' [])))"
      "TyClass ''T'' []" "[''T'' \<mapsto> TyInt32]"]
    substitute_generics_positions [of "[]" "TyFunction [TyString] (TySlice (TyOptional (TyClass ''T'' [])))"
      "TyFunction [TyString] (TySlice (TyOptional (TyClass ''T'' [])))" "[''T'' \<mapsto> TyInt32]"]
  by (simp add: bound_type_def)

end
