(* ===== verification/Signatures.thy ===== *)
theory Signatures
  imports Types "HOL-Library.Monad_Syntax"
begin

text \<open>
  The textual signatures of the type checker: \<open>parse_signature\<close>
  (\<open>src/compiler/middle/semantic/func.rs\<close>), the replacement of generic parameters by
  placeholders and of placeholders by arguments (\<open>semantic/generics.rs\<close>), and the built-in
  methods of strings and arrays (\<open>src/compiler/common/builtins.rs\<close>). A result \<open>None\<close> stands for
  a panic of the source or a loop that does not end.
\<close>

section \<open>Splitting at separators\<close>

text \<open>\<open>s.split_once(c)\<close>: the text before and after the first \<open>c\<close>.\<close>

fun split_once :: "char \<Rightarrow> string \<Rightarrow> (string \<times> string) option" where
  "split_once c [] = None"
| "split_once c (d # s) = (if d = c then Some ([], s) else map_option (apfst ((#) d)) (split_once c s))"

text \<open>\<open>s.split(c)\<close>: the pieces between all occurrences of \<open>c\<close>.\<close>

fun split_char :: "char \<Rightarrow> string \<Rightarrow> string list" where
  "split_char c [] = [[]]"
| "split_char c (d # s) =
     (if d = c then [] # split_char c s
      else case split_char c s of [] \<Rightarrow> [[d]] | p # ps \<Rightarrow> (d # p) # ps)"

text \<open>The last position of a character that satisfies \<open>P\<close>.\<close>

definition rfind_from :: "(char \<Rightarrow> bool) \<Rightarrow> string \<Rightarrow> nat option" where
  "rfind_from P s = map_option (\<lambda>i. length s - 1 - i) (find_from 0 P (rev s))"

fun find_text :: "nat \<Rightarrow> string \<Rightarrow> string \<Rightarrow> nat option" where
  "find_text i p [] = (if p = [] then Some i else None)"
| "find_text i p (c # s) = (if starts_with (c # s) p then Some i else find_text (i + 1) p s)"

text \<open>The last occurrence of a text.\<close>

fun rfind_text :: "nat \<Rightarrow> string \<Rightarrow> string \<Rightarrow> nat option" where
  "rfind_text i p [] = (if p = [] then Some i else None)"
| "rfind_text i p (c # s) =
     (case rfind_text (i + 1) p s of
        Some j \<Rightarrow> Some j
      | None \<Rightarrow> if starts_with (c # s) p then Some i else None)"

section \<open>Parameter lists\<close>

text \<open>
  Four depths: brace, angle, bracket, parenthesis. In \<open>split_params\<close> the angle and the bracket
  saturate at zero and the others do not.
\<close>

type_synonym signature_depths = "int \<times> nat \<times> nat \<times> int"

definition params_depth :: "char \<Rightarrow> signature_depths \<Rightarrow> signature_depths" where
  "params_depth c d =
     (case d of (b, a, k, p) \<Rightarrow>
        if c = CHR ''{'' then (b + 1, a, k, p) else if c = CHR ''}'' then (b - 1, a, k, p)
        else if c = CHR ''<'' then (b, a + 1, k, p) else if c = CHR ''>'' then (b, a - 1, k, p)
        else if c = CHR ''['' then (b, a, k + 1, p) else if c = CHR '']'' then (b, a, k - 1, p)
        else if c = CHR ''('' then (b, a, k, p + 1) else if c = CHR '')'' then (b, a, k, p - 1)
        else (b, a, k, p))"

fun split_params_loop :: "signature_depths \<Rightarrow> string \<Rightarrow> string \<Rightarrow> string list" where
  "split_params_loop d cur [] = (if trim cur = [] then [] else [trim cur])"
| "split_params_loop d cur (c # s) =
     (if c = CHR '','' \<and> d = (0, 0, 0, 0) then trim cur # split_params_loop d [] s
      else split_params_loop (params_depth c d) (cur @ [c]) s)"

definition split_params :: "string \<Rightarrow> string list" where
  "split_params s = split_params_loop (0, 0, 0, 0) [] s"

text \<open>The top-level colon of a parameter; here the parenthesis saturates too.\<close>

definition colon_depth :: "char \<Rightarrow> signature_depths \<Rightarrow> signature_depths" where
  "colon_depth c d =
     (case d of (b, a, k, p) \<Rightarrow> if c = CHR '')'' \<and> p \<le> 0 then d else params_depth c d)"

fun colon_loop :: "nat \<Rightarrow> signature_depths \<Rightarrow> string \<Rightarrow> nat option" where
  "colon_loop i d [] = None"
| "colon_loop i d (c # s) =
     (if c = CHR '':'' \<and> d = (0, 0, 0, 0) then Some i else colon_loop (i + 1) (colon_depth c d) s)"

definition top_level_colon :: "string \<Rightarrow> nat option" where
  "top_level_colon p = colon_loop 0 (0, 0, 0, 0) p"

section \<open>Signatures\<close>

definition function_prefix :: string where
  "function_prefix = ''function:''"

definition dots :: string where
  "dots = ''...''"

text \<open>A parameter of the form \<open>function:rty:p1,p2\<close>.\<close>

definition colon_param :: "string \<Rightarrow> string" where
  "colon_param p = (if ends_with p dots then take (length p - 3) p else p)"

text \<open>\<open>trim_end_matches("...")\<close>.\<close>

function trim_dots :: "string \<Rightarrow> string" where
  "trim_dots s = (if ends_with s dots then trim_dots (take (length s - 3) s) else s)"
  by auto
termination
proof (relation "measure length")
  fix s assume "ends_with s dots"
  then have "length s \<ge> 3" by (auto simp: ends_with_def starts_with_def dots_def dest!: arg_cong [where f = length])
  then show "(take (length s - 3) s, s) \<in> measure length" by simp
qed simp

declare trim_dots.simps [simp del]

text \<open>A parameter of the form \<open>name: type\<close>, or only a type; no value for an empty one.\<close>

definition arrow_param :: "string \<Rightarrow> string option" where
  "arrow_param p =
     (let q = trim (trim_dots p) in
      case top_level_colon q of
        Some i \<Rightarrow> Some (trim (drop (i + 1) q))
      | None \<Rightarrow> if q = [] then None else Some q)"

definition colon_signature :: "string \<Rightarrow> string \<times> string list \<times> bool" where
  "colon_signature ty =
     (case split_once CHR '':'' ty of
        None \<Rightarrow> (ty, [], False)
      | Some (_, r) \<Rightarrow>
          (case split_once CHR '':'' r of
             None \<Rightarrow> (ty, [], False)
           | Some (rty, ps) \<Rightarrow>
               (function_prefix @ rty, filter (\<lambda>p. p \<noteq> []) (map colon_param (split_params ps)),
                list_ex (\<lambda>p. ends_with p dots) (split_params ps))))"

text \<open>A signature with an arrow; the parameter slice panics where its bounds cross.\<close>

definition arrow_signature :: "string \<Rightarrow> (string \<times> string list \<times> bool) option" where
  "arrow_signature ty =
     (case (find_char (CHR ''('') ty, rfind_from (\<lambda>c. c = CHR '')'') ty) of
        (Some i, Some j) \<Rightarrow>
          (if j < i + 1 then None
           else
             let ps = split_params (slice (i + 1) j ty) in
             Some (case rfind_text 0 ''=>'' ty of
                     Some a \<Rightarrow> function_prefix @ trim (drop (a + 2) ty)
                   | None \<Rightarrow> ty,
                   List.map_filter arrow_param ps, list_ex (\<lambda>p. ends_with p dots) ps))
      | _ \<Rightarrow> Some (ty, [], False))"

definition parse_signature :: "string \<Rightarrow> (string \<times> string list \<times> bool) option" where
  "parse_signature ty =
     (if starts_with ty function_prefix then Some (colon_signature ty)
      else if str_contains ty ''=>'' then arrow_signature ty
      else Some (ty, [], False))"

section \<open>Generic placeholders\<close>

definition placeholder :: "nat \<Rightarrow> string" where
  "placeholder i = CHR ''$'' # nat_to_string i"

text \<open>
  The occurrences of a name as a whole word are replaced. An empty name is found at every
  position, so the loop of the source does not end.
\<close>

function replace_word :: "string \<Rightarrow> string \<Rightarrow> char option \<Rightarrow> string \<Rightarrow> string" where
  "replace_word n ph prev [] = []"
| "replace_word n ph prev (c # s) =
     (if n \<noteq> [] \<and> starts_with (c # s) n then
        (let rest = drop (length n) (c # s) in
         (if (case prev of None \<Rightarrow> True | Some d \<Rightarrow> \<not> is_ident_char d)
             \<and> (rest = [] \<or> \<not> is_ident_char (hd rest)) then ph else n)
         @ replace_word n ph (Some (last n)) rest)
      else c # replace_word n ph (Some c) s)"
  by pat_completeness auto
termination
  by (relation "measure (\<lambda>(n, ph, prev, s). length s)") (auto simp: neq_Nil_conv)

definition generic_name :: "'e GenericParam \<Rightarrow> string" where
  "generic_name g = (case g of GenericParam n b \<Rightarrow> n)"

definition generic_bound :: "'e GenericParam \<Rightarrow> 'e TypeNode option" where
  "generic_bound g = (case g of GenericParam n b \<Rightarrow> b)"

fun parameterize_loop :: "nat \<Rightarrow> string list \<Rightarrow> string \<Rightarrow> string option" where
  "parameterize_loop i [] s = Some s"
| "parameterize_loop i (n # ns) s =
     (if n = [] then None else parameterize_loop (i + 1) ns (replace_word n (placeholder i) None s))"

definition parameterize_generics :: "string \<Rightarrow> 'e GenericParam list \<Rightarrow> string option" where
  "parameterize_generics ty gs = parameterize_loop 0 (map generic_name gs) ty"

text \<open>\<open>s.replace(p, r)\<close> for a non-empty text \<open>p\<close>.\<close>

function replace_text :: "string \<Rightarrow> string \<Rightarrow> string \<Rightarrow> string" where
  "replace_text p r [] = []"
| "replace_text p r (c # s) =
     (if p \<noteq> [] \<and> starts_with (c # s) p then r @ replace_text p r (drop (length p) (c # s))
      else c # replace_text p r s)"
  by pat_completeness auto
termination
  by (relation "measure (\<lambda>(p, r, s). length s)") (auto simp: neq_Nil_conv)

definition type_arguments :: "string \<Rightarrow> string list" where
  "type_arguments ty =
     (case find_top_level_generic_bounds ty of
        Some (i, j) \<Rightarrow> filter (\<lambda>p. p \<noteq> []) (split_top_level (slice (i + 1) j ty) CHR '','')
      | None \<Rightarrow> if ends_with ty ''[]'' then [take (length ty - 2) ty] else [])"

definition placeholder_value :: "string list \<Rightarrow> nat \<Rightarrow> string" where
  "placeholder_value parts i =
     (if i < length parts then parts ! i else ''$MISSING_GENERIC_'' @ nat_to_string i)"

definition fill_placeholders :: "string \<Rightarrow> string \<Rightarrow> string" where
  "fill_placeholders member_type obj_type =
     foldl (\<lambda>s i. replace_text (placeholder i) (placeholder_value (type_arguments obj_type) i) s)
       member_type [0..<5]"

section \<open>Built-in methods\<close>

datatype BuiltinRet = BrInt32 | BrBool | BrString | BrVoid | BrElem | BrSelfArray | BrStringArray

definition string_method_names :: "string list" where
  "string_method_names =
     [''length'', ''concat'', ''includes'', ''startsWith'', ''endsWith'', ''indexOf'', ''indexOfFrom'',
      ''toUpperCase'', ''toLowerCase'', ''trim'', ''trimStart'', ''trimEnd'', ''substring'', ''split'',
      ''repeat'', ''replace'', ''padStart'', ''padEnd'']"

definition array_method_names :: "string list" where
  "array_method_names =
     [''length'', ''push'', ''pop'', ''shift'', ''unshift'', ''indexOf'', ''concat'', ''join'', ''slice'',
      ''reverse'', ''fill'', ''sort'', ''map'', ''filter'', ''forEach'', ''reduce'', ''every'', ''some'',
      ''find'', ''findIndex'', ''includes'']"

definition array_fixed_method_names :: "string list" where
  "array_fixed_method_names =
     [''length'', ''indexOf'', ''concat'', ''join'', ''slice'', ''reverse'', ''fill'', ''sort'', ''map'',
      ''filter'', ''forEach'', ''reduce'', ''every'', ''some'', ''find'', ''findIndex'', ''includes'']"

definition string_method_info :: "string \<rightharpoonup> string \<times> BuiltinRet option" where
  "string_method_info =
     map_of
       [(''length'', ''rt_strlen'', Some BrInt32), (''concat'', ''rt_String_concat'', Some BrString),
        (''includes'', ''rt_String_includes'', Some BrBool), (''startsWith'', ''rt_String_startsWith'', Some BrBool),
        (''endsWith'', ''rt_String_endsWith'', Some BrBool), (''indexOf'', ''rt_String_indexOf'', Some BrInt32),
        (''indexOfFrom'', ''rt_String_indexOfFrom'', Some BrInt32),
        (''toUpperCase'', ''rt_String_toUpperCase'', Some BrString),
        (''toLowerCase'', ''rt_String_toLowerCase'', Some BrString), (''trim'', ''rt_String_trim'', Some BrString),
        (''trimStart'', ''rt_String_trimStart'', Some BrString), (''trimEnd'', ''rt_String_trimEnd'', Some BrString),
        (''substring'', ''rt_String_substring'', Some BrString), (''split'', ''rt_String_split'', Some BrStringArray),
        (''repeat'', ''rt_String_repeat'', Some BrString), (''replace'', ''rt_String_replace'', Some BrString),
        (''padStart'', ''rt_String_padStart'', Some BrString), (''padEnd'', ''rt_String_padEnd'', Some BrString)]"

definition array_method_info :: "string \<rightharpoonup> string \<times> BuiltinRet option" where
  "array_method_info =
     map_of
       [(''length'', ''rt_len'', Some BrInt32), (''push'', ''rt_array_push'', Some BrInt32),
        (''pop'', ''rt_array_pop'', Some BrElem), (''shift'', ''rt_array_shift'', Some BrElem),
        (''unshift'', ''rt_array_unshift'', Some BrInt32), (''indexOf'', ''rt_array_indexOf'', Some BrInt32),
        (''concat'', ''rt_array_concat'', Some BrSelfArray), (''join'', ''rt_array_join'', Some BrString),
        (''slice'', ''rt_array_slice'', Some BrSelfArray), (''reverse'', ''rt_array_reverse'', Some BrSelfArray),
        (''fill'', ''rt_array_fill'', Some BrSelfArray), (''sort'', ''rt_array_sort'', Some BrVoid),
        (''map'', ''f_map'', None), (''filter'', ''f_filter'', Some BrSelfArray),
        (''forEach'', ''f_forEach'', Some BrVoid), (''reduce'', ''f_reduce'', None),
        (''every'', ''f_every'', Some BrBool), (''some'', ''f_some'', Some BrBool),
        (''find'', ''f_find'', Some BrElem), (''findIndex'', ''f_findIndex'', Some BrInt32),
        (''includes'', ''f_includes'', Some BrBool)]"

definition resolve_ret :: "TejxType \<Rightarrow> BuiltinRet \<Rightarrow> TejxType" where
  "resolve_ret t r =
     (case r of BrInt32 \<Rightarrow> TyInt32 | BrBool \<Rightarrow> TyBool | BrString \<Rightarrow> TyString | BrVoid \<Rightarrow> TyVoid
      | BrElem \<Rightarrow> get_array_element_type t | BrSelfArray \<Rightarrow> t | BrStringArray \<Rightarrow> TyDynamicArray TyString)"

text \<open>A receiver whose length is fixed.\<close>

fun fixed_length :: "TejxType \<Rightarrow> bool" where
  "fixed_length (TyFixedArray t n) = True"
| "fixed_length (TySlice t) = True"
| "fixed_length t = False"

definition method_info :: "TejxType \<Rightarrow> string \<Rightarrow> (string \<times> TejxType option) option" where
  "method_info t name =
     (if t = TyString then map_option (apsnd (map_option (resolve_ret t))) (string_method_info name)
      else if is_array t \<or> is_slice t then
        (if fixed_length t \<and> name \<in> {''push'', ''pop'', ''shift'', ''unshift''} then None
         else map_option (apsnd (map_option (resolve_ret t))) (array_method_info name))
      else None)"

definition member_names :: "TejxType \<Rightarrow> string list option" where
  "member_names t =
     (if t = TyString then Some string_method_names
      else if is_array t \<or> is_slice t then
        Some (if fixed_length t then array_fixed_method_names else array_method_names)
      else None)"

definition method_callee :: "TejxType \<Rightarrow> string \<Rightarrow> string option" where
  "method_callee t name = map_option fst (method_info t name)"

definition method_return_type :: "TejxType \<Rightarrow> string \<Rightarrow> TejxType option" where
  "method_return_type t name = Option.bind (method_info t name) snd"

text \<open>
  Note: the methods a receiver offers for completion are those it resolves.
\<close>

theorem method_info_names:
  "{name. method_info t name \<noteq> None} = (case member_names t of Some ns \<Rightarrow> set ns | None \<Rightarrow> {})"
proof -
  have s: "string_method_info n \<noteq> None \<longleftrightarrow> n \<in> set string_method_names" for n
    by (auto simp: string_method_info_def string_method_names_def)
  have a: "array_method_info n \<noteq> None \<longleftrightarrow> n \<in> set array_method_names" for n
    by (auto simp: array_method_info_def array_method_names_def)
  have f: "n \<notin> {''push'', ''pop'', ''shift'', ''unshift''} \<and> n \<in> set array_method_names
      \<longleftrightarrow> n \<in> set array_fixed_method_names" for n
    by (auto simp: array_method_names_def array_fixed_method_names_def)
  have "method_info t n \<noteq> None \<longleftrightarrow> (case member_names t of Some ns \<Rightarrow> n \<in> set ns | None \<Rightarrow> False)" for n
    using s [of n] a [of n] f [of n] by (auto simp: method_info_def member_names_def)
  then show ?thesis by (auto split: option.splits)
qed

end
