(* ===== verification/Checker.thy ===== *)
theory Checker
  imports Signatures Diagnostics "HOL-Library.AList"
begin

text \<open>
  The state of the type checker, \<open>struct TypeChecker\<close> of
  \<open>src/compiler/middle/semantic/mod.rs\<close>, its scopes and symbols. A hash map is an association
  list without repeated keys; the source iterates hash maps only where the order does not
  matter, except for the candidates of a spelling suggestion, whose order here is one of the
  possible ones.
\<close>

section \<open>State\<close>

datatype AccessLevel = LevelPublic | LevelPrivate | LevelProtected

record MemberInfo =
  mi_ty :: TejxType
  mi_is_static :: bool
  mi_access :: AccessLevel
  mi_is_readonly :: bool
  mi_generic_params :: "Expr GenericParam list"
  mi_min_params :: "nat option"

record Symbol =
  sy_ty :: TejxType
  sy_is_const :: bool
  sy_is_narrowed :: bool
  sy_params :: "TejxType list"
  sy_min_params :: "nat option"
  sy_is_variadic :: bool
  sy_aliased_type :: "TejxType option"
  sy_generic_params :: "Expr GenericParam list"
  sy_literal_length :: "nat option"
  sy_declared_in_file :: string

type_synonym 'a hash_map = "(string \<times> 'a) list"

record checker =
  tc_scopes :: "Symbol hash_map list"
  tc_current_class :: "string option"
  tc_current_function_return :: "TejxType option"
  tc_current_function_is_async :: bool
  tc_current_member_is_static :: bool
  tc_current_inside_constructor :: bool
  tc_loop_depth :: nat
  tc_diagnostics :: "Diagnostic list"
  tc_current_file :: string
  tc_imported_names_by_file :: "string list hash_map"
  tc_class_hierarchy :: "string hash_map"
  tc_interfaces :: "MemberInfo hash_map hash_map"
  tc_class_members :: "MemberInfo hash_map hash_map"
  tc_async_enabled :: bool
  tc_abstract_classes :: "string list"
  tc_remaining_stmts :: "Statement list"
  tc_lambda_context_params :: "TejxType list option"
  tc_lambda_inferred_types :: "((nat \<times> nat) \<times> TejxType list) list"
  tc_lambda_inferred_returns :: "((nat \<times> nat) \<times> TejxType) list"
  tc_current_expected_type :: "TejxType option"
  tc_inferred_function_returns :: "((string \<times> nat \<times> nat \<times> string) \<times> TejxType) list"
  tc_inferred_member_returns :: "((string \<times> string \<times> nat \<times> nat \<times> string) \<times> TejxType) list"
  tc_call_instantiations :: "((nat \<times> nat \<times> string) \<times> TejxType list) list"
  tc_generic_instantiations :: "TejxType list list hash_map"
  tc_function_instantiations :: "TejxType list list hash_map"

definition inferred_name :: string where
  "inferred_name = ''<inferred>''"

definition checker_new :: checker where
  "checker_new =
     \<lparr>tc_scopes = [[]], tc_current_class = None, tc_current_function_return = None,
      tc_current_function_is_async = False, tc_current_member_is_static = False,
      tc_current_inside_constructor = False, tc_loop_depth = 0, tc_diagnostics = [],
      tc_current_file = inferred_name, tc_imported_names_by_file = [], tc_class_hierarchy = [],
      tc_interfaces = [], tc_class_members = [], tc_async_enabled = True, tc_abstract_classes = [],
      tc_remaining_stmts = [], tc_lambda_context_params = None, tc_lambda_inferred_types = [],
      tc_lambda_inferred_returns = [], tc_current_expected_type = None,
      tc_inferred_function_returns = [], tc_inferred_member_returns = [], tc_call_instantiations = [],
      tc_generic_instantiations = [], tc_function_instantiations = []\<rparr>"

definition report_error_detailed :: "string \<Rightarrow> nat \<Rightarrow> nat \<Rightarrow> string \<Rightarrow> string option \<Rightarrow> checker \<Rightarrow> checker" where
  "report_error_detailed msg l c co hint tc =
     (let d = with_code co (diagnostic_new msg l c (tc_current_file tc));
          d' = (case hint of Some h \<Rightarrow> with_hint h d | None \<Rightarrow> d)
      in tc\<lparr>tc_diagnostics := tc_diagnostics tc @ [d']\<rparr>)"

section \<open>Scopes\<close>

definition enter_scope :: "checker \<Rightarrow> checker" where
  "enter_scope tc = tc\<lparr>tc_scopes := tc_scopes tc @ [[]]\<rparr>"

definition exit_scope :: "checker \<Rightarrow> checker" where
  "exit_scope tc = tc\<lparr>tc_scopes := butlast (tc_scopes tc)\<rparr>"

text \<open>\<open>if let Some(scope) = self.scopes.last_mut() { scope.insert(name, symbol); }\<close>.\<close>

definition insert_symbol :: "string \<Rightarrow> Symbol \<Rightarrow> checker \<Rightarrow> checker" where
  "insert_symbol name s tc =
     (if tc_scopes tc = [] then tc
      else tc\<lparr>tc_scopes := butlast (tc_scopes tc) @ [AList.update name s (last (tc_scopes tc))]\<rparr>)"

text \<open>A symbol with a type and parameters, every other field empty.\<close>

definition plain_symbol :: "TejxType \<Rightarrow> TejxType list \<Rightarrow> bool \<Rightarrow> checker \<Rightarrow> Symbol" where
  "plain_symbol t ps variadic tc =
     \<lparr>sy_ty = t, sy_is_const = False, sy_is_narrowed = False, sy_params = ps, sy_min_params = None,
      sy_is_variadic = variadic, sy_aliased_type = None, sy_generic_params = [],
      sy_literal_length = None, sy_declared_in_file = tc_current_file tc\<rparr>"

text \<open>The type of a definition: a function type where the text is a signature.\<close>

definition defined_type :: "string \<Rightarrow> string \<Rightarrow> string list \<Rightarrow> TejxType" where
  "defined_type ty rty ps =
     (if starts_with ty function_prefix then TyFunction (map from_name ps) (from_name rty) else from_name ty)"

definition define_symbol :: "string \<Rightarrow> string \<Rightarrow> checker \<Rightarrow> checker option" where
  "define_symbol name ty tc =
     do { (rty, ps, variadic) \<leftarrow> parse_signature ty;
          Some (insert_symbol name (plain_symbol (defined_type ty rty ps) (map from_name ps) variadic tc) tc) }"

definition define_with_params_variadic ::
  "string \<Rightarrow> string \<Rightarrow> string list \<Rightarrow> bool \<Rightarrow> checker \<Rightarrow> checker option" where
  "define_with_params_variadic name ty ps variadic tc =
     do { t \<leftarrow> (if starts_with ty function_prefix then
                 do { (rty, _, _) \<leftarrow> parse_signature ty; Some (TyFunction (map from_name ps) (from_name rty)) }
               else Some (from_name ty));
          Some (insert_symbol name (plain_symbol t (map from_name ps) variadic tc) tc) }"

definition define_with_params :: "string \<Rightarrow> string \<Rightarrow> string list \<Rightarrow> checker \<Rightarrow> checker option" where
  "define_with_params name ty ps tc = define_with_params_variadic name ty ps False tc"

definition define_variable ::
  "string \<Rightarrow> string \<Rightarrow> bool \<Rightarrow> nat \<Rightarrow> nat \<Rightarrow> nat option \<Rightarrow> checker \<Rightarrow> checker option" where
  "define_variable name ty is_const l c len tc =
     do { (rty, ps, variadic) \<leftarrow> parse_signature ty;
          Some (if tc_scopes tc = [] then tc
                else if map_of (last (tc_scopes tc)) name \<noteq> None then
                  report_error_detailed
                    (''Variable '' @ quote_char # name @ quote_char # '' is already defined in this scope'')
                    l c ''E0109'' (Some ''Choose a different name or remove the duplicate declaration'') tc
                else
                  insert_symbol name
                    ((plain_symbol (defined_type ty rty ps) (map from_name ps) variadic tc)
                       \<lparr>sy_is_const := is_const, sy_literal_length := len\<rparr>) tc) }"

definition define_narrowed :: "string \<Rightarrow> string \<Rightarrow> checker \<Rightarrow> checker" where
  "define_narrowed name ty tc =
     insert_symbol name ((plain_symbol (from_name ty) [] False tc)\<lparr>sy_is_narrowed := True\<rparr>) tc"

section \<open>Lookup\<close>

definition set_import_access :: "string list hash_map \<Rightarrow> checker \<Rightarrow> checker" where
  "set_import_access names tc = tc\<lparr>tc_imported_names_by_file := names\<rparr>"

definition is_library_file :: "string \<Rightarrow> bool" where
  "is_library_file path \<longleftrightarrow> str_contains path ''/src/library/'' \<or> str_contains path ''/.tejx/lib/''"

definition symbol_accessible :: "checker \<Rightarrow> string \<Rightarrow> Symbol \<Rightarrow> bool" where
  "symbol_accessible tc name s \<longleftrightarrow>
     sy_declared_in_file s = [] \<or> sy_declared_in_file s = tc_current_file tc
     \<or> (is_library_file (tc_current_file tc) \<and> is_library_file (sy_declared_in_file s))
     \<or> (case map_of (tc_imported_names_by_file tc) (tc_current_file tc) of
          Some names \<Rightarrow> name \<in> set names | None \<Rightarrow> False)"

text \<open>The scopes come innermost first.\<close>

primrec lookup_scopes :: "checker \<Rightarrow> string \<Rightarrow> Symbol hash_map list \<Rightarrow> Symbol option" where
  "lookup_scopes tc name [] = None"
| "lookup_scopes tc name (sc # scs) =
     (case map_of sc name of
        Some s \<Rightarrow> if symbol_accessible tc name s then Some s else lookup_scopes tc name scs
      | None \<Rightarrow> lookup_scopes tc name scs)"

definition lookup :: "checker \<Rightarrow> string \<Rightarrow> Symbol option" where
  "lookup tc name = lookup_scopes tc name (rev (tc_scopes tc))"

primrec assignment_scopes :: "checker \<Rightarrow> string \<Rightarrow> Symbol option \<Rightarrow> Symbol hash_map list \<Rightarrow> Symbol option" where
  "assignment_scopes tc name narrowed [] = narrowed"
| "assignment_scopes tc name narrowed (sc # scs) =
     (case map_of sc name of
        Some s \<Rightarrow>
          if \<not> symbol_accessible tc name s then assignment_scopes tc name narrowed scs
          else if \<not> sy_is_narrowed s then Some s
          else assignment_scopes tc name (if narrowed = None then Some s else narrowed) scs
      | None \<Rightarrow> assignment_scopes tc name narrowed scs)"

definition lookup_assignment_target :: "checker \<Rightarrow> string \<Rightarrow> Symbol option" where
  "lookup_assignment_target tc name = assignment_scopes tc name None (rev (tc_scopes tc))"

section \<open>Suggestions\<close>

definition builtin_identifiers :: "string list" where
  "builtin_identifiers =
     [''print'', ''println'', ''panic'', ''sizeof'', ''String'', ''Number'', ''Boolean'', ''Array'', ''Map'',
      ''Set'', ''None'', ''true'', ''false'', ''Math'', ''spawn'', ''Thread'', ''Object'', ''Promise'', ''Error'']"

definition suggest_similar_identifier :: "checker \<Rightarrow> string \<Rightarrow> string option" where
  "suggest_similar_identifier tc name =
     find_best_match name
       (remdups
          (concat (map (\<lambda>sc. map fst (filter (\<lambda>(n, s). symbol_accessible tc n s) sc)) (rev (tc_scopes tc)))
           @ builtin_identifiers))"

definition type_synonyms :: "(string \<times> string) list" where
  "type_synonyms =
     [(''boolean'', ''bool''), (''integer'', ''int''), (''str'', ''string''), (''double'', ''float64''),
      (''dict'', ''Map''), (''dictionary'', ''Map''), (''list'', ''Array''), (''vector'', ''Array''),
      (''character'', ''char''), (''null'', ''None''), (''nil'', ''None''), (''undefined'', ''None'')]"

definition primitive_type_names :: "string list" where
  "primitive_type_names =
     [''int'', ''int8'', ''int16'', ''int32'', ''int64'', ''int128'', ''uint'', ''uint8'', ''uint16'', ''uint32'',
      ''uint64'', ''uint128'', ''float'', ''float16'', ''float32'', ''float64'', ''bool'', ''string'', ''char'',
      ''void'', ''any'', ''None'', ''Map'', ''Set'', ''Array'', ''Optional'', ''Promise'', ''Error'']"

definition suggest_similar_type :: "checker \<Rightarrow> string \<Rightarrow> string option" where
  "suggest_similar_type tc ty =
     (let base = trim (takeWhile (\<lambda>c. c \<noteq> CHR ''<'') ty) in
      case map_of type_synonyms (map to_lower base) of
        Some s \<Rightarrow> Some s
      | None \<Rightarrow>
          find_best_match base
            (remdups
               (primitive_type_names
                @ concat (map (\<lambda>sc. map fst (filter (\<lambda>(n, s). to_name (sy_ty s) \<in> {''class'', ''enum''}) sc))
                    (rev (tc_scopes tc)))
                @ map fst (tc_class_members tc))))"

definition type_suggestion_or_default_hint :: "checker \<Rightarrow> string \<Rightarrow> string" where
  "type_suggestion_or_default_hint tc ty =
     (case suggest_similar_type tc ty of
        Some s \<Rightarrow> ''Did you mean '' @ quote_char # s @ quote_char # ''?''
      | None \<Rightarrow> ''Valid types include: int, int32, float, float64, string, bool, or user-defined classes'')"

section \<open>Contexts\<close>

definition with_expected_type :: "TejxType option \<Rightarrow> (checker \<Rightarrow> 'r \<times> checker) \<Rightarrow> checker \<Rightarrow> 'r \<times> checker" where
  "with_expected_type ty f tc =
     (let (r, tc') = f (tc\<lparr>tc_current_expected_type := ty\<rparr>)
      in (r, tc'\<lparr>tc_current_expected_type := tc_current_expected_type tc\<rparr>))"

definition with_lambda_context :: "TejxType list option \<Rightarrow> (checker \<Rightarrow> 'r \<times> checker) \<Rightarrow> checker \<Rightarrow> 'r \<times> checker" where
  "with_lambda_context ps f tc =
     (let (r, tc') = f (tc\<lparr>tc_lambda_context_params := ps\<rparr>)
      in (r, tc'\<lparr>tc_lambda_context_params := tc_lambda_context_params tc\<rparr>))"

end
