(* ===== verification/Classes.thy ===== *)
theory Classes
  imports Checker "HOL-Library.List_Lexorder" "HOL-Library.Char_ord"
begin

text \<open>
  Classes in the type checker, \<open>src/compiler/middle/semantic/class.rs\<close>: the class hierarchy, the
  collection of declarations, and the resolution of members. A result \<open>None\<close> of type \<open>option\<close>
  stands for a panic or a loop that does not end.
\<close>

section \<open>The class hierarchy\<close>

text \<open>A search that marks an element of a finite set ends.\<close>

lemma mark_less: "finite A \<Longrightarrow> x \<in> A \<Longrightarrow> x \<notin> B \<Longrightarrow> insert x B \<subseteq> C \<Longrightarrow> card (A - C) < card (A - B)"
  by (rule psubset_card_mono) auto

definition base_class_name :: "string \<Rightarrow> string" where
  "base_class_name n = takeWhile (\<lambda>c. c \<noteq> CHR ''<'') n"

function parent_loop :: "string hash_map \<Rightarrow> string list \<Rightarrow> string \<Rightarrow> string list" where
  "parent_loop h visited cur =
     (case map_of h cur of
        None \<Rightarrow> []
      | Some p \<Rightarrow>
          if base_class_name p \<in> set visited then []
          else base_class_name p # parent_loop h (base_class_name p # visited) (base_class_name p))"
  by pat_completeness auto
termination
proof (relation "measure (\<lambda>(h, visited, cur). card ((\<lambda>x. base_class_name (snd x)) ` set h - set visited))")
  fix h :: "string hash_map" and visited cur p
  assume p: "map_of h cur = Some p" "base_class_name p \<notin> set visited"
  from p(1) have "base_class_name p \<in> (\<lambda>x. base_class_name (snd x)) ` set h"
    by (force dest!: map_of_SomeD)
  with p(2) show "((h, base_class_name p # visited, base_class_name p), h, visited, cur)
      \<in> measure (\<lambda>(h, visited, cur). card ((\<lambda>x. base_class_name (snd x)) ` set h - set visited))"
    unfolding in_measure split_conv by (intro mark_less) auto
qed simp

declare parent_loop.simps [simp del]

definition parent_chain :: "checker \<Rightarrow> string \<Rightarrow> string list" where
  "parent_chain tc n = parent_loop (tc_class_hierarchy tc) [] (base_class_name n)"

definition is_same_or_subclass :: "checker \<Rightarrow> string \<Rightarrow> string \<Rightarrow> bool" where
  "is_same_or_subclass tc child ancestor \<longleftrightarrow>
     base_class_name child = base_class_name ancestor
     \<or> base_class_name ancestor \<in> set (parent_chain tc (base_class_name child))"

function cycle_loop :: "string hash_map \<Rightarrow> string list \<Rightarrow> string \<Rightarrow> string list option" where
  "cycle_loop h order cur =
     (if cur \<in> set order then Some (dropWhile (\<lambda>x. x \<noteq> cur) order @ [cur])
      else case map_of h cur of
             None \<Rightarrow> None
           | Some p \<Rightarrow> cycle_loop h (order @ [cur]) (base_class_name p))"
  by pat_completeness auto
termination
proof (relation "measure (\<lambda>(h, order, cur). card (fst ` set h - set order))")
  fix h :: "string hash_map" and order cur p
  assume p: "cur \<notin> set order" "map_of h cur = Some p"
  from p(2) have "cur \<in> fst ` set h" by (force dest!: map_of_SomeD)
  with p(1) show "((h, order @ [cur], base_class_name p), h, order, cur)
      \<in> measure (\<lambda>(h, order, cur). card (fst ` set h - set order))"
    unfolding in_measure split_conv by (intro mark_less) auto
qed simp

declare cycle_loop.simps [simp del]

definition detect_inheritance_cycle :: "checker \<Rightarrow> string \<Rightarrow> string list option" where
  "detect_inheritance_cycle tc n = cycle_loop (tc_class_hierarchy tc) [] (base_class_name n)"

definition report_inheritance_cycle_if_needed :: "string \<Rightarrow> nat \<Rightarrow> nat \<Rightarrow> checker \<Rightarrow> bool \<times> checker" where
  "report_inheritance_cycle_if_needed n l c tc =
     (case detect_inheritance_cycle tc n of
        Some cyc \<Rightarrow>
          (True, report_error_detailed (''Circular inheritance detected: '' @ join_with '' -> '' cyc) l c ''E0111''
                   (Some ''Break the cycle so every class has a finite parent chain'') tc)
      | None \<Rightarrow> (False, tc))"

section \<open>Signatures of functions\<close>

definition access_rank :: "AccessLevel \<Rightarrow> nat" where
  "access_rank a = (case a of LevelPrivate \<Rightarrow> 0 | LevelProtected \<Rightarrow> 1 | LevelPublic \<Rightarrow> 2)"

definition or_inferred :: "string \<Rightarrow> string" where
  "or_inferred s = (if s = [] then inferred_name else s)"

definition param_text_of :: "Expr Parameter \<Rightarrow> string" where
  "param_text_of p = or_inferred (type_node_to_string (param_type p))"

definition function_signature_type :: "(Expr, Statement) FunctionDeclaration \<Rightarrow> TejxType" where
  "function_signature_type f =
     (let r = type_node_to_string (fn_return_type f) in
      TyFunction (map (\<lambda>p. from_name (param_text_of p)) (fn_params f))
        (from_name (if r = [] then ''void'' else r)))"

definition callable_text :: "string \<Rightarrow> bool" where
  "callable_text n \<longleftrightarrow> starts_with n function_prefix \<or> str_contains n ''=>''"

text \<open>The return type of a parsed signature without its \<open>function:\<close> tag.\<close>

definition strip_tag :: "string \<Rightarrow> string" where
  "strip_tag rty = (case split_once CHR '':'' rty of Some (_, r) \<Rightarrow> r | None \<Rightarrow> rty)"

definition callable_return_type :: "TejxType \<Rightarrow> TejxType option option" where
  "callable_return_type t =
     (case t of
        TyFunction _ r \<Rightarrow> Some (Some r)
      | TyClass n gs \<Rightarrow>
          (if gs = [] \<and> callable_text n then
             do { (rty, _, _) \<leftarrow> parse_signature n; Some (Some (from_name (strip_tag rty))) }
           else Some None)
      | _ \<Rightarrow> Some None)"

definition effective_async_return_type :: "TejxType \<Rightarrow> bool \<Rightarrow> TejxType" where
  "effective_async_return_type t is_async =
     (if is_async \<and> \<not> (case t of TyClass n _ \<Rightarrow> n = ''Promise'' | _ \<Rightarrow> False) then TyClass ''Promise'' [t] else t)"

definition remember_inferred_function_return ::
  "(Expr, Statement) FunctionDeclaration \<Rightarrow> TejxType \<Rightarrow> checker \<Rightarrow> checker" where
  "remember_inferred_function_return f t tc =
     (if type_node_to_string (fn_return_type f) = [] \<and> to_name t \<noteq> inferred_name then
        tc\<lparr>tc_inferred_function_returns :=
             AList.update (tc_current_file tc, fn_line f, fn_col f, fn_name f) t (tc_inferred_function_returns tc)\<rparr>
      else tc)"

definition remember_inferred_member_return ::
  "string \<Rightarrow> (Expr, Statement) FunctionDeclaration \<Rightarrow> TejxType \<Rightarrow> checker \<Rightarrow> checker" where
  "remember_inferred_member_return owner f t tc =
     (if type_node_to_string (fn_return_type f) = [] \<and> to_name t \<noteq> inferred_name then
        tc\<lparr>tc_inferred_member_returns :=
             AList.update (tc_current_file tc, owner, fn_line f, fn_col f, fn_name f) t (tc_inferred_member_returns tc)\<rparr>
      else tc)"

definition class_this_type :: "(Expr, Statement) ClassDeclaration \<Rightarrow> string" where
  "class_this_type d =
     (case d of ClassDeclaration name _ gs _ _ _ _ _ _ _ _ _ \<Rightarrow>
        if gs = [] then name else name @ ''<'' @ join_with '', '' (map generic_name gs) @ ''>'')"

text \<open>The scopes come innermost first; only the first scope with the name counts.\<close>

fun update_return_scopes :: "string \<Rightarrow> TejxType \<Rightarrow> Symbol hash_map list \<Rightarrow> bool \<times> Symbol hash_map list" where
  "update_return_scopes n t [] = (False, [])"
| "update_return_scopes n t (sc # scs) =
     (case map_of sc n of
        None \<Rightarrow> apsnd ((#) sc) (update_return_scopes n t scs)
      | Some s \<Rightarrow>
          (case sy_ty s of
             TyFunction ps r \<Rightarrow>
               (if r \<noteq> t then (True, AList.update n (s\<lparr>sy_ty := TyFunction ps t\<rparr>) sc # scs) else (False, sc # scs))
           | _ \<Rightarrow> (False, sc # scs)))"

definition update_function_symbol_return_type :: "string \<Rightarrow> TejxType \<Rightarrow> checker \<Rightarrow> bool \<times> checker" where
  "update_function_symbol_return_type n t tc =
     (let (changed, scs) = update_return_scopes n t (rev (tc_scopes tc)) in (changed, tc\<lparr>tc_scopes := rev scs\<rparr>))"

text \<open>The parameters a member's type has, by its structure or its text.\<close>

definition member_parameters :: "TejxType \<Rightarrow> TejxType list option" where
  "member_parameters t =
     (case t of
        TyFunction ps _ \<Rightarrow> Some ps
      | _ \<Rightarrow> if callable_text (to_name t) then
              do { (_, ps, _) \<leftarrow> parse_signature (to_name t); Some (map from_name ps) }
            else Some [])"

definition update_class_member_return_type ::
  "string \<Rightarrow> string \<Rightarrow> TejxType \<Rightarrow> checker \<Rightarrow> (bool \<times> checker) option" where
  "update_class_member_return_type cls m t tc =
     (case map_of (tc_class_members tc) cls of
        None \<Rightarrow> Some (False, tc)
      | Some members \<Rightarrow>
          (case map_of members m of
             None \<Rightarrow> Some (False, tc)
           | Some info \<Rightarrow>
               do { ps \<leftarrow> member_parameters (mi_ty info);
                    Some (if mi_ty info = TyFunction ps t then (False, tc)
                          else (True, tc\<lparr>tc_class_members :=
                                  AList.update cls (AList.update m (info\<lparr>mi_ty := TyFunction ps t\<rparr>) members)
                                    (tc_class_members tc)\<rparr>)) }))"

section \<open>Collecting declarations\<close>

primrec fold_option :: "('a \<Rightarrow> 'b \<Rightarrow> 'b option) \<Rightarrow> 'a list \<Rightarrow> 'b \<Rightarrow> 'b option" where
  "fold_option f [] b = Some b"
| "fold_option f (x # xs) b = do { b' \<leftarrow> f x b; fold_option f xs b' }"

definition access_level :: "AccessModifier \<Rightarrow> AccessLevel" where
  "access_level a = (case a of Private \<Rightarrow> LevelPrivate | Protected \<Rightarrow> LevelProtected | Public \<Rightarrow> LevelPublic)"

definition required_params :: "Expr Parameter list \<Rightarrow> nat" where
  "required_params ps = length (filter (\<lambda>p. param_default p = None \<and> \<not> param_rest p) ps)"

definition member_info :: "TejxType \<Rightarrow> bool \<Rightarrow> AccessLevel \<Rightarrow> bool \<Rightarrow> Expr GenericParam list \<Rightarrow> nat option \<Rightarrow> MemberInfo" where
  "member_info t static access readonly gs min_params =
     \<lparr>mi_ty = t, mi_is_static = static, mi_access = access, mi_is_readonly = readonly,
      mi_generic_params = gs, mi_min_params = min_params\<rparr>"

definition collect_field ::
  "Expr GenericParam list \<Rightarrow> Expr ClassMember \<Rightarrow> MemberInfo hash_map \<Rightarrow> MemberInfo hash_map option" where
  "collect_field gs m ms =
     (case m of ClassMember n t a static _ \<Rightarrow>
        do { ty \<leftarrow> parameterize_generics (or_inferred (type_node_to_string t)) gs;
             Some (AList.update n (member_info (from_name ty) static (access_level a) False [] None) ms) })"

text \<open>The signature of a method is written as a text, read back and written again.\<close>

definition method_signature :: "(Expr, Statement) FunctionDeclaration \<Rightarrow> string option" where
  "method_signature f =
     (let rty = or_inferred (type_node_to_string (fn_return_type f));
          ps = join_with '','' (map param_text_of (fn_params f));
          sig = (if ps = [] then function_prefix @ rty else function_prefix @ rty @ '':'' @ ps)
      in do { (final_type, final_params, _) \<leftarrow> parse_signature sig;
              Some (if final_params = [] then final_type
                    else final_type @ '':'' @ join_with '','' final_params) })"

definition collect_method ::
  "Expr GenericParam list \<Rightarrow> (Expr, Statement) ClassMethod \<Rightarrow> MemberInfo hash_map \<Rightarrow> MemberInfo hash_map option" where
  "collect_method gs m ms =
     (case m of ClassMethod f a static _ \<Rightarrow>
        do { sig \<leftarrow> method_signature f;
             ty \<leftarrow> parameterize_generics sig gs;
             Some (AList.update (fn_name f)
                     (member_info (from_name ty) static (access_level a) True (fn_generics f)
                        (Some (required_params (fn_params f)))) ms) })"

definition collect_getter ::
  "Expr GenericParam list \<Rightarrow> (Expr, Statement) ClassGetter \<Rightarrow> MemberInfo hash_map \<Rightarrow> MemberInfo hash_map option" where
  "collect_getter gs g ms =
     (case g of ClassGetter n t _ _ \<Rightarrow>
        do { ty \<leftarrow> parameterize_generics (type_node_to_string t) gs;
             Some (AList.update n (member_info (from_name ty) False LevelPublic True [] None) ms) })"

definition collect_setter ::
  "Expr GenericParam list \<Rightarrow> (Expr, Statement) ClassSetter \<Rightarrow> MemberInfo hash_map \<Rightarrow> MemberInfo hash_map option" where
  "collect_setter gs s ms =
     (case s of ClassSetter n _ t _ _ \<Rightarrow>
        (case map_of ms n of
           Some info \<Rightarrow> Some (AList.update n (info\<lparr>mi_is_readonly := False\<rparr>) ms)
         | None \<Rightarrow>
             do { ty \<leftarrow> parameterize_generics (type_node_to_string t) gs;
                  Some (AList.update n (member_info (from_name ty) False LevelPublic False [] None) ms) }))"

definition collect_constructor ::
  "Expr GenericParam list \<Rightarrow> (Expr, Statement) FunctionDeclaration option \<Rightarrow> MemberInfo hash_map \<Rightarrow>
     MemberInfo hash_map option" where
  "collect_constructor gs f ms =
     (case f of
        None \<Rightarrow> Some ms
      | Some f \<Rightarrow>
          do { tys \<leftarrow> those (map (\<lambda>p. parameterize_generics (param_text_of p) gs) (fn_params f));
               Some (AList.update ''constructor''
                       (member_info (TyFunction (map from_name tys) TyVoid) False LevelPublic True []
                          (Some (required_params (fn_params f)))) ms) })"

definition class_symbol :: "Expr GenericParam list \<Rightarrow> checker \<Rightarrow> Symbol" where
  "class_symbol gs tc = (plain_symbol (from_name ''class'') [] False tc)\<lparr>sy_generic_params := gs\<rparr>"

definition collect_class :: "(Expr, Statement) ClassDeclaration \<Rightarrow> checker \<Rightarrow> checker option" where
  "collect_class d tc =
     (case d of ClassDeclaration name parent gs abstract _ ms fs getters setters ctor l c \<Rightarrow>
        let tc1 = (if 1 < length (tc_scopes tc) then
                     report_error_detailed
                       (''Class '' @ quote_char # name @ quote_char # '' cannot be defined inside a function or block'')
                       l c ''E0114'' (Some ''Move the class definition to the top level of the file'') tc
                   else tc);
            tc2 = insert_symbol name (class_symbol gs tc1) tc1;
            tc3 = (if abstract then tc2\<lparr>tc_abstract_classes := List.insert name (tc_abstract_classes tc2)\<rparr> else tc2);
            tc4 = (if parent = [] then tc3
                   else tc3\<lparr>tc_class_hierarchy := AList.update name parent (tc_class_hierarchy tc3)\<rparr>)
        in do { ms1 \<leftarrow> fold_option (collect_field gs) ms [];
                ms2 \<leftarrow> fold_option (collect_method gs) fs ms1;
                ms3 \<leftarrow> fold_option (collect_getter gs) getters ms2;
                ms4 \<leftarrow> fold_option (collect_setter gs) setters ms3;
                ms5 \<leftarrow> collect_constructor gs ctor ms4;
                Some (tc4\<lparr>tc_class_members := AList.update name ms5 (tc_class_members tc4)\<rparr>) })"

definition collect_function :: "(Expr, Statement) FunctionDeclaration \<Rightarrow> checker \<Rightarrow> checker" where
  "collect_function f tc =
     (let ps = map (\<lambda>p. from_name (param_text_of p)) (fn_params f);
          required = required_params (fn_params f)
      in insert_symbol (fn_name f)
           ((plain_symbol
               (TyFunction ps (from_name (or_inferred (type_node_to_string (fn_return_type f)))))
               ps (list_ex param_rest (fn_params f)) tc)
              \<lparr>sy_min_params := (if required < length ps then Some required else None),
               sy_generic_params := fn_generics f\<rparr>) tc)"

definition collect_alias :: "string \<Rightarrow> Type_Node \<Rightarrow> checker \<Rightarrow> checker" where
  "collect_alias n t tc =
     insert_symbol n
       ((plain_symbol (from_name ''type'') [] False tc)
          \<lparr>sy_is_const := True, sy_aliased_type := Some (from_node t)\<rparr>) tc"

definition collect_enum :: "Expr EnumDeclaration \<Rightarrow> checker \<Rightarrow> checker option" where
  "collect_enum d tc =
     (case d of EnumDeclaration n ms _ _ \<Rightarrow>
        do { tc' \<leftarrow> define_symbol n ''enum'' tc;
             Some (tc'\<lparr>tc_class_members :=
               AList.update n
                 (foldl (\<lambda>m x. case x of EnumMember k _ \<Rightarrow>
                    AList.update k (member_info (from_name n) True LevelPublic True [] None) m) [] ms)
                 (tc_class_members tc')\<rparr>) })"

definition interface_signature :: "Expr InterfaceMethod \<Rightarrow> string \<times> string" where
  "interface_signature m =
     (case m of InterfaceMethod n ps r \<Rightarrow>
        (n, function_prefix @ type_node_to_string r @ '':''
              @ join_with '','' (map (\<lambda>p. type_node_to_string (param_type p)) ps)))"

definition collect_interface :: "string \<Rightarrow> Expr InterfaceMethod list \<Rightarrow> checker \<Rightarrow> checker option" where
  "collect_interface n ms tc =
     do { tc' \<leftarrow> define_symbol n ''interface'' tc;
          Some (tc'\<lparr>tc_interfaces :=
            AList.update n
              (foldl (\<lambda>m x. AList.update (fst (interface_signature x))
                   (member_info (from_name (snd (interface_signature x))) False LevelPublic True [] None) m) [] ms)
              (tc_interfaces tc')\<rparr>) }"

fun collect_declarations :: "Statement \<Rightarrow> checker \<Rightarrow> checker option" where
  "collect_declarations s tc =
     (case s of
        ClassDeclarationStmt d \<Rightarrow> collect_class d tc
      | FunctionDeclarationStmt f \<Rightarrow> Some (collect_function f tc)
      | TypeAliasDeclaration n t _ _ \<Rightarrow> Some (collect_alias n t tc)
      | EnumDeclarationStmt d \<Rightarrow> collect_enum d tc
      | InterfaceDeclaration n ms _ _ \<Rightarrow> collect_interface n ms tc
      | ExportDecl d _ _ _ \<Rightarrow> collect_declarations d tc
      | _ \<Rightarrow> Some tc)"

declare collect_declarations.simps [simp del]

section \<open>Members\<close>

definition normalize_member_container :: "checker \<Rightarrow> string \<Rightarrow> string" where
  "normalize_member_container tc obj =
     (let unwrapped =
            (if CHR ''|'' \<in> set obj then
               (case filter (\<lambda>s. s \<noteq> ''None'' \<and> s \<noteq> []) (map trim (split_char CHR ''|'' obj)) of
                  s # _ \<Rightarrow> s | [] \<Rightarrow> obj)
             else obj)
      in if map_of (tc_class_members tc) unwrapped = None then takeWhile (\<lambda>c. c \<noteq> CHR ''<'') unwrapped
         else unwrapped)"

text \<open>The names a container offers itself.\<close>

definition own_member_names :: "checker \<Rightarrow> bool \<Rightarrow> string \<Rightarrow> string list" where
  "own_member_names tc want_static cur =
     (case map_of (tc_class_members tc) cur of
        Some ms \<Rightarrow> map fst (filter (\<lambda>(n, i). mi_is_static i = want_static) ms)
      | None \<Rightarrow> [])
     @ (if want_static then []
        else case map_of (tc_interfaces tc) cur of Some ms \<Rightarrow> map fst ms | None \<Rightarrow> [])"

partial_function (option) member_names_loop :: "checker \<Rightarrow> bool \<Rightarrow> string list \<Rightarrow> string \<Rightarrow> string list option" where
  "member_names_loop tc want_static names cur =
     (if cur = [] \<or> cur = inferred_name then Some names
      else case map_of (tc_class_hierarchy tc) cur of
             Some p \<Rightarrow> member_names_loop tc want_static (names @ own_member_names tc want_static cur) p
           | None \<Rightarrow> Some (names @ own_member_names tc want_static cur))"

definition collect_member_names :: "checker \<Rightarrow> string \<Rightarrow> bool \<Rightarrow> string list option" where
  "collect_member_names tc obj want_static =
     (let t = from_name obj;
          start = (if want_static then []
                   else (case member_names t of Some ns \<Rightarrow> ns | None \<Rightarrow> [])
                        @ (case t of TyObject ps \<Rightarrow> map fst ps | _ \<Rightarrow> []))
      in map_option (\<lambda>ns. sort (remdups ns))
           (member_names_loop tc want_static start (normalize_member_container tc obj)))"

text \<open>What a container declares under a name, as a class or as an interface.\<close>

definition own_member :: "checker \<Rightarrow> string \<Rightarrow> string \<Rightarrow> MemberInfo option" where
  "own_member tc cur m =
     (case Option.bind (map_of (tc_class_members tc) cur) (\<lambda>ms. map_of ms m) of
        Some i \<Rightarrow> Some i
      | None \<Rightarrow> Option.bind (map_of (tc_interfaces tc) cur) (\<lambda>ms. map_of ms m))"

partial_function (option) resolve_loop :: "checker \<Rightarrow> string \<Rightarrow> string \<Rightarrow> (string \<times> MemberInfo) option option" where
  "resolve_loop tc m cur =
     (if cur = [] \<or> cur = inferred_name then Some None
      else case own_member tc cur m of
             Some i \<Rightarrow> Some (Some (cur, i))
           | None \<Rightarrow>
               (case map_of (tc_class_hierarchy tc) cur of
                  Some p \<Rightarrow> resolve_loop tc m p
                | None \<Rightarrow> Some None))"

definition resolve_instance_member_with_owner ::
  "checker \<Rightarrow> string \<Rightarrow> string \<Rightarrow> (string \<times> MemberInfo) option option" where
  "resolve_instance_member_with_owner tc obj m =
     (case (case from_name obj of TyObject ps \<Rightarrow> find (\<lambda>(n, _, _). n = m) ps | _ \<Rightarrow> None) of
        Some (_, _, t) \<Rightarrow> Some (Some ([], member_info t False LevelPublic False [] None))
      | None \<Rightarrow> resolve_loop tc m (normalize_member_container tc obj))"

definition resolve_instance_member :: "checker \<Rightarrow> string \<Rightarrow> string \<Rightarrow> MemberInfo option option" where
  "resolve_instance_member tc obj m = map_option (map_option snd) (resolve_instance_member_with_owner tc obj m)"

definition is_member_accessible_from_current_class :: "checker \<Rightarrow> string \<Rightarrow> AccessLevel \<Rightarrow> bool" where
  "is_member_accessible_from_current_class tc declaring a =
     (case a of
        LevelPublic \<Rightarrow> True
      | LevelPrivate \<Rightarrow> map_option base_class_name (tc_current_class tc) = Some (base_class_name declaring)
      | LevelProtected \<Rightarrow>
          (case tc_current_class tc of
             Some c \<Rightarrow> is_same_or_subclass tc (base_class_name c) (base_class_name declaring)
           | None \<Rightarrow> False))"

end
