(* ===== verification/Compat.thy ===== *)
theory Compat
  imports Classes
begin

text \<open>
  Compatibility of types, \<open>src/compiler/middle/semantic/compat.rs\<close>, with the strict comparison
  of signatures of \<open>semantic/class.rs\<close> and the instantiation of generics of
  \<open>semantic/generics.rs\<close>. \<open>are_types_compatible\<close> follows aliases and may call itself for ever;
  then it has no value, \<open>None\<close>. Its parts take the recursive call as the argument \<open>r\<close>.
\<close>

section \<open>Lazy connectives\<close>

text \<open>\<open>if m { return true; }\<close> before the rest \<open>k\<close>.\<close>

definition or_else :: "bool option \<Rightarrow> bool option \<Rightarrow> bool option" where
  "or_else m k = do { b \<leftarrow> m; if b then Some True else k }"

text \<open>A loop that stops at the first element where \<open>f\<close> does not hold.\<close>

primrec all_option :: "('a \<Rightarrow> bool option) \<Rightarrow> 'a list \<Rightarrow> bool option" where
  "all_option f [] = Some True"
| "all_option f (x # xs) = do { b \<leftarrow> f x; if b then all_option f xs else Some False }"

lemma all_option_cong [fundef_cong]:
  "xs = ys \<Longrightarrow> (\<And>x. x \<in> set ys \<Longrightarrow> f x = g x) \<Longrightarrow> all_option f xs = all_option g ys"
proof (induction ys arbitrary: xs)
  case (Cons y ys)
  then have "all_option f ys = all_option g ys" "f y = g y" by auto
  then show ?case using Cons.prems(1) by (simp cong: if_cong)
qed simp

lemma mono_case_prod: "(\<And>a b. mono_option (\<lambda>f. g f a b)) \<Longrightarrow> mono_option (\<lambda>f. case p of (a, b) \<Rightarrow> g f a b)"
  by (cases p) simp

lemma mono_case_option:
  "mono_option m \<Longrightarrow> (\<And>x. mono_option (\<lambda>f. k f x)) \<Longrightarrow> mono_option (\<lambda>f. case v of None \<Rightarrow> m f | Some x \<Rightarrow> k f x)"
  by (cases v) simp_all

lemma or_else_mono [partial_function_mono]:
  "mono_option m \<Longrightarrow> mono_option k \<Longrightarrow> mono_option (\<lambda>f. or_else (m f) (k f))"
  unfolding or_else_def by (intro partial_function_mono)

lemma all_option_mono [partial_function_mono]:
  "(\<And>x. mono_option (\<lambda>f. g f x)) \<Longrightarrow> mono_option (\<lambda>f. all_option (g f) xs)"
  by (induction xs) (auto intro!: partial_function_mono)

section \<open>Parts of the comparison\<close>

definition is_uppercase :: "char \<Rightarrow> bool" where
  "is_uppercase c \<longleftrightarrow> is_ascii_upper c \<or> (0xC0 \<le> code c \<and> code c \<le> 0xDE \<and> code c \<noteq> 0xD7)"

text \<open>A class without arguments whose name has at most two bytes and starts with a capital.\<close>

definition is_generic_wildcard :: "TejxType \<Rightarrow> bool" where
  "is_generic_wildcard t =
     (case t of TyClass n gs \<Rightarrow> gs = [] \<and> byte_len n \<le> 2 \<and> n \<noteq> [] \<and> is_uppercase (hd n) | _ \<Rightarrow> False)"

definition alias_of :: "checker \<Rightarrow> TejxType \<Rightarrow> TejxType option" where
  "alias_of tc t = (case t of TyClass n _ \<Rightarrow> Option.bind (lookup tc n) sy_aliased_type | _ \<Rightarrow> None)"

primrec resolve_alias :: "nat \<Rightarrow> checker \<Rightarrow> TejxType \<Rightarrow> TejxType" where
  "resolve_alias 0 tc t = t"
| "resolve_alias (Suc n) tc t = (case alias_of tc t of Some u \<Rightarrow> resolve_alias n tc u | None \<Rightarrow> t)"

definition resolve_type :: "checker \<Rightarrow> TejxType \<Rightarrow> TejxType" where
  "resolve_type tc t = resolve_alias 10 tc t"

definition missing_generic :: "TejxType \<Rightarrow> bool" where
  "missing_generic t = (case t of TyClass n _ \<Rightarrow> starts_with n ''$MISSING_GENERIC_'' | _ \<Rightarrow> False)"

definition array_compatible :: "(TejxType \<Rightarrow> TejxType \<Rightarrow> bool option) \<Rightarrow> TejxType \<Rightarrow> TejxType \<Rightarrow> bool option" where
  "array_compatible r e a =
     (case e of
        TyDynamicArray x \<Rightarrow>
          (case a of TyDynamicArray y \<Rightarrow> r x y | TyFixedArray y _ \<Rightarrow> r x y | _ \<Rightarrow> Some False)
      | TyFixedArray x n \<Rightarrow>
          (case a of TyDynamicArray y \<Rightarrow> r x y | TyFixedArray y m \<Rightarrow> if n = m then r x y else Some False
           | _ \<Rightarrow> Some False)
      | TySlice x \<Rightarrow>
          (case a of TySlice y \<Rightarrow> r x y | TyDynamicArray y \<Rightarrow> r x y | TyFixedArray y _ \<Rightarrow> r x y
           | TyString \<Rightarrow> Some (x = TyChar \<or> x = TyInt32) | _ \<Rightarrow> Some False)
      | _ \<Rightarrow> Some False)"

definition class_args_compatible :: "(TejxType \<Rightarrow> TejxType \<Rightarrow> bool option) \<Rightarrow> TejxType \<Rightarrow> TejxType \<Rightarrow> bool option" where
  "class_args_compatible r e a =
     (case e of
        TyClass en eg \<Rightarrow>
          (case a of
             TyClass an ag \<Rightarrow>
               if en = an \<and> length eg = length ag then all_option (\<lambda>(x, y). r x y) (zip eg ag) else Some False
           | _ \<Rightarrow> Some False)
      | _ \<Rightarrow> Some False)"

text \<open>The type of an empty array literal.\<close>

definition is_empty_array :: "TejxType \<Rightarrow> bool" where
  "is_empty_array a \<longleftrightarrow> a = TyClass ''[]'' []"

definition inherits :: "checker \<Rightarrow> TejxType \<Rightarrow> TejxType \<Rightarrow> bool" where
  "inherits tc e a =
     (case e of
        TyClass en _ \<Rightarrow>
          (case a of
             TyClass an _ \<Rightarrow>
               base_class_name en \<noteq> base_class_name an
               \<and> is_same_or_subclass tc (base_class_name an) (base_class_name en)
           | _ \<Rightarrow> False)
      | _ \<Rightarrow> False)"

definition implements :: "checker \<Rightarrow> TejxType \<Rightarrow> TejxType \<Rightarrow> bool" where
  "implements tc e a =
     (case map_of (tc_interfaces tc) (to_name e) of
        Some ms \<Rightarrow>
          (case map_of (tc_class_members tc) (to_name a) of
             Some am \<Rightarrow> list_all (\<lambda>(m, _). map_of am m \<noteq> None) ms
           | None \<Rightarrow> False)
      | None \<Rightarrow> False)"

definition function_compatible :: "(TejxType \<Rightarrow> TejxType \<Rightarrow> bool option) \<Rightarrow> TejxType \<Rightarrow> TejxType \<Rightarrow> bool option" where
  "function_compatible r e a =
     (case e of
        TyFunction ep er \<Rightarrow>
          (case a of
             TyClass n _ \<Rightarrow> Some (n = ''function'')
           | TyFunction ap ar \<Rightarrow>
               do { ok \<leftarrow> (if is_generic_wildcard er \<and> ar = TyVoid \<or> is_generic_wildcard ar \<and> er = TyVoid
                          then Some True else r er ar);
                    if ok \<and> length ap \<le> length ep then
                      all_option (\<lambda>(x, y). do { b \<leftarrow> r x y; Some (b \<or> x = TyAny \<or> y = TyAny) }) (zip ep ap)
                    else Some False }
           | _ \<Rightarrow> Some False)
      | TyClass n _ \<Rightarrow> Some (n = ''function'' \<and> (case a of TyFunction _ _ \<Rightarrow> True | _ \<Rightarrow> False))
      | _ \<Rightarrow> Some False)"

definition is_optional :: "TejxType \<Rightarrow> bool" where
  "is_optional t = (case t of TyOptional _ \<Rightarrow> True | _ \<Rightarrow> False)"

definition unwrap_optional_type :: "TejxType \<Rightarrow> TejxType" where
  "unwrap_optional_type t = (case t of TyOptional u \<Rightarrow> u | _ \<Rightarrow> t)"

text \<open>The type an object gives to a key.\<close>

definition prop_of :: "(string \<times> bool \<times> TejxType) list \<Rightarrow> string \<Rightarrow> TejxType option" where
  "prop_of ps k = map_of (map (\<lambda>(k, _, t). (k, t)) ps) k"

text \<open>
  The keys of the object must be expected; each expected key is compared, or may be missing.
\<close>

definition keys_compatible ::
  "(TejxType \<Rightarrow> TejxType \<Rightarrow> bool option) \<Rightarrow> (string \<times> 'b) list \<Rightarrow> ('b \<Rightarrow> TejxType) \<Rightarrow> ('b \<Rightarrow> bool) \<Rightarrow>
     (TejxType \<Rightarrow> TejxType) \<Rightarrow> (string \<times> bool \<times> TejxType) list \<Rightarrow> bool option" where
  "keys_compatible r es ty may_miss unwrap ap =
     (if list_all (\<lambda>(k, _, _). k \<in> fst ` set es) ap then
        all_option (\<lambda>(k, x). case prop_of ap k of Some t \<Rightarrow> r (ty x) (unwrap t) | None \<Rightarrow> Some (may_miss x)) es
      else Some False)"

definition is_inline_struct :: "string \<Rightarrow> bool" where
  "is_inline_struct n \<longleftrightarrow> starts_with n ''{'' \<and> ends_with n ''}''"

text \<open>A property of a class whose name is the text of an object type: key and text of its type.\<close>

definition inline_prop :: "string \<Rightarrow> (string \<times> string) option" where
  "inline_prop part =
     (let p = trim part in
      case split_once CHR '':'' p of
        None \<Rightarrow> None
      | Some (k0, t0) \<Rightarrow>
          let k = trim k0; opt = ends_with k ''?''; t = trim t0 in
          Some (if opt then butlast k else k,
                if opt \<and> \<not> starts_with t ''Optional<'' then ''Optional<'' @ t @ ''>'' else t))"

definition inline_props :: "string \<Rightarrow> (string \<times> string) list" where
  "inline_props n = List.map_filter inline_prop (split_char CHR '';'' (trim (slice 1 (length n - 1) n)))"

definition structural_compatible ::
  "checker \<Rightarrow> (TejxType \<Rightarrow> TejxType \<Rightarrow> bool option) \<Rightarrow> TejxType \<Rightarrow> TejxType \<Rightarrow> bool option" where
  "structural_compatible tc r e a =
     (case a of
        TyObject ap \<Rightarrow>
          (case e of
             TyObject ep \<Rightarrow> keys_compatible r ep snd (\<lambda>(opt, t). opt \<or> is_optional t) id ap
           | TyClass n _ \<Rightarrow>
               if is_inline_struct n then
                 keys_compatible r (inline_props n) (\<lambda>t. unwrap_optional_type (from_name t))
                   (\<lambda>t. starts_with t ''Optional<'') unwrap_optional_type ap
               else (case map_of (tc_class_members tc) n of
                       Some ms \<Rightarrow>
                         keys_compatible r ms mi_ty
                           (\<lambda>i. is_optional (mi_ty i) \<or> starts_with (to_name (mi_ty i)) function_prefix
                                \<or> (case mi_ty i of TyFunction _ _ \<Rightarrow> True | _ \<Rightarrow> False)) id ap
                     | None \<Rightarrow> Some False)
           | _ \<Rightarrow> Some False)
      | _ \<Rightarrow> Some False)"

text \<open>The rest of the comparison, on the resolved types.\<close>

definition resolved_compatible ::
  "checker \<Rightarrow> (TejxType \<Rightarrow> TejxType \<Rightarrow> bool option) \<Rightarrow> TejxType \<Rightarrow> TejxType \<Rightarrow> bool option" where
  "resolved_compatible tc r e0 a0 =
     (let e = resolve_type tc e0; a = resolve_type tc a0 in
      if (e \<noteq> e0 \<or> a \<noteq> a0) \<and> e = a then Some True
      else if missing_generic e \<or> missing_generic a then Some True
      else if e = TyString \<and> a = TyChar then Some True
      else if is_numeric e \<and> is_numeric a then Some True
      else if to_name a = ''None'' \<and> starts_with (to_name e) ''Optional<'' then Some True
      else or_else (array_compatible r e a)
             (or_else (class_args_compatible r e a)
                (if is_empty_array a \<and> is_array e \<or> inherits tc e a \<or> implements tc e a then Some True
                 else or_else (function_compatible r e a) (structural_compatible tc r e a))))"

definition optional_compatible ::
  "checker \<Rightarrow> (TejxType \<Rightarrow> TejxType \<Rightarrow> bool option) \<Rightarrow> TejxType \<Rightarrow> TejxType \<Rightarrow> bool option" where
  "optional_compatible tc r e a =
     (case e of
        TyOptional x \<Rightarrow>
          if to_name a = ''None'' then Some True
          else (case a of
                  TyOptional y \<Rightarrow> r x y
                | _ \<Rightarrow> or_else (r x a) (resolved_compatible tc r e a))
      | _ \<Rightarrow> resolved_compatible tc r e a)"

text \<open>The pairs accepted without a look into the types.\<close>

definition trivially_compatible :: "TejxType \<Rightarrow> TejxType \<Rightarrow> bool" where
  "trivially_compatible e a \<longleftrightarrow>
     e = a \<or> e = TyAny \<or> a = TyAny \<or> to_name e = inferred_name \<or> to_name a = inferred_name
     \<or> is_generic_wildcard e \<or> is_generic_wildcard a"

lemma array_compatible_mono [partial_function_mono]:
  assumes "\<And>x y. mono_option (\<lambda>f. r f x y)"
  shows "mono_option (\<lambda>f. array_compatible (\<lambda>x y. r f x y) e a)"
  by (cases e; cases a; simp add: array_compatible_def; (intro conjI impI)?; intro partial_function_mono assms)

lemma class_args_compatible_mono [partial_function_mono]:
  assumes "\<And>x y. mono_option (\<lambda>f. r f x y)"
  shows "mono_option (\<lambda>f. class_args_compatible (\<lambda>x y. r f x y) e a)"
  unfolding class_args_compatible_def
  by (cases e; cases a; simp; (intro conjI impI)?; intro partial_function_mono mono_case_prod assms)

lemma function_compatible_mono [partial_function_mono]:
  assumes "\<And>x y. mono_option (\<lambda>f. r f x y)"
  shows "mono_option (\<lambda>f. function_compatible (\<lambda>x y. r f x y) e a)"
  unfolding function_compatible_def
  by (cases e; cases a; simp; intro partial_function_mono mono_case_prod assms)

lemma keys_compatible_mono [partial_function_mono]:
  assumes "\<And>x y. mono_option (\<lambda>f. r f x y)"
  shows "mono_option (\<lambda>f. keys_compatible (\<lambda>x y. r f x y) es ty mm un ap)"
  unfolding keys_compatible_def by (intro partial_function_mono mono_case_prod mono_case_option assms)

lemma structural_compatible_mono [partial_function_mono]:
  assumes "\<And>x y. mono_option (\<lambda>f. r f x y)"
  shows "mono_option (\<lambda>f. structural_compatible tc (\<lambda>x y. r f x y) e a)"
  unfolding structural_compatible_def
  by (cases a; cases e; simp; (intro conjI impI)?; intro partial_function_mono mono_case_option assms)

lemma resolved_compatible_mono [partial_function_mono]:
  assumes "\<And>x y. mono_option (\<lambda>f. r f x y)"
  shows "mono_option (\<lambda>f. resolved_compatible tc (\<lambda>x y. r f x y) e a)"
  unfolding resolved_compatible_def Let_def by (intro partial_function_mono assms)

lemma optional_compatible_mono [partial_function_mono]:
  assumes "\<And>x y. mono_option (\<lambda>f. r f x y)"
  shows "mono_option (\<lambda>f. optional_compatible tc (\<lambda>x y. r f x y) e a)"
proof (cases e)
  case (TyOptional x)
  show ?thesis
    unfolding optional_compatible_def TyOptional TejxType.case
    by (cases a; simp only: TejxType.case; intro partial_function_mono assms)
qed (simp_all add: optional_compatible_def, (intro partial_function_mono assms)+)

section \<open>The comparison\<close>

partial_function (option) are_types_compatible :: "checker \<Rightarrow> TejxType \<Rightarrow> TejxType \<Rightarrow> bool option" where
  "are_types_compatible tc e a =
     (if trivially_compatible e a then Some True
      else optional_compatible tc (\<lambda>x y. are_types_compatible tc x y) e a)"

definition is_assignable :: "checker \<Rightarrow> TejxType \<Rightarrow> TejxType \<Rightarrow> bool option" where
  "is_assignable tc target val =
     (if target = TyAny \<or> val = TyAny then Some True else are_types_compatible tc target val)"

definition is_throwable_error_type :: "checker \<Rightarrow> TejxType \<Rightarrow> bool option" where
  "is_throwable_error_type tc t =
     (if t = TyAny then Some False else are_types_compatible tc (TyClass ''Error'' []) t)"

text \<open>A callable type given by its text becomes a function type.\<close>

definition normalize_callable :: "TejxType \<Rightarrow> TejxType option" where
  "normalize_callable t =
     (case t of
        TyClass n gs \<Rightarrow>
          (if gs = [] \<and> callable_text n then
             do { (rty, ps, _) \<leftarrow> parse_signature n;
                  Some (TyFunction (map from_name ps) (from_name (strip_tag rty))) }
           else Some t)
      | _ \<Rightarrow> Some t)"

definition both_ways :: "checker \<Rightarrow> TejxType \<Rightarrow> TejxType \<Rightarrow> bool option" where
  "both_ways tc e a =
     do { b \<leftarrow> are_types_compatible tc e a; if b then are_types_compatible tc a e else Some False }"

definition member_signature_matches_strict :: "checker \<Rightarrow> TejxType \<Rightarrow> TejxType \<Rightarrow> bool option" where
  "member_signature_matches_strict tc expected actual =
     do { e \<leftarrow> normalize_callable expected;
          a \<leftarrow> normalize_callable actual;
          case (e, a) of
            (TyFunction ep er, TyFunction ap ar) \<Rightarrow>
              (if length ep = length ap then
                 do { ok \<leftarrow> all_option (\<lambda>(x, y). both_ways tc x y) (zip ep ap);
                      if ok then both_ways tc er ar else Some False }
               else Some False)
          | _ \<Rightarrow> both_ways tc e a }"

definition is_function_type :: "TejxType \<Rightarrow> bool" where
  "is_function_type t = (case t of TyFunction _ _ \<Rightarrow> True | _ \<Rightarrow> False)"

definition is_assignment_compatible :: "checker \<Rightarrow> TejxType \<Rightarrow> TejxType \<Rightarrow> bool option" where
  "is_assignment_compatible tc target val =
     (if is_function_type target \<and> is_function_type val then member_signature_matches_strict tc target val
      else is_assignable tc target val)"

section \<open>Valid types\<close>

definition generics_required :: "string list" where
  "generics_required = [''Optional'', ''Promise'', ''Ref'', ''Weak'', ''Dict'', ''Pair'', ''Result'']"

definition plain_class_valid :: "checker \<Rightarrow> string \<Rightarrow> bool" where
  "plain_class_valid tc n \<longleftrightarrow>
     n \<notin> set generics_required
     \<and> (case lookup tc n of Some s \<Rightarrow> sy_generic_params s = [] | None \<Rightarrow> True)
     \<and> (n \<in> {''function'', ''Iterator'', ''Iterable'', ''None''} \<or> callable_text n \<or> lookup tc n \<noteq> None)"

text \<open>The number of the arguments of a generic class and their bounds.\<close>

definition generic_args_valid :: "checker \<Rightarrow> string \<Rightarrow> TejxType list \<Rightarrow> bool option" where
  "generic_args_valid tc n gs =
     (if n \<in> {''Optional'', ''Promise'', ''Ref'', ''Weak''} then Some (length gs = 1)
      else case lookup tc n of
             None \<Rightarrow> Some False
           | Some s \<Rightarrow>
               if length (sy_generic_params s) \<noteq> length gs then Some False
               else all_option (\<lambda>(p, t). case generic_bound p of
                                  None \<Rightarrow> Some True | Some b \<Rightarrow> is_assignable tc (from_node b) t)
                      (zip (sy_generic_params s) gs))"

fun is_valid_type :: "checker \<Rightarrow> TejxType \<Rightarrow> bool option" where
  "is_valid_type tc (TyOptional t) = is_valid_type tc t"
| "is_valid_type tc (TyClass n gs) =
     (if gs = [] then Some (plain_class_valid tc n)
      else do { ok \<leftarrow> generic_args_valid tc n gs;
                if ok then all_option (is_valid_type tc) gs else Some False })"
| "is_valid_type tc (TyFixedArray t n) = is_valid_type tc t"
| "is_valid_type tc (TyDynamicArray t) = is_valid_type tc t"
| "is_valid_type tc (TySlice t) = is_valid_type tc t"
| "is_valid_type tc (TyFunction ps r) =
     do { ok \<leftarrow> all_option (is_valid_type tc) ps; if ok then is_valid_type tc r else Some False }"
| "is_valid_type tc (TyObject ps) = all_option (\<lambda>p. is_valid_type tc (snd (snd p))) ps"
| "is_valid_type tc t = Some True"

section \<open>Common ancestors and hints\<close>

definition ancestors :: "checker \<Rightarrow> string \<Rightarrow> string list" where
  "ancestors tc n = base_class_name n # parent_chain tc n"

definition get_common_ancestor :: "checker \<Rightarrow> TejxType \<Rightarrow> TejxType \<Rightarrow> TejxType" where
  "get_common_ancestor tc t1 t2 =
     (if t1 = t2 then t1
      else if is_numeric t1 \<and> is_numeric t2 \<and> \<not> is_float t1 \<and> \<not> is_float t2 then TyInt32
      else if to_name t1 = inferred_name then t2
      else if to_name t2 = inferred_name then t1
      else case find (\<lambda>p. p \<in> set (ancestors tc (to_name t1))) (ancestors tc (to_name t2)) of
             Some p \<Rightarrow> from_name p
           | None \<Rightarrow> from_name inferred_name)"

definition optional_requires_check_hint :: "TejxType \<Rightarrow> TejxType \<Rightarrow> string option" where
  "optional_requires_check_hint expected actual =
     (if is_optional actual \<and> \<not> (is_optional expected \<or> expected = TyAny) \<and> to_name expected \<noteq> ''None'' then
        Some (''Value of type '' @ quote_char # to_name actual @ quote_char #
              '' may be None; check it is not None before using it as '' @ quote_char # to_name expected
              @ [quote_char])
      else None)"

section \<open>Bounds of numeric literals\<close>

text \<open>\<open>a < b\<close> on \<open>f64\<close>: false when one of them is no number.\<close>

fun f64_less :: "f64 \<Rightarrow> f64 \<Rightarrow> bool" where
  "f64_less NaN b = False"
| "f64_less a NaN = False"
| "f64_less (Infinity s) (Infinity t) = (s \<and> \<not> t)"
| "f64_less (Infinity s) (Finite t n f) = s"
| "f64_less (Finite s m e) (Infinity t) = (\<not> t)"
| "f64_less (Finite s m e) (Finite t n f) =
     (signed_mant s m e (min e f) < signed_mant t n f (min e f))"

definition literal_value :: "Expr \<Rightarrow> f64 option" where
  "literal_value e =
     (case e of
        NumberLiteral v _ _ _ \<Rightarrow> Some v
      | UnaryExpr op r _ _ _ \<Rightarrow>
          (if op = TkMinus then (case r of NumberLiteral v _ _ _ \<Rightarrow> Some (f64_neg v) | _ \<Rightarrow> None) else None)
      | _ \<Rightarrow> None)"

definition numeric_bounds :: "string \<Rightarrow> (f64 \<times> f64) option" where
  "numeric_bounds n =
     (if n = ''int8'' then Some (f64_neg (f64_of_nat 128), f64_of_nat 127)
      else if n = ''uint8'' then Some (f64_zero False, f64_of_nat 255)
      else if n = ''int16'' then Some (f64_neg (f64_of_nat 32768), f64_of_nat 32767)
      else if n = ''uint16'' then Some (f64_zero False, f64_of_nat 65535)
      else if n = ''uint'' \<or> n = ''uint32'' then Some (f64_zero False, f64_of_nat (2 ^ 32 - 1))
      else if n = ''uint64'' then Some (f64_zero False, f64_of_nat (2 ^ 64 - 1))
      else None)"

definition check_numeric_bounds :: "Expr \<Rightarrow> TejxType \<Rightarrow> nat \<Rightarrow> nat \<Rightarrow> checker \<Rightarrow> checker" where
  "check_numeric_bounds e t l c tc =
     (case literal_value e of
        None \<Rightarrow> tc
      | Some v \<Rightarrow>
          (case numeric_bounds (to_name t) of
             None \<Rightarrow> tc
           | Some (lo, hi) \<Rightarrow>
               if f64_less v lo \<or> f64_less hi v then
                 report_error_detailed
                   (''Numeric literal '' @ quote_char # f64_to_string v @ quote_char #
                    '' is out of bounds for type '' @ quote_char # to_name t @ [quote_char])
                   l c ''E0111''
                   (Some (''Ensure the value is between '' @ f64_to_string lo @ '' and '' @ f64_to_string hi)) tc
               else tc))"

section \<open>Instantiation of generics\<close>

definition add_instantiation :: "string \<Rightarrow> TejxType list \<Rightarrow> checker \<Rightarrow> checker" where
  "add_instantiation base args tc =
     tc\<lparr>tc_generic_instantiations :=
          AList.update base
            (List.insert args (case map_of (tc_generic_instantiations tc) base of Some xs \<Rightarrow> xs | None \<Rightarrow> []))
            (tc_generic_instantiations tc)\<rparr>"

definition check_bound :: "nat \<Rightarrow> nat \<Rightarrow> Expr GenericParam \<times> TejxType \<Rightarrow> checker \<Rightarrow> checker option" where
  "check_bound l c pt tc =
     (case generic_bound (fst pt) of
        None \<Rightarrow> Some tc
      | Some b \<Rightarrow>
          let bound = type_node_to_string b; concrete = to_name (snd pt) in
          do { ok \<leftarrow> is_assignable tc (from_name bound) (from_name concrete);
               Some (if ok then tc
                     else report_error_detailed
                            (''Type '' @ quote_char # concrete @ quote_char # '' does not satisfy constraint ''
                             @ quote_char # bound @ quote_char # '' for generic parameter ''
                             @ quote_char # generic_name (fst pt) @ [quote_char])
                            l c ''E0120''
                            (Some (''Provide a type that satisfies the constraint '' @ quote_char # bound @ [quote_char]))
                            tc) })"

lemma fold_option_mono [partial_function_mono]:
  assumes "\<And>x b. mono_option (\<lambda>f. g f x b)"
  shows "mono_option (\<lambda>f. fold_option (\<lambda>x b. g f x b) xs b)"
  by (induction xs arbitrary: b) (auto intro!: partial_function_mono assms)

partial_function (option) register_instantiation :: "nat \<Rightarrow> nat \<Rightarrow> string \<Rightarrow> checker \<Rightarrow> checker option" where
  "register_instantiation l c ty tc =
     (case find_top_level_generic_bounds ty of
        Some (i, j) \<Rightarrow>
          (if j + 1 = length ty then
             let base = trim (take i ty); args = map from_name (type_arguments ty);
                 tc1 = add_instantiation base args tc
             in do { tc2 \<leftarrow> (case lookup tc1 base of
                              Some s \<Rightarrow>
                                if length (sy_generic_params s) = length args then
                                  fold_option (check_bound l c) (zip (sy_generic_params s) args) tc1
                                else Some tc1
                            | None \<Rightarrow> Some tc1);
                     fold_option (\<lambda>t tc'. register_instantiation l c (to_name t) tc') args tc2 }
           else Some tc)
      | None \<Rightarrow>
          if ends_with ty ''[]'' then register_instantiation l c (take (length ty - 2) ty) tc else Some tc)"

end
