(* ===== verification/ClassesFacts.thy ===== *)
theory ClassesFacts
  imports Compat TypesRoundTrip
begin

text \<open>
  The class hierarchy as a relation: \<open>is_same_or_subclass\<close> is its reflexive transitive closure,
  cycles are detected, the common ancestor is the least one, and the resolution of a member
  finds the nearest declaration or does not end. Scopes nest.
\<close>

section \<open>The hierarchy as a relation\<close>

lemma base_idem [simp]: "base_class_name (base_class_name n) = base_class_name n"
  by (simp add: base_class_name_def takeWhile_idem)

definition parents :: "string hash_map \<Rightarrow> (string \<times> string) set" where
  "parents h = {(c, base_class_name p) | c p. map_of h c = Some p}"

lemma parents_step: "map_of h c = Some p \<Longrightarrow> (c, d) \<in> parents h \<longleftrightarrow> d = base_class_name p"
  by (auto simp: parents_def)

lemma parents_end: "map_of h c = None \<Longrightarrow> (c, d) \<notin> parents h"
  by (auto simp: parents_def)

lemma parents_trancl: "map_of h c = Some p \<Longrightarrow>
    (c, x) \<in> (parents h)\<^sup>+ \<longleftrightarrow> x = base_class_name p \<or> (base_class_name p, x) \<in> (parents h)\<^sup>+"
  by (metis parents_step r_into_trancl rtrancl_eq_or_trancl rtrancl_into_trancl2 tranclD)

lemma parent_loop_reaches:
  "(\<And>v. v \<in> set visited \<Longrightarrow> v \<noteq> cur \<Longrightarrow> \<exists>p. map_of h v = Some p \<and> base_class_name p \<in> set visited) \<Longrightarrow>
   (cur, x) \<in> (parents h)\<^sup>+ \<Longrightarrow> x \<in> set visited \<union> set (parent_loop h visited cur)"
proof (induction h visited cur rule: parent_loop.induct)
  case (1 h visited cur)
  then obtain p where p: "map_of h cur = Some p" by (metis parents_end tranclD not_None_eq)
  let ?b = "base_class_name p"
  show ?case
  proof (cases "?b \<in> set visited")
    case True
    have "y \<in> set visited" if "(cur, y) \<in> (parents h)\<^sup>+" for y
      using that
    proof (induction rule: trancl_induct)
      case (base y)
      with p True show ?case by (simp add: parents_step)
    next
      case (step y z)
      then show ?case using "1.prems"(1) [of y] p True by (cases "y = cur") (auto simp: parents_step)
    qed
    with "1.prems"(2) show ?thesis by blast
  next
    case False
    from "1.prems"(2) p consider "x = ?b" | "(?b, x) \<in> (parents h)\<^sup>+" by (auto simp: parents_trancl)
    then show ?thesis
    proof cases
      case 1
      with p False show ?thesis by (simp add: parent_loop.simps [of h visited cur])
    next
      case 2
      have "x \<in> set (?b # visited) \<union> set (parent_loop h (?b # visited) ?b)"
        by (rule "1.IH" [OF p False _ 2]) (use "1.prems"(1) p in fastforce)
      with p False show ?thesis by (auto simp: parent_loop.simps [of h visited cur])
    qed
  qed
qed

lemma parent_loop_reached:
  "x \<in> set (parent_loop h visited cur) \<Longrightarrow> (cur, x) \<in> (parents h)\<^sup>+"
proof (induction h visited cur rule: parent_loop.induct)
  case (1 h visited cur)
  then obtain p where p: "map_of h cur = Some p"
    by (cases "map_of h cur") (auto simp: parent_loop.simps [of h visited cur])
  with "1.prems" have "base_class_name p \<notin> set visited"
    "x = base_class_name p \<or> x \<in> set (parent_loop h (base_class_name p # visited) (base_class_name p))"
    by (auto simp: parent_loop.simps [of h visited cur] split: if_splits)
  with "1.IH" [OF p] p show ?case by (auto simp: parents_trancl)
qed

lemma parent_chain_set: "set (parent_chain tc n) = {x. (base_class_name n, x) \<in> (parents (tc_class_hierarchy tc))\<^sup>+}"
  using parent_loop_reaches [of "[]"] parent_loop_reached by (fastforce simp: parent_chain_def)

text \<open>
  Property C19: a class counts as a subclass of another exactly if the declared parents lead from
  one to the other, also when the hierarchy has cycles.
\<close>

theorem is_same_or_subclass_reachable:
  "is_same_or_subclass tc child ancestor \<longleftrightarrow>
     (base_class_name child, base_class_name ancestor) \<in> (parents (tc_class_hierarchy tc))\<^sup>*"
  by (auto simp: is_same_or_subclass_def parent_chain_set rtrancl_eq_or_trancl)

lemma cycle_loop_None:
  "cycle_loop h order cur = None \<Longrightarrow> \<exists>n. \<exists>d. (cur, d) \<in> parents h ^^ n \<and> map_of h d = None"
proof (induction h order cur rule: cycle_loop.induct)
  case (1 h order cur)
  then have no: "cur \<notin> set order" by (auto simp: cycle_loop.simps [of h order cur] split: if_splits)
  show ?case
  proof (cases "map_of h cur")
    case None
    then show ?thesis by (metis relpow_0_I)
  next
    case (Some p)
    with "1.prems" no have "cycle_loop h (order @ [cur]) (base_class_name p) = None"
      by (simp add: cycle_loop.simps [of h order cur])
    from "1.IH" [OF no Some this] obtain n d where "(base_class_name p, d) \<in> parents h ^^ n" "map_of h d = None" by blast
    moreover have "(cur, base_class_name p) \<in> parents h" using Some by (simp add: parents_step)
    ultimately show ?thesis by (metis relpow_Suc_I2)
  qed
qed

fun path :: "(string \<times> string) set \<Rightarrow> string list \<Rightarrow> bool" where
  "path R (x # y # xs) = ((x, y) \<in> R \<and> path R (y # xs))"
| "path R xs = True"

lemma path_snoc: "path R (xs @ [x, y]) \<longleftrightarrow> path R (xs @ [x]) \<and> (x, y) \<in> R"
  by (induction xs rule: path.induct) auto

lemma path_drop: "path R (xs @ ys) \<Longrightarrow> path R ys"
  by (induction xs) (auto elim: path.elims)

lemma cycle_loop_Some:
  "cycle_loop h order cur = Some cyc \<Longrightarrow> path (parents h) (order @ [cur]) \<Longrightarrow> distinct order \<Longrightarrow>
   path (parents h) cyc \<and> 2 \<le> length cyc \<and> hd cyc = last cyc \<and> distinct (tl cyc) \<and>
   (hd cyc \<in> set order \<or> (cur, hd cyc) \<in> (parents h)\<^sup>*)"
proof (induction h order cur rule: cycle_loop.induct)
  case (1 h order cur)
  show ?case
  proof (cases "cur \<in> set order")
    case True
    then obtain xs ys where o: "order = xs @ cur # ys" "cur \<notin> set xs" by (metis split_list_first)
    have "dropWhile (\<lambda>x. x \<noteq> cur) (xs @ cur # ys) = cur # ys" using o(2) by (induction xs) auto
    with o(1) have d: "dropWhile (\<lambda>x. x \<noteq> cur) order = cur # ys" by simp
    from "1.prems"(1) True d have cyc: "cyc = cur # ys @ [cur]" by (simp add: cycle_loop.simps [of h order cur])
    have "path (parents h) ((cur # ys) @ [cur])" using path_drop "1.prems"(2) o by (metis append.assoc)
    with cyc True "1.prems"(3) o show ?thesis by auto
  next
    case False
    with "1.prems"(1) obtain p where p: "map_of h cur = Some p"
      "cycle_loop h (order @ [cur]) (base_class_name p) = Some cyc"
      by (auto simp: cycle_loop.simps [of h order cur] split: option.splits)
    have st: "(cur, base_class_name p) \<in> parents h" using p(1) by (simp add: parents_step)
    then have "path (parents h) ((order @ [cur]) @ [base_class_name p])"
      using "1.prems"(2) by (simp add: path_snoc)
    with "1.IH" [OF False p(1) p(2)] "1.prems"(3) False st show ?thesis
      by (auto intro: converse_rtrancl_into_rtrancl)
  qed
qed


text \<open>
  Property C20: the search for an inheritance cycle ends. It returns a cycle of the hierarchy that
  the class leads into, without a repeated class, and finds none only where the parents of the
  class end.
\<close>

theorem detect_inheritance_cycle_correct:
  "case detect_inheritance_cycle tc n of
     None \<Rightarrow> \<exists>d. (base_class_name n, d) \<in> (parents (tc_class_hierarchy tc))\<^sup>* \<and> map_of (tc_class_hierarchy tc) d = None
   | Some cyc \<Rightarrow> path (parents (tc_class_hierarchy tc)) cyc \<and> 2 \<le> length cyc \<and> hd cyc = last cyc \<and> distinct (tl cyc)
       \<and> (base_class_name n, hd cyc) \<in> (parents (tc_class_hierarchy tc))\<^sup>*"
proof (cases "detect_inheritance_cycle tc n")
  case None
  then show ?thesis
    using cycle_loop_None [of "tc_class_hierarchy tc" "[]" "base_class_name n"]
    by (auto simp: detect_inheritance_cycle_def dest: relpow_imp_rtrancl)
next
  case (Some cyc)
  then show ?thesis
    using cycle_loop_Some [of "tc_class_hierarchy tc" "[]" "base_class_name n" cyc]
    by (auto simp: detect_inheritance_cycle_def)
qed

section \<open>The least common ancestor\<close>

lemma path_loop: "path (parents h) (cur # parent_loop h visited cur)"
proof (induction h visited cur rule: parent_loop.induct)
  case (1 h visited cur)
  then show ?case
    by (subst parent_loop.simps) (auto simp: parents_step split: option.splits)
qed

lemma path_sorted: "path R xs \<Longrightarrow> sorted_wrt (\<lambda>x y. (x, y) \<in> R\<^sup>*) xs"
proof (induction R xs rule: path.induct)
  case (1 R x y xs)
  then have "sorted_wrt (\<lambda>x y. (x, y) \<in> R\<^sup>*) (y # xs)" "(x, y) \<in> R" by auto
  then show ?case by (auto intro: converse_rtrancl_into_rtrancl)
qed simp_all

lemma ancestors_set: "set (ancestors tc n) = {p. (base_class_name n, p) \<in> (parents (tc_class_hierarchy tc))\<^sup>*}"
  by (auto simp: ancestors_def parent_chain_set rtrancl_eq_or_trancl)

lemma find_first: "sorted_wrt R xs \<Longrightarrow> (\<And>x. R x x) \<Longrightarrow> find P xs = Some p \<Longrightarrow>
    P p \<and> p \<in> set xs \<and> {q \<in> set xs. P q} \<subseteq> {q. R p q}"
  by (induction xs) (auto split: if_splits)

text \<open>
  Property C21: the common ancestor of two class types is an ancestor of both, and every other
  ancestor of both is an ancestor of it; there is no such class only when no ancestor is common.
\<close>

theorem common_ancestor_least:
  assumes "t1 \<noteq> t2" "\<not> (is_numeric t1 \<and> is_numeric t2 \<and> \<not> is_float t1 \<and> \<not> is_float t2)"
    and "to_name t1 \<noteq> inferred_name" "to_name t2 \<noteq> inferred_name"
  shows "let R = (parents (tc_class_hierarchy tc))\<^sup>*;
             C = {p. (base_class_name (to_name t1), p) \<in> R \<and> (base_class_name (to_name t2), p) \<in> R}
         in C = {} \<and> get_common_ancestor tc t1 t2 = from_name inferred_name
            \<or> (\<exists>p \<in> C. get_common_ancestor tc t1 t2 = from_name p \<and> C \<subseteq> {q. (p, q) \<in> R})"
proof -
  let ?R = "(parents (tc_class_hierarchy tc))\<^sup>*"
  let ?f = "find (\<lambda>p. p \<in> set (ancestors tc (to_name t1))) (ancestors tc (to_name t2))"
  have g: "get_common_ancestor tc t1 t2 = (case ?f of Some p \<Rightarrow> from_name p | None \<Rightarrow> from_name inferred_name)"
    using assms by (auto simp: get_common_ancestor_def)
  have s: "sorted_wrt (\<lambda>x y. (x, y) \<in> ?R) (ancestors tc (to_name t2))"
    unfolding ancestors_def parent_chain_def by (intro path_sorted path_loop)
  show ?thesis
  proof (cases ?f)
    case None
    with g have "get_common_ancestor tc t1 t2 = from_name inferred_name" by simp
    moreover from None have "{p. (base_class_name (to_name t1), p) \<in> ?R \<and> (base_class_name (to_name t2), p) \<in> ?R} = {}"
      unfolding find_None_iff ancestors_set by blast
    ultimately show ?thesis by (simp add: Let_def)
  next
    case (Some p)
    from g Some have "get_common_ancestor tc t1 t2 = from_name p" by simp
    with find_first [OF s _ Some] show ?thesis unfolding ancestors_set Let_def by blast
  qed
qed

theorem common_ancestor_least_witness:
  "let tc = checker_new\<lparr>tc_class_hierarchy := [(''Cat'', ''Animal''), (''Dog'', ''Animal'')]\<rparr>;
       t1 = TyClass ''Cat'' []; t2 = TyClass ''Dog'' [];
       R = (parents (tc_class_hierarchy tc))\<^sup>*;
       C = {p. (base_class_name (to_name t1), p) \<in> R \<and> (base_class_name (to_name t2), p) \<in> R}
   in C = {} \<and> get_common_ancestor tc t1 t2 = from_name inferred_name
      \<or> (\<exists>p \<in> C. get_common_ancestor tc t1 t2 = from_name p \<and> C \<subseteq> {q. (p, q) \<in> R})"
  unfolding Let_def
  by (rule common_ancestor_least [unfolded Let_def]) (simp_all add: is_numeric_def inferred_name_def)

section \<open>Resolution of members\<close>

definition container :: "string \<Rightarrow> bool" where
  "container c \<longleftrightarrow> c \<noteq> [] \<and> c \<noteq> inferred_name"

definition extends :: "checker \<Rightarrow> (string \<times> string) set" where
  "extends tc = {(c, p). container c \<and> map_of (tc_class_hierarchy tc) c = Some p}"

definition declares :: "checker \<Rightarrow> string \<Rightarrow> string \<Rightarrow> MemberInfo option" where
  "declares tc m c = (if container c then own_member tc c m else None)"

lemma resolve_step:
  "resolve_loop tc m c =
     (case declares tc m c of
        Some i \<Rightarrow> Some (Some (c, i))
      | None \<Rightarrow> if c \<in> Domain (extends tc) then resolve_loop tc m (the (map_of (tc_class_hierarchy tc) c)) else Some None)"
  by (subst resolve_loop.simps)
    (auto simp: declares_def container_def extends_def split: option.splits)

lemma extends_step: "(c, d) \<in> extends tc \<Longrightarrow> c \<in> Domain (extends tc) \<and> the (map_of (tc_class_hierarchy tc) c) = d"
  by (auto simp: extends_def)

lemma resolve_diverges:
  assumes "resolve_loop tc m c = Some r"
  shows "\<exists>d. (c, d) \<in> (extends tc)\<^sup>* \<and> (declares tc m d \<noteq> None \<or> d \<notin> Domain (extends tc))"
proof (rule resolve_loop.raw_induct [where P = "\<lambda>tc m c r. \<exists>d. (c, d) \<in> (extends tc)\<^sup>* \<and> (declares tc m d \<noteq> None \<or> d \<notin> Domain (extends tc))", OF _ assms])
  fix f :: "checker \<Rightarrow> string \<Rightarrow> string \<Rightarrow> (string \<times> MemberInfo) option option" and tc m cur r
  assume IH: "\<And>tc m cur r. f tc m cur = Some r \<Longrightarrow> \<exists>d. (cur, d) \<in> (extends tc)\<^sup>* \<and> (declares tc m d \<noteq> None \<or> d \<notin> Domain (extends tc))"
    and eq: "(if cur = [] \<or> cur = inferred_name then Some None
       else case own_member tc cur m of
              None \<Rightarrow> (case map_of (tc_class_hierarchy tc) cur of None \<Rightarrow> Some None | Some p \<Rightarrow> f tc m p)
            | Some i \<Rightarrow> Some (Some (cur, i))) = Some r"
  show "\<exists>d. (cur, d) \<in> (extends tc)\<^sup>* \<and> (declares tc m d \<noteq> None \<or> d \<notin> Domain (extends tc))"
  proof (cases "cur \<in> Domain (extends tc) \<and> declares tc m cur = None")
    case True
    then obtain p where p: "map_of (tc_class_hierarchy tc) cur = Some p" "(cur, p) \<in> extends tc"
      by (auto simp: extends_def)
    with True eq have "f tc m p = Some r" by (auto simp: extends_def container_def declares_def)
    from IH [OF this] p(2) show ?thesis by (meson converse_rtrancl_into_rtrancl)
  qed blast
qed

lemma extends_unique: "(a, x) \<in> extends tc \<Longrightarrow> (a, y) \<in> extends tc \<Longrightarrow> x = y"
  by (auto simp: extends_def)

text \<open>What the resolution finds, from the first class of the chain on.\<close>

definition resolved :: "checker \<Rightarrow> string \<Rightarrow> string \<Rightarrow> (string \<times> MemberInfo) option \<Rightarrow> bool" where
  "resolved tc m c r =
     (case r of
        None \<Rightarrow> {d. (c, d) \<in> (extends tc)\<^sup>*} \<subseteq> {d. declares tc m d = None} \<and>
            (\<exists>d. (c, d) \<in> (extends tc)\<^sup>* \<and> d \<notin> Domain (extends tc))
      | Some (d, i) \<Rightarrow>
          \<exists>n. (c, d) \<in> extends tc ^^ n \<and> declares tc m d = Some i
            \<and> {x. \<exists>k<n. (c, x) \<in> extends tc ^^ k} \<subseteq> {x. declares tc m x = None})"

lemma resolved_step:
  assumes "(c, p) \<in> extends tc" "declares tc m c = None" "resolved tc m p r"
  shows "resolved tc m c r"
proof (cases r)
  case None
  have "(c, d) \<in> (extends tc)\<^sup>* \<Longrightarrow> d = c \<or> (p, d) \<in> (extends tc)\<^sup>*" for d
    by (metis assms(1) converse_rtranclE extends_unique)
  moreover have "(p, d) \<in> (extends tc)\<^sup>* \<Longrightarrow> (c, d) \<in> (extends tc)\<^sup>*" for d
    using assms(1) by (rule converse_rtrancl_into_rtrancl)
  ultimately show ?thesis using None assms(2,3) by (auto simp: resolved_def)
next
  case (Some di)
  then obtain d i n where r: "r = Some (d, i)" "(p, d) \<in> extends tc ^^ n" "declares tc m d = Some i"
    and before: "{x. \<exists>k<n. (p, x) \<in> extends tc ^^ k} \<subseteq> {x. declares tc m x = None}"
    using assms(3) by (cases di) (auto simp: resolved_def)
  have "declares tc m x = None" if "k < Suc n" "(c, x) \<in> extends tc ^^ k" for k x
  proof (cases k)
    case 0
    with that assms(2) show ?thesis by simp
  next
    case (Suc j)
    with that(2) have "(p, x) \<in> extends tc ^^ j" by (metis assms(1) extends_unique relpow_Suc_D2)
    with before that(1) Suc show ?thesis by auto
  qed
  then have "{x. \<exists>k<Suc n. (c, x) \<in> extends tc ^^ k} \<subseteq> {x. declares tc m x = None}" by blast
  with r assms(1) show ?thesis unfolding resolved_def by (auto intro!: exI [of _ "Suc n"] relpow_Suc_I2)
qed

lemma resolve_returns:
  "(c, d) \<in> (extends tc)\<^sup>* \<Longrightarrow> declares tc m d \<noteq> None \<or> d \<notin> Domain (extends tc) \<Longrightarrow>
     \<exists>r. resolve_loop tc m c = Some r \<and> resolved tc m c r"
proof (induction rule: converse_rtrancl_induct)
  case base
  show ?case
  proof (cases "declares tc m d")
    case None
    with base have "(d, x) \<in> (extends tc)\<^sup>* \<Longrightarrow> x = d" for x by (metis Domain.DomainI converse_rtranclE)
    with None base show ?thesis by (subst resolve_step) (auto simp: resolved_def)
  next
    case (Some i)
    then show ?thesis
      by (subst resolve_step) (auto simp: resolved_def intro!: exI [of _ 0])
  qed
next
  case (step y z)
  then obtain r where r: "resolve_loop tc m z = Some r" "resolved tc m z r" by blast
  show ?case
  proof (cases "declares tc m y")
    case None
    have "resolve_loop tc m y = resolve_loop tc m z"
      using None extends_step [OF step(1)] by (simp add: resolve_step [of tc m y])
    with r None step(1) show ?thesis by (metis resolved_step)
  next
    case (Some i)
    then show ?thesis
      by (subst resolve_step) (auto simp: resolved_def intro!: exI [of _ 0])
  qed
qed

text \<open>
  Property C18: a member resolves to the nearest class of the chain of parents that declares it,
  and to nothing only if the chain ends and no class of it does. The resolution does not end
  exactly on an endless chain in which no class declares the member.
\<close>

theorem resolve_loop_correct:
  "case resolve_loop tc m c of
     None \<Rightarrow> {d. (c, d) \<in> (extends tc)\<^sup>*} \<subseteq> {d. declares tc m d = None} \<inter> Domain (extends tc)
   | Some r \<Rightarrow> resolved tc m c r"
proof (cases "resolve_loop tc m c")
  case None
  then have "(c, d) \<in> (extends tc)\<^sup>* \<Longrightarrow> declares tc m d = None \<and> d \<in> Domain (extends tc)" for d
    using resolve_returns [of c d tc m] by fastforce
  with None show ?thesis by auto
next
  case (Some r)
  from resolve_returns [of c _ tc m] resolve_diverges [OF Some] Some show ?thesis by fastforce
qed

section \<open>Cyclic hierarchies\<close>

definition empty_class :: "string \<Rightarrow> string \<Rightarrow> Statement" where
  "empty_class n p = ClassDeclarationStmt (ClassDeclaration n p [] False [] [] [] [] [] None 1 1)"

definition cyclic_classes :: "Statement list" where
  "cyclic_classes = [empty_class ''Left'' ''Right'', empty_class ''Right'' ''Left'']"

text \<open>
  Property C24: after the declarations of two classes that extend each other, of which the
  checker can tell that they form a cycle, the resolution of a member neither declares does not
  end.
\<close>

theorem cyclic_classes_do_not_resolve:
  "\<exists>tc. fold_option collect_declarations cyclic_classes checker_new = Some tc
     \<and> detect_inheritance_cycle tc ''Left'' = Some [''Left'', ''Right'', ''Left'']
     \<and> resolve_instance_member tc ''Left'' ''size'' = None"
proof -
  obtain tc where tc: "fold_option collect_declarations cyclic_classes checker_new = Some tc"
    and h: "tc_class_hierarchy tc = [(''Left'', ''Right''), (''Right'', ''Left'')]"
    and m: "tc_class_members tc = [(''Left'', []), (''Right'', [])]" "tc_interfaces tc = []"
    by (simp add: cyclic_classes_def empty_class_def collect_declarations.simps collect_class_def
        collect_constructor_def insert_symbol_def checker_new_def)
  have b: "base_class_name ''Left'' = ''Left''" "base_class_name ''Right'' = ''Right''"
    by (simp_all add: base_class_name_def)
  have d: "detect_inheritance_cycle tc ''Left'' = Some [''Left'', ''Right'', ''Left'']"
    by (simp add: detect_inheritance_cycle_def h b cycle_loop.simps)
  have reach: "(''Left'', x) \<in> (extends tc)\<^sup>* \<Longrightarrow> x \<in> {''Left'', ''Right''}" for x
    by (induction rule: rtrancl_induct) (auto simp: extends_def h split: if_splits)
  have "declares tc ''size'' x = None \<and> x \<in> Domain (extends tc)" if "x \<in> {''Left'', ''Right''}" for x
    using that by (auto simp: declares_def own_member_def m extends_def h container_def inferred_name_def)
  then have "resolve_loop tc ''size'' ''Left'' = None"
    using resolve_diverges [of tc "''size''" "''Left''"] reach by (metis not_None_eq)
  moreover have "from_name ''Left'' = TyClass ''Left'' []"
    by (simp add: from_name_word plain_name_def builtin_types_def str_simps)
  ultimately have "resolve_instance_member tc ''Left'' ''size'' = None"
    by (simp add: resolve_instance_member_def resolve_instance_member_with_owner_def normalize_member_container_def m)
  with tc d show ?thesis by blast
qed

section \<open>Scopes\<close>

text \<open>What the checker relies on when it opens a scope for a block or a body.\<close>

locale scope_stack =
  fixes enter leave_scope :: "'s \<Rightarrow> 's" and bind :: "string \<Rightarrow> 'v \<Rightarrow> 's \<Rightarrow> 's"
    and find_name :: "'s \<Rightarrow> string \<Rightarrow> 'v option" and visible :: "'s \<Rightarrow> string \<Rightarrow> 'v \<Rightarrow> bool" and opened :: "'s \<Rightarrow> bool"
  assumes leave_enter: "leave_scope (enter s) = s"
    and leave_bind: "leave_scope (bind n v s) = leave_scope s"
    and opened_enter: "opened (enter s)"
    and opened_bind: "opened s \<Longrightarrow> opened (bind n v s)"
    and find_enter: "find_name (enter s) n = find_name s n"
    and find_bind: "opened s \<Longrightarrow> find_name (bind n v s) m =
      (if m \<noteq> n then find_name s m else if visible s n v then Some v else find_name (leave_scope s) n)"
    and visible_enter: "visible (enter s) = visible s"
    and visible_bind: "visible (bind n v s) = visible s"
begin

definition bind_all :: "(string \<times> 'v) list \<Rightarrow> 's \<Rightarrow> 's" where
  "bind_all ds s = fold (\<lambda>(n, v). bind n v) ds s"

lemma bind_all_snoc [simp]: "bind_all (ds @ [(n, v)]) s = bind n v (bind_all ds s)"
  by (simp add: bind_all_def)

lemma bind_all_Nil [simp]: "bind_all [] s = s"
  by (simp add: bind_all_def)

lemma leave_all: "leave_scope (bind_all ds (enter s)) = s"
  by (induction ds rule: rev_induct) (auto simp: leave_enter leave_bind)

lemma opened_all: "opened (bind_all ds (enter s))"
  by (induction ds rule: rev_induct) (auto simp: opened_enter opened_bind)

lemma visible_all: "visible (bind_all ds (enter s)) = visible s"
  by (induction ds rule: rev_induct) (auto simp: visible_enter visible_bind)

lemma find_all:
  "find_name (bind_all ds (enter s)) n =
     (case map_of (rev ds) n of Some v \<Rightarrow> if visible s n v then Some v else find_name s n | None \<Rightarrow> find_name s n)"
proof (induction ds rule: rev_induct)
  case (snoc d ds)
  then show ?case
    by (cases d) (simp add: find_bind [OF opened_all] leave_all visible_all)
qed (simp add: find_enter)

end

lemma lookup_scopes_update: "lookup_scopes (tc\<lparr>tc_scopes := x\<rparr>) n scs = lookup_scopes tc n scs"
  by (induction scs) (simp_all add: symbol_accessible_def split: option.splits)

interpretation checker_scopes: scope_stack enter_scope exit_scope insert_symbol lookup symbol_accessible "\<lambda>tc. tc_scopes tc \<noteq> []"
proof (unfold_locales, goal_cases)
  case (6 s n v m)
  have a: "symbol_accessible (s\<lparr>tc_scopes := x\<rparr>) = symbol_accessible s" for x
    by (simp add: symbol_accessible_def fun_eq_iff)
  obtain sc scs where sc: "tc_scopes s = scs @ [sc]" using 6 by (metis rev_exhaust)
  show ?case
    by (simp add: lookup_def insert_symbol_def exit_scope_def sc lookup_scopes_update update_conv' a split: option.splits)
qed (simp_all add: enter_scope_def exit_scope_def insert_symbol_def symbol_accessible_def fun_eq_iff lookup_def
    lookup_scopes_update)

text \<open>
  Property C22: leaving a scope restores the checker's symbols, and inside it a name has the last
  definition of the scope that the file may see, else what it had outside.
\<close>

theorem block_scope:
  "exit_scope (fold (\<lambda>(n, s). insert_symbol n s) ds (enter_scope tc)) = tc
   \<and> lookup (fold (\<lambda>(n, s). insert_symbol n s) ds (enter_scope tc)) n =
       (case map_of (rev ds) n of
          Some s \<Rightarrow> if symbol_accessible tc n s then Some s else lookup tc n
        | None \<Rightarrow> lookup tc n)"
  using checker_scopes.leave_all [of ds tc] checker_scopes.find_all [of ds tc n]
  unfolding checker_scopes.bind_all_def by blast

end
