(* ===== verification/CompatFacts.thy ===== *)
theory CompatFacts
  imports Compat TypesRoundTrip Complex_Main
begin

text \<open>
  The comparison of types ends where the aliases do not refer to themselves, and for two aliases
  that do it does not. The bounds of numeric literals are those of the type up to 32 bits.
\<close>

section \<open>Termination of the comparison\<close>

fun sub_types :: "TejxType \<Rightarrow> TejxType list" where
  "sub_types (TyClass n ts) = ts"
| "sub_types (TyOptional t) = [t]"
| "sub_types (TyFixedArray t n) = [t]"
| "sub_types (TyDynamicArray t) = [t]"
| "sub_types (TySlice t) = [t]"
| "sub_types (TyFunction ps r) = r # ps"
| "sub_types (TyObject ms) = map (\<lambda>m. snd (snd m)) ms"
| "sub_types t = []"

lemma size_elem: "t \<in> set ts \<Longrightarrow> size t \<le> size_list size ts"
  by (rule size_list_estimation') auto

lemma sub_types_size: "t \<in> set (sub_types u) \<Longrightarrow> size t < size u"
proof (cases u)
  case (TyObject ms)
  then show "t \<in> set (sub_types u) \<Longrightarrow> size t < size u" using size_prop_type by fastforce
qed (auto dest!: size_elem)

fun type_names :: "TejxType \<Rightarrow> string set" where
  "type_names (TyClass n ts) = insert n (\<Union>t \<in> set ts. type_names t)"
| "type_names (TyOptional t) = type_names t"
| "type_names (TyFixedArray t n) = type_names t"
| "type_names (TyDynamicArray t) = type_names t"
| "type_names (TySlice t) = type_names t"
| "type_names (TyFunction ps r) = type_names r \<union> (\<Union>t \<in> set ps. type_names t)"
| "type_names (TyObject ms) = (\<Union>m \<in> set ms. type_names (snd (snd m)))"
| "type_names t = {}"

lemma sub_types_names: "t \<in> set (sub_types u) \<Longrightarrow> type_names t \<subseteq> type_names u"
  by (cases u) auto

text \<open>The names an alias mentions.\<close>

definition alias_uses :: "checker \<Rightarrow> (string \<times> string) set" where
  "alias_uses tc = {(m, n). \<exists>u. alias_of tc (TyClass n []) = Some u \<and> m \<in> type_names u}"

lemma alias_of_name: "alias_of tc (TyClass n gs) = alias_of tc (TyClass n [])"
  by (simp add: alias_of_def)

text \<open>A computation that has a value.\<close>

definition returns :: "'a option \<Rightarrow> bool" where
  "returns m \<longleftrightarrow> m \<noteq> None"

lemma returns_Some [simp]: "returns (Some x)"
  by (simp add: returns_def)

lemma returns_bind [intro]: "returns m \<Longrightarrow> (\<And>x. returns (k x)) \<Longrightarrow> returns (Option.bind m k)"
  by (cases m) (simp_all add: returns_def)

lemma returns_if [intro]: "(b \<Longrightarrow> returns m) \<Longrightarrow> (\<not> b \<Longrightarrow> returns k) \<Longrightarrow> returns (if b then m else k)"
  by simp

text \<open>The types the comparison may reach from one type by its own step.\<close>

definition below :: "checker \<Rightarrow> (TejxType \<times> TejxType) set" where
  "below tc = {(y, a). \<exists>k. y \<in> set (sub_types (resolve_alias k tc a))}"

lemma below_sub: "y \<in> set (sub_types a) \<Longrightarrow> (y, a) \<in> below tc"
  unfolding below_def by (auto intro: exI [of _ 0])

lemma below_resolved: "y \<in> set (sub_types (resolve_type tc a)) \<Longrightarrow> (y, a) \<in> below tc"
  unfolding below_def resolve_type_def by blast

lemma acc_names:
  assumes G: "\<And>n u. n \<in> type_names t \<Longrightarrow> alias_of tc (TyClass n []) = Some u \<Longrightarrow> u \<in> Wellfounded.acc (below tc)"
  shows "t \<in> Wellfounded.acc (below tc)"
  using G
proof (induction "size t" arbitrary: t rule: less_induct)
  case less
  show ?case
  proof (rule acc.intros)
    fix y assume "(y, t) \<in> below tc"
    then obtain k where k: "y \<in> set (sub_types (resolve_alias k tc t))" by (auto simp: below_def)
    show "y \<in> Wellfounded.acc (below tc)"
    proof (cases "k = 0 \<or> alias_of tc t = None")
      case True
      then have "resolve_alias k tc t = t" by (cases k) auto
      with k have y: "y \<in> set (sub_types t)" by simp
      with less show ?thesis using sub_types_size [OF y] sub_types_names [OF y] by blast
    next
      case False
      then obtain j u where j: "k = Suc j" "alias_of tc t = Some u" by (cases k) auto
      then obtain n gs where t: "t = TyClass n gs" by (auto simp: alias_of_def split: TejxType.splits)
      with less.prems j(2) have "u \<in> Wellfounded.acc (below tc)" by (metis alias_of_name insertI1 type_names.simps(1))
      moreover from k j have "(y, u) \<in> below tc" by (auto simp: below_def)
      ultimately show ?thesis by (rule acc_downward)
    qed
  qed
qed

lemma wf_below:
  assumes "wf (alias_uses tc)"
  shows "wf (below tc)"
proof -
  have "alias_of tc (TyClass n []) = Some u \<Longrightarrow> u \<in> Wellfounded.acc (below tc)" for n u
    using assms
  proof (induction n arbitrary: u rule: wf_induct_rule)
    case (less n)
    show ?case by (rule acc_names) (use less in \<open>auto simp: alias_uses_def\<close>)
  qed
  then have "t \<in> Wellfounded.acc (below tc)" for t by (rule acc_names)
  then show ?thesis by (simp add: wf_iff_acc)
qed

lemma all_option_ends: "(\<And>x. x \<in> set xs \<Longrightarrow> returns (f x)) \<Longrightarrow> returns (all_option f xs)"
  by (induction xs) (auto intro!: returns_bind)

lemma or_else_ends [intro]: "returns m \<Longrightarrow> returns k \<Longrightarrow> returns (or_else m k)"
  by (auto simp: or_else_def)

lemma zip_ends: "(\<And>x y. y \<in> set ys \<Longrightarrow> returns (f x y)) \<Longrightarrow> returns (all_option (\<lambda>(x, y). f x y) (zip xs ys))"
  by (rule all_option_ends) (auto dest: set_zip_rightD)

lemma array_ends: "(\<And>x y. y \<in> set (sub_types a) \<Longrightarrow> returns (r x y)) \<Longrightarrow> returns (array_compatible r e a)"
  by (cases e; cases a; simp add: array_compatible_def)

lemma class_args_ends: "(\<And>x y. y \<in> set (sub_types a) \<Longrightarrow> returns (r x y)) \<Longrightarrow> returns (class_args_compatible r e a)"
  by (cases e; cases a) (auto simp: class_args_compatible_def intro!: zip_ends)

lemma function_ends:
  assumes "\<And>x y. y \<in> set (sub_types a) \<Longrightarrow> returns (r x y)"
  shows "returns (function_compatible r e a)"
proof (cases "(\<exists>ep er. e = TyFunction ep er) \<and> (\<exists>ap ar. a = TyFunction ap ar)")
  case True
  then obtain ep er ap ar where ea: "e = TyFunction ep er" "a = TyFunction ap ar" by blast
  have "returns (r er ar)" using assms [of ar er] ea by simp
  moreover have "returns (all_option (\<lambda>(x, y). do { b \<leftarrow> r x y; Some (b \<or> x = TyAny \<or> y = TyAny) }) (zip ep ap))"
    using assms ea by (auto intro!: zip_ends)
  ultimately show ?thesis using ea by (auto simp: function_compatible_def)
qed (cases e; cases a; auto simp: function_compatible_def)

lemma keys_ends:
  assumes "\<And>x k t. prop_of ap k = Some t \<Longrightarrow> returns (r x (un t))"
  shows "returns (keys_compatible r es ty mm un ap)"
  unfolding keys_compatible_def using assms by (auto intro!: all_option_ends split: option.splits)

lemma prop_of_sub: "prop_of ap k = Some t \<Longrightarrow> t \<in> set (sub_types (TyObject ap))"
  by (force simp: prop_of_def dest!: map_of_SomeD)

lemma unwrap_below: "(t, a) \<in> below tc \<Longrightarrow> (unwrap_optional_type t, a) \<in> (below tc)\<^sup>+"
proof (cases t)
  case (TyOptional u)
  assume "(t, a) \<in> below tc"
  moreover have "(u, t) \<in> below tc" using TyOptional by (intro below_sub) simp
  ultimately show ?thesis using TyOptional by (auto simp: unwrap_optional_type_def)
qed (auto simp: unwrap_optional_type_def)

lemma structural_ends:
  assumes r: "\<And>x y. (y, a0) \<in> (below tc)\<^sup>+ \<Longrightarrow> returns (r x y)" and a: "resolve_type tc a0 = a"
  shows "returns (structural_compatible tc r e a)"
proof (cases a)
  case (TyObject ap)
  have un: "returns (r x (id t)) \<and> returns (r x (unwrap_optional_type t))" if "prop_of ap k = Some t" for x k t
  proof -
    have "(t, a0) \<in> below tc" using prop_of_sub [OF that] a TyObject by (intro below_resolved) simp
    then show ?thesis using r unwrap_below by auto
  qed
  show ?thesis
    by (cases e) (use un in \<open>auto simp: structural_compatible_def TyObject intro!: keys_ends split: option.splits\<close>)
qed (simp_all add: structural_compatible_def)

lemma resolved_ends:
  assumes r: "\<And>x y. (y, a) \<in> (below tc)\<^sup>+ \<Longrightarrow> returns (r x y)"
  shows "returns (resolved_compatible tc r e a)"
proof -
  have s: "returns (r x y)" if "y \<in> set (sub_types (resolve_type tc a))" for x y
    using r below_resolved [OF that] by blast
  show ?thesis
    unfolding resolved_compatible_def Let_def
    by (intro returns_if returns_Some or_else_ends array_ends [OF s] class_args_ends [OF s] function_ends [OF s]
        structural_ends [OF r refl])
qed

text \<open>
  Property C16: the comparison of two types ends whenever no alias refers to itself through the
  aliases in its definition, in every state of the checker: with cyclic classes, recursive
  classes and interfaces too.
\<close>

theorem are_types_compatible_terminates:
  assumes "wf (alias_uses tc)"
  shows "are_types_compatible tc e a \<noteq> None"
proof -
  have wf: "wf ((below tc)\<^sup>+ <*lex*> measure size)"
    using wf_below [OF assms] by (intro wf_lex_prod wf_trancl) auto
  have "returns (are_types_compatible tc (snd p) (fst p))" for p
    using wf
  proof (induction p rule: wf_induct_rule)
    case (less p)
    obtain a e where p: "p = (a, e)" by (cases p)
    have r: "returns (are_types_compatible tc x y)" if "(y, a) \<in> (below tc)\<^sup>+" for x y
      using less [of "(y, x)"] that p by simp
    have o: "returns (are_types_compatible tc x a)" if "size x < size e" for x
      using less [of "(a, x)"] that p by simp
    have rc: "returns (resolved_compatible tc (\<lambda>x y. are_types_compatible tc x y) e a)"
      by (rule resolved_ends) (rule r)
    have "returns (optional_compatible tc (\<lambda>x y. are_types_compatible tc x y) e a)"
    proof (cases e)
      case (TyOptional x)
      then have "returns (are_types_compatible tc x a)" by (intro o) simp
      moreover have "returns (are_types_compatible tc x z)" if "a = TyOptional z" for z
        using that by (intro r r_into_trancl below_sub) simp
      ultimately show ?thesis
        using rc TyOptional
        by (cases a) (auto simp: optional_compatible_def)
    qed (use rc in \<open>simp_all add: optional_compatible_def\<close>)
    then show ?case by (simp add: are_types_compatible.simps [of tc e a] p)
  qed
  from this [of "(a, e)"] show ?thesis by (simp add: returns_def)
qed

section \<open>Aliases in a state\<close>

definition array_alias :: "string \<Rightarrow> string \<Rightarrow> checker \<Rightarrow> checker" where
  "array_alias n t tc = collect_alias n (TNArray (TNNamed t)) tc"

definition alias_symbol :: "string \<Rightarrow> Symbol" where
  "alias_symbol t =
     (plain_symbol (from_name ''type'') [] False checker_new)
       \<lparr>sy_is_const := True, sy_aliased_type := Some (TyDynamicArray (from_name t))\<rparr>"

lemma array_alias_new:
  "n1 \<noteq> n2 \<Longrightarrow> array_alias n1 t1 (array_alias n2 t2 checker_new) =
     checker_new\<lparr>tc_scopes := [[(n2, alias_symbol t2), (n1, alias_symbol t1)]]\<rparr>"
  by (simp add: array_alias_def alias_symbol_def collect_alias_def insert_symbol_def plain_symbol_def checker_new_def)

lemma alias_of_array_alias:
  assumes "n1 \<noteq> n2"
  shows "alias_of (array_alias n1 t1 (array_alias n2 t2 checker_new)) (TyClass n gs) =
     (if n = n1 then Some (TyDynamicArray (from_name t1)) else if n = n2 then Some (TyDynamicArray (from_name t2)) else None)"
  unfolding array_alias_new [OF assms] using assms
  by (simp add: alias_of_def lookup_def symbol_accessible_def alias_symbol_def plain_symbol_def checker_new_def)

lemma from_name_words:
  "from_name ''Row'' = TyClass ''Row'' []" "from_name ''int'' = TyInt32"
  "from_name ''Tree'' = TyClass ''Tree'' []" "from_name ''List'' = TyClass ''List'' []"
  by (simp_all add: from_name_word plain_name_def builtin_types_def str_simps)

theorem are_types_compatible_terminates_witness:
  "let tc = array_alias ''Grid'' ''Row'' (array_alias ''Row'' ''int'' checker_new)
   in are_types_compatible tc (TyClass ''Grid'' []) (TyDynamicArray (TyClass ''Row'' [])) \<noteq> None"
proof -
  let ?tc = "array_alias ''Grid'' ''Row'' (array_alias ''Row'' ''int'' checker_new)"
  have "alias_uses ?tc = {(''Row'', ''Grid'')}"
    by (auto simp: alias_uses_def alias_of_array_alias from_name_words split: if_splits)
  then have "wf (alias_uses ?tc)" by (simp add: wf_insert)
  from are_types_compatible_terminates [OF this] show ?thesis by (simp add: Let_def)
qed

text \<open>The alias \<open>type n = n[]\<close>.\<close>

definition array_of_itself :: "checker \<Rightarrow> string \<Rightarrow> bool" where
  "array_of_itself tc n \<longleftrightarrow> alias_of tc (TyClass n []) = Some (TyDynamicArray (TyClass n []))"

lemma resolve_array_of_itself:
  "array_of_itself tc n \<Longrightarrow> resolve_type tc (TyClass n []) = TyDynamicArray (TyClass n [])"
  by (simp add: array_of_itself_def resolve_type_def eval_nat_numeral) (simp add: alias_of_def)

lemma array_name: "to_name (TyDynamicArray t) \<noteq> ''None''"
proof -
  have "CHR ''['' \<in> set (to_name (TyDynamicArray t))" "CHR ''['' \<notin> set ''None''" by simp_all
  then show ?thesis by metis
qed

text \<open>
  Property C25: with two aliases that are arrays of themselves the comparison of the one with the
  other does not end, in any state of the checker, unless the two are accepted without a look at
  the aliases, as names of at most two bytes with a capital first letter are.
\<close>

theorem recursive_aliases_do_not_compare:
  assumes "array_of_itself tc n" "array_of_itself tc m" "\<not> trivially_compatible (TyClass n []) (TyClass m [])"
  shows "are_types_compatible tc (TyClass n []) (TyClass m []) = None"
proof -
  let ?e = "TyClass n []" and ?a = "TyClass m []"
  have "n \<noteq> m" using assms(3) by (auto simp: trivially_compatible_def)
  then have body: "optional_compatible tc f ?e ?a = Some r \<Longrightarrow> \<exists>b. f ?e ?a = Some b" for f r
    using resolve_array_of_itself assms(1,2) array_name
    by (cases "f ?e ?a")
      (simp_all add: optional_compatible_def resolved_compatible_def missing_generic_def is_numeric_def
        array_compatible_def or_else_def Let_def)
  have "\<not> (t = tc \<and> e = ?e \<and> a = ?a)" if "are_types_compatible t e a = Some r" for t e a r
  proof (rule are_types_compatible.raw_induct [where P = "\<lambda>t e a r. \<not> (t = tc \<and> e = ?e \<and> a = ?a)", OF _ that])
    fix f :: "checker \<Rightarrow> TejxType \<Rightarrow> TejxType \<Rightarrow> bool option" and t e a r
    assume IH: "\<And>t e a r. f t e a = Some r \<Longrightarrow> \<not> (t = tc \<and> e = ?e \<and> a = ?a)"
      and eq: "(if trivially_compatible e a then Some True else optional_compatible t (\<lambda>x y. f t x y) e a) = Some r"
    show "\<not> (t = tc \<and> e = ?e \<and> a = ?a)"
    proof
      assume "t = tc \<and> e = ?e \<and> a = ?a"
      with eq assms(3) body [of "f tc"] obtain b where "f tc ?e ?a = Some b" by auto
      with IH show False by blast
    qed
  qed
  then show ?thesis by (metis not_None_eq)
qed
theorem recursive_aliases_do_not_compare_witness:
  "are_types_compatible (array_alias ''Tree'' ''Tree'' (array_alias ''List'' ''List'' checker_new))
     (TyClass ''Tree'' []) (TyClass ''List'' []) = None"
proof (rule recursive_aliases_do_not_compare)
  show "\<not> trivially_compatible (TyClass ''Tree'' []) (TyClass ''List'' [])"
    by (simp add: trivially_compatible_def inferred_name_def is_generic_wildcard_def byte_len_def utf8_len_def)
qed (simp_all add: array_of_itself_def alias_of_array_alias from_name_words)

section \<open>Numeric bounds\<close>

definition f64_value :: "bool \<Rightarrow> nat \<Rightarrow> int \<Rightarrow> real" where
  "f64_value s m e = (if s then - 1 else 1) * real m * 2 powi e"

lemma signed_mant_value: "e0 \<le> e \<Longrightarrow> f64_value s m e = of_int (signed_mant s m e e0) * 2 powi e0"
proof -
  assume "e0 \<le> e"
  then have "(2::real) powi e = 2 ^ nat (e - e0) * 2 powi e0"
    by (metis diff_add_cancel diff_ge_0_iff_ge nat_0_le power_int_add power_int_of_nat zero_neq_numeral)
  then show ?thesis by (simp add: f64_value_def signed_mant_def)
qed

lemma f64_less_value: "f64_less (Finite s m e) (Finite t n f) \<longleftrightarrow> f64_value s m e < f64_value t n f"
proof -
  have "(2::real) powi min e f > 0" by (rule zero_less_power_int) simp
  then show ?thesis by (simp add: signed_mant_value [of "min e f"])
qed

text \<open>The bounds of a type as integers; the numbers of the source are exact up to 32 bits.\<close>

definition literal_range :: "TejxType \<Rightarrow> (int \<times> int) option" where
  "literal_range t =
     (case t of TyInt8 \<Rightarrow> Some (-128, 127) | TyUInt8 \<Rightarrow> Some (0, 255) | TyInt16 \<Rightarrow> Some (-32768, 32767)
      | TyUInt16 \<Rightarrow> Some (0, 65535) | TyUInt32 \<Rightarrow> Some (0, 2 ^ 32 - 1) | _ \<Rightarrow> None)"

lemmas eval_round =
  f64_of_nat_def round_f64_def floor_log2_def ratio_ge_pow2_def bitlen.simps round_half_even_def Let_def

lemma bounds_of_nat:
  "f64_of_nat 128 = Finite False (2 ^ 52) (- 45)" "f64_of_nat 127 = Finite False (127 * 2 ^ 46) (- 46)"
  "f64_of_nat 255 = Finite False (255 * 2 ^ 45) (- 45)" "f64_of_nat 32768 = Finite False (2 ^ 52) (- 37)"
  "f64_of_nat 32767 = Finite False (32767 * 2 ^ 38) (- 38)" "f64_of_nat 65535 = Finite False (65535 * 2 ^ 37) (- 37)"
  "f64_of_nat 4294967295 = Finite False (4294967295 * 2 ^ 21) (- 21)"
  "f64_of_nat 18446744073709551615 = Finite False (2 ^ 52) 12"
  by (simp_all add: eval_round)

lemma numeric_bounds_exact:
  "literal_range t = Some (lo, hi) \<Longrightarrow>
     \<exists>s m e n f. numeric_bounds (to_name t) = Some (Finite s m e, Finite False n f)
       \<and> f64_value s m e = of_int lo \<and> f64_value False n f = of_int hi"
  by (cases t) (auto simp: literal_range_def numeric_bounds_def bounds_of_nat f64_zero_def f64_value_def
      power_int_minus field_simps)

text \<open>
  Property C23: for the integer types of up to 32 bits but \<open>int\<close>, a number literal is reported
  exactly if it is outside the range of the type.
\<close>

theorem literal_bounds:
  assumes "literal_range t = Some (lo, hi)" "literal_value x = Some (Finite s m e)"
  shows "check_numeric_bounds x t l c tc = tc \<longleftrightarrow> of_int lo \<le> f64_value s m e \<and> f64_value s m e \<le> of_int hi"
proof -
  obtain s1 m1 e1 n f where b: "numeric_bounds (to_name t) = Some (Finite s1 m1 e1, Finite False n f)"
    "f64_value s1 m1 e1 = of_int lo" "f64_value False n f = of_int hi"
    using numeric_bounds_exact [OF assms(1)] by blast
  have "report_error_detailed msg l c co h tc \<noteq> tc" for msg co h
  proof
    assume "report_error_detailed msg l c co h tc = tc"
    then have "tc_diagnostics (report_error_detailed msg l c co h tc) = tc_diagnostics tc" by simp
    then show False by (simp add: report_error_detailed_def Let_def)
  qed
  then show ?thesis
    by (simp add: check_numeric_bounds_def assms(2) b f64_less_value not_less del: f64_less.simps)
qed

theorem literal_bounds_witness:
  "check_numeric_bounds (NumberLiteral (Finite False 300 0) False 1 1) TyUInt8 1 1 checker_new \<noteq> checker_new"
  using literal_bounds [of TyUInt8 0 255 "NumberLiteral (Finite False 300 0) False 1 1" False 300 0 1 1 checker_new]
  by (simp add: literal_range_def literal_value_def f64_value_def)

text \<open>
  Note: the literal 18446744073709551616, one more than the greatest number of the type,
  is accepted as a 64-bit unsigned number: the bound is rounded up to it.
\<close>

theorem uint64_bound_accepts_too_much:
  "let x = Finite False (2 ^ 52) 12 in
     parse_f64 ''18446744073709551616'' = Some x \<and> f64_value False (2 ^ 52) 12 = 2 ^ 64
     \<and> check_numeric_bounds (NumberLiteral x False l c) TyUInt64 l c tc = tc"
proof -
  have "parse_f64 ''18446744073709551616'' = Some (Finite False (2 ^ 52) 12)"
  proof -
    have d: "list_all is_ascii_digit ''18446744073709551616''"
      by (simp add: is_ascii_digit_def)
    have v: "digits_value ''18446744073709551616'' = 18446744073709551616"
      by (simp add: digits_value_def)
    have l: "strip_plus ''18446744073709551616'' = ''18446744073709551616''"
      "map to_lower ''18446744073709551616'' = ''18446744073709551616''"
      by (simp_all add: strip_plus_def to_lower_def is_ascii_upper_def)
    have w: "takeWhile is_ascii_digit ''18446744073709551616'' = ''18446744073709551616''"
      "dropWhile is_ascii_digit ''18446744073709551616'' = []"
      using d unfolding list_all_iff takeWhile_eq_all_conv dropWhile_eq_Nil_conv by blast+
    have "parse_f64_magnitude False ''18446744073709551616'' = Some (round_f64 False 18446744073709551616 1)"
      unfolding parse_f64_magnitude_def w Let_def by (simp add: parse_exponent_def v)
    then show ?thesis unfolding parse_f64_def l Let_def by (simp add: l eval_round)
  qed
  then show ?thesis
    by (simp add: f64_value_def check_numeric_bounds_def literal_value_def numeric_bounds_def bounds_of_nat f64_zero_def
        signed_mant_def)
qed

end
