(* ===== verification/GenericsFacts.thy ===== *)
theory GenericsFacts
  imports Compat TypesRoundTrip
begin

text \<open>
  Generic parameters travel through the checker as placeholders in texts: replacing the names of
  the parameters by placeholders and the placeholders by the arguments of an instance is the
  renaming of the words of the text, for up to five parameters.
\<close>

section \<open>Renaming words\<close>

definition renamed :: "(string \<rightharpoonup> string) \<Rightarrow> string \<Rightarrow> string" where
  "renamed \<sigma> w = (case \<sigma> w of Some t \<Rightarrow> t | None \<Rightarrow> w)"

function rename_words :: "(string \<rightharpoonup> string) \<Rightarrow> string \<Rightarrow> string" where
  "rename_words \<sigma> [] = []"
| "rename_words \<sigma> (c # s) =
     (if is_ident_char c then
        renamed \<sigma> (c # takeWhile is_ident_char s) @ rename_words \<sigma> (dropWhile is_ident_char s)
      else c # rename_words \<sigma> s)"
  by pat_completeness auto
termination
  by (relation "measure (\<lambda>(\<sigma>, s). length s)") (auto simp: le_imp_less_Suc length_dropWhile_le)

definition starts_outside :: "string \<Rightarrow> bool" where
  "starts_outside r \<longleftrightarrow> r = [] \<or> \<not> is_ident_char (hd r)"

lemma starts_outside_take: "starts_outside r \<Longrightarrow> takeWhile is_ident_char r = [] \<and> dropWhile is_ident_char r = r"
  by (cases r) (auto simp: starts_outside_def)

lemma starts_outside_drop: "starts_outside (dropWhile is_ident_char s)"
  unfolding starts_outside_def by (metis hd_dropWhile dropWhile_eq_Nil_conv)

lemma rename_word:
  assumes "list_all is_ident_char w" "w \<noteq> []" "starts_outside r"
  shows "rename_words \<sigma> (w @ r) = renamed \<sigma> w @ rename_words \<sigma> r"
proof -
  obtain c u where w: "w = c # u" using assms(2) by (cases w) auto
  have "takeWhile is_ident_char (u @ r) = u" "dropWhile is_ident_char (u @ r) = r"
    using assms(1) w starts_outside_take [OF assms(3)]
    by (simp_all add: list_all_iff takeWhile_append dropWhile_append)
  then show ?thesis using assms(1) unfolding w by simp
qed

lemma rename_outside: "starts_outside r \<Longrightarrow> starts_outside (rename_words \<sigma> r)"
  by (cases r) (auto simp: starts_outside_def)

lemma rename_empty [simp]: "rename_words Map.empty s = s"
  by (induction "Map.empty :: string \<rightharpoonup> string" s rule: rename_words.induct) (auto simp: renamed_def)

section \<open>Names to placeholders\<close>

text \<open>The renaming of one word.\<close>

definition one_word :: "string \<Rightarrow> string \<Rightarrow> (string \<rightharpoonup> string)" where
  "one_word n p = (\<lambda>w. if w = n then Some p else None)"

lemma one_word_apply: "one_word n p w = (if w = n then Some p else None)"
  by (simp add: one_word_def)

lemma renamed_one_word: "renamed (one_word n p) w = (if w = n then p else w)"
  by (simp add: renamed_def one_word_def)

lemma starts_with_split: "starts_with s p \<Longrightarrow> s = p @ drop (length p) s"
  by (metis append_take_drop_id starts_with_def)

lemma replace_word_rename:
  assumes "list_all is_ident_char n" "n \<noteq> []"
  shows "replace_word n ph prev s =
    (if \<exists>d. prev = Some d \<and> is_ident_char d
     then takeWhile is_ident_char s @ rename_words (one_word n ph) (dropWhile is_ident_char s)
     else rename_words (one_word n ph) s)"
  using assms
proof (induction n ph prev s rule: replace_word.induct)
  case (2 n ph prev c s)
  let ?inside = "\<exists>d. prev = Some d \<and> is_ident_char d"
  have l: "is_ident_char (last n)" using "2.prems" by (simp add: list_all_iff)
  show ?case
  proof (cases "starts_with (c # s) n")
    case True
    define r where "r = drop (length n) (c # s)"
    have cs: "c # s = n @ r" using starts_with_split [OF True] by (simp add: r_def)
    have ih: "replace_word n ph (Some (last n)) r = takeWhile is_ident_char r @ rename_words (one_word n ph) (dropWhile is_ident_char r)"
      using "2.IH"(1) [of r] True "2.prems" l by (simp add: r_def)
    have tw: "takeWhile is_ident_char (n @ r) = n @ takeWhile is_ident_char r"
      "dropWhile is_ident_char (n @ r) = dropWhile is_ident_char r"
      using "2.prems"(1) by (simp_all add: list_all_iff takeWhile_append dropWhile_append)
    have b: "(case prev of None \<Rightarrow> True | Some d \<Rightarrow> \<not> is_ident_char d) \<longleftrightarrow> \<not> ?inside"
      by (cases prev) auto
    have lhs: "replace_word n ph prev (c # s) =
        (if \<not> ?inside \<and> starts_outside r then ph else n) @ replace_word n ph (Some (last n)) r"
      using True "2.prems"(2) b unfolding starts_outside_def
      by (simp add: r_def Let_def)
    show ?thesis
    proof (cases "?inside \<or> starts_outside r")
      case in_or_end: True
      show ?thesis
      proof (cases ?inside)
        case True
        with lhs ih tw show ?thesis unfolding cs by simp
      next
        case False
        with in_or_end have "starts_outside r" by blast
        with lhs ih False rename_word [OF "2.prems", of r "one_word n ph"] starts_outside_take [of r]
        show ?thesis unfolding cs by (auto simp: renamed_one_word)
      qed
    next
      case False
      then have "takeWhile is_ident_char r \<noteq> []" by (cases r) (auto simp: starts_outside_def)
      moreover have "list_all is_ident_char (n @ takeWhile is_ident_char r)"
        using "2.prems"(1) by (auto simp: list_all_iff dest: set_takeWhileD)
      ultimately have "rename_words (one_word n ph) ((n @ takeWhile is_ident_char r) @ dropWhile is_ident_char r) =
          (n @ takeWhile is_ident_char r) @ rename_words (one_word n ph) (dropWhile is_ident_char r)"
        by (subst rename_word) (auto simp: starts_outside_drop renamed_one_word)
      then have "rename_words (one_word n ph) (n @ r) =
          n @ takeWhile is_ident_char r @ rename_words (one_word n ph) (dropWhile is_ident_char r)"
        by simp
      with lhs ih False show ?thesis unfolding cs by auto
    qed
  next
    case False
    have ne: "c # takeWhile is_ident_char s \<noteq> n"
    proof
      assume "c # takeWhile is_ident_char s = n"
      then have "c # s = n @ dropWhile is_ident_char s" using takeWhile_dropWhile_id [of is_ident_char s] by auto
      with False show False by (simp add: starts_with_def)
    qed
    have lhs: "replace_word n ph prev (c # s) = c # replace_word n ph (Some c) s" using False by simp
    show ?thesis
      using "2.IH"(2) False "2.prems" ne by (simp only: lhs) (auto simp: renamed_one_word)
  qed
qed (simp add: starts_outside_def)

definition param_word :: "string \<Rightarrow> bool" where
  "param_word n \<longleftrightarrow> plain_name n \<and> is_ident_start (hd n)"

lemma digits_not_param: "param_word n \<Longrightarrow> nat_to_string k \<noteq> n"
  using hd_nat_to_string [of k] digit_not_ident_start by (auto simp: param_word_def)

lemma rename_compose:
  assumes "param_word n" "ran \<sigma> \<subseteq> range placeholder"
  shows "rename_words (one_word n p) (rename_words \<sigma> s) = rename_words (one_word n p ++ \<sigma>) s"
  using assms(2)
proof (induction \<sigma> s rule: rename_words.induct)
  case (2 \<sigma> c s)
  show ?case
  proof (cases "is_ident_char c")
    case True
    define w where "w = c # takeWhile is_ident_char s"
    define r where "r = rename_words \<sigma> (dropWhile is_ident_char s)"
    have w: "list_all is_ident_char w" "w \<noteq> []"
      using True by (auto simp: w_def list_all_iff dest: set_takeWhileD)
    have r: "starts_outside r" unfolding r_def by (intro rename_outside starts_outside_drop)
    have ih: "rename_words (one_word n p) r = rename_words (one_word n p ++ \<sigma>) (dropWhile is_ident_char s)"
      using "2.IH"(1) True "2.prems" by (simp add: r_def)
    have "rename_words (one_word n p) (renamed \<sigma> w @ r) =
        renamed (one_word n p ++ \<sigma>) w @ rename_words (one_word n p) r"
    proof (cases "\<sigma> w")
      case None
      with rename_word [OF w r, of "one_word n p"] show ?thesis
        by (simp add: renamed_one_word) (simp add: renamed_def map_add_def one_word_apply)
    next
      case (Some t)
      then obtain k where t: "t = placeholder k" using "2.prems" by (auto simp: ran_def)
      have "rename_words (one_word n p) (nat_to_string k @ r) = nat_to_string k @ rename_words (one_word n p) r"
        using rename_word [OF digits_ident [of k] nat_to_string_nonempty r, of "one_word n p"] digits_not_param [OF assms(1)]
        by (simp add: renamed_one_word)
      with Some t show ?thesis by (simp add: renamed_def placeholder_def map_add_def str_simps)
    qed
    with True ih show ?thesis by (simp add: w_def r_def)
  qed (use 2 in simp)
qed simp

lemma parameterize_loop_rename:
  "list_all param_word ns \<Longrightarrow> ran \<sigma> \<subseteq> range placeholder \<Longrightarrow>
     parameterize_loop i ns (rename_words \<sigma> s) =
       Some (rename_words (map_of (zip ns (map placeholder [i..<i + length ns])) ++ \<sigma>) s)"
proof (induction ns arbitrary: i \<sigma>)
  case (Cons n ns)
  then have n: "param_word n" "list_all is_ident_char n" "n \<noteq> []" by (auto simp: param_word_def plain_name_def)
  have "ran (one_word n (placeholder i) ++ \<sigma>) \<subseteq> range placeholder"
    using Cons.prems(2) by (auto simp: ran_def map_add_def one_word_apply split: option.splits if_splits)
  from Cons.IH [OF _ this, of "i + 1"] Cons.prems
  have "parameterize_loop (i + 1) ns (rename_words (one_word n (placeholder i) ++ \<sigma>) s) =
      Some (rename_words (map_of (zip ns (map placeholder [i + 1..<i + 1 + length ns])) ++ (one_word n (placeholder i) ++ \<sigma>)) s)"
    by simp
  moreover have "replace_word n (placeholder i) None (rename_words \<sigma> s) = rename_words (one_word n (placeholder i) ++ \<sigma>) s"
    using replace_word_rename [OF n(2,3)] rename_compose [OF n(1) Cons.prems(2)] by simp
  moreover have "map placeholder [i..<i + length (n # ns)] = placeholder i # map placeholder [i + 1..<i + 1 + length ns]"
    by (subst upt_conv_Cons) simp_all
  moreover have "map_of (zip (n # ns) (placeholder i # ps)) ++ \<sigma> = map_of (zip ns ps) ++ (one_word n (placeholder i) ++ \<sigma>)" for ps
    by (rule ext) (simp add: map_add_def one_word_def split: option.splits)
  ultimately show ?case
    using n(3) by (simp only: parameterize_loop.simps if_False)
qed simp

section \<open>Placeholders to arguments\<close>

lemma replace_text_skip:
  "CHR ''$'' \<notin> set u \<Longrightarrow> replace_text (placeholder i) v (u @ r) = u @ replace_text (placeholder i) v r"
  by (induction u) (auto simp: starts_with_def placeholder_def)

lemma nat_to_string_digit: "i < 10 \<Longrightarrow> nat_to_string i = [digit_char i]"
  by (subst nat_to_string.simps) simp

lemma digit_char_inj: "i < 10 \<Longrightarrow> j < 10 \<Longrightarrow> digit_char i = digit_char j \<longleftrightarrow> i = j"
  by (metis add_left_cancel code_digit_char)

lemma replace_text_placeholder:
  assumes "i < 10" "j < 10"
  shows "replace_text (placeholder i) v (placeholder j @ r) =
    (if j = i then v else placeholder j) @ replace_text (placeholder i) v r"
proof -
  have "digit_char j \<noteq> CHR ''$''" using code_digit_char [OF assms(2)] by auto
  then show ?thesis
    using assms by (auto simp: placeholder_def nat_to_string_digit starts_with_def digit_char_inj)
qed

lemma replace_text_rename:
  assumes "i < 10" "CHR ''$'' \<notin> set s"
    and "\<And>t. t \<in> ran \<sigma> \<Longrightarrow> CHR ''$'' \<notin> set t \<or> (\<exists>j<10. t = placeholder j)"
  shows "replace_text (placeholder i) v (rename_words \<sigma> s) =
    rename_words (\<lambda>w. map_option (\<lambda>t. if t = placeholder i then v else t) (\<sigma> w)) s"
  using assms(2,3)
proof (induction \<sigma> s rule: rename_words.induct)
  case (2 \<sigma> c s)
  show ?case
  proof (cases "is_ident_char c")
    case True
    define w where "w = c # takeWhile is_ident_char s"
    define r where "r = rename_words \<sigma> (dropWhile is_ident_char s)"
    have d: "CHR ''$'' \<notin> set w" "CHR ''$'' \<notin> set (dropWhile is_ident_char s)"
      using "2.prems"(1) by (auto simp: w_def dest: set_takeWhileD set_dropWhileD)
    have ih: "replace_text (placeholder i) v r =
        rename_words (\<lambda>w. map_option (\<lambda>t. if t = placeholder i then v else t) (\<sigma> w)) (dropWhile is_ident_char s)"
      using "2.IH"(1) True "2.prems"(2) d by (simp add: r_def)
    have "replace_text (placeholder i) v (renamed \<sigma> w @ r) =
        renamed (\<lambda>w. map_option (\<lambda>t. if t = placeholder i then v else t) (\<sigma> w)) w
        @ replace_text (placeholder i) v r"
    proof (cases "\<sigma> w")
      case None
      with d show ?thesis by (simp add: renamed_def replace_text_skip)
    next
      case (Some t)
      consider "CHR ''$'' \<notin> set t" | j where "j < 10" "t = placeholder j"
        using "2.prems"(2) [of t] Some by (auto simp: ran_def)
      then show ?thesis
      proof cases
        case 1
        then have "t \<noteq> placeholder i" by (auto simp: placeholder_def)
        with 1 Some show ?thesis by (simp add: renamed_def replace_text_skip)
      next
        case 2
        then have "t = placeholder i \<longleftrightarrow> j = i" using assms(1) by (auto simp: placeholder_def nat_to_string_digit digit_char_inj)
        with 2 Some assms(1) show ?thesis by (simp add: renamed_def replace_text_placeholder)
      qed
    qed
    with True ih show ?thesis by (simp add: w_def r_def)
  next
    case False
    with 2 show ?thesis by (auto simp: starts_with_def placeholder_def)
  qed
qed simp

text \<open>The value a text ends with when the placeholders of a list are replaced one after another.\<close>

definition put_value :: "(nat \<Rightarrow> string) \<Rightarrow> string \<Rightarrow> nat \<Rightarrow> string" where
  "put_value v t i = (if t = placeholder i then v i else t)"

definition fillable :: "nat \<Rightarrow> string \<Rightarrow> bool" where
  "fillable n t \<longleftrightarrow> CHR ''$'' \<notin> set t \<or> (\<exists>j<n. t = placeholder j)"

lemma placeholder_inj: "i < 10 \<Longrightarrow> j < 10 \<Longrightarrow> placeholder i = placeholder j \<longleftrightarrow> i = j"
  by (simp add: placeholder_def nat_to_string_digit digit_char_inj)

lemma fillable_put:
  assumes "n \<le> 10" "i < 10" "\<And>i. i < n \<Longrightarrow> CHR ''$'' \<notin> set (v i)" "fillable n t"
  shows "fillable n (put_value v t i)"
proof (cases "t = placeholder i")
  case True
  with assms(4) obtain j where "j < n" "placeholder i = placeholder j"
    by (auto simp: fillable_def) (auto simp: placeholder_def)
  with assms(1,2) have "i < n" by (simp add: placeholder_inj)
  with assms(3) True show ?thesis by (simp add: put_value_def fillable_def)
qed (use assms(4) in \<open>simp add: put_value_def\<close>)

lemma replace_texts_rename:
  assumes "n \<le> 10" "\<And>i. i < n \<Longrightarrow> CHR ''$'' \<notin> set (v i)" "CHR ''$'' \<notin> set s"
  shows "list_all (\<lambda>i. i < 10) is \<Longrightarrow> (\<And>t. t \<in> ran \<sigma> \<Longrightarrow> fillable n t) \<Longrightarrow>
    foldl (\<lambda>s i. replace_text (placeholder i) (v i) s) (rename_words \<sigma> s) is
      = rename_words (\<lambda>w. map_option (\<lambda>t. foldl (put_value v) t is) (\<sigma> w)) s"
proof (induction "is" arbitrary: \<sigma>)
  case (Cons i js)
  let ?\<sigma> = "\<lambda>w. map_option (\<lambda>t. put_value v t i) (\<sigma> w)"
  have i: "i < 10" using Cons.prems(1) by simp
  have "replace_text (placeholder i) (v i) (rename_words \<sigma> s) = rename_words ?\<sigma> s"
    unfolding put_value_def using Cons.prems(2) assms(1)
    by (intro replace_text_rename [OF i assms(3)]) (auto simp: fillable_def dest: less_le_trans)
  moreover have "fillable n t" if "t \<in> ran ?\<sigma>" for t
    using that Cons.prems(2) fillable_put [OF assms(1) i assms(2)] by (fastforce simp: ran_def)
  ultimately show ?case using Cons.IH [of ?\<sigma>] Cons.prems(1) by (simp add: option.map_comp comp_def)
qed (simp add: option.map_ident)

lemma put_values_plain: "CHR ''$'' \<notin> set t \<Longrightarrow> foldl (put_value v) t is = t"
  by (induction "is") (auto simp: put_value_def placeholder_def)

lemma put_values_placeholder:
  "j < 10 \<Longrightarrow> list_all (\<lambda>i. i < 10) is \<Longrightarrow> CHR ''$'' \<notin> set (v j) \<Longrightarrow>
     foldl (put_value v) (placeholder j) is = (if j \<in> set is then v j else placeholder j)"
proof (induction "is")
  case (Cons i js)
  then show ?case
    by (cases "i = j") (auto simp: put_value_def placeholder_inj put_values_plain [unfolded put_value_def])
qed simp

lemma name_no_dollar: "printable t \<Longrightarrow> CHR ''$'' \<notin> set (to_name t)"
  using name_chars [of t] by (auto simp: list_all_iff name_char_def str_simps)

lemma type_arguments_name:
  assumes "printable (TyClass n ts)" "ts \<noteq> []"
  shows "type_arguments (to_name (TyClass n ts)) = map to_name ts"
proof -
  define s where "s = join_with '', '' (map to_name ts)"
  have t: "list_all (\<lambda>t. printable t \<and> no_function t) ts" "list_all is_ident_char n"
    using assms by (auto simp: plain_name_def)
  then have p: "list_all printable ts" by (simp add: list_all_iff)
  have "find_top_level_generic_bounds (n @ ''<'' @ s @ ''>'') = Some (length n, length n + 1 + length s)"
    using generic_bounds_name [OF t(2)] angle_text [OF t(1) assms(2)] by (simp add: s_def)
  moreover have "slice (length n + 1) (length n + 1 + length s) (n @ ''<'' @ s @ ''>'') = s"
    by (simp add: slice_def)
  moreover have "filter (\<lambda>p. p \<noteq> []) (map to_name ts) = map to_name ts"
    using p tight_name by (auto simp: filter_id_conv list_all_iff tight_def)
  ultimately show ?thesis using assms(2) split_names [OF p assms(2)]
    by (simp add: type_arguments_def s_def)
qed

lemma map_of_zip_values: "map_of (zip xs (map f ys)) w = map_option f (map_of (zip xs ys) w)"
  by (induction xs ys rule: list_induct2') auto

section \<open>Generic members of an instance\<close>

text \<open>
  Property C17: the type text of a member of a generic class, stored with a placeholder for every
  generic parameter, becomes at an instance of the class the text in which every parameter name,
  as a whole word, is replaced by the text of the argument at its position, for classes with at
  most five parameters and arguments without function types: no other text changes, and the
  replacements do not interfere. (The text of a function type is cut at its arrow.)
\<close>

theorem generic_member_at_instance:
  assumes "printable (TyClass c ts)" "length gs = length ts" "0 < length ts" "length ts \<le> 5"
    and "list_all (\<lambda>g. param_word (generic_name g)) gs" "CHR ''$'' \<notin> set m"
  shows "map_option (\<lambda>p. fill_placeholders p (to_name (TyClass c ts))) (parameterize_generics m gs) =
    Some (rename_words (map_of (zip (map generic_name gs) (map to_name ts))) m)"
proof -
  let ?ns = "map generic_name gs"
  define n where "n = length ts"
  define v where "v = placeholder_value (map to_name ts)"
  define \<sigma> where "\<sigma> = map_of (zip ?ns (map placeholder [0..<n]))"
  have printable: "printable t" if "t \<in> set ts" for t using assms(1,3) that by (auto simp: list_all_iff)
  have v: "v i = to_name (ts ! i)" "CHR ''$'' \<notin> set (v i)" if "i < n" for i
    using that printable name_no_dollar by (simp_all add: v_def placeholder_value_def n_def)
  have "parameterize_generics m gs = Some (rename_words \<sigma> m)"
    using parameterize_loop_rename [of ?ns Map.empty 0 m] assms(2,5)
    by (simp add: parameterize_generics_def \<sigma>_def n_def list_all_iff)
  moreover have "fill_placeholders (rename_words \<sigma> m) (to_name (TyClass c ts)) =
      foldl (\<lambda>s i. replace_text (placeholder i) (v i) s) (rename_words \<sigma> m) [0..<5]"
    using type_arguments_name [OF assms(1)] assms(3) unfolding fill_placeholders_def v_def by simp
  moreover have "fillable n t" if "t \<in> ran \<sigma>" for t
  proof -
    from that obtain j where "j < n" "t = placeholder j"
      by (auto simp: \<sigma>_def ran_def dest!: map_of_SomeD set_zip_rightD)
    then show ?thesis unfolding fillable_def by blast
  qed
  with v(2) assms(4,6) have "foldl (\<lambda>s i. replace_text (placeholder i) (v i) s) (rename_words \<sigma> m) [0..<5] =
      rename_words (\<lambda>w. map_option (\<lambda>t. foldl (put_value v) t [0..<5]) (\<sigma> w)) m"
    by (intro replace_texts_rename [where n = n]) (simp_all add: n_def list_all_iff)
  moreover have "(\<lambda>w. map_option (\<lambda>t. foldl (put_value v) t [0..<5]) (\<sigma> w)) =
      map_of (zip ?ns (map (\<lambda>i. foldl (put_value v) (placeholder i) [0..<5]) [0..<n]))"
    unfolding \<sigma>_def by (rule ext) (simp add: map_of_zip_values option.map_comp comp_def)
  moreover have "map (\<lambda>i. foldl (put_value v) (placeholder i) [0..<5]) [0..<n] = map to_name ts"
    using v assms(4) by (intro nth_equalityI) (simp_all add: n_def put_values_placeholder list_all_iff)
  ultimately show ?thesis by simp
qed

theorem generic_member_at_instance_witness:
  "map_option (\<lambda>p. fill_placeholders p (to_name (TyClass ''Map'' [TyString, TyDynamicArray TyInt32])))
     (parameterize_generics ''Pair<K, Keyed<V>>[]'' [GenericParam ''K'' None, GenericParam ''V'' None]) =
   Some ''Pair<string, Keyed<int[]>>[]''"
  by (subst generic_member_at_instance)
    (simp_all add: generic_name_def param_word_def plain_name_def renamed_def str_simps)

text \<open>
  Note: the placeholder of a sixth parameter is never replaced: a member whose type is the
  sixth parameter of its class has the type text \<open>$5\<close> at every instance.
\<close>

theorem sixth_parameter_stays:
  "parameterize_generics ''F'' (map (\<lambda>n. GenericParam n None) [''A'', ''B'', ''C'', ''D'', ''E'', ''F'']) =
     Some (placeholder 5) \<and>
   fill_placeholders (placeholder 5) obj = placeholder 5"
proof
  show "parameterize_generics ''F'' (map (\<lambda>n. GenericParam n None) [''A'', ''B'', ''C'', ''D'', ''E'', ''F'']) =
     Some (placeholder 5)"
    by (simp add: parameterize_generics_def generic_name_def starts_with_def Let_def) (simp add: eval_nat_numeral)
  have "replace_text (placeholder i) u (placeholder 5) = placeholder 5" if "i < 5" for i u
    using replace_text_placeholder [of i 5 u "[]"] that by simp
  then have "foldl (\<lambda>s i. replace_text (placeholder i) (placeholder_value (type_arguments obj) i) s) (placeholder 5) is
      = placeholder 5" if "list_all (\<lambda>i. i < 5) is" for "is"
    using that by (induction "is") simp_all
  then show "fill_placeholders (placeholder 5) obj = placeholder 5"
    by (simp add: fill_placeholders_def list_all_iff)
qed

section \<open>Object types in signatures\<close>

text \<open>
  Note: the signature of a method is a text whose parts are separated by colons, and an
  object type contains colons: of a method without parameters that returns an object with an
  integer \<open>x\<close>, the signature read back has the class \<open>{ x\<close> for its return type and a parameter.
\<close>

theorem object_return_is_split:
  "method_signature (FunctionDeclaration n [] (TNObject [(''x'', False, TNNamed ''int'')]) b x gs l c)
     = Some ''function:{ x:int }'' \<and>
   callable_return_type (from_name ''function:{ x:int }'') = Some (Some (TyClass ''{ x'' []))"
proof
  show "method_signature (FunctionDeclaration n [] (TNObject [(''x'', False, TNNamed ''int'')]) b x gs l c)
     = Some ''function:{ x:int }''"
    by (simp add: method_signature_def Let_def or_inferred_def) code_simp
  show "callable_return_type (from_name ''function:{ x:int }'') = Some (Some (TyClass ''{ x'' []))"
    by code_simp
qed

end
