(* ===== verification/Hir.thy ===== *)
theory Hir
  imports Types
begin

text \<open>
  The high-level representation, \<open>src/compiler/middle/hir/mod.rs\<close>: typed expressions and
  statements with one form of loop. The last number of a constructor is the line.
\<close>

datatype (plugins only: size code) HIRExpression =
    HLiteral string TejxType nat
  | HVariable string TejxType nat
  | HBinary HIRExpression TokenType HIRExpression TejxType nat
  | HCall string "HIRExpression list" TejxType nat
  | HIndirectCall HIRExpression "HIRExpression list" TejxType nat
  | HNew string "HIRExpression list" TejxType nat
  | HAssignment HIRExpression HIRExpression TejxType nat
  | HPostfixUpdate HIRExpression TokenType TejxType nat
  | HSequence "HIRExpression list" TejxType nat
  | HOptionalChain HIRExpression string TejxType nat
  | HIndexAccess HIRExpression HIRExpression TejxType nat
  | HMemberAccess HIRExpression string TejxType nat
  | HObjectLiteral "(string \<times> HIRExpression) list" TejxType nat
  | HArrayLiteral "HIRExpression list" "HIRExpression option" TejxType nat
  | HConditional HIRExpression HIRExpression HIRExpression TejxType nat
  | HNoneLiteral nat
  | HSomeExpr HIRExpression nat
  | HCast HIRExpression TejxType nat

text \<open>\<open>HIRExpression::get_type\<close> and \<open>get_line\<close>.\<close>

fun hexpr_type :: "HIRExpression \<Rightarrow> TejxType" where
  "hexpr_type (HLiteral _ t _) = t"
| "hexpr_type (HVariable _ t _) = t"
| "hexpr_type (HBinary _ _ _ t _) = t"
| "hexpr_type (HCall _ _ t _) = t"
| "hexpr_type (HIndirectCall _ _ t _) = t"
| "hexpr_type (HNew _ _ t _) = t"
| "hexpr_type (HAssignment _ _ t _) = t"
| "hexpr_type (HPostfixUpdate _ _ t _) = t"
| "hexpr_type (HSequence _ t _) = t"
| "hexpr_type (HOptionalChain _ _ t _) = t"
| "hexpr_type (HIndexAccess _ _ t _) = t"
| "hexpr_type (HMemberAccess _ _ t _) = t"
| "hexpr_type (HObjectLiteral _ t _) = t"
| "hexpr_type (HArrayLiteral _ _ t _) = t"
| "hexpr_type (HConditional _ _ _ t _) = t"
| "hexpr_type (HNoneLiteral _) = TyVoid"
| "hexpr_type (HSomeExpr e _) = hexpr_type e"
| "hexpr_type (HCast _ t _) = t"

definition hexpr_line :: "HIRExpression \<Rightarrow> nat" where
  "hexpr_line e =
     (case e of
        HLiteral _ _ l \<Rightarrow> l | HVariable _ _ l \<Rightarrow> l | HBinary _ _ _ _ l \<Rightarrow> l | HCall _ _ _ l \<Rightarrow> l
      | HIndirectCall _ _ _ l \<Rightarrow> l | HNew _ _ _ l \<Rightarrow> l | HAssignment _ _ _ l \<Rightarrow> l
      | HPostfixUpdate _ _ _ l \<Rightarrow> l | HSequence _ _ l \<Rightarrow> l | HOptionalChain _ _ _ l \<Rightarrow> l
      | HIndexAccess _ _ _ l \<Rightarrow> l | HMemberAccess _ _ _ l \<Rightarrow> l | HObjectLiteral _ _ l \<Rightarrow> l
      | HArrayLiteral _ _ _ l \<Rightarrow> l | HConditional _ _ _ _ l \<Rightarrow> l | HNoneLiteral l \<Rightarrow> l
      | HSomeExpr _ l \<Rightarrow> l | HCast _ _ l \<Rightarrow> l)"

text \<open>A case of a switch: its value, none for the default, and its body.\<close>

datatype (plugins only: size code) 's HIRCase = HIRCase (case_value: "HIRExpression option") (case_body: 's)

datatype (plugins only: size code) HIRStatement =
    HExprStmt HIRExpression nat
  | HBlock "HIRStatement list" nat
  | HVarDecl string "HIRExpression option" TejxType bool nat
  | HFunction string "(string \<times> TejxType) list" TejxType HIRStatement bool nat
  | HReturn "HIRExpression option" nat
  | HLoop HIRExpression HIRStatement "HIRStatement option" bool nat
  | HIfStmt HIRExpression HIRStatement "HIRStatement option" nat
  | HSwitch HIRExpression "HIRStatement HIRCase list" nat
  | HBreak nat
  | HContinue nat
  | HTry HIRStatement "string option" HIRStatement "HIRStatement option" nat
  | HThrow HIRExpression nat
  | HSequenceStmt "HIRStatement list" nat

definition hstmt_line :: "HIRStatement \<Rightarrow> nat" where
  "hstmt_line s =
     (case s of
        HExprStmt _ l \<Rightarrow> l | HBlock _ l \<Rightarrow> l | HVarDecl _ _ _ _ l \<Rightarrow> l | HFunction _ _ _ _ _ l \<Rightarrow> l
      | HReturn _ l \<Rightarrow> l | HLoop _ _ _ _ l \<Rightarrow> l | HIfStmt _ _ _ l \<Rightarrow> l | HSwitch _ _ l \<Rightarrow> l
      | HBreak l \<Rightarrow> l | HContinue l \<Rightarrow> l | HTry _ _ _ _ l \<Rightarrow> l | HThrow _ l \<Rightarrow> l
      | HSequenceStmt _ l \<Rightarrow> l)"

lemma size_argument: "e \<in> set es \<Longrightarrow> size (e :: HIRExpression) < Suc (size_list size es)"
  by (induction es) auto

lemma size_case_body [termination_simp]: "c \<in> set cs \<Longrightarrow> size (case_body c) < Suc (size_list (size_HIRCase size) cs)"
proof (induction cs)
  case (Cons d cs)
  then show ?case by (cases d) auto
qed simp

lemma size_entry_expr: "(k, e) \<in> set es \<Longrightarrow> size e < Suc (size_list (size_prod (\<lambda>_. 0) size) es)"
  by (induction es) auto

end
