(* ===== verification/Mir.thy ===== *)
theory Mir
  imports Types
begin

text \<open>
  The mid-level representation, \<open>src/compiler/middle/mir/mod.rs\<close>: values, instructions, basic
  blocks and functions. The map from variables to types is an association list, so that it is
  finite; the number at the end of an instruction is its line.
\<close>

datatype (plugins only: size) MIRValue =
    MVariable string TejxType
  | MConstant string TejxType

definition get_type :: "MIRValue \<Rightarrow> TejxType" where
  "get_type v = (case v of MVariable _ t \<Rightarrow> t | MConstant _ t \<Rightarrow> t)"

datatype (plugins only: size) MIRInstruction =
    MMove string MIRValue nat
  | MBinaryOp string MIRValue TokenType MIRValue TejxType nat
  | MBranch MIRValue nat nat nat
  | MJump nat nat
  | MReturn "MIRValue option" nat
  | MCall string string "MIRValue list" nat
  | MIndirectCall string MIRValue "MIRValue list" nat
  | MLoadMember string MIRValue string nat
  | MStoreMember MIRValue string MIRValue nat
  | MLoadIndex string MIRValue MIRValue TejxType nat
  | MStoreIndex MIRValue MIRValue MIRValue TejxType nat
  | MThrow MIRValue nat
  | MCast string MIRValue TejxType nat
  | MTrySetup nat nat nat
  | MPopHandler nat

text \<open>\<open>MIRInstruction::get_line\<close> and \<open>set_line\<close>.\<close>

definition inst_line :: "MIRInstruction \<Rightarrow> nat" where
  "inst_line i =
     (case i of MMove _ _ l \<Rightarrow> l | MBinaryOp _ _ _ _ _ l \<Rightarrow> l | MBranch _ _ _ l \<Rightarrow> l | MJump _ l \<Rightarrow> l
      | MReturn _ l \<Rightarrow> l | MCall _ _ _ l \<Rightarrow> l | MIndirectCall _ _ _ l \<Rightarrow> l | MLoadMember _ _ _ l \<Rightarrow> l
      | MStoreMember _ _ _ l \<Rightarrow> l | MLoadIndex _ _ _ _ l \<Rightarrow> l | MStoreIndex _ _ _ _ l \<Rightarrow> l
      | MThrow _ l \<Rightarrow> l | MCast _ _ _ l \<Rightarrow> l | MTrySetup _ _ l \<Rightarrow> l | MPopHandler l \<Rightarrow> l)"

definition set_line :: "nat \<Rightarrow> MIRInstruction \<Rightarrow> MIRInstruction" where
  "set_line n i =
     (case i of MMove d s _ \<Rightarrow> MMove d s n | MBinaryOp d a op b w _ \<Rightarrow> MBinaryOp d a op b w n
      | MBranch c t f _ \<Rightarrow> MBranch c t f n | MJump t _ \<Rightarrow> MJump t n | MReturn v _ \<Rightarrow> MReturn v n
      | MCall d c as _ \<Rightarrow> MCall d c as n | MIndirectCall d c as _ \<Rightarrow> MIndirectCall d c as n
      | MLoadMember d ob m _ \<Rightarrow> MLoadMember d ob m n | MStoreMember ob m s _ \<Rightarrow> MStoreMember ob m s n
      | MLoadIndex d ob ix t _ \<Rightarrow> MLoadIndex d ob ix t n
      | MStoreIndex ob ix s t _ \<Rightarrow> MStoreIndex ob ix s t n | MThrow v _ \<Rightarrow> MThrow v n
      | MCast d s t _ \<Rightarrow> MCast d s t n | MTrySetup t c _ \<Rightarrow> MTrySetup t c n
      | MPopHandler _ \<Rightarrow> MPopHandler n)"

record BasicBlock =
  bb_name :: string
  bb_instructions :: "MIRInstruction list"
  bb_exception_handler :: "nat option"

definition block_new :: "string \<Rightarrow> BasicBlock" where
  "block_new n = \<lparr>bb_name = n, bb_instructions = [], bb_exception_handler = None\<rparr>"

definition add_instruction :: "MIRInstruction \<Rightarrow> BasicBlock \<Rightarrow> BasicBlock" where
  "add_instruction i b = b\<lparr>bb_instructions := bb_instructions b @ [i]\<rparr>"

definition is_terminator :: "MIRInstruction \<Rightarrow> bool" where
  "is_terminator i \<longleftrightarrow>
     (case i of MReturn _ _ \<Rightarrow> True | MJump _ _ \<Rightarrow> True | MBranch _ _ _ _ \<Rightarrow> True | MThrow _ _ \<Rightarrow> True
      | _ \<Rightarrow> False)"

definition is_terminated :: "BasicBlock \<Rightarrow> bool" where
  "is_terminated b \<longleftrightarrow> bb_instructions b \<noteq> [] \<and> is_terminator (last (bb_instructions b))"

record MIRFunction =
  mf_name :: string
  mf_params :: "string list"
  mf_variables :: "(string \<times> TejxType) list"
  mf_return_type :: TejxType
  mf_blocks :: "BasicBlock list"
  mf_entry_block :: nat
  mf_is_extern :: bool

definition function_new :: "string \<Rightarrow> TejxType \<Rightarrow> MIRFunction" where
  "function_new n t =
     \<lparr>mf_name = n, mf_params = [], mf_variables = [], mf_return_type = t, mf_blocks = [],
      mf_entry_block = 0, mf_is_extern = False\<rparr>"

section \<open>Every instruction of a function\<close>

text \<open>Apply a rewriting of instructions to every block.\<close>

definition map_block :: "(MIRInstruction list \<Rightarrow> MIRInstruction list) \<Rightarrow> BasicBlock \<Rightarrow> BasicBlock" where
  "map_block g b = b\<lparr>bb_instructions := g (bb_instructions b)\<rparr>"

definition map_blocks :: "(MIRInstruction list \<Rightarrow> MIRInstruction list) \<Rightarrow> MIRFunction \<Rightarrow> MIRFunction" where
  "map_blocks g f = f\<lparr>mf_blocks := map (map_block g) (mf_blocks f)\<rparr>"

definition instructions :: "MIRFunction \<Rightarrow> MIRInstruction list" where
  "instructions f = concat (map bb_instructions (mf_blocks f))"

lemma map_block_sel [simp]:
  "bb_name (map_block g b) = bb_name b" "bb_instructions (map_block g b) = g (bb_instructions b)"
  "bb_exception_handler (map_block g b) = bb_exception_handler b"
  by (simp_all add: map_block_def)

lemma map_blocks_sel [simp]:
  "mf_name (map_blocks g f) = mf_name f" "mf_params (map_blocks g f) = mf_params f"
  "mf_variables (map_blocks g f) = mf_variables f" "mf_blocks (map_blocks g f) = map (map_block g) (mf_blocks f)"
  "mf_entry_block (map_blocks g f) = mf_entry_block f"
  by (simp_all add: map_blocks_def)

lemma instructions_map_blocks: "instructions (map_blocks g f) = concat (map (g \<circ> bb_instructions) (mf_blocks f))"
  by (simp add: instructions_def comp_def)

text \<open>The destination and the operands of an instruction.\<close>

definition inst_dst :: "MIRInstruction \<Rightarrow> string option" where
  "inst_dst i =
     (case i of MMove d _ _ \<Rightarrow> Some d | MBinaryOp d _ _ _ _ _ \<Rightarrow> Some d | MCall d _ _ _ \<Rightarrow> Some d
      | MIndirectCall d _ _ _ \<Rightarrow> Some d | MLoadMember d _ _ _ \<Rightarrow> Some d | MLoadIndex d _ _ _ _ \<Rightarrow> Some d
      | MCast d _ _ _ \<Rightarrow> Some d | _ \<Rightarrow> None)"

text \<open>\<open>map_operands h i\<close> rewrites every operand of \<open>i\<close> with \<open>h\<close>.\<close>

definition map_operands :: "(MIRValue \<Rightarrow> MIRValue) \<Rightarrow> MIRInstruction \<Rightarrow> MIRInstruction" where
  "map_operands h i =
     (case i of
        MMove d s l \<Rightarrow> MMove d (h s) l
      | MBinaryOp d a op b w l \<Rightarrow> MBinaryOp d (h a) op (h b) w l
      | MBranch c t f l \<Rightarrow> MBranch (h c) t f l
      | MReturn v l \<Rightarrow> MReturn (map_option h v) l
      | MCall d c as l \<Rightarrow> MCall d c (map h as) l
      | MIndirectCall d c as l \<Rightarrow> MIndirectCall d (h c) (map h as) l
      | MLoadMember d ob m l \<Rightarrow> MLoadMember d (h ob) m l
      | MStoreMember ob m s l \<Rightarrow> MStoreMember (h ob) m (h s) l
      | MLoadIndex d ob ix t l \<Rightarrow> MLoadIndex d (h ob) (h ix) t l
      | MStoreIndex ob ix s t l \<Rightarrow> MStoreIndex (h ob) (h ix) (h s) t l
      | MThrow v l \<Rightarrow> MThrow (h v) l
      | MCast d s t l \<Rightarrow> MCast d (h s) t l
      | _ \<Rightarrow> i)"

definition operands :: "MIRInstruction \<Rightarrow> MIRValue list" where
  "operands i =
     (case i of
        MMove d s l \<Rightarrow> [s] | MBinaryOp d a op b w l \<Rightarrow> [a, b] | MBranch c t f l \<Rightarrow> [c]
      | MReturn v l \<Rightarrow> (case v of Some x \<Rightarrow> [x] | None \<Rightarrow> []) | MCall d c as l \<Rightarrow> as
      | MIndirectCall d c as l \<Rightarrow> c # as | MLoadMember d ob m l \<Rightarrow> [ob]
      | MStoreMember ob m s l \<Rightarrow> [ob, s] | MLoadIndex d ob ix t l \<Rightarrow> [ob, ix]
      | MStoreIndex ob ix s t l \<Rightarrow> [ob, ix, s] | MThrow v l \<Rightarrow> [v] | MCast d s t l \<Rightarrow> [s]
      | _ \<Rightarrow> [])"

text \<open>The instruction without its operands: what a primitive of the runtime is given.\<close>

definition erase_operands :: "MIRInstruction \<Rightarrow> MIRInstruction" where
  "erase_operands = map_operands (\<lambda>_. MConstant [] TyVoid)"

lemma operands_map: "operands (map_operands h i) = map h (operands i)"
  by (cases i) (auto simp: operands_def map_operands_def split: option.splits)

lemma map_operands_sel [simp]:
  "inst_dst (map_operands h i) = inst_dst i" "is_terminator (map_operands h i) = is_terminator i"
  "map_operands g (map_operands h i) = map_operands (g \<circ> h) i"
  by (cases i; simp add: inst_dst_def map_operands_def is_terminator_def option.map_comp comp_def)+

lemma erase_map [simp]: "map_operands h (erase_operands i) = map_operands (\<lambda>_. h (MConstant [] TyVoid)) i"
  by (simp add: erase_operands_def comp_def)

lemma set_line_line [simp]: "inst_line (set_line n i) = n"
  by (cases i) (simp_all add: set_line_def inst_line_def)

end
