(* ===== verification/MirLower.thy ===== *)
theory MirLower
  imports Hir Mir Signatures "HOL-Library.AList"
begin

text \<open>
  From the high-level to the mid-level representation, \<open>src/compiler/middle/mir/lowering.rs\<close>: the
  state of the pass, what it emits, and the lowering of expressions, statements and functions.
  The stacks of the pass are lists with the top in front.
\<close>

unbundle bit_operations_syntax

section \<open>State\<close>

record LoopContext =
  continue_target :: nat
  break_target :: nat

record ThrowFinallyContext =
  tf_id :: nat
  is_unwinding_var :: string
  saved_ex_var :: string
  finally_body_idx :: nat

record ControlFinallyContext =
  cf_id :: nat
  finally_stmt :: HIRStatement

datatype PendingControlTransfer = TransferReturn "MIRValue option" | TransferJump nat

record lowering =
  lo_function :: MIRFunction
  lo_block :: nat
  lo_temp_counter :: nat
  lo_block_counter :: nat
  lo_finally_counter :: nat
  lo_loops :: "LoopContext list"
  lo_handlers :: "nat list"
  lo_expected :: "TejxType option"
  lo_signatures :: "(string \<times> TejxType list) list"
  lo_return_type :: TejxType
  lo_line :: nat
  lo_scopes :: "(string \<times> string) list list"
  lo_var_counter :: nat
  lo_class_fields :: "(string \<times> (string \<times> TejxType) list) list"
  lo_control_finally :: "ControlFinallyContext list"
  lo_throw_finally :: "ThrowFinallyContext list"

type_synonym 'a lower = "('a, lowering) program"

definition lowering_new ::
  "(string \<times> TejxType list) list \<Rightarrow> (string \<times> (string \<times> TejxType) list) list \<Rightarrow> lowering" where
  "lowering_new sigs layouts =
     \<lparr>lo_function = function_new [] TyVoid, lo_block = 0, lo_temp_counter = 0, lo_block_counter = 0,
      lo_finally_counter = 0, lo_loops = [], lo_handlers = [], lo_expected = None,
      lo_signatures = sigs, lo_return_type = TyVoid, lo_line = 0, lo_scopes = [[]],
      lo_var_counter = 0, lo_class_fields = layouts, lo_control_finally = [], lo_throw_finally = []\<rparr>"

text \<open>The state is read with \<open>gets\<close> and changed with \<open>modify\<close>.\<close>

definition gets :: "(lowering \<Rightarrow> 'a) \<Rightarrow> 'a lower" where
  "gets f s = Done (f s, s)"

definition modify :: "(lowering \<Rightarrow> lowering) \<Rightarrow> unit lower" where
  "modify f s = Done ((), f s)"

definition skip :: "unit lower" where
  "skip = ret ()"

fun each :: "(nat \<Rightarrow> 'a \<Rightarrow> 'b lower) \<Rightarrow> nat \<Rightarrow> 'a list \<Rightarrow> 'b list lower" where
  "each f i [] = ret []"
| "each f i (x # xs) = (pbind (f i x) (\<lambda>y.
  pbind (each f (i + 1) xs) (\<lambda>ys.
  ret (y # ys))))"

lemma each_cong [fundef_cong]:
  "xs = ys \<Longrightarrow> (\<And>i x. x \<in> set ys \<Longrightarrow> f i x = g i x) \<Longrightarrow> each f n xs = each g n ys"
proof -
  assume "xs = ys" and "\<And>i x. x \<in> set ys \<Longrightarrow> f i x = g i x"
  then show "each f n xs = each g n ys"
    by (induction ys arbitrary: xs n) auto
qed

section \<open>Scopes and variables\<close>

definition new_scope :: "unit lower" where
  "new_scope = modify (\<lambda>s. s\<lparr>lo_scopes := [] # lo_scopes s\<rparr>)"

text \<open>\<open>expect("Scope stack underflow")\<close> is the panic.\<close>

definition pop_scope :: "string list lower" where
  "pop_scope s =
     (case lo_scopes s of [] \<Rightarrow> Panic | sc # scs \<Rightarrow> Done (map snd sc, s\<lparr>lo_scopes := scs\<rparr>))"

definition bind_name :: "string \<Rightarrow> string \<Rightarrow> lowering \<Rightarrow> lowering" where
  "bind_name n u s =
     (case lo_scopes s of [] \<Rightarrow> s | sc # scs \<Rightarrow> s\<lparr>lo_scopes := AList.update n u sc # scs\<rparr>)"

definition declare_variable :: "string \<Rightarrow> string lower" where
  "declare_variable n =
     (if starts_with n ''g_'' then (pbind (modify (bind_name n n)) (\<lambda>_.
       ret n))
      else (pbind (gets (\<lambda>s. if CHR ''$'' \<in> set n \<or> length (lo_scopes s) = 1 then n
                             else n @ ''_'' @ nat_to_string (lo_var_counter s))) (\<lambda>u.
        pbind ((if CHR ''$'' \<in> set n then skip
               else modify (\<lambda>s. s\<lparr>lo_var_counter := lo_var_counter s + 1\<rparr>))) (\<lambda>_.
        pbind (modify (bind_name n u)) (\<lambda>_.
        ret u)))))"

primrec find_name :: "string \<Rightarrow> (string \<times> string) list list \<Rightarrow> string option" where
  "find_name n [] = None"
| "find_name n (sc # scs) = (case map_of sc n of Some u \<Rightarrow> Some u | None \<Rightarrow> find_name n scs)"

definition resolve_variable :: "string \<Rightarrow> string lower" where
  "resolve_variable n = gets (\<lambda>s. case find_name n (lo_scopes s) of Some u \<Rightarrow> u | None \<Rightarrow> n)"

definition put_variable :: "string \<Rightarrow> TejxType \<Rightarrow> lowering \<Rightarrow> lowering" where
  "put_variable n t s =
     s\<lparr>lo_function := (lo_function s)\<lparr>mf_variables := AList.update n t (mf_variables (lo_function s))\<rparr>\<rparr>"

section \<open>Blocks, instructions, temporaries\<close>

definition lo_blocks :: "lowering \<Rightarrow> BasicBlock list" where
  "lo_blocks s = mf_blocks (lo_function s)"

definition set_blocks :: "BasicBlock list \<Rightarrow> lowering \<Rightarrow> lowering" where
  "set_blocks bs s = s\<lparr>lo_function := (lo_function s)\<lparr>mf_blocks := bs\<rparr>\<rparr>"

definition new_block :: "string \<Rightarrow> nat lower" where
  "new_block prefix s =
     (let b = (block_new (prefix @ ''_'' @ nat_to_string (lo_block_counter s)))
                \<lparr>bb_exception_handler := (case lo_handlers s of [] \<Rightarrow> None | h # _ \<Rightarrow> Some h)\<rparr>
      in Done (length (lo_blocks s),
               set_blocks (lo_blocks s @ [b]) (s\<lparr>lo_block_counter := lo_block_counter s + 1\<rparr>)))"

text \<open>\<open>self.current_function.blocks[self.current_block]\<close>, which panics past the end.\<close>

definition current :: "BasicBlock lower" where
  "current s = (if lo_block s < length (lo_blocks s) then Done (lo_blocks s ! lo_block s, s) else Panic)"

definition terminated :: "bool lower" where
  "terminated = pmap is_terminated current"

definition has_handler :: "bool lower" where
  "has_handler = pmap (\<lambda>b. bb_exception_handler b \<noteq> None) current"

definition set_block :: "nat \<Rightarrow> unit lower" where
  "set_block b = modify (\<lambda>s. s\<lparr>lo_block := b\<rparr>)"

text \<open>Nothing is added after the terminator of a block.\<close>

definition emit :: "MIRInstruction \<Rightarrow> unit lower" where
  "emit i =
     (pbind current (\<lambda>b.
       if is_terminated b then skip
        else modify (\<lambda>s. set_blocks ((lo_blocks s)[lo_block s := add_instruction (set_line (lo_line s) i) b]) s)))"

definition emit_unless_terminated :: "MIRInstruction \<Rightarrow> unit lower" where
  "emit_unless_terminated i = (pbind terminated (\<lambda>t.
    if t then skip else emit i))"

definition new_temp :: "TejxType \<Rightarrow> string lower" where
  "new_temp t s =
     (let n = ''_t'' @ nat_to_string (lo_temp_counter s)
      in Done (n, put_variable n t (s\<lparr>lo_temp_counter := lo_temp_counter s + 1\<rparr>)))"

definition new_finally_id :: "nat lower" where
  "new_finally_id s = Done (lo_finally_counter s, s\<lparr>lo_finally_counter := lo_finally_counter s + 1\<rparr>)"

definition pop_control_finally_if :: "nat \<Rightarrow> lowering \<Rightarrow> lowering" where
  "pop_control_finally_if i s =
     (case lo_control_finally s of c # cs \<Rightarrow> if cf_id c = i then s\<lparr>lo_control_finally := cs\<rparr> else s | [] \<Rightarrow> s)"

definition pop_throw_finally_if :: "nat \<Rightarrow> lowering \<Rightarrow> lowering" where
  "pop_throw_finally_if i s =
     (case lo_throw_finally s of c # cs \<Rightarrow> if tf_id c = i then s\<lparr>lo_throw_finally := cs\<rparr> else s | [] \<Rightarrow> s)"

text \<open>A cast into a temporary.\<close>

definition cast_to :: "MIRValue \<Rightarrow> TejxType \<Rightarrow> MIRValue lower" where
  "cast_to v t = (pbind (new_temp t) (\<lambda>n.
    pbind (emit (MCast n v t 0)) (\<lambda>_.
    ret (MVariable n t))))"

definition auto_box :: "MIRValue \<Rightarrow> TejxType \<Rightarrow> MIRValue lower" where
  "auto_box v t =
     (let src = get_type v;
          primitive_cast = is_numeric src \<and> is_numeric t;
          storage_cast = (t = TyInt64 \<or> t = TyAny) \<and> (is_numeric src \<or> src = TyBool \<or> src = TyChar);
          downcast = src = TyInt64 \<and> (is_numeric t \<or> t = TyBool \<or> t = TyString)
      in if src \<noteq> t \<and> (primitive_cast \<or> storage_cast \<or> downcast) then cast_to v t
         else if is_slice t \<and> is_array src then
           (pbind (new_temp t) (\<lambda>n.
             pbind (emit (MCall n ''rt_to_slice'' [v] 0)) (\<lambda>_.
             ret (MVariable n t))))
         else ret v)"

text \<open>An index of floating type is cast.\<close>

definition index_value :: "MIRValue \<Rightarrow> MIRValue lower" where
  "index_value v = (if is_float (get_type v) then cast_to v TyInt32 else ret v)"

section \<open>Sizes and flags of arrays\<close>

definition lookup_name :: "string \<Rightarrow> string" where
  "lookup_name n = takeWhile (\<lambda>c. c \<noteq> CHR ''<'') n"

definition get_type_size :: "lowering \<Rightarrow> TejxType \<Rightarrow> nat" where
  "get_type_size s t =
     (case t of
        TyClass n _ \<Rightarrow>
          (if starts_with (lookup_name n) ''{'' then
             (case map_of (lo_class_fields s) (lookup_name n) of
                Some fs \<Rightarrow> sum_list (map (\<lambda>(_, ft). type_size ft) fs)
              | None \<Rightarrow> 8)
           else 8)
      | _ \<Rightarrow> type_size t)"

definition is_heap_ref_type :: "TejxType \<Rightarrow> bool" where
  "is_heap_ref_type t =
     (case t of
        TyString \<Rightarrow> True | TyDynamicArray _ \<Rightarrow> True | TyFixedArray _ _ \<Rightarrow> True | TySlice _ \<Rightarrow> True
      | TyOptional _ \<Rightarrow> True | TyFunction _ _ \<Rightarrow> True | TyObject _ \<Rightarrow> True | TyAny \<Rightarrow> True
      | TyClass n _ \<Rightarrow> \<not> starts_with (lookup_name n) ''{''
      | _ \<Rightarrow> False)"

definition array_flags_for_type :: "TejxType \<Rightarrow> int" where
  "array_flags_for_type t =
     (let elem = get_array_element_type t in
      (case t of TyFixedArray _ _ \<Rightarrow> 0x0100 | _ \<Rightarrow> 0)
      OR (if is_heap_ref_type elem then 0x0400 else 0)
      OR (if is_unsigned_integer elem then 0x1000 else if is_float elem then 0x2000
          else if elem = TyBool then 0x3000 else if elem = TyChar then 0x4000 else 0))"

definition int_const :: "string \<Rightarrow> MIRValue" where
  "int_const v = MConstant v TyInt64"

definition bool_const :: "string \<Rightarrow> MIRValue" where
  "bool_const v = MConstant v TyBool"

text \<open>A text in double quotes.\<close>

definition quoted :: "string \<Rightarrow> string" where
  "quoted s = CHR 0x22 # s @ [CHR 0x22]"

section \<open>Calls\<close>

text \<open>\<open>base.method\<close> with the variable \<open>base\<close> resolved.\<close>

definition resolve_callee :: "string \<Rightarrow> string lower" where
  "resolve_callee callee =
     (case split_char CHR ''.'' callee of
        [base, m] \<Rightarrow> (pbind (resolve_variable base) (\<lambda>b.
          ret (b @ ''.'' @ m)))
      | _ \<Rightarrow> ret callee)"

definition math_intrinsics :: "string list" where
  "math_intrinsics =
     [''std_math_sin'', ''std_math_cos'', ''std_math_tan'', ''std_math_asin'', ''std_math_acos'',
      ''std_math_atan'', ''std_math_sqrt'', ''std_math_log'', ''std_math_exp'', ''std_math_round'',
      ''std_math_floor'', ''std_math_ceil'', ''std_math_abs'', ''std_math_pow'', ''std_math_min'',
      ''std_math_max'']"

text \<open>The type an argument is cast to; \<open>arr\<close> is the type of the first argument.\<close>

definition argument_type :: "string \<Rightarrow> TejxType list option \<Rightarrow> TejxType \<Rightarrow> nat \<Rightarrow> TejxType" where
  "argument_type callee sig arr i =
     (let declared = (case sig of Some ts \<Rightarrow> if i < length ts then ts ! i else TyVoid | None \<Rightarrow> TyVoid);
          elem = get_array_element_type arr
      in if callee \<in> set math_intrinsics then TyFloat64
         else if \<not> is_array arr then declared
         else if (ends_with callee ''_push'' \<or> ends_with callee ''_unshift'' \<or> ends_with callee ''_indexOf''
                  \<or> ends_with callee ''_includes'') \<and> i = 1 then elem
         else if ends_with callee ''_fill'' then (if i = 1 then elem else if 2 \<le> i then TyInt64 else declared)
         else if ends_with callee ''_splice'' then
           (if i = 1 \<or> i = 2 then TyInt64 else if 3 \<le> i then elem else declared)
         else declared)"

definition array_mutators :: "string list" where
  "array_mutators =
     [''rt_array_push'', ''rt_array_unshift'', ''rt_array_splice'', ''rt_array_reverse'',
      ''rt_array_fill'', ''rt_array_sort'']"

definition is_place :: "HIRExpression \<Rightarrow> bool" where
  "is_place e =
     (case e of HVariable _ _ _ \<Rightarrow> True | HMemberAccess _ _ _ _ \<Rightarrow> True | HIndexAccess _ _ _ _ \<Rightarrow> True | _ \<Rightarrow> False)"

text \<open>A call into a temporary of a type.\<close>

definition call_into :: "TejxType \<Rightarrow> string \<Rightarrow> MIRValue list \<Rightarrow> MIRValue lower" where
  "call_into t callee args = (pbind (new_temp t) (\<lambda>n.
    pbind (emit (MCall n callee args 0)) (\<lambda>_.
    ret (MVariable n t))))"

text \<open>The call of a function that is no array mutation with a receiver.\<close>

definition plain_call :: "string \<Rightarrow> MIRValue list \<Rightarrow> TejxType \<Rightarrow> string \<Rightarrow> MIRValue lower" where
  "plain_call callee args t tmp = (pbind (emit (MCall tmp callee args 0)) (\<lambda>_.
    ret (MVariable tmp t)))"

definition raw_temp :: "string \<Rightarrow> TejxType \<Rightarrow> string lower" where
  "raw_temp callee t =
     (pbind (new_temp t) (\<lambda>n.
       if callee \<in> {''rt_get_property'', ''rt_array_pop'', ''rt_array_shift''} \<and> t = TyString
        then new_temp TyInt64 else ret n))"

text \<open>The result of an array mutation: the new length or the new array.\<close>

definition mutation_result :: "string \<Rightarrow> TejxType \<Rightarrow> MIRValue \<Rightarrow> MIRValue lower" where
  "mutation_result callee t arr =
     (if callee \<in> {''rt_array_push'', ''rt_array_unshift''} \<and> t = TyInt32
      then call_into TyInt32 ''rt_len'' [arr] else ret arr)"

section \<open>Operators that branch\<close>

text \<open>The value of a branch goes into the result, and control to the merge block.\<close>

definition branch_result :: "string \<Rightarrow> MIRValue \<Rightarrow> nat \<Rightarrow> unit lower" where
  "branch_result tmp v merge = (pbind (emit (MMove tmp v 0)) (\<lambda>_.
    emit (MJump merge 0)))"

definition lower_nullish :: "MIRValue lower \<Rightarrow> MIRValue lower \<Rightarrow> TejxType \<Rightarrow> MIRValue lower" where
  "lower_nullish left right t =
     (pbind left (\<lambda>l.
       pbind (new_temp t) (\<lambda>tmp.
       pbind (new_block ''nullish_check'') (\<lambda>_.
       pbind (new_block ''not_null'') (\<lambda>not_null.
       pbind (new_block ''is_null'') (\<lambda>is_null.
       pbind (new_block ''nullish_merge'') (\<lambda>merge.
       pbind (call_into TyInt64 ''rt_is_nullish'' [l]) (\<lambda>c.
       pbind (new_temp TyBool) (\<lambda>b.
       pbind (emit (MBinaryOp b c TkBangEqual (int_const ''0'') TyInt64 0)) (\<lambda>_.
       pbind (emit (MBranch (MVariable b TyBool) is_null not_null 0)) (\<lambda>_.
       pbind (set_block not_null) (\<lambda>_.
       pbind (branch_result tmp l merge) (\<lambda>_.
       pbind (set_block is_null) (\<lambda>_.
       pbind right (\<lambda>r.
       pbind (branch_result tmp r merge) (\<lambda>_.
       pbind (set_block merge) (\<lambda>_.
       ret (MVariable tmp t))))))))))))))))))"

definition lower_and :: "MIRValue lower \<Rightarrow> MIRValue lower \<Rightarrow> TejxType \<Rightarrow> MIRValue lower" where
  "lower_and left right t =
     (pbind left (\<lambda>l.
       pbind (new_temp t) (\<lambda>tmp.
       pbind (new_block ''and_right'') (\<lambda>right_block.
       pbind (new_block ''and_false'') (\<lambda>false_block.
       pbind (new_block ''and_merge'') (\<lambda>merge.
       pbind (emit (MBranch l right_block false_block 0)) (\<lambda>_.
       pbind (set_block right_block) (\<lambda>_.
       pbind right (\<lambda>r.
       pbind (branch_result tmp r merge) (\<lambda>_.
       pbind (set_block false_block) (\<lambda>_.
       pbind (branch_result tmp l merge) (\<lambda>_.
       pbind (set_block merge) (\<lambda>_.
       ret (MVariable tmp t))))))))))))))"

definition lower_or :: "MIRValue lower \<Rightarrow> MIRValue lower \<Rightarrow> TejxType \<Rightarrow> MIRValue lower" where
  "lower_or left right t =
     (pbind left (\<lambda>l.
       pbind (new_temp t) (\<lambda>tmp.
       pbind (new_block ''or_truthy'') (\<lambda>true_block.
       pbind (new_block ''or_falsy'') (\<lambda>right_block.
       pbind (new_block ''or_merge'') (\<lambda>merge.
       pbind (emit (MBranch l true_block right_block 0)) (\<lambda>_.
       pbind (set_block true_block) (\<lambda>_.
       pbind (branch_result tmp l merge) (\<lambda>_.
       pbind (set_block right_block) (\<lambda>_.
       pbind right (\<lambda>r.
       pbind (branch_result tmp r merge) (\<lambda>_.
       pbind (set_block merge) (\<lambda>_.
       ret (MVariable tmp t))))))))))))))"

definition lower_ternary :: "MIRValue lower \<Rightarrow> MIRValue lower \<Rightarrow> MIRValue lower \<Rightarrow> TejxType \<Rightarrow> MIRValue lower" where
  "lower_ternary cond yes no t =
     (pbind cond (\<lambda>c.
       pbind (new_temp t) (\<lambda>tmp.
       pbind (new_block ''ternary_then'') (\<lambda>then_block.
       pbind (new_block ''ternary_else'') (\<lambda>else_block.
       pbind (new_block ''ternary_exit'') (\<lambda>exit_block.
       pbind (emit (MBranch c then_block else_block 0)) (\<lambda>_.
       pbind (set_block then_block) (\<lambda>_.
       pbind yes (\<lambda>y.
       pbind (branch_result tmp y exit_block) (\<lambda>_.
       pbind (set_block else_block) (\<lambda>_.
       pbind no (\<lambda>n.
       pbind (branch_result tmp n exit_block) (\<lambda>_.
       pbind (set_block exit_block) (\<lambda>_.
       ret (MVariable tmp t)))))))))))))))"

definition lower_operator :: "TokenType \<Rightarrow> MIRValue lower \<Rightarrow> MIRValue lower \<Rightarrow> TejxType \<Rightarrow> MIRValue lower" where
  "lower_operator op left right t =
     (pbind left (\<lambda>l.
       pbind right (\<lambda>r.
       pbind (new_temp t) (\<lambda>tmp.
       pbind (emit (MBinaryOp tmp l op r t 0)) (\<lambda>_.
       ret (MVariable tmp t))))))"

definition lower_binary :: "TokenType \<Rightarrow> MIRValue lower \<Rightarrow> MIRValue lower \<Rightarrow> TejxType \<Rightarrow> MIRValue lower" where
  "lower_binary op left right t =
     (if op = TkQuestionQuestion then lower_nullish left right t
      else if op = TkAmpersandAmpersand then lower_and left right t
      else if op = TkComma then (pbind left (\<lambda>_.
        right))
      else if op = TkPipePipe then lower_or left right t
      else lower_operator op left right t)"

section \<open>Updates\<close>

text \<open>The old value plus or minus one, stored with \<open>store\<close>.\<close>

definition lower_update :: "TokenType \<Rightarrow> TejxType \<Rightarrow> nat \<Rightarrow> (string \<Rightarrow> MIRInstruction) \<Rightarrow> (MIRValue \<Rightarrow> MIRInstruction) \<Rightarrow> MIRValue lower" where
  "lower_update op t l load store =
     (pbind (new_temp t) (\<lambda>old_val.
       pbind (emit (load old_val)) (\<lambda>_.
       pbind (new_temp t) (\<lambda>new_val.
       pbind (emit (MBinaryOp new_val (MVariable old_val t) (if op = TkPlusPlus then TkPlus else TkMinus)
                (MConstant ''1'' t) t l)) (\<lambda>_.
       pbind (emit (store (MVariable new_val t))) (\<lambda>_.
       ret (MVariable old_val t)))))))"

section \<open>Loads\<close>

text \<open>An index into a string, an object or an array.\<close>

definition lower_load :: "MIRValue \<Rightarrow> MIRValue \<Rightarrow> TejxType \<Rightarrow> MIRValue lower" where
  "lower_load ob ix t =
     (let obj_ty = get_type ob in
      if obj_ty = TyString then call_into TyString ''rt_str_at'' [ob, ix]
      else if is_object obj_ty then
        (pbind (call_into TyAny ''rt_get_property'' [ob, ix]) (\<lambda>v.
          if t \<noteq> TyAny then cast_to v t else ret v))
      else
        let elem = get_array_element_type obj_ty in
        (pbind (new_temp elem) (\<lambda>tmp.
          pbind (emit (MLoadIndex tmp ob ix elem 0)) (\<lambda>_.
          auto_box (MVariable tmp elem) t))))"

definition lower_member :: "MIRValue \<Rightarrow> string \<Rightarrow> TejxType \<Rightarrow> MIRValue lower" where
  "lower_member ob m t =
     (if m = ''length'' \<and> (get_type ob = TyString \<or> is_array (get_type ob) \<or> is_slice (get_type ob))
      then call_into TyInt32 ''rt_len'' [ob]
      else (pbind (new_temp t) (\<lambda>tmp.
        pbind (emit (MLoadMember tmp ob m 0)) (\<lambda>_.
        ret (MVariable tmp t)))))"

text \<open>A variable; a named function used as a value becomes a closure.\<close>

definition lower_variable :: "string \<Rightarrow> TejxType \<Rightarrow> MIRValue lower" where
  "lower_variable n t =
     (pbind (resolve_variable n) (\<lambda>u.
       if (case t of TyFunction _ _ \<Rightarrow> True | _ \<Rightarrow> False) \<and> starts_with n ''f_''
        then call_into TyInt64 ''rt_closure_from_ptr'' [MVariable u t] else ret (MVariable u t)))"

section \<open>Constructions\<close>

definition is_raw_array :: "string \<Rightarrow> bool" where
  "is_raw_array n \<longleftrightarrow> CHR ''['' \<in> set n"

definition constructor_name :: "string \<Rightarrow> string" where
  "constructor_name n =
     (if is_raw_array n then ''rt_Array_constructor_v2'' else ''f_'' @ n @ ''_constructor'')"

text \<open>The argument at a position, cast if the constructor's signature has a parameter for it.\<close>

definition constructor_arg :: "TejxType list option \<Rightarrow> nat \<Rightarrow> MIRValue \<Rightarrow> MIRValue lower" where
  "constructor_arg sig i v =
     (case sig of
        Some ts \<Rightarrow> if i + 1 < length ts then auto_box v (ts ! (i + 1)) else ret v
      | None \<Rightarrow> ret v)"

definition array_args :: "lowering \<Rightarrow> TejxType \<Rightarrow> MIRValue list" where
  "array_args s t =
     [int_const (nat_to_string (get_type_size s (get_array_element_type t))),
      int_const (int_to_string (array_flags_for_type t))]"

definition lower_promise :: "MIRValue lower \<Rightarrow> TejxType \<Rightarrow> MIRValue lower" where
  "lower_promise executor t =
     (pbind (new_temp t) (\<lambda>tmp.
       pbind executor (\<lambda>e.
       pbind (emit (MCall tmp ''rt_promise_from_executor'' [e] 0)) (\<lambda>_.
       ret (MVariable tmp t)))))"

definition lower_new :: "string \<Rightarrow> (TejxType list option \<Rightarrow> MIRValue list lower) \<Rightarrow> TejxType \<Rightarrow> MIRValue lower" where
  "lower_new n args t =
     (pbind (new_temp (if is_raw_array n then t else TyClass n [])) (\<lambda>tmp.
       pbind ((if is_raw_array n then skip
         else emit (MCall tmp ''rt_class_new'' [MConstant (quoted n) TyString] 0))) (\<lambda>_.
       pbind (gets (\<lambda>s. map_of (lo_signatures s) (constructor_name n))) (\<lambda>sig.
       pbind (args sig) (\<lambda>vs.
       pbind (gets (\<lambda>s. array_args s t)) (\<lambda>arr.
       let this = (if is_raw_array n then int_const ''0'' else MVariable tmp (TyClass n [])) in
       let tail = (if \<not> is_raw_array n then [] else if vs = [] then int_const ''0'' # arr else arr) in
       pbind ((if is_raw_array n then ret tmp else new_temp TyVoid)) (\<lambda>dst.
       pbind (emit (MCall dst (constructor_name n) (this # vs @ tail) 0)) (\<lambda>_.
       ret (MVariable tmp t)))))))))"

definition lower_object :: "(MIRValue \<Rightarrow> unit list lower) \<Rightarrow> TejxType \<Rightarrow> MIRValue lower" where
  "lower_object entries t =
     (pbind (new_temp t) (\<lambda>tmp.
       pbind (emit (MCall tmp ''rt_object_new'' [] 0)) (\<lambda>_.
       pbind (entries (MVariable tmp t)) (\<lambda>_.
       ret (MVariable tmp t)))))"

text \<open>The size of an array literal that has no explicit one.\<close>

definition literal_size :: "TejxType \<Rightarrow> nat \<Rightarrow> MIRValue" where
  "literal_size t n = int_const (nat_to_string (case t of TyFixedArray _ m \<Rightarrow> m | _ \<Rightarrow> n))"

definition lower_array :: "MIRValue lower \<Rightarrow> (MIRValue \<Rightarrow> unit list lower) \<Rightarrow> TejxType \<Rightarrow> nat \<Rightarrow> MIRValue lower" where
  "lower_array size_value elements t l =
     (pbind (new_temp t) (\<lambda>tmp.
       pbind size_value (\<lambda>n.
       pbind (gets (\<lambda>s. array_args s t)) (\<lambda>arr.
       pbind (emit (MCall tmp ''rt_Array_constructor_v2'' (int_const ''0'' # n # arr) l)) (\<lambda>_.
       pbind (elements (MVariable tmp t)) (\<lambda>_.
       ret (MVariable tmp t)))))))"

definition store_element :: "MIRValue \<Rightarrow> TejxType \<Rightarrow> nat \<Rightarrow> MIRValue \<Rightarrow> unit lower" where
  "store_element arr elem i v =
     (pbind (auto_box v elem) (\<lambda>w.
       emit (MStoreIndex arr (int_const (nat_to_string i)) w elem 0)))"

section \<open>Expressions\<close>

text \<open>
  \<open>storeback\<close> writes an array that a call may have moved back to the place it came from.
\<close>

function (sequential) lower_expression :: "HIRExpression \<Rightarrow> MIRValue lower"
  and emit_array_receiver_storeback :: "HIRExpression \<Rightarrow> MIRValue \<Rightarrow> unit lower"
  and lower_node :: "HIRExpression \<Rightarrow> MIRValue lower" where
  "lower_expression e = (pbind (modify (\<lambda>s. s\<lparr>lo_line := hexpr_line e\<rparr>)) (\<lambda>_.
    lower_node e))"
| "lower_node (HCast e t _) = (pbind (lower_expression e) (\<lambda>v.
  cast_to v t))"
| "lower_node (HLiteral v t _) = ret (MConstant v t)"
| "lower_node (HVariable n t _) = lower_variable n t"
| "lower_node (HNew n args t _) =
     (if (case t of TyClass c _ \<Rightarrow> c = ''Promise'' | _ \<Rightarrow> False) then
        lower_promise (case args of [] \<Rightarrow> ret (int_const ''0'') | a # _ \<Rightarrow> lower_expression a) t
      else
        lower_new n (\<lambda>sig. each (\<lambda>i a. (pbind (lower_expression a) (\<lambda>v.
          constructor_arg sig i v))) 0 args) t)"
| "lower_node (HBinary l op r t _) = lower_binary op (lower_expression l) (lower_expression r) t"
| "lower_node (HAssignment target v _ _) =
     (pbind (lower_expression v) (\<lambda>val.
       (case target of
           HVariable n t _ \<Rightarrow>
             (pbind (resolve_variable n) (\<lambda>u.
               pbind (auto_box val t) (\<lambda>w.
               pbind (emit (MMove u w 0)) (\<lambda>_.
               ret w))))
         | HMemberAccess ob m t _ \<Rightarrow>
             (pbind (lower_expression ob) (\<lambda>ob_val.
               pbind (auto_box val t) (\<lambda>w.
               pbind (emit (MStoreMember ob_val m w 0)) (\<lambda>_.
               ret w))))
         | HIndexAccess ob ix t _ \<Rightarrow>
             (pbind ((case ob of
                             HMemberAccess base m mt _ \<Rightarrow>
                               (pbind (lower_expression base) (\<lambda>b.
                                 pbind (new_temp mt) (\<lambda>loaded.
                                 pbind (emit (MLoadMember loaded b m 0)) (\<lambda>_.
                                 ret (MVariable loaded mt)))))
                           | _ \<Rightarrow> lower_expression ob)) (\<lambda>ob_val.
               pbind (lower_expression ix) (\<lambda>ix_val.
               pbind (index_value ix_val) (\<lambda>ix_val.
               pbind (auto_box val t) (\<lambda>w.
               pbind (emit (MStoreIndex ob_val ix_val w t 0)) (\<lambda>_.
               pbind ((if (case ob of HMemberAccess _ _ mt _ \<Rightarrow> is_array mt | _ \<Rightarrow> False)
                 then emit_array_receiver_storeback ob ob_val else skip)) (\<lambda>_.
               ret w)))))))
         | _ \<Rightarrow> ret val)))"
| "lower_node (HCall callee args t _) =
     (pbind (resolve_callee callee) (\<lambda>callee.
       pbind (gets (\<lambda>s. map_of (lo_signatures s) callee)) (\<lambda>sig.
       pbind (each (\<lambda>i a. (pbind (lower_expression a) (\<lambda>v.
          auto_box v (argument_type callee sig (hexpr_type (hd args)) i)))) 0 args) (\<lambda>vs.
       pbind (raw_temp callee t) (\<lambda>tmp.
       (case args of
           [] \<Rightarrow> plain_call callee vs t tmp
         | first # _ \<Rightarrow>
             if callee \<in> set array_mutators then
               (pbind (call_into (get_type (hd vs)) callee vs) (\<lambda>arr.
                 pbind (emit_array_receiver_storeback first arr) (\<lambda>_.
                 pbind ((if is_place first then skip
                   else case hd vs of MVariable n _ \<Rightarrow> emit (MMove n arr 0) | MConstant _ _ \<Rightarrow> skip)) (\<lambda>_.
                 mutation_result callee t arr))))
             else plain_call callee vs t tmp))))))"
| "lower_node (HIndirectCall callee args t _) =
     (pbind (lower_expression callee) (\<lambda>f.
       pbind (each (\<lambda>_ a. lower_expression a) 0 args) (\<lambda>vs.
       pbind (new_temp t) (\<lambda>tmp.
       pbind (emit (MIndirectCall tmp f vs 0)) (\<lambda>_.
       ret (MVariable tmp t))))))"
| "lower_node (HOptionalChain target operation t _) =
     (pbind (lower_expression target) (\<lambda>v.
       call_into t ''rt_optional_chain'' [v, MConstant (quoted operation) TyString]))"
| "lower_node (HIndexAccess target ix t _) =
     (pbind (lower_expression target) (\<lambda>ob.
       pbind (lower_expression ix) (\<lambda>v.
       pbind (index_value v) (\<lambda>v.
       lower_load ob v t))))"
| "lower_node (HMemberAccess target m t _) = (pbind (lower_expression target) (\<lambda>ob.
  lower_member ob m t))"
| "lower_node (HObjectLiteral entries t _) =
     lower_object (\<lambda>ob. each (\<lambda>_ (k, e). (pbind (lower_expression e) (\<lambda>v.
       emit (MStoreMember ob k v 0)))) 0 entries) t"
| "lower_node (HArrayLiteral elems sized t l) =
     lower_array (case sized of Some e \<Rightarrow> lower_expression e | None \<Rightarrow> ret (literal_size t (length elems)))
       (\<lambda>arr. each (\<lambda>i e. (pbind (lower_expression e) (\<lambda>v.
         store_element arr (get_array_element_type t) i v))) 0 elems) t l"
| "lower_node (HConditional c a b t _) =
     lower_ternary (lower_expression c) (lower_expression a) (lower_expression b) t"
| "lower_node (HSequence es _ _) =
     (pbind (each (\<lambda>_ e. lower_expression e) 0 es) (\<lambda>vs.
       ret (if vs = [] then MConstant ''0'' TyInt32 else last vs)))"
| "lower_node (HPostfixUpdate target op _ l) =
     (case target of
        HVariable n t _ \<Rightarrow>
          (pbind (resolve_variable n) (\<lambda>u.
            lower_update op t l (\<lambda>old. MMove old (MVariable u t) l) (\<lambda>v. MMove u v l)))
      | HMemberAccess ob m t _ \<Rightarrow>
          (pbind (lower_expression ob) (\<lambda>v.
            lower_update op t l (\<lambda>old. MLoadMember old v m l) (\<lambda>w. MStoreMember v m w l)))
      | HIndexAccess ob ix t _ \<Rightarrow>
          (pbind (lower_expression ob) (\<lambda>v.
            pbind (lower_expression ix) (\<lambda>i.
            lower_update op t l (\<lambda>old. MLoadIndex old v i t l) (\<lambda>w. MStoreIndex v i w t l))))
      | _ \<Rightarrow> lower_expression target)"
| "lower_node (HNoneLiteral _) = ret (MConstant ''0'' TyVoid)"
| "lower_node (HSomeExpr e _) = lower_expression e"
| "emit_array_receiver_storeback (HVariable n _ _) v = (pbind (resolve_variable n) (\<lambda>u.
  emit (MMove u v 0)))"
| "emit_array_receiver_storeback (HMemberAccess target m _ _) v =
     (pbind (lower_expression target) (\<lambda>ob.
       emit (MStoreMember ob m v 0)))"
| "emit_array_receiver_storeback (HIndexAccess target ix t _) v =
     (pbind (lower_expression target) (\<lambda>ob.
       pbind (lower_expression ix) (\<lambda>i.
       pbind (index_value i) (\<lambda>i.
       pbind (auto_box v t) (\<lambda>w.
       pbind (emit (MStoreIndex ob i w t 0)) (\<lambda>_.
       (if (case target of HMemberAccess _ _ mt _ \<Rightarrow> is_array mt | HIndexAccess _ _ it _ \<Rightarrow> is_array it | _ \<Rightarrow> False)
         then emit_array_receiver_storeback target ob else skip)))))))"
| "emit_array_receiver_storeback _ v = skip"
  by pat_completeness auto
termination
  by (relation "measure (case_sum (\<lambda>e. 2 * size e + 1) (case_sum (\<lambda>(e, v). 2 * size e) (\<lambda>e. 2 * size e)))")
    (auto dest: size_argument size_entry_expr)

declare lower_expression.simps [simp del]

section \<open>Statements\<close>

definition emit_return_statement :: "MIRValue option \<Rightarrow> unit lower" where
  "emit_return_statement v =
     (case v of
        None \<Rightarrow> emit (MReturn None 0)
      | Some x \<Rightarrow> (pbind (gets lo_return_type) (\<lambda>t.
        pbind (auto_box x t) (\<lambda>w.
        emit (MReturn (Some w) 0)))))"

definition emit_transfer :: "PendingControlTransfer \<Rightarrow> unit lower" where
  "emit_transfer t = (case t of TransferReturn v \<Rightarrow> emit_return_statement v | TransferJump b \<Rightarrow> emit (MJump b 0))"

definition pop_handler_if_any :: "unit lower" where
  "pop_handler_if_any = (pbind has_handler (\<lambda>h.
    if h then emit (MPopHandler 0) else skip))"

definition push_loop :: "nat \<Rightarrow> nat \<Rightarrow> lowering \<Rightarrow> lowering" where
  "push_loop c b s = s\<lparr>lo_loops := \<lparr>continue_target = c, break_target = b\<rparr> # lo_loops s\<rparr>"

definition pop_loop :: "lowering \<Rightarrow> lowering" where
  "pop_loop s = s\<lparr>lo_loops := tl (lo_loops s)\<rparr>"

definition push_exception_handler :: "nat \<Rightarrow> lowering \<Rightarrow> lowering" where
  "push_exception_handler h s = s\<lparr>lo_handlers := h # lo_handlers s\<rparr>"

definition pop_exception_handler :: "lowering \<Rightarrow> lowering" where
  "pop_exception_handler s = s\<lparr>lo_handlers := tl (lo_handlers s)\<rparr>"

definition lower_var_decl :: "string \<Rightarrow> HIRExpression option \<Rightarrow> TejxType \<Rightarrow> unit lower" where
  "lower_var_decl n init t =
     (pbind (declare_variable n) (\<lambda>u.
       pbind (modify (put_variable u t)) (\<lambda>_.
       (case init of
           None \<Rightarrow> skip
         | Some e \<Rightarrow>
             (pbind (modify (\<lambda>s. s\<lparr>lo_expected := Some t\<rparr>)) (\<lambda>_.
               pbind (lower_expression e) (\<lambda>v.
               pbind (modify (\<lambda>s. s\<lparr>lo_expected := None\<rparr>)) (\<lambda>_.
               pbind (auto_box v t) (\<lambda>w.
               emit (MMove u w 0))))))))))"

text \<open>The body and the increment of a loop are the programs \<open>body\<close> and \<open>inc\<close>.\<close>

definition lower_loop :: "MIRValue lower \<Rightarrow> unit lower \<Rightarrow> unit lower option \<Rightarrow> unit lower" where
  "lower_loop cond body inc =
     (pbind (new_block ''loop_header'') (\<lambda>header.
       pbind (new_block ''loop_body'') (\<lambda>body_block.
       pbind ((case inc of Some _ \<Rightarrow> new_block ''loop_latch'' | None \<Rightarrow> ret header)) (\<lambda>latch.
       pbind (new_block ''loop_exit'') (\<lambda>exit_block.
       pbind (modify (push_loop latch exit_block)) (\<lambda>_.
       pbind (emit (MJump header 0)) (\<lambda>_.
       pbind (set_block header) (\<lambda>_.
       pbind cond (\<lambda>c.
       pbind (emit (MBranch c body_block exit_block 0)) (\<lambda>_.
       pbind (set_block body_block) (\<lambda>_.
       pbind body (\<lambda>_.
       pbind (emit_unless_terminated (MJump latch 0)) (\<lambda>_.
       pbind ((case inc of
           None \<Rightarrow> skip
         | Some p \<Rightarrow> (pbind (set_block latch) (\<lambda>_.
           pbind p (\<lambda>_.
           emit_unless_terminated (MJump header 0)))))) (\<lambda>_.
       pbind (modify pop_loop) (\<lambda>_.
       set_block exit_block)))))))))))))))"

definition lower_if :: "MIRValue lower \<Rightarrow> unit lower \<Rightarrow> unit lower \<Rightarrow> unit lower" where
  "lower_if cond yes no =
     (pbind (new_block ''if_then'') (\<lambda>then_block.
       pbind (new_block ''if_else'') (\<lambda>else_block.
       pbind (new_block ''if_merge'') (\<lambda>merge.
       pbind cond (\<lambda>c.
       pbind (emit (MBranch c then_block else_block 0)) (\<lambda>_.
       pbind (set_block then_block) (\<lambda>_.
       pbind yes (\<lambda>_.
       pbind (emit_unless_terminated (MJump merge 0)) (\<lambda>_.
       pbind (set_block else_block) (\<lambda>_.
       pbind no (\<lambda>_.
       pbind (emit_unless_terminated (MJump merge 0)) (\<lambda>_.
       set_block merge))))))))))))"

text \<open>One case of a switch: it is tested in the block \<open>next\<close>; the result is the next block to test in.\<close>

definition lower_case :: "MIRValue \<Rightarrow> nat \<Rightarrow> HIRExpression option \<Rightarrow> unit lower \<Rightarrow> nat \<Rightarrow> nat lower" where
  "lower_case v exit_block test body next_check =
     (pbind (set_block next_check) (\<lambda>_.
       (case test of
           Some e \<Rightarrow>
             (pbind (lower_expression e) (\<lambda>c.
               pbind (new_block ''case_body'') (\<lambda>body_block.
               pbind (new_block ''next_case'') (\<lambda>next_case.
               pbind (new_temp TyBool) (\<lambda>cmp.
               pbind (emit (MBinaryOp cmp v TkEqualEqual c (get_type v) 0)) (\<lambda>_.
               pbind (emit (MBranch (MVariable cmp TyBool) body_block next_case 0)) (\<lambda>_.
               pbind (set_block body_block) (\<lambda>_.
               pbind body (\<lambda>_.
               pbind (emit_unless_terminated (MJump exit_block 0)) (\<lambda>_.
               ret next_case))))))))))
         | None \<Rightarrow>
             (pbind (new_block ''default_case'') (\<lambda>default_block.
               pbind (emit (MJump default_block 0)) (\<lambda>_.
               pbind (set_block default_block) (\<lambda>_.
               pbind body (\<lambda>_.
               pbind (emit_unless_terminated (MJump exit_block 0)) (\<lambda>_.
               new_block ''after_default'')))))))))"

fun lower_cases :: "(nat \<Rightarrow> 'c \<Rightarrow> nat lower) \<Rightarrow> nat \<Rightarrow> 'c list \<Rightarrow> nat lower" where
  "lower_cases f b [] = ret b"
| "lower_cases f b (c # cs) = (pbind (f b c) (\<lambda>b.
  lower_cases f b cs))"

definition lower_switch :: "HIRExpression \<Rightarrow> (MIRValue \<Rightarrow> nat \<Rightarrow> nat \<Rightarrow> 'c \<Rightarrow> nat lower) \<Rightarrow> 'c list \<Rightarrow> unit lower" where
  "lower_switch e one_case cases =
     (pbind (lower_expression e) (\<lambda>v.
       pbind (new_block ''switch_exit'') (\<lambda>exit_block.
       pbind (gets (\<lambda>s. case lo_loops s of l # _ \<Rightarrow> continue_target l | [] \<Rightarrow> exit_block)) (\<lambda>prev.
       pbind (modify (push_loop prev exit_block)) (\<lambda>_.
       pbind (new_block ''case_check'') (\<lambda>first.
       pbind (emit (MJump first 0)) (\<lambda>_.
       pbind (lower_cases (one_case v exit_block) first cases) (\<lambda>b.
       pbind (set_block b) (\<lambda>_.
       pbind (emit (MJump exit_block 0)) (\<lambda>_.
       pbind (modify pop_loop) (\<lambda>_.
       set_block exit_block)))))))))))"

text \<open>The end of a block with \<open>TrySetup\<close>: control goes on in the protected block.\<close>

definition enter_try :: "nat \<Rightarrow> nat \<Rightarrow> unit lower" where
  "enter_try start catch = (pbind (emit (MTrySetup start catch 0)) (\<lambda>_.
    set_block start))"

definition leave_protected :: "bool \<Rightarrow> string \<Rightarrow> nat option \<Rightarrow> nat \<Rightarrow> unit lower" where
  "leave_protected pop unwinding body exit_block =
     (pbind terminated (\<lambda>t.
       if t then skip
        else (pbind ((if pop then emit (MPopHandler 0) else skip)) (\<lambda>_.
          (case body of
                   Some b \<Rightarrow> (pbind (emit (MMove unwinding (bool_const ''false'') 0)) (\<lambda>_.
                     emit (MJump b 0)))
                 | None \<Rightarrow> emit (MJump exit_block 0))))))"

definition move_exception :: "string \<Rightarrow> unit lower" where
  "move_exception n =
     (pbind (call_into TyInt64 ''tejx_get_exception'' []) (\<lambda>e.
       emit (MMove n e 0)))"

definition bind_exception :: "string option \<Rightarrow> unit lower" where
  "bind_exception var = (case var of None \<Rightarrow> skip | Some n \<Rightarrow> move_exception n)"

definition lower_try_catch :: "unit lower \<Rightarrow> string option \<Rightarrow> unit lower \<Rightarrow> unit lower" where
  "lower_try_catch try_part var catch_part =
     (pbind (new_block ''try_exit'') (\<lambda>exit_block.
       pbind (new_temp TyBool) (\<lambda>unwinding.
       pbind (new_temp TyInt64) (\<lambda>_.
       pbind (new_block ''catch'') (\<lambda>catch.
       pbind (modify (push_exception_handler catch)) (\<lambda>_.
       pbind (new_block ''try_start'') (\<lambda>start.
       pbind (enter_try start catch) (\<lambda>_.
       pbind try_part (\<lambda>_.
       pbind (leave_protected True unwinding None exit_block) (\<lambda>_.
       pbind (modify pop_exception_handler) (\<lambda>_.
       pbind (set_block catch) (\<lambda>_.
       pbind (bind_exception var) (\<lambda>_.
       pbind catch_part (\<lambda>_.
       pbind (leave_protected False unwinding None exit_block) (\<lambda>_.
       set_block exit_block)))))))))))))))"

definition push_control_finally :: "nat \<Rightarrow> HIRStatement \<Rightarrow> lowering \<Rightarrow> lowering" where
  "push_control_finally i f s =
     s\<lparr>lo_control_finally := \<lparr>cf_id = i, finally_stmt = f\<rparr> # lo_control_finally s\<rparr>"

definition push_throw_finally :: "nat \<Rightarrow> string \<Rightarrow> string \<Rightarrow> nat \<Rightarrow> lowering \<Rightarrow> lowering" where
  "push_throw_finally i unwinding saved body s =
     s\<lparr>lo_throw_finally :=
        \<lparr>tf_id = i, is_unwinding_var = unwinding, saved_ex_var = saved, finally_body_idx = body\<rparr> # lo_throw_finally s\<rparr>"

text \<open>After the body of a finally an exception is thrown again, or control goes on.\<close>

definition finish_finally :: "string \<Rightarrow> string \<Rightarrow> nat \<Rightarrow> unit lower" where
  "finish_finally unwinding saved exit_block =
     (pbind terminated (\<lambda>t.
       if t then skip
        else (pbind (new_block ''finally_rethrow'') (\<lambda>rethrow.
          pbind pop_handler_if_any (\<lambda>_.
          pbind (emit (MBranch (MVariable unwinding TyBool) rethrow exit_block 0)) (\<lambda>_.
          pbind (set_block rethrow) (\<lambda>_.
          emit (MThrow (MVariable saved TyInt64) 0))))))))"

definition lower_try_finally ::
  "unit lower \<Rightarrow> string option \<Rightarrow> unit lower \<Rightarrow> HIRStatement \<Rightarrow> unit lower \<Rightarrow> unit lower" where
  "lower_try_finally try_part var catch_part f finally_part =
     (pbind (new_block ''try_exit'') (\<lambda>exit_block.
       pbind new_finally_id (\<lambda>i.
       pbind (new_temp TyBool) (\<lambda>unwinding.
       pbind (new_temp TyInt64) (\<lambda>saved.
       pbind (new_block ''finally_unwind'') (\<lambda>unwind.
       pbind (new_block ''finally_body'') (\<lambda>body.
       pbind (modify (push_exception_handler unwind)) (\<lambda>_.
       pbind (new_block ''catch'') (\<lambda>catch.
       pbind (modify pop_exception_handler) (\<lambda>_.
       pbind (modify (push_exception_handler catch)) (\<lambda>_.
       pbind (new_block ''try_start'') (\<lambda>start.
       pbind (enter_try start catch) (\<lambda>_.
       pbind (modify (push_control_finally i f)) (\<lambda>_.
       pbind try_part (\<lambda>_.
       pbind (modify (pop_control_finally_if i)) (\<lambda>_.
       pbind (leave_protected True unwinding (Some body) exit_block) (\<lambda>_.
       pbind (modify pop_exception_handler) (\<lambda>_.
       pbind (modify (push_exception_handler unwind)) (\<lambda>_.
       pbind (set_block catch) (\<lambda>_.
       pbind (bind_exception var) (\<lambda>_.
       pbind (modify (push_control_finally i f)) (\<lambda>_.
       pbind (modify (push_throw_finally i unwinding saved body)) (\<lambda>_.
       pbind catch_part (\<lambda>_.
       pbind (modify (pop_throw_finally_if i)) (\<lambda>_.
       pbind (modify (pop_control_finally_if i)) (\<lambda>_.
       pbind (leave_protected True unwinding (Some body) exit_block) (\<lambda>_.
       pbind (modify pop_exception_handler) (\<lambda>_.
       pbind (set_block unwind) (\<lambda>_.
       pbind (emit (MMove unwinding (bool_const ''true'') 0)) (\<lambda>_.
       pbind (move_exception saved) (\<lambda>_.
       pbind (emit (MJump body 0)) (\<lambda>_.
       pbind (set_block body) (\<lambda>_.
       pbind finally_part (\<lambda>_.
       pbind (finish_finally unwinding saved exit_block) (\<lambda>_.
       set_block exit_block)))))))))))))))))))))))))))))))))))"

definition lower_throw :: "HIRExpression \<Rightarrow> unit lower" where
  "lower_throw e =
     (pbind (lower_expression e) (\<lambda>v.
       pbind (gets lo_throw_finally) (\<lambda>tf.
       (case tf of
           [] \<Rightarrow> emit (MThrow v 0)
         | c # _ \<Rightarrow>
             (pbind pop_handler_if_any (\<lambda>_.
               pbind (emit (MMove (is_unwinding_var c) (bool_const ''true'') 0)) (\<lambda>_.
               pbind (emit (MMove (saved_ex_var c) v 0)) (\<lambda>_.
               emit (MJump (finally_body_idx c) 0)))))))))"

text \<open>
  Statements lower the statements of \<open>finally\<close> blocks they leave, which are not parts of them: the
  recursion is bounded by fuel. \<open>emit_control_transfer\<close> pops the enclosing \<open>finally\<close> blocks of the
  stack and lowers them before the transfer.
\<close>

function (sequential) lower_statement :: "nat \<Rightarrow> HIRStatement \<Rightarrow> unit lower"
  and emit_control_transfer :: "nat \<Rightarrow> PendingControlTransfer \<Rightarrow> unit lower"
  and lower_kind :: "nat \<Rightarrow> HIRStatement \<Rightarrow> unit lower" where
  "lower_statement 0 st = (\<lambda>_. NoFuel)"
| "lower_statement (Suc n) st = (pbind (modify (\<lambda>s. s\<lparr>lo_line := hstmt_line st\<rparr>)) (\<lambda>_.
  lower_kind n st))"
| "lower_kind n (HBlock ss _) =
     (pbind new_scope (\<lambda>_.
       pbind (each (\<lambda>_ st. lower_statement n st) 0 ss) (\<lambda>_.
       pbind pop_scope (\<lambda>_.
       skip))))"
| "lower_kind n (HSequenceStmt ss _) = (pbind (each (\<lambda>_ st. lower_statement n st) 0 ss) (\<lambda>_.
  skip))"
| "lower_kind n (HVarDecl x init t _ _) = lower_var_decl x init t"
| "lower_kind n (HLoop c body inc _ _) =
     lower_loop (lower_expression c) (lower_statement n body) (map_option (\<lambda>st. lower_statement n st) inc)"
| "lower_kind n (HBreak _) =
     (pbind (gets lo_loops) (\<lambda>ls.
       (case ls of [] \<Rightarrow> skip | l # _ \<Rightarrow> emit_control_transfer n (TransferJump (break_target l)))))"
| "lower_kind n (HContinue _) =
     (pbind (gets lo_loops) (\<lambda>ls.
       (case ls of [] \<Rightarrow> skip | l # _ \<Rightarrow> emit_control_transfer n (TransferJump (continue_target l)))))"
| "lower_kind n (HIfStmt c yes no _) =
     lower_if (lower_expression c) (lower_statement n yes)
       (case no of None \<Rightarrow> skip | Some st \<Rightarrow> lower_statement n st)"
| "lower_kind n (HReturn v _) =
     (pbind ((case v of None \<Rightarrow> ret None | Some e \<Rightarrow> pmap Some (lower_expression e))) (\<lambda>w.
       emit_control_transfer n (TransferReturn w)))"
| "lower_kind n (HExprStmt e _) = (pbind (lower_expression e) (\<lambda>_.
  skip))"
| "lower_kind n (HFunction _ _ _ body _ _) = lower_statement n body"
| "lower_kind n (HSwitch e cases _) =
     lower_switch e
       (\<lambda>v exit_block b c. lower_case v exit_block (case_value c) (lower_statement n (case_body c)) b) cases"
| "lower_kind n (HTry t var c f _) =
     (case f of
        None \<Rightarrow> lower_try_catch (lower_statement n t) var (lower_statement n c)
      | Some st \<Rightarrow> lower_try_finally (lower_statement n t) var (lower_statement n c) st (lower_statement n st))"
| "lower_kind n (HThrow e _) = lower_throw e"
| "emit_control_transfer 0 t = (\<lambda>_. NoFuel)"
| "emit_control_transfer (Suc n) t =
     (pbind (gets lo_control_finally) (\<lambda>cs.
       (case cs of
           [] \<Rightarrow> emit_transfer t
         | c # rest \<Rightarrow>
             (pbind (modify (\<lambda>s. s\<lparr>lo_control_finally := rest\<rparr>)) (\<lambda>_.
               pbind (modify (pop_throw_finally_if (cf_id c))) (\<lambda>_.
               pbind pop_handler_if_any (\<lambda>_.
               pbind (lower_statement n (finally_stmt c)) (\<lambda>_.
               pbind terminated (\<lambda>done.
               (if done then skip else emit_control_transfer n t))))))))))"
  by pat_completeness auto
termination
  by (relation "measure (case_sum (\<lambda>(n, st). 2 * n) (case_sum (\<lambda>(n, t). 2 * n) (\<lambda>(n, st). 2 * n + 1)))") auto

section \<open>Functions\<close>

text \<open>
  The variables of the declarations of a body. The source walks over expressions too, which
  declare nothing.
\<close>

lemma fold_program_cong [fundef_cong]:
  "xs = ys \<Longrightarrow> (\<And>x. x \<in> set ys \<Longrightarrow> f x = g x) \<Longrightarrow> fold f xs = fold g ys"
  by (rule ext, rule fold_cong) simp_all

fun pre_collect_variables :: "HIRStatement \<Rightarrow> lowering \<Rightarrow> lowering" where
  "pre_collect_variables (HBlock ss _) = fold pre_collect_variables ss"
| "pre_collect_variables (HSequenceStmt ss _) = fold pre_collect_variables ss"
| "pre_collect_variables (HVarDecl n _ t _ _) = put_variable n t"
| "pre_collect_variables (HIfStmt _ yes no _) =
     (case no of None \<Rightarrow> id | Some st \<Rightarrow> pre_collect_variables st) \<circ> pre_collect_variables yes"
| "pre_collect_variables (HLoop _ body _ _ _) = pre_collect_variables body"
| "pre_collect_variables (HTry t var c f _) =
     (case f of None \<Rightarrow> id | Some st \<Rightarrow> pre_collect_variables st)
     \<circ> pre_collect_variables c \<circ> pre_collect_variables t
     \<circ> (case var of None \<Rightarrow> id | Some n \<Rightarrow> put_variable n (TyClass ''Error'' []))"
| "pre_collect_variables _ = id"

text \<open>The depth of the recursion of a statement, and of those on the stack.\<close>

fun stmt_fuel :: "HIRStatement \<Rightarrow> nat" where
  "stmt_fuel (HBlock ss _) = Suc (sum_list (map stmt_fuel ss))"
| "stmt_fuel (HSequenceStmt ss _) = Suc (sum_list (map stmt_fuel ss))"
| "stmt_fuel (HLoop _ body inc _ _) =
     Suc (stmt_fuel body + (case inc of None \<Rightarrow> 0 | Some st \<Rightarrow> stmt_fuel st))"
| "stmt_fuel (HIfStmt _ yes no _) =
     Suc (stmt_fuel yes + (case no of None \<Rightarrow> 0 | Some st \<Rightarrow> stmt_fuel st))"
| "stmt_fuel (HFunction _ _ _ body _ _) = Suc (stmt_fuel body)"
| "stmt_fuel (HSwitch _ cases _) = Suc (sum_list (map (\<lambda>c. stmt_fuel (case_body c)) cases))"
| "stmt_fuel (HTry t _ c f _) =
     Suc (Suc (stmt_fuel t + stmt_fuel c + (case f of None \<Rightarrow> 0 | Some st \<Rightarrow> stmt_fuel st)))"
| "stmt_fuel _ = 2"

definition begin_function :: "string \<Rightarrow> (string \<times> TejxType) list \<Rightarrow> TejxType \<Rightarrow> bool \<Rightarrow> lowering \<Rightarrow> lowering" where
  "begin_function n params t is_extern s =
     fold (\<lambda>(x, ty) s. put_variable x ty (bind_name x x s)) params
       (s\<lparr>lo_function := (function_new n t)\<lparr>mf_params := map fst params, mf_is_extern := is_extern\<rparr>,
          lo_return_type := t, lo_temp_counter := 0, lo_block_counter := 0, lo_var_counter := 0,
          lo_loops := [], lo_handlers := [], lo_scopes := [[]]\<rparr>)"

definition set_entry :: "nat \<Rightarrow> lowering \<Rightarrow> lowering" where
  "set_entry b s = s\<lparr>lo_function := (lo_function s)\<lparr>mf_entry_block := b\<rparr>\<rparr>"

definition lower_function ::
  "string \<Rightarrow> (string \<times> TejxType) list \<Rightarrow> TejxType \<Rightarrow> HIRStatement \<Rightarrow> bool \<Rightarrow> MIRFunction lower" where
  "lower_function n params t body is_extern =
     (pbind (modify (begin_function n params t is_extern)) (\<lambda>_.
       pbind (modify (pre_collect_variables body)) (\<lambda>_.
       pbind (new_block ''entry'') (\<lambda>entry.
       pbind (modify (set_entry entry)) (\<lambda>_.
       pbind (set_block entry) (\<lambda>_.
       pbind (lower_statement (stmt_fuel body) body) (\<lambda>_.
       pbind (emit_unless_terminated (MReturn None 0)) (\<lambda>_.
       gets lo_function))))))))"

definition lower_hir :: "HIRStatement \<Rightarrow> MIRFunction lower" where
  "lower_hir st =
     (case st of
        HFunction n params t body is_extern _ \<Rightarrow> lower_function n params t body is_extern
      | _ \<Rightarrow> lower_function ''tejx_main'' [] TyVoid st False)"

end
