(* ===== verification/MirLowerFacts.thy ===== *)
theory MirLowerFacts
  imports MirLower "HOL-Library.Sublist"
begin

text \<open>
  The lowering always returns a function, and the function is well formed: its blocks end in a
  terminator and have none before, and the targets of the branches and the handlers are blocks.
  The proof is by triples: a predicate on the states between two instructions and the rule of
  every emitting operation.
\<close>

section \<open>Well-formed functions\<close>

definition inst_targets :: "MIRInstruction \<Rightarrow> nat list" where
  "inst_targets i =
     (case i of MBranch _ t f _ \<Rightarrow> [t, f] | MJump t _ \<Rightarrow> [t] | MTrySetup t c _ \<Rightarrow> [t, c] | _ \<Rightarrow> [])"

text \<open>A block ends with a terminator or by entering a protected block.\<close>

definition ends_block :: "MIRInstruction \<Rightarrow> bool" where
  "ends_block i \<longleftrightarrow> is_terminator i \<or> (case i of MTrySetup _ _ _ \<Rightarrow> True | _ \<Rightarrow> False)"

definition block_ended :: "BasicBlock \<Rightarrow> bool" where
  "block_ended b \<longleftrightarrow> bb_instructions b \<noteq> [] \<and> ends_block (last (bb_instructions b))"

text \<open>Terminators stand only at the end, and \<open>L\<close> holds of the targets and the handler.\<close>

definition block_ok :: "(nat \<Rightarrow> bool) \<Rightarrow> BasicBlock \<Rightarrow> bool" where
  "block_ok L b \<longleftrightarrow>
     (\<forall>i \<in> set (bb_instructions b). \<forall>t \<in> set (inst_targets i). L t) \<and>
     (\<forall>i \<in> set (butlast (bb_instructions b)). \<not> ends_block i) \<and>
     (case bb_exception_handler b of Some h \<Rightarrow> L h | None \<Rightarrow> True)"

text \<open>
  Every block is ended, or empty and no target; the entry, the targets and the handlers are
  ended blocks.
\<close>

definition target_ok :: "BasicBlock list \<Rightarrow> nat \<Rightarrow> bool" where
  "target_ok bs t \<longleftrightarrow> t < length bs \<and> block_ended (bs ! t)"

definition well_formed :: "MIRFunction \<Rightarrow> bool" where
  "well_formed f \<longleftrightarrow>
     target_ok (mf_blocks f) (mf_entry_block f) \<and>
     (\<forall>b \<in> set (mf_blocks f). (block_ended b \<or> bb_instructions b = []) \<and> block_ok (target_ok (mf_blocks f)) b)"

section \<open>Triples\<close>

named_theorems wp_lower \<open>triples of the lowering\<close>

definition wp :: "'a lower \<Rightarrow> ('a \<Rightarrow> lowering \<Rightarrow> bool) \<Rightarrow> lowering \<Rightarrow> bool" where
  "wp p Q s \<longleftrightarrow> (\<exists>a s'. p s = Done (a, s') \<and> Q a s')"

lemma lw_mono: "wp p Q s \<Longrightarrow> (\<And>a s'. Q a s' \<Longrightarrow> Q' a s') \<Longrightarrow> wp p Q' s"
  by (auto simp: wp_def)

lemma lw_bind [wp_lower]: "wp m (\<lambda>a. wp (f a) Q) s \<Longrightarrow> wp (pbind m f) Q s"
  by (auto simp: wp_def pbind_def)

lemma lw_ret [wp_lower]: "Q a s \<Longrightarrow> wp (ret a) Q s"
  by (simp add: wp_def ret_def)

lemma wp_skip [wp_lower]: "Q () s \<Longrightarrow> wp skip Q s"
  by (simp add: skip_def lw_ret)

lemma wp_gets [wp_lower]: "Q (f s) s \<Longrightarrow> wp (gets f) Q s"
  by (simp add: wp_def gets_def)

lemma wp_modify: "Q () (f s) \<Longrightarrow> wp (modify f) Q s"
  by (simp add: wp_def modify_def)

lemma lw_pmap [wp_lower]: "wp m (\<lambda>a. Q (f a)) s \<Longrightarrow> wp (pmap f m) Q s"
  unfolding pmap_def by (intro lw_bind) (auto elim: lw_mono intro: lw_ret)

text \<open>
  The states: \<open>P\<close> are the blocks reserved for later, which are empty, \<open>K\<close> some blocks that exist;
  every other block but the current one is ended. With \<open>c\<close> the current one is terminated. \<open>L\<close> and
  \<open>H\<close> are the stacks of loops and handlers, \<open>C\<close> and \<open>T\<close> bound the stacks of finally blocks, \<open>n\<close>
  is the number of scopes.
\<close>

record frame =
  fr_loops :: "LoopContext list"
  fr_handlers :: "nat list"
  fr_control :: "ControlFinallyContext list"
  fr_throw :: "ThrowFinallyContext list"
  fr_scopes :: nat
  fr_entry :: nat

definition frame_targets :: "frame \<Rightarrow> nat set" where
  "frame_targets F =
     (\<Union>l \<in> set (fr_loops F). {continue_target l, break_target l}) \<union> set (fr_handlers F)
     \<union> finally_body_idx ` set (fr_throw F)"

text \<open>A block that is ended, or will be.\<close>

definition live :: "nat set \<Rightarrow> nat \<Rightarrow> BasicBlock list \<Rightarrow> nat \<Rightarrow> bool" where
  "live P cur bs k \<longleftrightarrow> k < length bs \<and> (k = cur \<or> k \<in> P \<or> block_ended (bs ! k))"

definition blocks_ok :: "bool \<Rightarrow> nat set \<Rightarrow> nat \<Rightarrow> BasicBlock list \<Rightarrow> bool" where
  "blocks_ok c P cur bs \<longleftrightarrow>
     cur < length bs \<and> cur \<notin> P \<and> (\<forall>b \<in> P. b < length bs \<and> bb_instructions (bs ! b) = []) \<and>
     (\<forall>b < length bs. block_ok (live P cur bs) (bs ! b) \<and>
        (b \<noteq> cur \<longrightarrow> b \<notin> P \<longrightarrow> block_ended (bs ! b) \<or> bb_instructions (bs ! b) = [])) \<and>
     (block_ended (bs ! cur) \<longrightarrow> is_terminated (bs ! cur)) \<and> (c \<longrightarrow> is_terminated (bs ! cur))"

definition at :: "bool \<Rightarrow> nat set \<Rightarrow> nat set \<Rightarrow> frame \<Rightarrow> lowering \<Rightarrow> bool" where
  "at c P K F s \<longleftrightarrow>
     blocks_ok c P (lo_block s) (lo_blocks s) \<and> (\<forall>k \<in> K \<union> frame_targets F. live P (lo_block s) (lo_blocks s) k) \<and>
     lo_loops s = fr_loops F \<and> lo_handlers s = fr_handlers F \<and> length (lo_scopes s) = fr_scopes F \<and>
     subseq (lo_control_finally s) (fr_control F) \<and> subseq (lo_throw_finally s) (fr_throw F) \<and>
     mf_entry_block (lo_function s) = fr_entry F"

text \<open>The contract of an operation: it returns, with the blocks it reserved ended.\<close>

definition keeps :: "'a lower \<Rightarrow> bool" where
  "keeps p \<longleftrightarrow> (\<forall>P K F s. at False P K F s \<longrightarrow> wp p (\<lambda>_. at False P K F) s)"

lemma keepsI: "(\<And>P K F s. at False P K F s \<Longrightarrow> wp p (\<lambda>_. at False P K F) s) \<Longrightarrow> keeps p"
  unfolding keeps_def by blast

lemma at_weaken: "at c P K F s \<Longrightarrow> K' \<subseteq> K \<Longrightarrow> at False P K' F s"
  by (auto simp: at_def blocks_ok_def)

lemma at_final: "at c P' K' F' s \<Longrightarrow> P' = P \<Longrightarrow> K \<subseteq> K' \<Longrightarrow> F' = F \<Longrightarrow> at False P K F s"
  using at_weaken by blast

lemma at_sub: "at c P' K' F' s \<Longrightarrow> P' = P \<Longrightarrow> K \<subseteq> K' \<Longrightarrow> F' = F \<Longrightarrow> at c P K F s"
  by (auto simp: at_def)

lemma wp_keeps:
  assumes "keeps p" "at c P K F s" "\<And>a s'. at False P K F s' \<Longrightarrow> Q a s'"
  shows "wp p Q s"
proof -
  have "at False P K F s" using at_weaken [OF assms(2)] by simp
  with assms(1) have "wp p (\<lambda>_. at False P K F) s" unfolding keeps_def by blast
  then show ?thesis by (rule lw_mono) (rule assms(3))
qed

lemma at_blocks:
  "at c P K F s \<Longrightarrow> lo_block s < length (lo_blocks s)"
  by (simp add: at_def blocks_ok_def)

section \<open>The primitive operations\<close>

lemma lw_if [wp_lower]: "(b \<Longrightarrow> wp p Q s) \<Longrightarrow> (\<not> b \<Longrightarrow> wp q Q s) \<Longrightarrow> wp (if b then p else q) Q s"
  by simp

lemma lw_option [wp_lower]:
  "(x = None \<Longrightarrow> wp p Q s) \<Longrightarrow> (\<And>a. x = Some a \<Longrightarrow> wp (f a) Q s) \<Longrightarrow>
     wp (case x of None \<Rightarrow> p | Some a \<Rightarrow> f a) Q s"
  by (cases x) auto

lemma wp_list [wp_lower]:
  "(xs = [] \<Longrightarrow> wp p Q s) \<Longrightarrow> (\<And>a as. xs = a # as \<Longrightarrow> wp (f a as) Q s) \<Longrightarrow>
     wp (case xs of [] \<Rightarrow> p | a # as \<Rightarrow> f a as) Q s"
  by (cases xs) auto

lemma lo_blocks_set [simp]: "lo_blocks (set_blocks bs s) = bs"
  by (simp add: lo_blocks_def set_blocks_def)

lemma set_blocks_sel [simp]:
  "lo_block (set_blocks bs s) = lo_block s" "lo_loops (set_blocks bs s) = lo_loops s"
  "lo_handlers (set_blocks bs s) = lo_handlers s" "lo_scopes (set_blocks bs s) = lo_scopes s"
  "lo_control_finally (set_blocks bs s) = lo_control_finally s"
  "lo_throw_finally (set_blocks bs s) = lo_throw_finally s"
  "mf_entry_block (lo_function (set_blocks bs s)) = mf_entry_block (lo_function s)"
  by (simp_all add: set_blocks_def)

text \<open>Changes of the state that no law looks at.\<close>

definition neutral :: "(lowering \<Rightarrow> lowering) \<Rightarrow> bool" where
  "neutral f \<longleftrightarrow>
     (\<forall>s. lo_blocks (f s) = lo_blocks s \<and> lo_block (f s) = lo_block s \<and> lo_loops (f s) = lo_loops s \<and>
          lo_handlers (f s) = lo_handlers s \<and> length (lo_scopes (f s)) = length (lo_scopes s) \<and>
          lo_control_finally (f s) = lo_control_finally s \<and> lo_throw_finally (f s) = lo_throw_finally s \<and>
          mf_entry_block (lo_function (f s)) = mf_entry_block (lo_function s))"

lemma at_neutral: "neutral f \<Longrightarrow> at c P K F (f s) = at c P K F s"
  by (simp add: at_def neutral_def)

lemma neutral_put_variable: "neutral (put_variable n t)"
  by (simp add: neutral_def put_variable_def lo_blocks_def)

lemma neutral_bind_name: "neutral (bind_name n u)"
  by (auto simp: neutral_def bind_name_def lo_blocks_def split: list.splits)

lemma wp_neutral: "neutral f \<Longrightarrow> at c P K F s \<Longrightarrow> (\<And>s'. at c P K F s' \<Longrightarrow> Q () s') \<Longrightarrow> wp (modify f) Q s"
  by (simp add: wp_modify at_neutral)

lemma wp_new_temp [wp_lower]:
  "at c P K F s \<Longrightarrow> (\<And>n s'. at c P K F s' \<Longrightarrow> Q n s') \<Longrightarrow> wp (new_temp t) Q s"
  by (auto simp: wp_def new_temp_def Let_def at_def put_variable_def lo_blocks_def)

lemma wp_current: "at c P K F s \<Longrightarrow> (\<And>b. at c P K F s \<Longrightarrow> b = lo_blocks s ! lo_block s \<Longrightarrow> Q b s) \<Longrightarrow> wp current Q s"
  by (auto simp: wp_def current_def dest: at_blocks)

lemma at_terminated: "at c P K F s \<Longrightarrow> at (c \<or> is_terminated (lo_blocks s ! lo_block s)) P K F s"
  by (auto simp: at_def blocks_ok_def)

lemma wp_terminated [wp_lower]:
  assumes "at c P K F s" "\<And>b. at (c \<or> b) P K F s \<Longrightarrow> (c \<Longrightarrow> b) \<Longrightarrow> Q b s"
  shows "wp terminated Q s"
proof -
  have "c \<Longrightarrow> is_terminated (lo_blocks s ! lo_block s)" using assms(1) by (simp add: at_def blocks_ok_def)
  with assms(2) [OF at_terminated [OF assms(1)]] at_blocks [OF assms(1)] show ?thesis
    by (auto simp: wp_def terminated_def pmap_def pbind_def current_def ret_def)
qed

lemma wp_has_handler [wp_lower]: "at c P K F s \<Longrightarrow> (\<And>b. at c P K F s \<Longrightarrow> Q b s) \<Longrightarrow> wp has_handler Q s"
  unfolding has_handler_def by (intro lw_pmap wp_current)

lemma wp_resolve_variable [wp_lower]: "(\<And>u. Q u s) \<Longrightarrow> wp (resolve_variable n) Q s"
  by (simp add: resolve_variable_def wp_gets)

lemma set_line_sel [simp]:
  "is_terminator (set_line n i) = is_terminator i" "ends_block (set_line n i) = ends_block i"
  "inst_targets (set_line n i) = inst_targets i"
  by (cases i; simp add: set_line_def is_terminator_def ends_block_def inst_targets_def)+

lemma block_ok_mono: "block_ok L b \<Longrightarrow> (\<And>k. L k \<Longrightarrow> L' k) \<Longrightarrow> block_ok L' b"
  by (auto simp: block_ok_def split: option.splits)

lemma block_ok_add:
  "block_ok L b \<Longrightarrow> \<not> block_ended b \<Longrightarrow> (\<forall>t \<in> set (inst_targets i). L t) \<Longrightarrow> block_ok L (add_instruction i b)"
  by (cases "bb_instructions b" rule: rev_cases)
    (auto simp: block_ok_def block_ended_def add_instruction_def butlast_append)

lemma live_update: "live P cur (bs[cur := b]) k \<longleftrightarrow> live P cur bs k"
  by (auto simp: live_def nth_list_update)

lemma blocks_ok_update:
  assumes "blocks_ok c P cur bs" "block_ok (live P cur bs) b" "block_ended b \<longleftrightarrow> is_terminated b" "c' \<longrightarrow> is_terminated b"
  shows "blocks_ok c' P cur (bs[cur := b])"
proof -
  have l: "live P cur (bs[cur := b]) = live P cur bs" by (rule ext) (rule live_update)
  show ?thesis using assms by (auto simp: blocks_ok_def l nth_list_update)
qed

lemma emit_at:
  assumes "at c P K F s" "\<forall>t \<in> set (inst_targets i). t \<in> K \<union> frame_targets F"
    and "(case i of MTrySetup _ _ _ \<Rightarrow> False | _ \<Rightarrow> True)"
  shows "\<exists>s'. emit i s = Done ((), s') \<and> at (c \<or> is_terminator i) P K F s'"
proof (cases "is_terminated (lo_blocks s ! lo_block s)")
  case True
  with at_blocks [OF assms(1)] have "emit i s = Done ((), s)"
    by (simp add: emit_def pbind_def current_def skip_def ret_def)
  moreover from True assms(1) have "at (c \<or> is_terminator i) P K F s" by (simp add: at_def blocks_ok_def)
  ultimately show ?thesis by blast
next
  case False
  define b where "b = add_instruction (set_line (lo_line s) i) (lo_blocks s ! lo_block s)"
  define s' where "s' = set_blocks ((lo_blocks s)[lo_block s := b]) s"
  have "emit i s = Done ((), s')"
    using False at_blocks [OF assms(1)]
    by (simp add: emit_def pbind_def current_def modify_def s'_def b_def)
  moreover have "at (c \<or> is_terminator i) P K F s'"
  proof -
    have old: "blocks_ok c P (lo_block s) (lo_blocks s)" using assms(1) by (simp add: at_def)
    then have n: "\<not> block_ended (lo_blocks s ! lo_block s)" "\<not> c" using False by (auto simp: blocks_ok_def)
    have t: "\<forall>t \<in> set (inst_targets i). live P (lo_block s) (lo_blocks s) t" using assms(1,2) by (auto simp: at_def)
    have ok: "block_ok (live P (lo_block s) (lo_blocks s)) b"
      unfolding b_def using n t old by (intro block_ok_add) (auto simp: blocks_ok_def)
    have "ends_block i \<longleftrightarrow> is_terminator i" using assms(3) by (cases i) (auto simp: ends_block_def)
    then have e: "is_terminated b \<longleftrightarrow> is_terminator i" "block_ended b \<longleftrightarrow> is_terminated b"
      by (simp_all add: b_def add_instruction_def is_terminated_def block_ended_def)
    have "blocks_ok (c \<or> is_terminator i) P (lo_block s) ((lo_blocks s)[lo_block s := b])"
      using e n by (intro blocks_ok_update [OF old ok]) simp_all
    with assms(1) show ?thesis by (auto simp: at_def s'_def live_update)
  qed
  ultimately show ?thesis by blast
qed

lemma wp_emit:
  "at c P K F s \<Longrightarrow> \<forall>t \<in> set (inst_targets i). t \<in> K \<union> frame_targets F \<Longrightarrow>
     (case i of MTrySetup _ _ _ \<Rightarrow> False | _ \<Rightarrow> True) \<Longrightarrow>
     (\<And>s'. at (c \<or> is_terminator i) P K F s' \<Longrightarrow> Q () s') \<Longrightarrow> wp (emit i) Q s"
  using emit_at by (fastforce simp: wp_def)

text \<open>An instruction without targets that does not end a block.\<close>

definition plain_inst :: "MIRInstruction \<Rightarrow> bool" where
  "plain_inst i \<longleftrightarrow> inst_targets i = [] \<and> \<not> ends_block i"

lemma plain_insts [simp]:
  "plain_inst (MMove d v l)" "plain_inst (MBinaryOp d a op b t l)" "plain_inst (MCall d f vs l)"
  "plain_inst (MIndirectCall d v vs l)" "plain_inst (MLoadMember d v m l)" "plain_inst (MStoreMember v m w l)"
  "plain_inst (MLoadIndex d v i t l)" "plain_inst (MStoreIndex v i w t l)" "plain_inst (MCast d v t l)"
  "plain_inst (MPopHandler l)"
  by (simp_all add: plain_inst_def inst_targets_def ends_block_def is_terminator_def)

lemma wp_emit_plain [wp_lower]:
  "at c P K F s \<Longrightarrow> plain_inst i \<Longrightarrow> (\<And>s'. at c P K F s' \<Longrightarrow> Q () s') \<Longrightarrow> wp (emit i) Q s"
  by (rule wp_emit, assumption)
    (auto simp: plain_inst_def ends_block_def split: MIRInstruction.splits)

lemma wp_jump [wp_lower]:
  "at c P K F s \<Longrightarrow> t \<in> K \<union> frame_targets F \<Longrightarrow> (\<And>s'. at True P K F s' \<Longrightarrow> Q () s') \<Longrightarrow> wp (emit (MJump t l)) Q s"
  by (rule wp_emit, assumption) (auto simp: inst_targets_def is_terminator_def)

lemma wp_branch [wp_lower]:
  "at c P K F s \<Longrightarrow> t \<in> K \<Longrightarrow> f \<in> K \<Longrightarrow> (\<And>s'. at True P K F s' \<Longrightarrow> Q () s') \<Longrightarrow> wp (emit (MBranch v t f l)) Q s"
  by (rule wp_emit, assumption) (auto simp: inst_targets_def is_terminator_def)

lemma wp_return [wp_lower]: "at c P K F s \<Longrightarrow> (\<And>s'. at True P K F s' \<Longrightarrow> Q () s') \<Longrightarrow> wp (emit (MReturn v l)) Q s"
  by (rule wp_emit, assumption) (auto simp: inst_targets_def is_terminator_def)

lemma wp_throw [wp_lower]: "at c P K F s \<Longrightarrow> (\<And>s'. at True P K F s' \<Longrightarrow> Q () s') \<Longrightarrow> wp (emit (MThrow v l)) Q s"
  by (rule wp_emit, assumption) (auto simp: inst_targets_def is_terminator_def)

lemma wp_jump_unless_terminated [wp_lower]:
  "at c P K F s \<Longrightarrow> t \<in> K \<union> frame_targets F \<Longrightarrow> (\<And>s'. at True P K F s' \<Longrightarrow> Q () s') \<Longrightarrow>
     wp (emit_unless_terminated (MJump t l)) Q s"
  unfolding emit_unless_terminated_def
  by (intro wp_lower, assumption) (auto intro: wp_lower)

text \<open>A new block is reserved, its handler is the innermost one; it may stay unused.\<close>

lemma live_append: "live P cur bs k \<Longrightarrow> P \<subseteq> P' \<Longrightarrow> live P' cur (bs @ [b]) k"
  by (auto simp: live_def nth_append)

lemma blocks_ok_append:
  assumes "blocks_ok c P cur bs" "bb_instructions b = []"
    and "case bb_exception_handler b of Some h \<Rightarrow> live P cur bs h | None \<Rightarrow> True"
    and "P' = P \<or> P' = insert (length bs) P"
  shows "blocks_ok c P' cur (bs @ [b])"
proof -
  have sub: "P \<subseteq> P'" using assms(4) by auto
  have b: "block_ok (live P' cur (bs @ [b])) b"
    using assms(2,3) live_append [OF _ sub] by (auto simp: block_ok_def split: option.splits)
  have old: "block_ok (live P' cur (bs @ [b])) (bs ! i)" if "i < length bs" for i
    using assms(1) that live_append [OF _ sub] by (auto simp: blocks_ok_def elim!: block_ok_mono)
  have e: "\<not> block_ended b" using assms(2) by (simp add: block_ended_def)
  show ?thesis
    unfolding blocks_ok_def
  proof (intro conjI)
    show "\<forall>i<length (bs @ [b]). block_ok (live P' cur (bs @ [b])) ((bs @ [b]) ! i) \<and>
        (i \<noteq> cur \<longrightarrow> i \<notin> P' \<longrightarrow> block_ended ((bs @ [b]) ! i) \<or> bb_instructions ((bs @ [b]) ! i) = [])"
    proof (intro allI impI)
      fix i assume i: "i < length (bs @ [b])"
      show "block_ok (live P' cur (bs @ [b])) ((bs @ [b]) ! i) \<and>
          (i \<noteq> cur \<longrightarrow> i \<notin> P' \<longrightarrow> block_ended ((bs @ [b]) ! i) \<or> bb_instructions ((bs @ [b]) ! i) = [])"
      proof (cases "i = length bs")
        case False
        with i have "i < length bs" by simp
        moreover from this assms(1) have "i \<noteq> cur \<longrightarrow> i \<notin> P \<longrightarrow> block_ended (bs ! i) \<or> bb_instructions (bs ! i) = []"
          by (simp add: blocks_ok_def)
        ultimately show ?thesis using old sub by (auto simp: nth_append)
      qed (use b assms(2) in simp)
    qed
  qed (use assms in \<open>auto simp: blocks_ok_def nth_append\<close>)
qed

lemma new_block_at:
  assumes "at c P K F s"
  shows "\<exists>b s'. new_block pre s = Done (b, s') \<and> b \<notin> P \<and> at c (insert b P) (insert b K) F s' \<and> at c P K F s'"
proof -
  define b where "b = (block_new (pre @ ''_'' @ nat_to_string (lo_block_counter s)))
     \<lparr>bb_exception_handler := (case lo_handlers s of [] \<Rightarrow> None | h # _ \<Rightarrow> Some h)\<rparr>"
  define s' where "s' = set_blocks (lo_blocks s @ [b]) (s\<lparr>lo_block_counter := lo_block_counter s + 1\<rparr>)"
  have r: "new_block pre s = Done (length (lo_blocks s), s')"
    by (simp add: new_block_def Let_def b_def s'_def)
  have h: "case bb_exception_handler b of Some h \<Rightarrow> live P (lo_block s) (lo_blocks s) h | None \<Rightarrow> True"
    using assms(1) by (auto simp: b_def at_def frame_targets_def split: list.splits)
  have e: "bb_instructions b = []" by (simp add: b_def block_new_def)
  have old: "blocks_ok c P (lo_block s) (lo_blocks s)" using assms(1) by (simp add: at_def)
  have "live (insert (length (lo_blocks s)) P) (lo_block s) (lo_blocks s @ [b]) (length (lo_blocks s))"
    by (simp add: live_def)
  with blocks_ok_append [OF old e h] assms(1)
  have "at c (insert (length (lo_blocks s)) P) (insert (length (lo_blocks s)) K) F s'" "at c P K F s'"
    by (auto simp: at_def s'_def intro: live_append)
  moreover have "length (lo_blocks s) \<notin> P" using old by (auto simp: blocks_ok_def)
  ultimately show ?thesis using r by blast
qed

lemma wp_new_block [wp_lower]:
  "at c P K F s \<Longrightarrow> (\<And>b s'. b \<notin> P \<Longrightarrow> at c (insert b P) (insert b K) F s' \<Longrightarrow> Q b s') \<Longrightarrow> wp (new_block pre) Q s"
  using new_block_at by (fastforce simp: wp_def)

lemma wp_unused_block:
  "at c P K F s \<Longrightarrow> (\<And>b s'. at c P K F s' \<Longrightarrow> Q b s') \<Longrightarrow> wp (new_block pre) Q s"
  using new_block_at by (fastforce simp: wp_def)

lemma terminated_ended: "is_terminated b \<Longrightarrow> block_ended b"
  by (simp add: is_terminated_def block_ended_def ends_block_def)

text \<open>The current block is ended, and control goes on in a reserved one.\<close>

lemma live_leave: "block_ended b \<Longrightarrow> live P cur bs k \<Longrightarrow> live (P - {t}) t (bs[cur := b]) k"
  by (cases "k = cur") (auto simp: live_def)

lemma blocks_ok_leave:
  assumes "blocks_ok c P cur bs" "block_ok (live P cur bs) b" "block_ended b" "t \<in> P"
  shows "blocks_ok False (P - {t}) t (bs[cur := b])"
proof -
  have l: "block_ok (live P cur bs) x \<Longrightarrow> block_ok (live (P - {t}) t (bs[cur := b])) x" for x
    by (erule block_ok_mono) (rule live_leave [OF assms(3)])
  have t: "t \<noteq> cur" using assms(1,4) by (auto simp: blocks_ok_def)
  show ?thesis
    unfolding blocks_ok_def
  proof (intro conjI)
    show "\<forall>i<length (bs[cur := b]). block_ok (live (P - {t}) t (bs[cur := b])) (bs[cur := b] ! i) \<and>
        (i \<noteq> t \<longrightarrow> i \<notin> P - {t} \<longrightarrow> block_ended (bs[cur := b] ! i) \<or> bb_instructions (bs[cur := b] ! i) = [])"
    proof (intro allI impI)
      fix i assume i: "i < length (bs[cur := b])"
      with assms(1) have o: "block_ok (live P cur bs) (bs ! i)"
        "i \<noteq> cur \<longrightarrow> i \<notin> P \<longrightarrow> block_ended (bs ! i) \<or> bb_instructions (bs ! i) = []"
        by (simp_all add: blocks_ok_def)
      show "block_ok (live (P - {t}) t (bs[cur := b])) (bs[cur := b] ! i) \<and>
          (i \<noteq> t \<longrightarrow> i \<notin> P - {t} \<longrightarrow> block_ended (bs[cur := b] ! i) \<or> bb_instructions (bs[cur := b] ! i) = [])"
        using i o assms(2,3) l by (cases "i = cur") auto
    qed
  qed (use assms t in \<open>auto simp: blocks_ok_def block_ended_def nth_list_update\<close>)
qed

lemma at_leave:
  assumes "at c P K F s" "block_ok (live P (lo_block s) (lo_blocks s)) b" "block_ended b" "t \<in> P"
  shows "at False (P - {t}) K F ((set_blocks ((lo_blocks s)[lo_block s := b]) s)\<lparr>lo_block := t\<rparr>)"
proof -
  have "blocks_ok c P (lo_block s) (lo_blocks s)" using assms(1) by (simp add: at_def)
  from blocks_ok_leave [OF this assms(2-4)] assms(1) show ?thesis
    by (auto simp: at_def lo_blocks_def set_blocks_def intro: live_leave [OF assms(3)])
qed

lemma wp_set_block [wp_lower]:
  assumes "at True P K F s" "t \<in> P" "\<And>s'. at False (P - {t}) K F s' \<Longrightarrow> Q () s'"
  shows "wp (set_block t) Q s"
proof -
  have b: "block_ok (live P (lo_block s) (lo_blocks s)) (lo_blocks s ! lo_block s)"
    "block_ended (lo_blocks s ! lo_block s)"
    using assms(1) by (auto simp: at_def blocks_ok_def terminated_ended)
  have e: "set_blocks (lo_blocks s) s = s" by (simp add: set_blocks_def lo_blocks_def)
  show ?thesis
    unfolding set_block_def using at_leave [OF assms(1) b assms(2)] by (intro wp_modify assms(3)) (simp add: e)
qed

lemma wp_enter_try [wp_lower]:
  assumes "at c P K F s" "t \<in> P" "t \<in> K" "h \<in> K" "\<And>s'. at False (P - {t}) K F s' \<Longrightarrow> Q () s'"
  shows "wp (enter_try t h) Q s"
proof (cases "is_terminated (lo_blocks s ! lo_block s)")
  case True
  then have "at True P K F s" using at_terminated [OF assms(1)] by simp
  moreover have "emit (MTrySetup t h 0) s = Done ((), s)"
    using True at_blocks [OF assms(1)] by (simp add: emit_def pbind_def current_def skip_def ret_def)
  ultimately show ?thesis
    using wp_set_block [of P K F s t Q] assms(2,5) by (simp add: enter_try_def wp_def pbind_def)
next
  case False
  define b where "b = add_instruction (set_line (lo_line s) (MTrySetup t h 0)) (lo_blocks s ! lo_block s)"
  have old: "blocks_ok c P (lo_block s) (lo_blocks s)" using assms(1) by (simp add: at_def)
  then have n: "\<not> block_ended (lo_blocks s ! lo_block s)" using False by (auto simp: blocks_ok_def)
  have "block_ok (live P (lo_block s) (lo_blocks s)) b"
    unfolding b_def using n old assms(1,3,4)
    by (intro block_ok_add) (auto simp: blocks_ok_def at_def inst_targets_def set_line_def)
  moreover have "block_ended b" by (simp add: b_def block_ended_def add_instruction_def set_line_def ends_block_def)
  ultimately have "at False (P - {t}) K F ((set_blocks ((lo_blocks s)[lo_block s := b]) s)\<lparr>lo_block := t\<rparr>)"
    by (rule at_leave [OF assms(1) _ _ assms(2)])
  moreover have "enter_try t h s = Done ((), (set_blocks ((lo_blocks s)[lo_block s := b]) s)\<lparr>lo_block := t\<rparr>)"
    using False at_blocks [OF assms(1)]
    by (simp add: enter_try_def emit_def pbind_def current_def modify_def set_block_def b_def)
  ultimately show ?thesis using assms(5) by (simp add: wp_def)
qed

section \<open>The operations on values\<close>

lemma keeps_ret: "keeps (ret a)"
  by (rule keepsI) (rule lw_ret)

lemma keeps_skip: "keeps skip"
  unfolding skip_def by (rule keeps_ret)

lemma keeps_bind: "keeps m \<Longrightarrow> (\<And>a. keeps (f a)) \<Longrightarrow> keeps (pbind m f)"
  by (rule keepsI, rule lw_bind, rule wp_keeps, assumption, assumption, rule wp_keeps) auto

lemma keeps_cast_to: "keeps (cast_to v t)"
  unfolding cast_to_def by (rule keepsI) (assumption | rule wp_lower | simp)+

lemmas wp_cast_to [wp_lower] = wp_keeps [OF keeps_cast_to]

lemma keeps_auto_box: "keeps (auto_box v t)"
  unfolding auto_box_def Let_def by (rule keepsI) (assumption | rule wp_lower | simp)+

lemmas wp_auto_box [wp_lower] = wp_keeps [OF keeps_auto_box]

lemma keeps_index_value: "keeps (index_value v)"
  unfolding index_value_def by (rule keepsI) (assumption | rule wp_lower)+

lemmas wp_index_value [wp_lower] = wp_keeps [OF keeps_index_value]

lemma keeps_call_into: "keeps (call_into t c vs)"
  unfolding call_into_def by (rule keepsI) (assumption | rule wp_lower | simp)+

lemmas wp_call_into [wp_lower] = wp_keeps [OF keeps_call_into]

lemma keeps_raw_temp: "keeps (raw_temp c t)"
  unfolding raw_temp_def by (rule keepsI) (assumption | rule wp_lower)+

lemmas wp_raw_temp [wp_lower] = wp_keeps [OF keeps_raw_temp]

lemma keeps_mutation_result: "keeps (mutation_result c t v)"
  unfolding mutation_result_def by (rule keepsI) (assumption | rule wp_lower)+

lemma keeps_lower_load: "keeps (lower_load ob ix t)"
  unfolding lower_load_def Let_def by (rule keepsI) (assumption | rule wp_lower | simp)+

lemma keeps_lower_member: "keeps (lower_member ob m t)"
  unfolding lower_member_def by (rule keepsI) (assumption | rule wp_lower | simp)+

lemma keeps_lower_variable: "keeps (lower_variable n t)"
  unfolding lower_variable_def by (rule keepsI) (assumption | rule wp_lower | simp)+

lemma keeps_resolve_callee: "keeps (resolve_callee c)"
  unfolding resolve_callee_def by (rule keepsI) (assumption | rule wp_lower | simp)+

lemma keeps_constructor_arg: "keeps (constructor_arg sig i v)"
  unfolding constructor_arg_def by (rule keepsI) (assumption | rule wp_lower)+

lemma keeps_store_element: "keeps (store_element arr t i v)"
  unfolding store_element_def by (rule keepsI) (assumption | rule wp_lower | simp)+

lemma keeps_lower_update:
  "(\<And>x. plain_inst (load x)) \<Longrightarrow> (\<And>x. plain_inst (store x)) \<Longrightarrow> keeps (lower_update op t l load store)"
  unfolding lower_update_def by (rule keepsI) (assumption | rule wp_lower | simp)+

lemma keeps_emit_plain: "plain_inst i \<Longrightarrow> keeps (emit i)"
  by (rule keepsI) (assumption | rule wp_lower)+

lemma keeps_each: "(\<And>i x. x \<in> set xs \<Longrightarrow> keeps (f i x)) \<Longrightarrow> keeps (each f n xs)"
  by (induction xs arbitrary: n) (auto intro!: keeps_bind keeps_ret)

section \<open>The operators that branch\<close>

lemma wp_branch_result [wp_lower]:
  "at c P K F s \<Longrightarrow> m \<in> K \<Longrightarrow> (\<And>s'. at True P K F s' \<Longrightarrow> Q () s') \<Longrightarrow> wp (branch_result x v m) Q s"
  unfolding branch_result_def by (assumption | rule wp_lower | simp)+

lemma keeps_lower_nullish:
  assumes "keeps left" "keeps right"
  shows "keeps (lower_nullish left right t)"
  unfolding lower_nullish_def
  apply (rule keepsI)
  apply (rule lw_bind, rule wp_keeps [OF assms(1)], assumption, rule lw_bind, rule wp_new_temp, assumption)
  apply (rule lw_bind, rule wp_unused_block, assumption)
  by (assumption | rule wp_lower assms [THEN wp_keeps] | simp; fail | erule at_final; auto; fail)+

lemma keeps_lower_and:
  assumes "keeps left" "keeps right"
  shows "keeps (lower_and left right t)"
  unfolding lower_and_def
  by (rule keepsI) (assumption | rule wp_lower assms [THEN wp_keeps] | simp; fail | erule at_final; auto; fail)+

lemma keeps_lower_or:
  assumes "keeps left" "keeps right"
  shows "keeps (lower_or left right t)"
  unfolding lower_or_def
  by (rule keepsI) (assumption | rule wp_lower assms [THEN wp_keeps] | simp; fail | erule at_final; auto; fail)+

lemma keeps_lower_ternary:
  assumes "keeps cond" "keeps yes" "keeps no"
  shows "keeps (lower_ternary cond yes no t)"
  unfolding lower_ternary_def
  by (rule keepsI) (assumption | rule wp_lower assms [THEN wp_keeps] | simp; fail | erule at_final; auto; fail)+

lemma keeps_lower_operator:
  assumes "keeps left" "keeps right"
  shows "keeps (lower_operator op left right t)"
  unfolding lower_operator_def
  by (rule keepsI) (assumption | rule wp_lower assms [THEN wp_keeps] | simp; fail)+

lemma keeps_lower_binary: "keeps left \<Longrightarrow> keeps right \<Longrightarrow> keeps (lower_binary op left right t)"
  unfolding lower_binary_def
  by (simp add: keeps_lower_nullish keeps_lower_and keeps_lower_or keeps_lower_operator keeps_bind)

section \<open>Constructions\<close>

lemma keeps_lower_promise: "keeps e \<Longrightarrow> keeps (lower_promise e t)"
  unfolding lower_promise_def
  by (rule keepsI) (assumption | rule wp_lower | erule wp_keeps | simp; fail)+

lemma keeps_lower_new:
  assumes "\<And>sig. keeps (args sig)"
  shows "keeps (lower_new n args t)"
  unfolding lower_new_def Let_def
  by (rule keepsI) (assumption | rule wp_lower assms [THEN wp_keeps] | simp; fail)+

lemma keeps_lower_object:
  assumes "\<And>ob. keeps (entries ob)"
  shows "keeps (lower_object entries t)"
  unfolding lower_object_def
  by (rule keepsI) (assumption | rule wp_lower assms [THEN wp_keeps] | simp; fail)+

lemma keeps_lower_array:
  assumes "keeps size_value" "\<And>arr. keeps (elems arr)"
  shows "keeps (lower_array size_value elems t l)"
  unfolding lower_array_def
  by (rule keepsI) (assumption | rule wp_lower assms [THEN wp_keeps] | simp; fail)+

section \<open>Expressions\<close>

lemma keeps_option: "keeps p \<Longrightarrow> (\<And>a. keeps (f a)) \<Longrightarrow> keeps (case x of None \<Rightarrow> p | Some a \<Rightarrow> f a)"
  by (cases x) auto

lemma keeps_modify: "neutral f \<Longrightarrow> keeps (modify f)"
  by (rule keepsI) (erule wp_neutral, assumption, assumption)

lemma keeps_gets: "keeps (gets f)"
  by (rule keepsI) (rule wp_gets)

lemma keeps_new_temp: "keeps (new_temp t)"
  by (rule keepsI) (rule wp_new_temp)

lemma keeps_resolve_variable: "keeps (resolve_variable n)"
  unfolding resolve_variable_def by (rule keeps_gets)

lemmas keeps_simps =
  keeps_ret keeps_skip keeps_bind keeps_gets keeps_new_temp keeps_resolve_variable keeps_emit_plain keeps_cast_to keeps_auto_box keeps_index_value
  keeps_call_into keeps_raw_temp keeps_mutation_result keeps_lower_load keeps_lower_member keeps_lower_variable
  keeps_resolve_callee keeps_constructor_arg keeps_store_element keeps_lower_update keeps_each
  keeps_lower_binary keeps_lower_ternary keeps_lower_promise keeps_lower_new keeps_lower_object keeps_lower_array

lemma keeps_storeback:
  "(\<And>e'. size e' < size e \<Longrightarrow> keeps (lower_expression e')) \<Longrightarrow> keeps (emit_array_receiver_storeback e v)"
proof (induction e arbitrary: v)
  case (HIndexAccess target ix t l)
  then show ?case by (simp add: keeps_simps)
qed (simp_all add: keeps_simps)

lemma keeps_assignment:
  assumes "\<And>e'. size e' < Suc (size target + size v) \<Longrightarrow> keeps (lower_expression e')"
  shows "keeps (lower_node (HAssignment target v t l))"
proof (cases target)
  case (HIndexAccess ob ix t' l')
  then have ob: "keeps (lower_expression e')" if "size e' \<le> size ob" for e' using that assms by simp
  have "keeps (case ob of HMemberAccess base m mt _ \<Rightarrow>
      pbind (lower_expression base) (\<lambda>b. pbind (new_temp mt) (\<lambda>x. pbind (emit (MLoadMember x b m 0)) (\<lambda>_. ret (MVariable x mt))))
      | _ \<Rightarrow> lower_expression ob)"
    using ob by (cases ob) (simp_all add: keeps_simps)
  moreover have "keeps (emit_array_receiver_storeback ob w)" for w using ob by (intro keeps_storeback) simp
  ultimately show ?thesis using assms HIndexAccess by (simp add: keeps_simps)
qed (use assms in \<open>simp_all add: keeps_simps\<close>)

lemma keeps_call:
  assumes "\<And>e'. size e' < Suc (size_list size args) \<Longrightarrow> keeps (lower_expression e')"
  shows "keeps (lower_node (HCall callee args t l))"
proof -
  have a: "keeps (lower_expression a)" if "a \<in> set args" for a using that assms size_argument by blast
  have s: "keeps (emit_array_receiver_storeback a w)" if "a \<in> set args" for a w
    using that assms size_argument [of a args] by (intro keeps_storeback) simp
  show ?thesis
    using a s by (cases args) (auto simp: keeps_simps plain_call_def split: MIRValue.split)
qed

lemma keeps_node:
  "(\<And>e'. size e' < size e \<Longrightarrow> keeps (lower_expression e')) \<Longrightarrow> keeps (lower_node e)"
proof (cases e)
  case (HAssignment target v t l)
  then show "(\<And>e'. size e' < size e \<Longrightarrow> keeps (lower_expression e')) \<Longrightarrow> keeps (lower_node e)"
    using keeps_assignment by simp
next
  case (HCall callee args t l)
  then show "(\<And>e'. size e' < size e \<Longrightarrow> keeps (lower_expression e')) \<Longrightarrow> keeps (lower_node e)"
    using keeps_call by simp
next
  case (HObjectLiteral entries t l)
  then show "(\<And>e'. size e' < size e \<Longrightarrow> keeps (lower_expression e')) \<Longrightarrow> keeps (lower_node e)"
    by (auto simp: size_entry_expr intro!: keeps_lower_object keeps_each keeps_bind keeps_emit_plain)
next
  case (HPostfixUpdate target op t l)
  then show "(\<And>e'. size e' < size e \<Longrightarrow> keeps (lower_expression e')) \<Longrightarrow> keeps (lower_node e)"
    by (cases target) (simp_all add: keeps_simps)
next
  case (HArrayLiteral elems sized t l)
  moreover from this have "x \<in> set elems \<Longrightarrow> size x < size e" for x using size_argument [of x elems] by simp
  ultimately show "(\<And>e'. size e' < size e \<Longrightarrow> keeps (lower_expression e')) \<Longrightarrow> keeps (lower_node e)"
    by (cases sized) (auto intro!: keeps_lower_array keeps_each keeps_bind keeps_store_element keeps_ret)
next
  case (HNew n args t l)
  moreover from this have "x \<in> set args \<Longrightarrow> size x < size e" for x using size_argument [of x args] by simp
  ultimately show "(\<And>e'. size e' < size e \<Longrightarrow> keeps (lower_expression e')) \<Longrightarrow> keeps (lower_node e)"
    by (auto intro!: keeps_lower_new keeps_lower_promise keeps_each keeps_bind keeps_constructor_arg keeps_ret
        split: list.split simp del: each.simps)
next
  case (HIndirectCall f args t l)
  moreover from this have "x \<in> set args \<Longrightarrow> size x < size e" for x using size_argument [of x args] by simp
  ultimately show "(\<And>e'. size e' < size e \<Longrightarrow> keeps (lower_expression e')) \<Longrightarrow> keeps (lower_node e)"
    by (auto intro!: keeps_each keeps_bind keeps_emit_plain keeps_new_temp keeps_ret)
next
  case (HSequence es t l)
  then show "(\<And>e'. size e' < size e \<Longrightarrow> keeps (lower_expression e')) \<Longrightarrow> keeps (lower_node e)"
    using size_argument [of _ es] by (auto simp: keeps_simps)
qed (simp_all add: keeps_simps)

lemma neutral_line: "neutral (\<lambda>s. s\<lparr>lo_line := l\<rparr>)"
  by (simp add: neutral_def lo_blocks_def)

lemma keeps_expression: "keeps (lower_expression e)"
proof (induction e rule: measure_induct_rule [where f = size])
  case (less e)
  then have "keeps (lower_node e)" by (rule keeps_node)
  then show ?case by (simp add: lower_expression.simps keeps_bind keeps_modify neutral_line)
qed

lemmas wp_expression [wp_lower] = wp_keeps [OF keeps_expression]

section \<open>Statements without statements in them\<close>

lemma keeps_emit_return: "keeps (emit_return_statement v)"
  unfolding emit_return_statement_def
  by (rule keepsI) (assumption | rule wp_lower | erule at_final | simp; fail)+

lemma keeps_pop_handler: "keeps pop_handler_if_any"
  unfolding pop_handler_if_any_def by (rule keepsI) (assumption | rule wp_lower | simp; fail)+

lemmas wp_pop_handler [wp_lower] = wp_keeps [OF keeps_pop_handler]

lemma wp_emit_transfer:
  assumes "at c P K F s" "\<And>b. t = TransferJump b \<Longrightarrow> b \<in> K \<union> frame_targets F" "\<And>s'. at False P K F s' \<Longrightarrow> Q () s'"
  shows "wp (emit_transfer t) Q s"
proof (cases t)
  case (TransferReturn v)
  with wp_keeps [OF keeps_emit_return assms(1)] assms(3) show ?thesis by (simp add: emit_transfer_def)
next
  case (TransferJump b)
  with assms show ?thesis
    using wp_jump [OF assms(1), of b Q 0] by (auto simp: emit_transfer_def intro: at_weaken)
qed

lemma keeps_declare: "keeps (declare_variable n)"
  unfolding declare_variable_def
  by (auto intro!: keeps_bind keeps_modify keeps_ret keeps_gets keeps_skip neutral_bind_name
      simp: neutral_def lo_blocks_def)

lemma keeps_var_decl: "keeps (lower_var_decl n init t)"
  unfolding lower_var_decl_def
  by (intro keeps_bind keeps_declare keeps_modify neutral_put_variable keeps_option keeps_skip keeps_expression
      keeps_auto_box keeps_emit_plain plain_insts) (simp_all add: neutral_def lo_blocks_def)

lemma subseq_set: "subseq xs ys \<Longrightarrow> set xs \<subseteq> set ys"
  by (induction rule: list_emb.induct) auto

lemma subseq_rest: "subseq (x # xs) ys \<Longrightarrow> subseq xs ys"
  by (rule subseq_Cons')

lemma throw_target: "at c P K F s \<Longrightarrow> lo_throw_finally s = x # xs \<Longrightarrow> finally_body_idx x \<in> frame_targets F"
  using subseq_set [of "x # xs" "fr_throw F"] by (auto simp: at_def frame_targets_def)

lemma keeps_throw: "keeps (lower_throw e)"
  unfolding lower_throw_def
  by (rule keepsI) (assumption | rule wp_lower | erule at_final | (rule UnI2, erule (1) throw_target) | simp; fail)+

lemma keeps_bind_exception: "keeps (bind_exception v)" "keeps (move_exception n)"
  by (simp_all add: bind_exception_def move_exception_def keeps_simps keeps_option)

lemmas wp_bind_exception [wp_lower] = keeps_bind_exception [THEN wp_keeps]

section \<open>Statements\<close>

definition finally_fuel :: "ControlFinallyContext list \<Rightarrow> nat" where
  "finally_fuel C = sum_list (map (\<lambda>c. Suc (stmt_fuel (finally_stmt c))) C)"

lemma finally_fuel_subseq: "subseq C D \<Longrightarrow> finally_fuel C \<le> finally_fuel D"
  by (induction rule: list_emb.induct) (auto simp: finally_fuel_def)

text \<open>The contract where the statements on the stack of finally blocks need at most the fuel \<open>m\<close>.\<close>

definition keeps_upto :: "nat \<Rightarrow> 'a lower \<Rightarrow> bool" where
  "keeps_upto m p \<longleftrightarrow>
     (\<forall>P K F s. at False P K F s \<longrightarrow> finally_fuel (fr_control F) \<le> m \<longrightarrow> wp p (\<lambda>_. at False P K F) s)"

lemma keeps_uptoI:
  "(\<And>P K F s. at False P K F s \<Longrightarrow> finally_fuel (fr_control F) \<le> m \<Longrightarrow> wp p (\<lambda>_. at False P K F) s) \<Longrightarrow> keeps_upto m p"
  unfolding keeps_upto_def by blast

lemma wp_upto:
  assumes "keeps_upto m p" "at c P K F s" "finally_fuel (fr_control F) \<le> m" "\<And>a s'. at False P K F s' \<Longrightarrow> Q a s'"
  shows "wp p Q s"
proof -
  have "at False P K F s" using at_weaken [OF assms(2)] by simp
  with assms(1,3) have "wp p (\<lambda>_. at False P K F) s" unfolding keeps_upto_def by blast
  then show ?thesis by (rule lw_mono) (rule assms(4))
qed

lemma keeps_keeps_upto: "keeps p \<Longrightarrow> keeps_upto m p"
  by (simp add: keeps_def keeps_upto_def)

lemma upto_bind: "keeps_upto m p \<Longrightarrow> (\<And>a. keeps_upto m (f a)) \<Longrightarrow> keeps_upto m (pbind p f)"
  by (rule keeps_uptoI, rule lw_bind, rule wp_upto, assumption, assumption, assumption, rule wp_upto) auto

lemma upto_each: "(\<And>i x. x \<in> set xs \<Longrightarrow> keeps_upto m (f i x)) \<Longrightarrow> keeps_upto m (each f n xs)"
proof (induction xs arbitrary: n)
  case (Cons x xs)
  then show ?case by (auto intro!: upto_bind keeps_keeps_upto [OF keeps_ret])
qed (simp add: keeps_keeps_upto keeps_ret)

text \<open>
  The rules in the order they are tried: the operations without a condition on the state, the
  jumps, and the others, which consume the fact on the state.
\<close>

lemmas wp_struct = lw_bind lw_ret wp_skip wp_gets lw_if lw_option wp_list lw_pmap wp_resolve_variable
lemmas wp_control = wp_jump wp_branch wp_return wp_throw wp_jump_unless_terminated

lemma frame_same [simp]:
  "F\<lparr>fr_loops := fr_loops F\<rparr> = F" "F\<lparr>fr_handlers := fr_handlers F\<rparr> = F" "F\<lparr>fr_control := fr_control F\<rparr> = F"
  "F\<lparr>fr_throw := fr_throw F\<rparr> = F" "F\<lparr>fr_scopes := fr_scopes F\<rparr> = F"
  by simp_all

text \<open>The stacks.\<close>

lemma loops_target:
  assumes "at c P K F s" "lo_loops s = l # ls"
  shows "break_target l \<in> frame_targets F" "continue_target l \<in> frame_targets F"
proof -
  have "l \<in> set (fr_loops F)" using assms by (metis at_def list.set_intros(1))
  then show "break_target l \<in> frame_targets F" "continue_target l \<in> frame_targets F"
    by (auto simp: frame_targets_def)
qed

text \<open>A change of the frame that adds the targets \<open>t\<close>, and of the state that follows it.\<close>

lemma at_reframe:
  assumes "at c P K F s" "lo_block s' = lo_block s" "lo_blocks s' = lo_blocks s"
    and "frame_targets F' \<subseteq> K \<union> frame_targets F" "lo_loops s' = fr_loops F'" "lo_handlers s' = fr_handlers F'"
    and "length (lo_scopes s') = fr_scopes F'" "subseq (lo_control_finally s') (fr_control F')"
    and "subseq (lo_throw_finally s') (fr_throw F')" "mf_entry_block (lo_function s') = fr_entry F'"
  shows "at c P K F' s'"
  using assms by (auto simp: at_def)

lemma set_tl: "set (tl xs) \<subseteq> set xs"
  by (cases xs) auto

lemma frame_sel:
  "at c P K F s \<Longrightarrow> lo_loops s = fr_loops F" "at c P K F s \<Longrightarrow> lo_handlers s = fr_handlers F"
  "at c P K F s \<Longrightarrow> length (lo_scopes s) = fr_scopes F"
  "at c P K F s \<Longrightarrow> subseq (lo_control_finally s) (fr_control F)"
  "at c P K F s \<Longrightarrow> subseq (lo_throw_finally s) (fr_throw F)"
  "at c P K F s \<Longrightarrow> mf_entry_block (lo_function s) = fr_entry F"
  by (simp_all add: at_def)

lemma wp_push_loop [wp_lower]:
  assumes "at c P K F s" "t \<in> K \<union> frame_targets F" "e \<in> K"
    and "\<And>s'. at c P K (F\<lparr>fr_loops := \<lparr>continue_target = t, break_target = e\<rparr> # fr_loops F\<rparr>) s' \<Longrightarrow> Q () s'"
  shows "wp (modify (push_loop t e)) Q s"
  by (intro wp_modify assms(4) at_reframe [OF assms(1)])
    (use assms(2,3) in \<open>auto simp: frame_sel [OF assms(1)] push_loop_def frame_targets_def lo_blocks_def\<close>)

lemma wp_pop_loop [wp_lower]:
  assumes "at c P K F s" "\<And>s'. at c P K (F\<lparr>fr_loops := tl (fr_loops F)\<rparr>) s' \<Longrightarrow> Q () s'"
  shows "wp (modify pop_loop) Q s"
  by (intro wp_modify assms(2) at_reframe [OF assms(1)])
    (use set_tl [of "fr_loops F"] in \<open>auto simp: frame_sel [OF assms(1)] pop_loop_def frame_targets_def lo_blocks_def\<close>)

lemma wp_push_handler [wp_lower]:
  assumes "at c P K F s" "h \<in> K" "\<And>s'. at c P K (F\<lparr>fr_handlers := h # fr_handlers F\<rparr>) s' \<Longrightarrow> Q () s'"
  shows "wp (modify (push_exception_handler h)) Q s"
  by (intro wp_modify assms(3) at_reframe [OF assms(1)])
    (use assms(2) in \<open>auto simp: frame_sel [OF assms(1)] push_exception_handler_def frame_targets_def lo_blocks_def\<close>)

lemma wp_pop_exception_handler [wp_lower]:
  assumes "at c P K F s" "\<And>s'. at c P K (F\<lparr>fr_handlers := tl (fr_handlers F)\<rparr>) s' \<Longrightarrow> Q () s'"
  shows "wp (modify pop_exception_handler) Q s"
  by (intro wp_modify assms(2) at_reframe [OF assms(1)])
    (use set_tl [of "fr_handlers F"] in
      \<open>auto simp: frame_sel [OF assms(1)] pop_exception_handler_def frame_targets_def lo_blocks_def\<close>)

lemma wp_new_scope [wp_lower]:
  assumes "at c P K F s" "\<And>s'. at c P K (F\<lparr>fr_scopes := Suc (fr_scopes F)\<rparr>) s' \<Longrightarrow> Q () s'"
  shows "wp new_scope Q s"
  unfolding new_scope_def
  by (intro wp_modify assms(2) at_reframe [OF assms(1)])
    (auto simp: frame_sel [OF assms(1)] frame_targets_def lo_blocks_def)

lemma wp_pop_scope [wp_lower]:
  assumes "at c P K F s" "0 < fr_scopes F" "\<And>a s'. at c P K (F\<lparr>fr_scopes := fr_scopes F - 1\<rparr>) s' \<Longrightarrow> Q a s'"
  shows "wp pop_scope Q s"
proof (cases "lo_scopes s")
  case (Cons sc scs)
  have "at c P K (F\<lparr>fr_scopes := fr_scopes F - 1\<rparr>) (s\<lparr>lo_scopes := scs\<rparr>)"
    using frame_sel(3) [OF assms(1)] Cons
    by (intro at_reframe [OF assms(1)]) (auto simp: frame_sel [OF assms(1)] frame_targets_def lo_blocks_def)
  with assms(3) Cons show ?thesis by (simp add: wp_def pop_scope_def)
qed (use assms in \<open>auto simp: at_def\<close>)

lemma wp_push_control [wp_lower]:
  assumes "at c P K F s"
    and "\<And>s'. at c P K (F\<lparr>fr_control := \<lparr>cf_id = i, finally_stmt = f\<rparr> # fr_control F\<rparr>) s' \<Longrightarrow> Q () s'"
  shows "wp (modify (push_control_finally i f)) Q s"
  by (intro wp_modify assms(2) at_reframe [OF assms(1)])
    (auto simp: frame_sel [OF assms(1)] push_control_finally_def frame_targets_def lo_blocks_def)

lemma wp_pop_control [wp_lower]:
  assumes "at c P K F s" "fr_control F \<noteq> []" "cf_id (hd (fr_control F)) = i"
    and "\<And>s'. at c P K (F\<lparr>fr_control := tl (fr_control F)\<rparr>) s' \<Longrightarrow> Q () s'"
  shows "wp (modify (pop_control_finally_if i)) Q s"
proof -
  obtain x C where F: "fr_control F = x # C" using assms(2) by (cases "fr_control F") auto
  have "subseq (lo_control_finally s) (x # C)" using frame_sel(4) [OF assms(1)] F by simp
  then have c: "subseq (lo_control_finally (pop_control_finally_if i s)) C"
    using assms(3) F
    by (cases "lo_control_finally s") (auto simp: pop_control_finally_if_def dest: subseq_rest split: if_splits)
  show ?thesis
    by (intro wp_modify assms(4) at_reframe [OF assms(1)])
      (use c F in \<open>auto simp: frame_sel [OF assms(1)] pop_control_finally_if_def frame_targets_def lo_blocks_def
        split: list.splits\<close>)
qed

lemma wp_push_throw [wp_lower]:
  assumes "at c P K F s" "b \<in> K"
    and "\<And>s'. at c P K (F\<lparr>fr_throw := \<lparr>tf_id = i, is_unwinding_var = u, saved_ex_var = e, finally_body_idx = b\<rparr> # fr_throw F\<rparr>) s'
          \<Longrightarrow> Q () s'"
  shows "wp (modify (push_throw_finally i u e b)) Q s"
  by (intro wp_modify assms(3) at_reframe [OF assms(1)])
    (use assms(2) in \<open>auto simp: frame_sel [OF assms(1)] push_throw_finally_def frame_targets_def lo_blocks_def\<close>)

lemma wp_pop_throw [wp_lower]:
  assumes "at c P K F s" "fr_throw F \<noteq> []" "tf_id (hd (fr_throw F)) = i"
    and "\<And>s'. at c P K (F\<lparr>fr_throw := tl (fr_throw F)\<rparr>) s' \<Longrightarrow> Q () s'"
  shows "wp (modify (pop_throw_finally_if i)) Q s"
proof -
  obtain x T where F: "fr_throw F = x # T" using assms(2) by (cases "fr_throw F") auto
  have "subseq (lo_throw_finally s) (x # T)" using frame_sel(5) [OF assms(1)] F by simp
  then have c: "subseq (lo_throw_finally (pop_throw_finally_if i s)) T"
    using assms(3) F
    by (cases "lo_throw_finally s") (auto simp: pop_throw_finally_if_def dest: subseq_rest split: if_splits)
  show ?thesis
    by (intro wp_modify assms(4) at_reframe [OF assms(1)])
      (use c F in \<open>auto simp: frame_sel [OF assms(1)] pop_throw_finally_if_def frame_targets_def lo_blocks_def
        split: list.splits\<close>)
qed

lemma at_pop_throw:
  assumes "at c P K F s"
  shows "at c P K F (pop_throw_finally_if i s)"
proof -
  have "subseq (lo_throw_finally (pop_throw_finally_if i s)) (fr_throw F)"
    using frame_sel(5) [OF assms]
    by (cases "lo_throw_finally s") (auto simp: pop_throw_finally_if_def dest: subseq_rest)
  then show ?thesis
    by (intro at_reframe [OF assms])
      (auto simp: frame_sel [OF assms] pop_throw_finally_if_def lo_blocks_def split: list.splits)
qed

end
