(* ===== verification/MirLowerTotal.thy ===== *)
theory MirLowerTotal
  imports MirLowerFacts
begin

text \<open>
  The lowering of statements and functions: with the fuel of the statement and of the \<open>finally\<close>
  blocks around it, it returns, and the function it makes is well formed.
\<close>

section \<open>Statements with statements in them\<close>

lemma at_done:
  assumes "at c P' K' F' s" "P' = P" "K \<subseteq> K'" "F' = F"
  shows "at False P K F s"
  using assms by (rule at_final)

lemma upto_lower_loop:
  assumes "keeps c" "keeps_upto m body" "\<forall>p \<in> set_option inc. keeps_upto m p"
  shows "keeps_upto m (lower_loop c body inc)"
proof (cases inc)
  case None
  show ?thesis
    unfolding lower_loop_def None option.case
    by (intro keeps_uptoI)
      (rule wp_struct | erule wp_control | erule wp_lower wp_upto [OF assms(2)] wp_keeps [OF assms(1)] | simp; fail
        | erule at_done; auto simp: insert_Diff_if; fail)+
next
  case (Some p)
  with assms(3) have p: "keeps_upto m p" by simp
  show ?thesis
    unfolding lower_loop_def Some option.case
    by (intro keeps_uptoI)
      (rule wp_struct | erule wp_control | erule wp_lower assms(2) [THEN wp_upto] p [THEN wp_upto] wp_keeps [OF assms(1)]
        | simp; fail | erule at_done; auto simp: insert_Diff_if; fail)+
qed

lemma upto_lower_if:
  assumes "keeps c" "keeps_upto m yes" "keeps_upto m no"
  shows "keeps_upto m (lower_if c yes no)"
  unfolding lower_if_def
  by (intro keeps_uptoI)
    (rule wp_struct | erule wp_control | erule wp_lower assms(2,3) [THEN wp_upto] wp_keeps [OF assms(1)] | simp; fail
      | erule at_done; auto simp: insert_Diff_if; fail)+

text \<open>The end of a protected block, where \<open>b\<close> is the body of the finally or the exit.\<close>

lemma wp_leave [wp_lower]:
  assumes "at c P K F s" "(case b of None \<Rightarrow> e | Some x \<Rightarrow> x) \<in> K" "\<And>s'. at True P K F s' \<Longrightarrow> Q () s'"
  shows "wp (leave_protected pop u b e) Q s"
  unfolding leave_protected_def
  using assms(1,2)
  by - (rule wp_struct | erule wp_control | erule wp_lower | simp; fail | rule assms(3); simp; fail)+

lemma upto_lower_try_catch:
  assumes "keeps_upto m try_part" "keeps_upto m catch_part"
  shows "keeps_upto m (lower_try_catch try_part var catch_part)"
  unfolding lower_try_catch_def
  by (intro keeps_uptoI)
    (rule wp_struct | erule wp_control | erule wp_enter_try | erule wp_lower assms [THEN wp_upto] | simp; fail
      | erule at_done; auto simp: insert_Diff_if; fail)+

text \<open>The checks of a switch: the block for the next one is reserved.\<close>

definition one_case :: "nat \<Rightarrow> nat \<Rightarrow> (nat \<Rightarrow> nat lower) \<Rightarrow> bool" where
  "one_case m e p \<longleftrightarrow>
     (\<forall>P K F s n. at True P K F s \<longrightarrow> n \<in> P \<longrightarrow> e \<in> K \<longrightarrow> finally_fuel (fr_control F) \<le> m \<longrightarrow>
        wp (p n) (\<lambda>b s'. b \<notin> P - {n} \<and> at True (insert b (P - {n})) K F s') s)"

lemma one_caseI:
  "(\<And>P K F s n. at True P K F s \<Longrightarrow> n \<in> P \<Longrightarrow> e \<in> K \<Longrightarrow> finally_fuel (fr_control F) \<le> m \<Longrightarrow>
      wp (p n) (\<lambda>b s'. b \<notin> P - {n} \<and> at True (insert b (P - {n})) K F s') s) \<Longrightarrow> one_case m e p"
  unfolding one_case_def by blast

lemma at_case:
  assumes "at True P' K' F' s" "b \<notin> P" "P' = insert b P" "K \<subseteq> K'" "F' = F"
  shows "b \<notin> P \<and> at True (insert b P) K F s"
  using assms by (auto intro: at_sub)

lemma one_lower_case:
  assumes "keeps_upto m body"
  shows "one_case m e (lower_case v e test body)"
  unfolding lower_case_def
  by (intro one_caseI)
    (rule wp_struct | erule wp_control | erule wp_lower assms [THEN wp_upto] | simp; fail
      | erule at_case; auto simp: insert_Diff_if; fail)+

lemma one_lower_cases:
  assumes "\<And>c. c \<in> set cs \<Longrightarrow> one_case m e (\<lambda>b. f b c)"
  shows "one_case m e (\<lambda>b. lower_cases f b cs)"
  using assms
proof (induction cs)
  case Nil
  show ?case by (intro one_caseI) (auto intro!: lw_ret simp: insert_absorb)
next
  case (Cons c cs)
  show ?case
  proof (rule one_caseI)
    fix P K F s n
    assume a: "at True P K F s" "n \<in> P" "e \<in> K" "finally_fuel (fr_control F) \<le> m"
    have "wp (f n c) (\<lambda>b s'. b \<notin> P - {n} \<and> at True (insert b (P - {n})) K F s') s"
      using Cons.prems a unfolding one_case_def by (meson list.set_intros(1))
    moreover have "wp (lower_cases f b cs) (\<lambda>b s'. b \<notin> P - {n} \<and> at True (insert b (P - {n})) K F s') s'"
      if b: "b \<notin> P - {n} \<and> at True (insert b (P - {n})) K F s'" for b s'
    proof -
      have "one_case m e (\<lambda>b. lower_cases f b cs)" using Cons by simp
      then have "wp (lower_cases f b cs)
          (\<lambda>b' s'. b' \<notin> insert b (P - {n}) - {b} \<and> at True (insert b' (insert b (P - {n}) - {b})) K F s') s'"
        using b a unfolding one_case_def by blast
      moreover have "insert b (P - {n}) - {b} = P - {n}" using b by blast
      ultimately show ?thesis by simp
    qed
    ultimately show "wp (lower_cases f n (c # cs)) (\<lambda>b s'. b \<notin> P - {n} \<and> at True (insert b (P - {n})) K F s') s"
      unfolding lower_cases.simps by (intro lw_bind) (erule lw_mono)
  qed
qed

lemma wp_one_case:
  assumes "at True P K F s" "one_case m e p" "n \<in> P" "e \<in> K" "finally_fuel (fr_control F) \<le> m"
    "\<And>b s'. b \<notin> P - {n} \<Longrightarrow> at True (insert b (P - {n})) K F s' \<Longrightarrow> Q b s'"
  shows "wp (p n) Q s"
proof -
  have "wp (p n) (\<lambda>b s'. b \<notin> P - {n} \<and> at True (insert b (P - {n})) K F s') s"
    using assms(1-5) unfolding one_case_def by blast
  then show ?thesis by (rule lw_mono) (use assms(6) in blast)
qed

lemma enclosing_continue:
  "at c P K F s \<Longrightarrow> e \<in> K \<Longrightarrow> (case lo_loops s of [] \<Rightarrow> e | l # _ \<Rightarrow> continue_target l) \<in> K \<union> frame_targets F"
  by (cases "lo_loops s") (auto dest: loops_target)

lemma upto_lower_switch:
  assumes "\<And>v e c. c \<in> set cs \<Longrightarrow> one_case m e (\<lambda>b. f v e b c)"
  shows "keeps_upto m (lower_switch x f cs)"
proof (rule keeps_uptoI)
  have cases: "one_case m e (\<lambda>b. lower_cases (f v e) b cs)" for v e using assms by (rule one_lower_cases)
  fix P K F s assume a: "at False P K F s" "finally_fuel (fr_control F) \<le> m"
  show "wp (lower_switch x f cs) (\<lambda>_. at False P K F) s"
    unfolding lower_switch_def
    apply (rule lw_bind, rule wp_expression [OF a(1)], rule lw_bind, erule wp_new_block, rule lw_bind, rule wp_gets)
    apply (rule lw_bind, rule wp_push_loop, assumption, rule enclosing_continue, assumption, simp, simp)
    apply (rule lw_bind, erule wp_new_block, rule lw_bind, erule wp_jump, simp)
    apply (rule lw_bind, erule wp_one_case [OF _ cases], simp, simp, simp add: a(2))
    by (rule wp_struct | erule wp_control | erule wp_lower | simp; fail
      | erule at_done; auto simp: insert_Diff_if; fail)+
qed

lemma wp_finally_id [wp_lower]:
  "at c P K F s \<Longrightarrow> (\<And>i s'. at c P K F s' \<Longrightarrow> Q i s') \<Longrightarrow> wp new_finally_id Q s"
  by (auto simp: wp_def new_finally_id_def at_def lo_blocks_def)

lemma at_true: "at c P K F s \<Longrightarrow> c \<Longrightarrow> at True P K F s"
  by simp

lemma wp_finish_finally [wp_lower]:
  assumes "at c P K F s" "e \<in> K" "\<And>s'. at True P K F s' \<Longrightarrow> Q () s'"
  shows "wp (finish_finally u x e) Q s"
  unfolding finish_finally_def
  using assms(1,2)
  by - (rule wp_struct | erule wp_control | erule wp_lower | simp; fail
    | rule assms(3), rule at_true, erule at_sub; auto simp: insert_Diff_if; fail)+

lemma upto_lower_try_finally:
  assumes "keeps_upto (m + Suc (stmt_fuel f)) try_part" "keeps_upto (m + Suc (stmt_fuel f)) catch_part"
    "keeps_upto m finally_part"
  shows "keeps_upto m (lower_try_finally try_part var catch_part f finally_part)"
  unfolding lower_try_finally_def
  by (intro keeps_uptoI)
    (rule wp_struct | erule wp_control | erule wp_enter_try | erule wp_lower assms [THEN wp_upto]
      | simp add: finally_fuel_def; fail | blast
      | erule at_done; auto simp: insert_Diff_if; fail)+

section \<open>The induction\<close>

lemma at_subframe:
  "at c P K (F\<lparr>fr_control := C\<rparr>) s \<Longrightarrow> subseq C (fr_control F) \<Longrightarrow> at c P K F s"
  by (auto simp: at_def frame_targets_def intro: subseq_order.order_trans)

lemma at_actual: "at c P K F s \<Longrightarrow> at c P K (F\<lparr>fr_control := lo_control_finally s\<rparr>) s"
  by (simp add: at_def frame_targets_def)

text \<open>A transfer of control, in terms of the lowering of the \<open>finally\<close> blocks it leaves.\<close>

lemma wp_control_transfer:
  assumes "\<And>k m st. k < n \<Longrightarrow> stmt_fuel st + m \<le> k \<Longrightarrow> keeps_upto m (lower_statement k st)"
    and "at c P K F s" "finally_fuel (fr_control F) < n" "\<And>b. t = TransferJump b \<Longrightarrow> b \<in> K \<union> frame_targets F"
  shows "wp (emit_control_transfer n t) (\<lambda>_. at False P K F) s"
  using assms
proof (induction n arbitrary: c F s)
  case (Suc n)
  show ?case
  proof (cases "lo_control_finally s")
    case Nil
    show ?thesis
      using Nil Suc.prems by (auto intro!: lw_bind wp_gets wp_emit_transfer [OF Suc.prems(2)])
  next
    case (Cons x C)
    let ?F = "F\<lparr>fr_control := C\<rparr>"
    have fuel: "stmt_fuel (finally_stmt x) + finally_fuel C \<le> n" "finally_fuel C < n"
      and sub: "subseq C (fr_control F)"
      using finally_fuel_subseq [OF frame_sel(4) [OF Suc.prems(2)]] Suc.prems(3) frame_sel(4) [OF Suc.prems(2)] Cons
      by (auto simp: finally_fuel_def dest: subseq_rest)
    have "at c P K ?F (s\<lparr>lo_control_finally := C\<rparr>)"
      using Suc.prems(2) by (auto simp: at_def frame_targets_def lo_blocks_def)
    then have a: "at c P K ?F (pop_throw_finally_if (cf_id x) (s\<lparr>lo_control_finally := C\<rparr>))"
      by (rule at_pop_throw)
    have st: "keeps_upto (finally_fuel C) (lower_statement n (finally_stmt x))"
      using Suc.prems(1) fuel(1) by simp
    have targets: "t = TransferJump b \<Longrightarrow> b \<in> K \<union> frame_targets ?F" for b
      using Suc.prems(4) by (simp add: frame_targets_def)
    have go: "wp (emit_control_transfer n t) (\<lambda>_. at False P K F) s'" if "at c P K ?F s'" for c s'
      using Suc.IH [OF _ that _ targets] Suc.prems(1) fuel(2) sub
      by (auto elim!: lw_mono intro: at_subframe)
    show ?thesis
      unfolding emit_control_transfer.simps
      apply (intro lw_bind wp_gets)
      apply (simp add: Cons)
      apply (intro lw_bind wp_modify)
      apply (rule wp_pop_handler [OF a], rule lw_bind, erule wp_upto [OF st], simp, rule lw_bind, erule wp_terminated)
      by (auto intro!: lw_if wp_skip go dest: at_weaken at_subframe [OF _ sub])
  qed
qed simp

lemma upto_lower_statement:
  "stmt_fuel st + m \<le> n \<Longrightarrow> keeps_upto m (lower_statement n st)"
proof (induction n arbitrary: st m rule: less_induct)
  case (less n)
  then obtain k where n: "n = Suc k" by (cases n) (cases st; simp)+
  have IH: "stmt_fuel st + m \<le> k \<Longrightarrow> keeps_upto m (lower_statement k st)" for st m
    using less.IH n by simp
  have room: "m < k" if "2 + m \<le> n" using that n by simp
  have jump: "wp (emit_control_transfer k t) (\<lambda>_. at False P K F) s"
    if "at c P K F s" "finally_fuel (fr_control F) \<le> m" "2 + m \<le> n" "\<And>b. t = TransferJump b \<Longrightarrow> b \<in> K \<union> frame_targets F"
    for c P K F s t
    using that room n by (intro wp_control_transfer [of k]) (auto intro: less.IH)
  have leave: "keeps_upto m (pbind (gets lo_loops) (\<lambda>ls. case ls of [] \<Rightarrow> skip
      | l # _ \<Rightarrow> emit_control_transfer k (TransferJump (target l))))"
    if "2 + m \<le> n" "target = break_target \<or> target = continue_target" for target
  proof (rule keeps_uptoI)
    fix P K F s assume a: "at False P K F s" "finally_fuel (fr_control F) \<le> m"
    show "wp (pbind (gets lo_loops) (\<lambda>ls. case ls of [] \<Rightarrow> skip
      | l # _ \<Rightarrow> emit_control_transfer k (TransferJump (target l)))) (\<lambda>_. at False P K F) s"
      by (intro lw_bind wp_gets wp_list wp_skip a(1) jump [OF a(1,2) that(1)])
        (use that(2) loops_target [OF a(1)] in auto)
  qed
  have return: "keeps_upto m (emit_control_transfer k (TransferReturn w))" if "2 + m \<le> n" for w
    using that by (intro keeps_uptoI jump) auto
  have "keeps_upto m (lower_kind k st)"
  proof (cases st)
    case (HBlock ss l)
    then have "keeps_upto m (each (\<lambda>_ st. lower_statement k st) 0 ss)"
      using less.prems n member_le_sum_list [of _ "map stmt_fuel ss"] by (intro upto_each IH) fastforce
    then show ?thesis
      using HBlock
      by (auto intro!: keeps_uptoI)
        (rule wp_struct | erule wp_lower wp_upto | simp; fail | erule at_done; auto; fail)+
  next
    case (HSequenceStmt ss l)
    then show ?thesis
      using less.prems n member_le_sum_list [of _ "map stmt_fuel ss"]
      by (auto intro!: upto_bind upto_each IH keeps_keeps_upto [OF keeps_skip]) fastforce
  next
    case (HVarDecl x init t b l)
    then show ?thesis by (simp add: keeps_keeps_upto keeps_var_decl)
  next
    case (HLoop c body inc b l)
    then show ?thesis
      using less.prems n by (auto intro!: upto_lower_loop keeps_expression IH)
  next
    case (HBreak l)
    then show ?thesis using less.prems leave [of break_target] by simp
  next
    case (HContinue l)
    then show ?thesis using less.prems leave [of continue_target] by simp
  next
    case (HIfStmt c yes no l)
    then show ?thesis
      using less.prems n
      by (auto intro!: upto_lower_if keeps_expression IH keeps_keeps_upto [OF keeps_skip] split: option.split)
  next
    case (HReturn v l)
    then show ?thesis
      using less.prems
      by (auto intro!: upto_bind [OF keeps_keeps_upto] return keeps_ret keeps_bind keeps_expression
          simp: pmap_def split: option.split)
  next
    case (HExprStmt e l)
    then show ?thesis by (simp add: keeps_keeps_upto keeps_bind keeps_expression keeps_skip)
  next
    case (HFunction f ps t body b l)
    then show ?thesis using less.prems n by (simp add: IH)
  next
    case (HSwitch e cs l)
    then show ?thesis
      using less.prems n member_le_sum_list [of _ "map (\<lambda>c. stmt_fuel (case_body c)) cs"]
      by (auto intro!: upto_lower_switch one_lower_case IH) fastforce
  next
    case (HTry t var c f l)
    then show ?thesis
      using less.prems n
      by (auto intro!: upto_lower_try_catch upto_lower_try_finally IH split: option.split)
  next
    case (HThrow e l)
    then show ?thesis by (simp add: keeps_keeps_upto keeps_throw)
  qed
  then show ?case
    unfolding n lower_statement.simps by (intro upto_bind keeps_keeps_upto [OF keeps_modify] neutral_line)
qed

section \<open>Functions\<close>

text \<open>The entry block is current when the body is lowered, and there are no other blocks.\<close>

definition function_start :: "string \<Rightarrow> (string \<times> TejxType) list \<Rightarrow> TejxType \<Rightarrow> HIRStatement \<Rightarrow> bool \<Rightarrow> lowering \<Rightarrow> lowering" where
  "function_start n params t body ext s =
     set_entry 0 (set_blocks [block_new ''entry_0''] (pre_collect_variables body (begin_function n params t ext s)))
       \<lparr>lo_block := 0, lo_block_counter := 1\<rparr>"

lemma neutral_id: "neutral (\<lambda>s. s)" "neutral id"
  by (simp_all add: neutral_def)

lemma neutral_comp: "neutral f \<Longrightarrow> neutral g \<Longrightarrow> neutral (f \<circ> g)"
  by (simp add: neutral_def)

lemma neutral_fold: "(\<And>x. x \<in> set xs \<Longrightarrow> neutral (f x)) \<Longrightarrow> neutral (fold f xs)"
  by (induction xs) (simp_all add: neutral_id neutral_comp)

lemma neutral_pre_collect: "neutral (pre_collect_variables st)"
proof (induction st)
  case (HTry t v c f l)
  then show ?case
    unfolding pre_collect_variables.simps
    by (intro neutral_comp) (auto split: option.split simp: neutral_id neutral_put_variable)
next
  case (HIfStmt e yes no l)
  then show ?case
    unfolding pre_collect_variables.simps by (intro neutral_comp) (auto split: option.split simp: neutral_id)
qed (auto intro!: neutral_fold neutral_put_variable simp: neutral_id)

text \<open>A function is lowered from its entry block, the only one.\<close>

lemma begin_function_sel:
  "lo_blocks (begin_function n ps t ext s) = []" "lo_loops (begin_function n ps t ext s) = []"
  "lo_handlers (begin_function n ps t ext s) = []"
  "lo_control_finally (begin_function n ps t ext s) = lo_control_finally s"
  "lo_throw_finally (begin_function n ps t ext s) = lo_throw_finally s"
  "length (lo_scopes (begin_function n ps t ext s)) = 1"
proof -
  define f where "f = (\<lambda>(x, ty) s. put_variable x ty (bind_name x x s))"
  have "neutral (fold f ps)"
    using neutral_put_variable neutral_bind_name
    by (intro neutral_fold) (auto simp: f_def split_beta neutral_def)
  then show
    "lo_blocks (begin_function n ps t ext s) = []" "lo_loops (begin_function n ps t ext s) = []"
    "lo_handlers (begin_function n ps t ext s) = []"
    "lo_control_finally (begin_function n ps t ext s) = lo_control_finally s"
    "lo_throw_finally (begin_function n ps t ext s) = lo_throw_finally s"
    "length (lo_scopes (begin_function n ps t ext s)) = 1"
    by (simp_all add: begin_function_def f_def [symmetric] neutral_def)
       (simp_all add: lo_blocks_def function_new_def)
qed

definition base_frame :: "nat \<Rightarrow> frame" where
  "base_frame n = \<lparr>fr_loops = [], fr_handlers = [], fr_control = [], fr_throw = [], fr_scopes = n, fr_entry = 0\<rparr>"

lemma wp_start:
  assumes "lo_blocks s = []" "lo_loops s = []" "lo_handlers s = []" "lo_control_finally s = []" "lo_throw_finally s = []"
    and "\<And>s'. at False {} {0} (base_frame (length (lo_scopes s))) s' \<Longrightarrow> Q () s'"
  shows "wp (pbind (new_block ''entry'') (\<lambda>b. pbind (modify (set_entry b)) (\<lambda>_. set_block b))) Q s"
proof -
  have "at False {} {0} (base_frame (length (lo_scopes s)))
      ((set_entry 0 (set_blocks [block_new (''entry_'' @ nat_to_string (lo_block_counter s))\<lparr>bb_exception_handler := None\<rparr>]
          (s\<lparr>lo_block_counter := lo_block_counter s + 1\<rparr>)))\<lparr>lo_block := 0\<rparr>)"
    using assms(1-5)
    by (simp add: at_def blocks_ok_def lo_blocks_def set_entry_def set_blocks_def base_frame_def frame_targets_def
        live_def block_ok_def block_new_def block_ended_def)
  then show ?thesis
    using assms(1,3) by (auto simp: wp_def pbind_def new_block_def Let_def modify_def set_block_def intro: assms(6))
qed

lemma at_well_formed:
  assumes "at True {} {e} F s" "fr_entry F = e"
  shows "well_formed (lo_function s)"
proof -
  let ?bs = "mf_blocks (lo_function s)"
  have ok: "blocks_ok True {} (lo_block s) ?bs" and e: "live {} (lo_block s) ?bs e" "mf_entry_block (lo_function s) = e"
    using assms by (auto simp: at_def lo_blocks_def)
  have cur: "block_ended (?bs ! lo_block s)" using ok by (auto simp: blocks_ok_def terminated_ended)
  then have l: "target_ok ?bs t" if "live {} (lo_block s) ?bs t" for t
    using that by (auto simp: live_def target_ok_def)
  have "(block_ended b \<or> bb_instructions b = []) \<and> block_ok (target_ok ?bs) b" if b: "b \<in> set ?bs" for b
  proof -
    obtain i where i: "i < length ?bs" "b = ?bs ! i" using b by (metis in_set_conv_nth)
    with ok have "block_ok (live {} (lo_block s) ?bs) b" "i \<noteq> lo_block s \<Longrightarrow> block_ended b \<or> bb_instructions b = []"
      by (auto simp: blocks_ok_def)
    with l cur i show ?thesis by (cases "i = lo_block s") (auto elim: block_ok_mono)
  qed
  then show ?thesis using l e by (simp add: well_formed_def)
qed

lemma finally_fuel_Nil [simp]: "finally_fuel [] = 0"
  by (simp add: finally_fuel_def)

lemma wp_bind_iff: "wp (pbind m f) Q s \<longleftrightarrow> wp m (\<lambda>a. wp (f a) Q) s"
  by (auto simp: wp_def pbind_def split: outcome.splits)

text \<open>No loop, handler or finally block is open, and no scope but the outermost one.\<close>

definition all_closed :: "lowering \<Rightarrow> bool" where
  "all_closed s \<longleftrightarrow>
     lo_loops s = [] \<and> lo_handlers s = [] \<and> lo_control_finally s = [] \<and> lo_throw_finally s = [] \<and> length (lo_scopes s) = 1"

lemma at_all_closed: "at c P K (base_frame 1) s \<Longrightarrow> all_closed s"
  by (auto simp: at_def all_closed_def base_frame_def dest: list_emb_Nil2)

lemma wp_lower_function:
  assumes "lo_control_finally s = []" "lo_throw_finally s = []"
  shows "wp (lower_function n ps t body ext)
    (\<lambda>f s'. well_formed f \<and> all_closed s') s"
proof -
  let ?s = "pre_collect_variables body (begin_function n ps t ext s)"
  have s: "lo_blocks ?s = []" "lo_loops ?s = []" "lo_handlers ?s = []" "lo_control_finally ?s = []" "lo_throw_finally ?s = []"
    and n: "length (lo_scopes ?s) = 1"
    using neutral_pre_collect [of body] assms by (simp_all add: neutral_def begin_function_sel)
  have body: "keeps_upto 0 (lower_statement (stmt_fuel body) body)"
    by (rule upto_lower_statement) simp
  have final: "wp (pbind (emit_unless_terminated (MReturn None 0)) (\<lambda>_. gets lo_function))
      (\<lambda>f s'. well_formed f \<and> all_closed s') s'"
    if "at False {} {0} (base_frame 1) s'" for s'
    using that unfolding emit_unless_terminated_def
    by - (rule wp_struct | erule wp_control | erule wp_lower | simp; fail
      | frule at_all_closed, drule at_true, simp, drule at_well_formed, simp add: base_frame_def,
        simp add: base_frame_def)+
  show ?thesis
    unfolding lower_function_def
    apply (rule lw_bind, rule wp_modify, rule lw_bind, rule wp_modify)
    unfolding wp_bind_iff
    apply (rule wp_start [OF s, unfolded wp_bind_iff n], erule wp_upto [OF body], simp add: base_frame_def)
    by (rule final [unfolded wp_bind_iff])
qed

lemma lower_hir_returns:
  assumes "lo_control_finally s = []" "lo_throw_finally s = []"
  shows "\<exists>f s'. lower_hir st s = Done (f, s') \<and> well_formed f \<and> all_closed s'"
proof -
  have "\<exists>f s'. lower_function n ps t body ext s = Done (f, s') \<and> well_formed f \<and> all_closed s'" for n ps t body ext
    using wp_lower_function [OF assms] by (simp add: wp_def)
  then show ?thesis by (cases st) (simp_all add: lower_hir_def)
qed

text \<open>
  Property C26: the lowering of a function from HIR to MIR always returns: it does not panic on an
  empty stack of scopes or a missing block, and the fuel is enough. The function is well formed:
  the entry, the targets and the handlers are blocks that end in a terminator, no block has a
  terminator before its end, and an empty block is no target. The stacks are empty again.
\<close>

theorem lower_hir_well_formed:
  "\<exists>f s'. lower_hir st (lowering_new sigs flds) = Done (f, s') \<and> well_formed f \<and> all_closed s'"
  by (rule lower_hir_returns) (simp_all add: lowering_new_def)

end
