(* ===== verification/MirOpt.thy ===== *)
theory MirOpt
  imports Mir "HOL-Library.Signed_Division" "HOL-Library.AList"
begin

text \<open>
  The optimizer of the mid-level representation, \<open>src/compiler/middle/mir/opt.rs\<close>: its six
  passes and the loop that repeats them while one of them reports a change. A pass returns the
  change flag and the function. Hash maps and sets the passes build are maps and lists; no result
  depends on their iteration order. The arithmetic of the compiler is that of a release build:
  \<open>i64\<close> operations wrap, and only the overflowing division panics.
\<close>

section \<open>Propagation of constants\<close>

definition replace_value_if_const :: "(string \<rightharpoonup> MIRValue) \<Rightarrow> MIRValue \<Rightarrow> bool \<times> MIRValue" where
  "replace_value_if_const m v =
     (case v of MVariable n t \<Rightarrow> (case m n of Some c \<Rightarrow> (True, c) | None \<Rightarrow> (False, v)) | MConstant _ _ \<Rightarrow> (False, v))"

definition replace_variable_uses :: "(string \<rightharpoonup> MIRValue) \<Rightarrow> MIRInstruction \<Rightarrow> bool \<times> MIRInstruction" where
  "replace_variable_uses m i =
     (list_ex (\<lambda>v. fst (replace_value_if_const m v)) (operands i),
      map_operands (\<lambda>v. snd (replace_value_if_const m v)) i)"

text \<open>How often a name is a parameter or a destination.\<close>

definition def_count :: "MIRFunction \<Rightarrow> string \<Rightarrow> nat" where
  "def_count f n =
     count_list (mf_params f) n + count_list (List.map_filter inst_dst (instructions f)) n"

text \<open>The constant moves \<open>propagate_constants\<close> collects, the last one of a name counts.\<close>

definition const_move :: "nat \<Rightarrow> MIRInstruction \<Rightarrow> (string \<times> MIRValue) option" where
  "const_move b i =
     (case i of
        MMove d (MConstant v t) _ \<Rightarrow>
          (if b = 0 \<or> starts_with d ''_t'' then Some (d, MConstant v t) else None)
      | _ \<Rightarrow> None)"

definition const_moves :: "MIRFunction \<Rightarrow> (string \<times> MIRValue) list" where
  "const_moves f =
     concat (map (\<lambda>(b, bb). List.map_filter (const_move b) (bb_instructions bb)) (enumerate 0 (mf_blocks f)))"

definition single_assign_constants :: "MIRFunction \<Rightarrow> string \<rightharpoonup> MIRValue" where
  "single_assign_constants f n =
     (if def_count f n = 1 \<and> \<not> starts_with n ''g_'' then map_of (rev (const_moves f)) n else None)"

definition propagate_constants :: "MIRFunction \<Rightarrow> bool \<times> MIRFunction" where
  "propagate_constants f =
     (let m = single_assign_constants f
      in (list_ex (\<lambda>i. fst (replace_variable_uses m i)) (instructions f),
          map_blocks (map (\<lambda>i. snd (replace_variable_uses m i))) f))"

section \<open>Promotion of constant arrays\<close>

text \<open>One pass of the alias loop over the instructions, and the loop.\<close>

definition alias_step :: "string list \<Rightarrow> MIRInstruction \<Rightarrow> string list" where
  "alias_step as i =
     (case i of
        MMove d (MVariable n _) _ \<Rightarrow> (if n \<in> set as \<and> d \<notin> set as then as @ [d] else as)
      | _ \<Rightarrow> as)"

definition alias_pass :: "string list \<Rightarrow> MIRInstruction list \<Rightarrow> string list" where
  "alias_pass = foldl alias_step"

definition inst_dsts :: "MIRInstruction list \<Rightarrow> string set" where
  "inst_dsts is = {d. \<exists>i \<in> set is. inst_dst i = Some d}"

lemma inst_dsts_simps [simp]:
  "inst_dsts [] = {}" "inst_dsts (i # is) = set_option (inst_dst i) \<union> inst_dsts is"
  by (auto simp: inst_dsts_def)

lemma finite_inst_dsts [simp]: "finite (inst_dsts is)"
  by (induction "is") auto

lemma alias_step_cases:
  "alias_step as i = as \<or> (\<exists>d. d \<notin> set as \<and> inst_dst i = Some d \<and> alias_step as i = as @ [d])"
  by (cases i) (auto simp: alias_step_def inst_dst_def split: MIRValue.splits)

lemma alias_pass_grows:
  "alias_pass as is = as \<or>
   (set as \<subset> set (alias_pass as is) \<and> set (alias_pass as is) \<subseteq> set as \<union> inst_dsts is)"
proof (induction "is" arbitrary: "as")
  case (Cons i "is")
  have e: "alias_pass as (i # is) = alias_pass (alias_step as i) is" by (simp add: alias_pass_def)
  show ?case
    using alias_step_cases [of "as" i] Cons [of "alias_step as i"] unfolding e by fastforce
qed (simp add: alias_pass_def)

function alias_loop :: "MIRInstruction list \<Rightarrow> string list \<Rightarrow> string list" where
  "alias_loop is as = (let as' = alias_pass as is in if as' = as then as else alias_loop is as')"
  by pat_completeness auto
termination
proof (relation "measure (\<lambda>(is, as). card (inst_dsts is - set as))", goal_cases)
  case (2 "is" "as" as')
  then have "set as \<subset> set as' \<and> set as' \<subseteq> set as \<union> inst_dsts is"
    using alias_pass_grows [of "as" "is"] by auto
  then have "inst_dsts is - set as' \<subset> inst_dsts is - set as" by blast
  then show ?case by (simp add: psubset_card_mono)
qed simp

declare alias_loop.simps [simp del]

definition is_alias :: "string list \<Rightarrow> MIRValue \<Rightarrow> bool" where
  "is_alias as v = (case v of MVariable n _ \<Rightarrow> n \<in> set as | MConstant _ _ \<Rightarrow> False)"

definition index_in_bounds :: "nat \<Rightarrow> MIRValue \<Rightarrow> bool" where
  "index_in_bounds len ix =
     (case ix of
        MConstant v _ \<Rightarrow> (case parse_i64 v of Some k \<Rightarrow> 0 \<le> k \<and> k < int len | None \<Rightarrow> True)
      | MVariable _ _ \<Rightarrow> True)"

text \<open>The arms of the second loop of \<open>collect_array_aliases\<close>: whether an instruction is harmless.\<close>

definition alias_use_ok :: "MIRFunction \<Rightarrow> string list \<Rightarrow> nat \<Rightarrow> MIRInstruction \<Rightarrow> bool" where
  "alias_use_ok f as len i =
     (case i of
        MMove d (MVariable n _) _ \<Rightarrow>
          (if n \<in> set as
           then (case map_of (mf_variables f) d of
                   Some (TyDynamicArray _) \<Rightarrow> True | Some (TyFixedArray _ _) \<Rightarrow> True | _ \<Rightarrow> False)
           else d \<notin> set as)
      | MLoadIndex _ ob ix _ _ \<Rightarrow> is_alias as ob \<longrightarrow> index_in_bounds len ix
      | MStoreIndex ob ix _ _ _ \<Rightarrow> is_alias as ob \<longrightarrow> index_in_bounds len ix
      | MCall _ _ args _ \<Rightarrow> list_all (\<lambda>a. \<not> is_alias as a) args
      | MIndirectCall _ _ args _ \<Rightarrow> list_all (\<lambda>a. \<not> is_alias as a) args
      | MReturn (Some v) _ \<Rightarrow> \<not> is_alias as v
      | MLoadMember _ ob _ _ \<Rightarrow> \<not> is_alias as ob
      | MStoreMember ob _ s _ \<Rightarrow> \<not> is_alias as ob \<and> \<not> is_alias as s
      | MCast _ s _ _ \<Rightarrow> \<not> is_alias as s
      | MBranch c _ _ _ \<Rightarrow> \<not> is_alias as c
      | MBinaryOp _ a _ b _ _ \<Rightarrow> \<not> is_alias as a \<and> \<not> is_alias as b
      | _ \<Rightarrow> True)"

definition collect_array_aliases :: "MIRFunction \<Rightarrow> string \<Rightarrow> nat \<Rightarrow> string list option" where
  "collect_array_aliases f root len =
     (let as = alias_loop (instructions f) [root]
      in if list_all (alias_use_ok f as len) (instructions f) then Some as else None)"

text \<open>The name, length and element type of an array an instruction creates.\<close>

definition array_creation :: "MIRFunction \<Rightarrow> MIRInstruction \<Rightarrow> (string \<times> nat \<times> TejxType) option" where
  "array_creation f i =
     (case i of
        MCall d callee args _ \<Rightarrow>
          (if callee = ''rt_Array_constructor_v2'' \<and> 2 \<le> length args then
             (case args ! 1 of
                MConstant v _ \<Rightarrow>
                  (case parse_usize v of
                     Some len \<Rightarrow>
                       (if 0 < len then
                          (case map_of (mf_variables f) d of
                             Some (TyDynamicArray t) \<Rightarrow>
                               (if is_numeric t \<or> t = TyBool then Some (d, len, t) else None)
                           | _ \<Rightarrow> None)
                        else None)
                   | None \<Rightarrow> None)
              | MVariable _ _ \<Rightarrow> None)
           else None)
      | _ \<Rightarrow> None)"

definition promotion :: "MIRFunction \<Rightarrow> MIRInstruction \<Rightarrow> (string list \<times> TejxType) option" where
  "promotion f i =
     (case array_creation f i of
        Some (d, len, t) \<Rightarrow>
          map_option (\<lambda>as. (as, TyFixedArray t len)) (collect_array_aliases f d len)
      | None \<Rightarrow> None)"

type_synonym type_env = "(string \<times> TejxType) list"

text \<open>Give one name its new type: the variables, the renamed types and the change flag.\<close>

definition retype :: "TejxType \<Rightarrow> string \<Rightarrow> type_env \<times> type_env \<times> bool \<Rightarrow> type_env \<times> type_env \<times> bool" where
  "retype ty n st =
     (case st of (vars, ren, ch) \<Rightarrow>
        if map_of vars n \<noteq> Some ty then (AList.update n ty vars, AList.update n ty ren, True) else (vars, ren, ch))"

definition apply_promotions ::
  "(string list \<times> TejxType) list \<Rightarrow> type_env \<Rightarrow> type_env \<times> type_env \<times> bool" where
  "apply_promotions ps vars = fold (\<lambda>(as, ty). fold (retype ty) as) ps (vars, [], False)"

definition rewrite_value_types :: "type_env \<Rightarrow> MIRValue \<Rightarrow> MIRValue" where
  "rewrite_value_types ren v =
     (case v of
        MVariable n t \<Rightarrow> (case map_of ren n of Some t' \<Rightarrow> MVariable n t' | None \<Rightarrow> v)
      | MConstant _ _ \<Rightarrow> v)"

text \<open>The callee of an indirect call is the one operand that keeps its type.\<close>

definition rewrite_instruction_types :: "type_env \<Rightarrow> MIRInstruction \<Rightarrow> MIRInstruction" where
  "rewrite_instruction_types ren i =
     (case i of
        MIndirectCall d c args l \<Rightarrow> MIndirectCall d c (map (rewrite_value_types ren) args) l
      | _ \<Rightarrow> map_operands (rewrite_value_types ren) i)"

definition promote_local_constant_arrays :: "MIRFunction \<Rightarrow> bool \<times> MIRFunction" where
  "promote_local_constant_arrays f =
     (let (vars, ren, changed) = apply_promotions (List.map_filter (promotion f) (instructions f)) (mf_variables f)
      in if changed then (True, map_blocks (map (rewrite_instruction_types ren)) (f\<lparr>mf_variables := vars\<rparr>))
         else (False, f))"

section \<open>Appending to local strings\<close>

definition is_var :: "string \<Rightarrow> MIRValue \<Rightarrow> bool" where
  "is_var n v = (case v of MVariable m _ \<Rightarrow> m = n | MConstant _ _ \<Rightarrow> False)"

definition string_use_ok :: "string \<Rightarrow> MIRInstruction \<Rightarrow> bool" where
  "string_use_ok n i =
     (case i of
        MMove d s _ \<Rightarrow> \<not> (is_var n s \<and> d \<noteq> n)
      | MReturn (Some v) _ \<Rightarrow> \<not> is_var n v
      | MCall _ callee args _ \<Rightarrow> list_all (\<lambda>a. \<not> (is_var n a \<and> callee \<noteq> ''rt_len'' \<and> callee \<noteq> ''rt_strlen'')) args
      | MIndirectCall _ _ args _ \<Rightarrow> list_all (\<lambda>a. \<not> is_var n a) args
      | MStoreMember _ _ s _ \<Rightarrow> \<not> is_var n s
      | MStoreIndex ob _ s _ _ \<Rightarrow> \<not> is_var n s \<and> \<not> is_var n ob
      | MLoadMember _ ob _ _ \<Rightarrow> \<not> is_var n ob
      | MLoadIndex _ ob _ _ _ \<Rightarrow> \<not> is_var n ob
      | MCast _ s _ _ \<Rightarrow> \<not> is_var n s
      | _ \<Rightarrow> True)"

definition can_use_local_string_append :: "MIRFunction \<Rightarrow> string \<Rightarrow> bool" where
  "can_use_local_string_append f n = list_all (string_use_ok n) (instructions f)"

definition append_candidate :: "MIRFunction \<Rightarrow> string \<Rightarrow> bool" where
  "append_candidate f n \<longleftrightarrow> map_of (mf_variables f) n = Some TyString \<and> can_use_local_string_append f n"

text \<open>The clearing of a candidate by the empty string.\<close>

definition clear_call :: "(string \<Rightarrow> bool) \<Rightarrow> string list \<Rightarrow> MIRInstruction \<Rightarrow> MIRInstruction option" where
  "clear_call cand assigned i =
     (case i of
        MMove d (MConstant v TyString) l \<Rightarrow>
          (if v = [] \<and> cand d \<and> d \<in> set assigned
           then Some (MCall d ''rt_str_clear_local'' [MVariable d TyString] l) else None)
      | _ \<Rightarrow> None)"

text \<open>A concatenation into a temporary that the next instruction moves back.\<close>

definition append_call :: "(string \<Rightarrow> bool) \<Rightarrow> MIRInstruction \<Rightarrow> MIRInstruction \<Rightarrow> MIRInstruction option" where
  "append_call cand i j =
     (case (i, j) of
        (MBinaryOp d (MVariable ln lt) op r w l, MMove md (MVariable sn _) _) \<Rightarrow>
          (if d = sn \<and> md = ln \<and> lt = TyString \<and> get_type r = TyString \<and> w = TyString \<and> op = TkPlus \<and> cand ln
           then Some (MCall d ''rt_str_append_local'' [MVariable ln TyString, r] l) else None)
      | _ \<Rightarrow> None)"

definition note_assigned :: "string list \<Rightarrow> MIRInstruction \<Rightarrow> string list" where
  "note_assigned assigned i =
     (case inst_dst i of Some d \<Rightarrow> (if d = [] then assigned else d # assigned) | None \<Rightarrow> assigned)"

text \<open>The loop over one block; the assigned names are kept from block to block.\<close>

fun append_loop ::
  "(string \<Rightarrow> bool) \<Rightarrow> string list \<Rightarrow> MIRInstruction list \<Rightarrow> MIRInstruction list \<times> string list \<times> bool" where
  "append_loop cand assigned [] = ([], assigned, False)"
| "append_loop cand assigned (i # is) =
     (case clear_call cand assigned i of
        Some c \<Rightarrow> (let (is', asg, ch) = append_loop cand assigned is in (c # is', asg, True))
      | None \<Rightarrow>
          (let assigned' = note_assigned assigned i;
               new = (case is of j # _ \<Rightarrow> append_call cand i j | [] \<Rightarrow> None);
               (is', asg, ch) = append_loop cand assigned' is
           in ((case new of Some c \<Rightarrow> c | None \<Rightarrow> i) # is', asg, new \<noteq> None \<or> ch)))"

fun append_blocks ::
  "(string \<Rightarrow> bool) \<Rightarrow> string list \<Rightarrow> BasicBlock list \<Rightarrow> BasicBlock list \<times> bool" where
  "append_blocks cand assigned [] = ([], False)"
| "append_blocks cand assigned (b # bs) =
     (let (is, asg, ch) = append_loop cand assigned (bb_instructions b);
          (bs', ch') = append_blocks cand asg bs
      in (b\<lparr>bb_instructions := is\<rparr> # bs', ch \<or> ch'))"

definition rewrite_local_string_appends :: "MIRFunction \<Rightarrow> bool \<times> MIRFunction" where
  "rewrite_local_string_appends f =
     (let (bs, ch) = append_blocks (append_candidate f) [] (mf_blocks f) in (ch, f\<lparr>mf_blocks := bs\<rparr>))"

section \<open>Folding\<close>

text \<open>The value of \<open>i64\<close> arithmetic in a release build.\<close>

definition wrap_i64 :: "int \<Rightarrow> int" where
  "wrap_i64 x = (x + 2 ^ 63) mod 2 ^ 64 - 2 ^ 63"

text \<open>
  The folded result of two integers: \<open>Done None\<close> when the operator is not folded, \<open>Panic\<close> for
  the division whose quotient does not fit.
\<close>

definition fold_i64 :: "TokenType \<Rightarrow> int \<Rightarrow> int \<Rightarrow> int option outcome" where
  "fold_i64 op l r =
     (case op of
        TkPlus \<Rightarrow> Done (Some (wrap_i64 (l + r)))
      | TkMinus \<Rightarrow> Done (Some (wrap_i64 (l - r)))
      | TkStar \<Rightarrow> Done (Some (wrap_i64 (l * r)))
      | TkSlash \<Rightarrow>
          (if r = 0 then Done None else if l = - (2 ^ 63) \<and> r = -1 then Panic else Done (Some (l sdiv r)))
      | TkModulo \<Rightarrow>
          (if r = 0 then Done None else if l = - (2 ^ 63) \<and> r = -1 then Panic else Done (Some (l smod r)))
      | _ \<Rightarrow> Done None)"

definition fold_f64 :: "TokenType \<Rightarrow> f64 \<Rightarrow> f64 \<Rightarrow> f64 option" where
  "fold_f64 op l r =
     (case op of
        TkPlus \<Rightarrow> Some (f64_add l r) | TkMinus \<Rightarrow> Some (f64_sub l r) | TkStar \<Rightarrow> Some (f64_mul l r)
      | TkSlash \<Rightarrow> (if f64_is_zero r then None else Some (f64_div l r))
      | _ \<Rightarrow> None)"

text \<open>The text of the folded constant, when the instruction is folded.\<close>

definition fold_text :: "TokenType \<Rightarrow> TejxType \<Rightarrow> string \<Rightarrow> string \<Rightarrow> string option outcome" where
  "fold_text op lt lv rv =
     (if \<not> is_numeric lt then Done None
      else case (parse_i64 lv, parse_i64 rv) of
          (Some l, Some r) \<Rightarrow>
            (case fold_i64 op l r of
               Done res \<Rightarrow> Done (map_option int_to_string res) | Panic \<Rightarrow> Panic | NoFuel \<Rightarrow> NoFuel)
        | _ \<Rightarrow>
            (case (parse_f64 lv, parse_f64 rv) of
               (Some l, Some r) \<Rightarrow> Done (map_option f64_to_string (fold_f64 op l r))
             | _ \<Rightarrow> Done None))"

definition fold_instruction :: "MIRInstruction \<Rightarrow> (bool \<times> MIRInstruction) outcome" where
  "fold_instruction i =
     (case i of
        MBinaryOp d (MConstant lv lt) op (MConstant rv rt) w l \<Rightarrow>
          (case fold_text op lt lv rv of
             Done (Some v) \<Rightarrow> Done (True, MMove d (MConstant v lt) l)
           | Done None \<Rightarrow> Done (False, i)
           | Panic \<Rightarrow> Panic
           | NoFuel \<Rightarrow> NoFuel)
      | _ \<Rightarrow> Done (False, i))"

text \<open>A panic anywhere is a panic of the pass.\<close>

fun collect_outcomes :: "'a outcome list \<Rightarrow> 'a list outcome" where
  "collect_outcomes [] = Done []"
| "collect_outcomes (Done x # rs) =
     (case collect_outcomes rs of Done xs \<Rightarrow> Done (x # xs) | Panic \<Rightarrow> Panic | NoFuel \<Rightarrow> NoFuel)"
| "collect_outcomes (Panic # rs) = Panic"
| "collect_outcomes (NoFuel # rs) = NoFuel"

definition fold_block :: "BasicBlock \<Rightarrow> (bool \<times> BasicBlock) outcome" where
  "fold_block b =
     (case collect_outcomes (map fold_instruction (bb_instructions b)) of
        Done rs \<Rightarrow> Done (list_ex fst rs, b\<lparr>bb_instructions := map snd rs\<rparr>)
      | Panic \<Rightarrow> Panic | NoFuel \<Rightarrow> NoFuel)"

definition fold_constants :: "MIRFunction \<Rightarrow> (bool \<times> MIRFunction) outcome" where
  "fold_constants f =
     (case collect_outcomes (map fold_block (mf_blocks f)) of
        Done rs \<Rightarrow> Done (list_ex fst rs, f\<lparr>mf_blocks := map snd rs\<rparr>)
      | Panic \<Rightarrow> Panic | NoFuel \<Rightarrow> NoFuel)"

section \<open>Dead code and unused variables\<close>

text \<open>Everything up to the first terminator.\<close>

fun truncate_block :: "MIRInstruction list \<Rightarrow> MIRInstruction list" where
  "truncate_block [] = []"
| "truncate_block (i # is) = (if is_terminator i then [i] else i # truncate_block is)"

definition eliminate_dead_code :: "MIRFunction \<Rightarrow> bool \<times> MIRFunction" where
  "eliminate_dead_code f =
     (list_ex (\<lambda>b. length (truncate_block (bb_instructions b)) < length (bb_instructions b)) (mf_blocks f),
      map_blocks truncate_block f)"

definition var_name :: "MIRValue \<Rightarrow> string option" where
  "var_name v = (case v of MVariable n _ \<Rightarrow> Some n | MConstant _ _ \<Rightarrow> None)"

definition used_vars :: "MIRFunction \<Rightarrow> string list" where
  "used_vars f = List.map_filter var_name (concat (map operands (instructions f)))"

text \<open>The destination of an instruction without side effects in the eyes of the pass.\<close>

definition pure_dst :: "MIRInstruction \<Rightarrow> string option" where
  "pure_dst i =
     (case i of MMove d _ _ \<Rightarrow> Some d | MBinaryOp d _ _ _ _ _ \<Rightarrow> Some d | MLoadMember d _ _ _ \<Rightarrow> Some d
      | MLoadIndex d _ _ _ _ \<Rightarrow> Some d | MCast d _ _ _ \<Rightarrow> Some d | _ \<Rightarrow> None)"

definition removable :: "MIRFunction \<Rightarrow> MIRInstruction \<Rightarrow> bool" where
  "removable f i =
     (case pure_dst i of
        Some d \<Rightarrow> d \<notin> set (used_vars f) \<and> map_of (mf_variables f) d = None \<and> d \<notin> set (mf_params f) \<and>
          (starts_with d ''%'' \<or> starts_with d ''_t'')
      | None \<Rightarrow> False)"

definition remove_unused_variables :: "MIRFunction \<Rightarrow> bool \<times> MIRFunction" where
  "remove_unused_variables f =
     (list_ex (removable f) (instructions f), map_blocks (filter (\<lambda>i. \<not> removable f i)) f)"

end
