(* ===== verification/MirOptimize.thy ===== *)
theory MirOptimize
  imports MirOpt
begin

text \<open>
  The loop of the optimizer terminates: a size that no pass increases and that every pass which
  reports a change decreases. So \<open>optimize\<close> is a total function, and its result is a function on
  which no pass reports a change.
\<close>

section \<open>The size of a function\<close>

definition inst_weight :: "MIRInstruction \<Rightarrow> nat" where
  "inst_weight i =
     (case i of MBinaryOp _ _ _ _ _ _ \<Rightarrow> 5 | MMove _ _ _ \<Rightarrow> 3 | _ \<Rightarrow> 1) +
     length (List.map_filter var_name (operands i))"

definition weight :: "MIRInstruction list \<Rightarrow> nat" where
  "weight is = sum_list (map inst_weight is)"

definition dynamic_names :: "type_env \<Rightarrow> string set" where
  "dynamic_names vars = {n. \<exists>t. map_of vars n = Some (TyDynamicArray t)}"

definition opt_size :: "MIRFunction \<Rightarrow> nat" where
  "opt_size f = weight (instructions f) + card (dynamic_names (mf_variables f))"

lemma weight_simps [simp]:
  "weight [] = 0" "weight (i # is) = inst_weight i + weight is" "weight (is @ js) = weight is + weight js"
  by (simp_all add: weight_def)

lemma inst_weight_pos [simp]: "0 < inst_weight i"
  by (cases i) (simp_all add: inst_weight_def)

lemma finite_dynamic [simp]: "finite (dynamic_names vars)"
proof -
  have "dynamic_names vars \<subseteq> fst ` set vars" by (auto simp: dynamic_names_def dest: map_of_SomeD intro: rev_image_eqI)
  then show ?thesis by (rule finite_subset) simp
qed

text \<open>What every pass guarantees.\<close>

definition shrinks :: "MIRFunction \<Rightarrow> bool \<times> MIRFunction \<Rightarrow> bool" where
  "shrinks f r \<longleftrightarrow> opt_size (snd r) \<le> opt_size f \<and> (fst r \<longrightarrow> opt_size (snd r) < opt_size f)"

text \<open>A pass that works on instruction lists and leaves the variables alone.\<close>

lemma weight_map_blocks:
  assumes "\<And>is. weight (g is) \<le> weight is"
  shows "weight (instructions (map_blocks g f)) \<le> weight (instructions f)"
proof -
  have "weight (concat (map (g \<circ> bb_instructions) bs)) \<le> weight (concat (map bb_instructions bs))" for bs
    using assms by (induction bs) (auto intro: add_mono)
  then show ?thesis by (simp add: instructions_map_blocks) (simp add: instructions_def)
qed

lemma weight_map_blocks_less:
  assumes "\<And>is. weight (g is) \<le> weight is" and b: "b \<in> set (mf_blocks f)" "weight (g (bb_instructions b)) < weight (bb_instructions b)"
  shows "weight (instructions (map_blocks g f)) < weight (instructions f)"
proof -
  have le: "weight (concat (map (g \<circ> bb_instructions) bs)) \<le> weight (concat (map bb_instructions bs))" for bs
    using assms(1) by (induction bs) (auto intro: add_mono)
  have "weight (concat (map (g \<circ> bb_instructions) bs)) < weight (concat (map bb_instructions bs))"
    if "b \<in> set bs" for bs
    using that
  proof (induction bs)
    case (Cons x bs)
    then show ?case
      using b(2) le [of bs] assms(1) [of "bb_instructions x"]
      by (auto simp: comp_def intro: add_less_le_mono add_le_less_mono)
  qed simp
  with b(1) show ?thesis by (simp add: instructions_map_blocks) (simp add: instructions_def)
qed

lemma shrinks_map_blocks:
  assumes "\<And>is. weight (g is) \<le> weight is"
    and "ch \<Longrightarrow> \<exists>b \<in> set (mf_blocks f). weight (g (bb_instructions b)) < weight (bb_instructions b)"
  shows "shrinks f (ch, map_blocks g f)"
  using weight_map_blocks [of g f] weight_map_blocks_less [of g _ f] assms
  by (auto simp: shrinks_def opt_size_def)

lemma in_instructions: "i \<in> set (instructions f) \<longleftrightarrow> (\<exists>b \<in> set (mf_blocks f). i \<in> set (bb_instructions b))"
  by (auto simp: instructions_def)

text \<open>Rewriting instruction by instruction.\<close>

lemma weight_map_le: "(\<And>i. inst_weight (h i) \<le> inst_weight i) \<Longrightarrow> weight (map h is) \<le> weight is"
  by (induction "is") (auto intro: add_mono)

lemma weight_map_less:
  assumes "\<And>i. inst_weight (h i) \<le> inst_weight i" "i \<in> set is" "inst_weight (h i) < inst_weight i"
  shows "weight (map h is) < weight is"
  using assms(2)
proof (induction "is")
  case (Cons j "is")
  then show ?case
    using assms(3) weight_map_le [of h "is", OF assms(1)] assms(1) [of j]
    by (auto intro: add_less_le_mono add_le_less_mono)
qed simp

lemma shrinks_map:
  assumes "\<And>i. inst_weight (h i) \<le> inst_weight i"
    and "ch \<Longrightarrow> \<exists>i \<in> set (instructions f). inst_weight (h i) < inst_weight i"
  shows "shrinks f (ch, map_blocks (map h) f)"
proof (rule shrinks_map_blocks)
  show "weight (map h is) \<le> weight is" for "is" by (rule weight_map_le [OF assms(1)])
  assume ch
  then obtain i where i: "i \<in> set (instructions f)" "inst_weight (h i) < inst_weight i" using assms(2) by blast
  then obtain b where "b \<in> set (mf_blocks f)" "i \<in> set (bb_instructions b)" by (auto simp: in_instructions)
  then show "\<exists>b \<in> set (mf_blocks f). weight (map h (bb_instructions b)) < weight (bb_instructions b)"
    using weight_map_less [OF assms(1) _ i(2)] by blast
qed

section \<open>Each pass shrinks\<close>

lemma const_moves_constant: "(n, v) \<in> set (const_moves f) \<Longrightarrow> \<exists>x t. v = MConstant x t"
proof -
  assume "(n, v) \<in> set (const_moves f)"
  then obtain b i where "const_move b i = Some (n, v)"
    by (auto simp: const_moves_def map_filter_def)
  then show ?thesis by (auto simp: const_move_def split: MIRInstruction.splits MIRValue.splits if_splits)
qed

lemma single_assign_constant: "single_assign_constants f n = Some v \<Longrightarrow> \<exists>x t. v = MConstant x t"
  by (auto simp: single_assign_constants_def split: if_splits dest!: map_of_SomeD const_moves_constant)

lemma weight_map_operands:
  "inst_weight (map_operands h i) + length (List.map_filter var_name (operands i))
     = inst_weight i + length (List.map_filter var_name (map h (operands i)))"
  unfolding inst_weight_def operands_map by (cases i) (simp_all add: map_operands_def)

lemma map_filter_length_le:
  "(\<And>v. var_name v = None \<Longrightarrow> var_name (h v) = None) \<Longrightarrow>
     length (List.map_filter var_name (map h vs)) \<le> length (List.map_filter var_name vs)"
  by (induction vs) (auto simp: List.map_filter_simps split: option.splits)

lemma map_filter_length_less:
  assumes "\<And>v. var_name v = None \<Longrightarrow> var_name (h v) = None"
    and "v \<in> set vs" "var_name v \<noteq> None" "var_name (h v) = None"
  shows "length (List.map_filter var_name (map h vs)) < length (List.map_filter var_name vs)"
  using assms(2)
proof (induction vs)
  case (Cons w vs)
  then show ?case
    using assms map_filter_length_le [of h vs]
    by (auto simp: List.map_filter_simps split: option.splits intro: le_imp_less_Suc)
qed simp

lemma propagate_shrinks: "shrinks f (propagate_constants f)"
proof -
  define m where "m = single_assign_constants f"
  define h where "h = (\<lambda>v. snd (replace_value_if_const m v))"
  have h1: "var_name v = None \<Longrightarrow> var_name (h v) = None" for v
    by (cases v) (simp_all add: h_def var_name_def replace_value_if_const_def)
  have h2: "fst (replace_value_if_const m v) \<Longrightarrow> var_name v \<noteq> None \<and> var_name (h v) = None" for v
    using single_assign_constant [of f]
    by (cases v) (force simp: h_def m_def var_name_def replace_value_if_const_def split: option.splits)+
  have r: "replace_variable_uses m i = (list_ex (\<lambda>v. fst (replace_value_if_const m v)) (operands i), map_operands h i)" for i
    by (simp add: replace_variable_uses_def h_def)
  have "shrinks f (list_ex (\<lambda>i. fst (replace_variable_uses m i)) (instructions f), map_blocks (map (map_operands h)) f)"
  proof (rule shrinks_map)
    show "inst_weight (map_operands h i) \<le> inst_weight i" for i
      using weight_map_operands [of h i] map_filter_length_le [of h "operands i"] h1 by simp
    assume "list_ex (\<lambda>i. fst (replace_variable_uses m i)) (instructions f)"
    then obtain i v where i: "i \<in> set (instructions f)" "v \<in> set (operands i)" "fst (replace_value_if_const m v)"
      by (auto simp: list_ex_iff r)
    from h2 [OF i(3)] have "length (List.map_filter var_name (map h (operands i))) < length (List.map_filter var_name (operands i))"
      using h1 i(2) by (intro map_filter_length_less) auto
    then have "inst_weight (map_operands h i) < inst_weight i" using weight_map_operands [of h i] by linarith
    with i(1) show "\<exists>i \<in> set (instructions f). inst_weight (map_operands h i) < inst_weight i" by blast
  qed
  then show ?thesis by (simp add: propagate_constants_def Let_def m_def [symmetric] r)
qed

lemma weight_truncate: "weight (truncate_block is) \<le> weight is \<and>
    (length (truncate_block is) < length is \<longrightarrow> weight (truncate_block is) < weight is)"
proof (induction "is")
  case (Cons i "is")
  have "is \<noteq> [] \<Longrightarrow> 0 < weight is" by (cases "is") simp_all
  with Cons show ?case by auto
qed simp

lemma dead_code_shrinks: "shrinks f (eliminate_dead_code f)"
  unfolding eliminate_dead_code_def
  by (rule shrinks_map_blocks) (use weight_truncate in \<open>auto simp: list_ex_iff\<close>)

lemma weight_filter: "weight (filter P is) \<le> weight is \<and> ((\<exists>i \<in> set is. \<not> P i) \<longrightarrow> weight (filter P is) < weight is)"
proof (induction "is")
  case (Cons i "is")
  then show ?case using inst_weight_pos [of i] by (auto simp del: inst_weight_pos)
qed simp

lemma unused_shrinks: "shrinks f (remove_unused_variables f)"
  unfolding remove_unused_variables_def
proof (rule shrinks_map_blocks)
  show "weight (filter (\<lambda>i. \<not> removable f i) is) \<le> weight is" for "is" using weight_filter by blast
  assume "list_ex (removable f) (instructions f)"
  then obtain i b where "removable f i" "b \<in> set (mf_blocks f)" "i \<in> set (bb_instructions b)"
    by (auto simp: list_ex_iff in_instructions)
  then show "\<exists>b \<in> set (mf_blocks f). weight (filter (\<lambda>i. \<not> removable f i) (bb_instructions b)) < weight (bb_instructions b)"
    using weight_filter [of "\<lambda>i. \<not> removable f i"] by blast
qed

text \<open>Folding: a binary operation on two constants becomes a move of one.\<close>

lemma fold_instruction_cases:
  assumes "fold_instruction i = Done (ch, i')"
  obtains "\<not> ch" "i' = i"
  | d lv lt op rv rt w l v where "ch" "i = MBinaryOp d (MConstant lv lt) op (MConstant rv rt) w l"
    "i' = MMove d (MConstant v lt) l" "fold_text op lt lv rv = Done (Some v)"
proof (cases "\<exists>d lv lt op rv rt w l. i = MBinaryOp d (MConstant lv lt) op (MConstant rv rt) w l")
  case True
  then obtain d lv lt op rv rt w l where i: "i = MBinaryOp d (MConstant lv lt) op (MConstant rv rt) w l" by blast
  show ?thesis
    using assms that unfolding i by (cases "fold_text op lt lv rv") (auto simp: fold_instruction_def split: option.splits)
next
  case False
  then have "fold_instruction i = Done (False, i)"
    by (cases i) (auto simp: fold_instruction_def split: MIRValue.splits)
  with assms that show ?thesis by simp
qed

lemma fold_instruction_weight:
  "fold_instruction i = Done (ch, i') \<Longrightarrow>
     inst_weight i' \<le> inst_weight i \<and> (ch \<longrightarrow> inst_weight i' < inst_weight i)"
  by (erule fold_instruction_cases) (simp_all add: inst_weight_def operands_def var_name_def List.map_filter_simps)

lemma collect_outcomes_map: "collect_outcomes (map Done xs) = Done xs"
  by (induction xs) simp_all

lemma collect_outcomes_Done: "collect_outcomes rs = Done xs \<longleftrightarrow> rs = map Done xs"
proof
  show "collect_outcomes rs = Done xs \<Longrightarrow> rs = map Done xs"
    by (induction rs arbitrary: xs rule: collect_outcomes.induct) (auto split: outcome.splits)
qed (simp add: collect_outcomes_map)

lemma fold_list_weight:
  "map fold_instruction is = map Done rs \<Longrightarrow>
     weight (map snd rs) \<le> weight is \<and> (list_ex fst rs \<longrightarrow> weight (map snd rs) < weight is)"
proof (induction "is" arbitrary: rs)
  case (Cons i "is")
  then obtain ch i' rs' where rs: "rs = (ch, i') # rs'" "fold_instruction i = Done (ch, i')"
    "map fold_instruction is = map Done rs'"
    by (cases rs) auto
  from Cons.IH [OF rs(3)] fold_instruction_weight [OF rs(2)] show ?case unfolding rs(1) by auto
qed simp

lemma fold_block_weight:
  "fold_block b = Done (ch, b') \<Longrightarrow>
     weight (bb_instructions b') \<le> weight (bb_instructions b) \<and>
     (ch \<longrightarrow> weight (bb_instructions b') < weight (bb_instructions b))"
  using fold_list_weight [of "bb_instructions b"]
  by (auto simp: fold_block_def collect_outcomes_Done split: outcome.splits)

lemma fold_blocks_weight:
  "map fold_block bs = map Done rs \<Longrightarrow>
     weight (concat (map bb_instructions (map snd rs))) \<le> weight (concat (map bb_instructions bs)) \<and>
     (list_ex fst rs \<longrightarrow> weight (concat (map bb_instructions (map snd rs))) < weight (concat (map bb_instructions bs)))"
proof (induction bs arbitrary: rs)
  case (Cons b bs)
  then obtain ch b' rs' where rs: "rs = (ch, b') # rs'" "fold_block b = Done (ch, b')"
    "map fold_block bs = map Done rs'"
    by (cases rs) auto
  from Cons.IH [OF rs(3)] fold_block_weight [OF rs(2)] show ?case unfolding rs(1) by auto
qed simp

lemma fold_shrinks: "fold_constants f = Done r \<Longrightarrow> shrinks f r"
  using fold_blocks_weight [of "mf_blocks f"]
  by (auto simp: fold_constants_def collect_outcomes_Done shrinks_def opt_size_def instructions_def
      split: outcome.splits)

text \<open>String appends: every replacement is by a lighter call.\<close>

lemma clear_call_weight: "clear_call cand asg i = Some c \<Longrightarrow> inst_weight c < inst_weight i"
  by (auto simp: clear_call_def inst_weight_def operands_def var_name_def List.map_filter_simps
      split: MIRInstruction.splits MIRValue.splits TejxType.splits if_splits)

lemma append_call_weight: "append_call cand i j = Some c \<Longrightarrow> inst_weight c < inst_weight i"
  by (auto simp: append_call_def inst_weight_def operands_def var_name_def List.map_filter_simps
      split: MIRInstruction.splits MIRValue.splits if_splits option.splits)

lemma append_loop_weight:
  "append_loop cand asg is = (js, asg', ch) \<Longrightarrow> weight js \<le> weight is \<and> (ch \<longrightarrow> weight js < weight is)"
proof (induction cand asg "is" arbitrary: js asg' ch rule: append_loop.induct)
  case (2 cand asg i "is")
  show ?case
  proof (cases "clear_call cand asg i")
    case (Some c)
    obtain js' a' ch' where r: "append_loop cand asg is = (js', a', ch')" by (cases "append_loop cand asg is")
    from 2(2) [OF Some r] 2(3) Some r clear_call_weight [OF Some] show ?thesis by auto
  next
    case None
    define new where "new = (case is of j # _ \<Rightarrow> append_call cand i j | [] \<Rightarrow> None)"
    obtain js' a' ch' where r: "append_loop cand (note_assigned asg i) is = (js', a', ch')"
      by (cases "append_loop cand (note_assigned asg i) is")
    have w: "new = Some c \<Longrightarrow> inst_weight c < inst_weight i" for c
      by (auto simp: new_def split: list.splits dest: append_call_weight)
    have "js = (case new of Some c \<Rightarrow> c | None \<Rightarrow> i) # js' \<and> ch = (new \<noteq> None \<or> ch')"
      using 2(3) None r by (simp add: Let_def new_def)
    moreover have "weight js' \<le> weight is \<and> (ch' \<longrightarrow> weight js' < weight is)"
      using 2(1) [OF None refl new_def r] .
    ultimately show ?thesis using w by (cases new) auto
  qed
qed simp

lemma append_blocks_weight:
  "append_blocks cand asg bs = (bs', ch) \<Longrightarrow>
     weight (concat (map bb_instructions bs')) \<le> weight (concat (map bb_instructions bs)) \<and>
     (ch \<longrightarrow> weight (concat (map bb_instructions bs')) < weight (concat (map bb_instructions bs)))"
proof (induction cand asg bs arbitrary: bs' ch rule: append_blocks.induct)
  case (2 cand asg b bs)
  obtain js a' ch1 where 1: "append_loop cand asg (bb_instructions b) = (js, a', ch1)"
    by (cases "append_loop cand asg (bb_instructions b)")
  obtain bs2 ch2 where 3: "append_blocks cand a' bs = (bs2, ch2)" by (cases "append_blocks cand a' bs")
  from 2(1) [OF 1 [symmetric] refl refl 3] append_loop_weight [OF 1] 2(2) 1 3 show ?case by auto
qed simp

lemma append_shrinks: "shrinks f (rewrite_local_string_appends f)"
  using append_blocks_weight [of "append_candidate f" "[]" "mf_blocks f"]
  by (auto simp: rewrite_local_string_appends_def shrinks_def opt_size_def instructions_def split: prod.splits)

text \<open>Promotion: the types get fixed, and at least one variable stops being a dynamic array.\<close>

definition fixed_type :: "TejxType \<Rightarrow> bool" where
  "fixed_type ty \<longleftrightarrow> (\<exists>t n. ty = TyFixedArray t n)"

lemma retype_dynamic:
  assumes "fixed_type ty" "retype ty n (vars, ren, ch) = (vars', ren', ch')"
  shows "dynamic_names vars' = dynamic_names vars - {n}"
  using assms by (auto simp: retype_def fixed_type_def dynamic_names_def update_conv split: if_splits)

lemma retype_fold_dynamic:
  "fixed_type ty \<Longrightarrow> fold (retype ty) ns (vars, ren, ch) = (vars', ren', ch') \<Longrightarrow>
     dynamic_names vars' = dynamic_names vars - set ns"
proof (induction ns arbitrary: vars ren ch)
  case (Cons n ns)
  obtain v2 r2 c2 where r: "retype ty n (vars, ren, ch) = (v2, r2, c2)" by (cases "retype ty n (vars, ren, ch)")
  from Cons.IH [of v2 r2 c2] Cons.prems r retype_dynamic [OF Cons.prems(1) r] show ?case by auto
qed simp

lemma promotions_dynamic:
  "\<forall>(ns, ty) \<in> set ps. fixed_type ty \<Longrightarrow>
   fold (\<lambda>(ns, ty). fold (retype ty) ns) ps (vars, ren, ch) = (vars', ren', ch') \<Longrightarrow>
     dynamic_names vars' = dynamic_names vars - (\<Union>(ns, ty) \<in> set ps. set ns)"
proof (induction ps arbitrary: vars ren ch)
  case (Cons p ps)
  obtain ns ty where p: "p = (ns, ty)" by (cases p)
  obtain v2 r2 c2 where r: "fold (retype ty) ns (vars, ren, ch) = (v2, r2, c2)"
    by (cases "fold (retype ty) ns (vars, ren, ch)")
  have "fixed_type ty" using Cons.prems(1) p by simp
  from Cons.IH [of v2 r2 c2] Cons.prems r p retype_fold_dynamic [OF this r] show ?case by auto
qed simp

lemma alias_loop_root: "set as \<subseteq> set (alias_loop is as)"
proof (induction "is" "as" rule: alias_loop.induct)
  case (1 "is" "as")
  then show ?case
    using alias_pass_grows [of "as" "is"] by (subst alias_loop.simps) (auto simp: Let_def)
qed

lemma promotion_shape:
  assumes "promotion f i = Some (ns, ty)"
  shows "fixed_type ty \<and> (\<exists>n \<in> set ns. n \<in> dynamic_names (mf_variables f))"
proof -
  from assms obtain d len t where c: "array_creation f i = Some (d, len, t)"
    and a: "collect_array_aliases f d len = Some ns" "ty = TyFixedArray t len"
    by (auto simp: promotion_def split: option.splits prod.splits)
  from c have "map_of (mf_variables f) d = Some (TyDynamicArray t)"
    by (auto simp: array_creation_def split: MIRInstruction.splits if_splits MIRValue.splits option.splits TejxType.splits)
  moreover have "d \<in> set ns"
    using a(1) alias_loop_root [of "[d]" "instructions f"]
    by (auto simp: collect_array_aliases_def Let_def split: if_splits)
  ultimately show ?thesis using a(2) by (auto simp: fixed_type_def dynamic_names_def)
qed

lemma rewrite_types_weight: "inst_weight (rewrite_instruction_types ren i) = inst_weight i"
proof -
  have v: "var_name (rewrite_value_types ren v) = var_name v" for v
    by (auto simp: var_name_def rewrite_value_types_def split: MIRValue.splits option.splits)
  have l: "length (List.map_filter var_name (map (rewrite_value_types ren) vs)) = length (List.map_filter var_name vs)" for vs
    by (induction vs) (auto simp: List.map_filter_simps v split: option.splits)
  show ?thesis
  proof (cases "\<exists>d c args n. i = MIndirectCall d c args n")
    case True
    then obtain d c args n where "i = MIndirectCall d c args n" by blast
    then show ?thesis using l [of args]
      by (auto simp: rewrite_instruction_types_def inst_weight_def operands_def List.map_filter_simps split: option.splits)
  next
    case False
    then have "rewrite_instruction_types ren i = map_operands (rewrite_value_types ren) i"
      by (cases i) (auto simp: rewrite_instruction_types_def)
    then show ?thesis using weight_map_operands [of "rewrite_value_types ren" i] l [of "operands i"] by simp
  qed
qed

lemma promote_shrinks: "shrinks f (promote_local_constant_arrays f)"
proof -
  define ps where "ps = List.map_filter (promotion f) (instructions f)"
  obtain vars ren ch where a: "apply_promotions ps (mf_variables f) = (vars, ren, ch)"
    by (cases "apply_promotions ps (mf_variables f)")
  have ps: "\<forall>(ns, ty) \<in> set ps. fixed_type ty \<and> (\<exists>n \<in> set ns. n \<in> dynamic_names (mf_variables f))"
    using promotion_shape by (auto simp: ps_def map_filter_def)
  have d: "dynamic_names vars = dynamic_names (mf_variables f) - (\<Union>(ns, ty) \<in> set ps. set ns)"
    using a ps by (intro promotions_dynamic) (auto simp: apply_promotions_def)
  show ?thesis
  proof (cases ch)
    case True
    have "ps \<noteq> []" using a True by (auto simp: apply_promotions_def)
    then obtain ns ty where "(ns, ty) \<in> set ps" by (cases ps) auto
    then have "dynamic_names vars \<subset> dynamic_names (mf_variables f)" using ps unfolding d by fastforce
    then have c: "card (dynamic_names vars) < card (dynamic_names (mf_variables f))"
      by (simp add: psubset_card_mono)
    have "weight (map (rewrite_instruction_types ren) is) \<le> weight is" for "is"
      by (rule weight_map_le) (simp add: rewrite_types_weight)
    then have w: "weight (instructions (map_blocks (map (rewrite_instruction_types ren)) (f\<lparr>mf_variables := vars\<rparr>)))
        \<le> weight (instructions (f\<lparr>mf_variables := vars\<rparr>))"
      by (rule weight_map_blocks)
    have "promote_local_constant_arrays f = (True, map_blocks (map (rewrite_instruction_types ren)) (f\<lparr>mf_variables := vars\<rparr>))"
      using a True by (simp add: promote_local_constant_arrays_def ps_def [symmetric])
    moreover have "instructions (f\<lparr>mf_variables := vars\<rparr>) = instructions f" by (simp add: instructions_def)
    ultimately show ?thesis using c w by (simp add: shrinks_def opt_size_def)
  next
    case False
    with a show ?thesis by (simp add: promote_local_constant_arrays_def ps_def [symmetric] shrinks_def)
  qed
qed

section \<open>The loop\<close>

text \<open>One round: the six passes in their order, the flags accumulated.\<close>

definition optimize_round :: "MIRFunction \<Rightarrow> (bool \<times> MIRFunction) outcome" where
  "optimize_round f =
     (let (c1, f1) = propagate_constants f in
      case fold_constants f1 of
        Panic \<Rightarrow> Panic | NoFuel \<Rightarrow> NoFuel
      | Done (c2, f2) \<Rightarrow>
          (let (c3, f3) = promote_local_constant_arrays f2;
               (c4, f4) = rewrite_local_string_appends f3;
               (c5, f5) = eliminate_dead_code f4;
               (c6, f6) = remove_unused_variables f5
           in Done (c1 \<or> c2 \<or> c3 \<or> c4 \<or> c5 \<or> c6, f6)))"

lemma round_shrinks: "optimize_round f = Done r \<Longrightarrow> shrinks f r"
proof -
  assume a: "optimize_round f = Done r"
  obtain c1 f1 where 1: "propagate_constants f = (c1, f1)" by fastforce
  from a obtain c2 f2 where 2: "fold_constants f1 = Done (c2, f2)"
    by (auto simp: optimize_round_def 1 split: outcome.splits)
  obtain c3 f3 where 3: "promote_local_constant_arrays f2 = (c3, f3)" by fastforce
  obtain c4 f4 where 4: "rewrite_local_string_appends f3 = (c4, f4)" by fastforce
  obtain c5 f5 where 5: "eliminate_dead_code f4 = (c5, f5)" by fastforce
  obtain c6 f6 where 6: "remove_unused_variables f5 = (c6, f6)" by fastforce
  have "r = (c1 \<or> c2 \<or> c3 \<or> c4 \<or> c5 \<or> c6, f6)" using a by (simp add: optimize_round_def 1 2 3 4 5 6)
  then show ?thesis
    using propagate_shrinks [of f] fold_shrinks [OF 2] promote_shrinks [of f2] append_shrinks [of f3]
      dead_code_shrinks [of f4] unused_shrinks [of f5]
    by (auto simp: 1 3 4 5 6 shrinks_def)
qed

function optimize :: "MIRFunction \<Rightarrow> MIRFunction outcome" where
  "optimize f =
     (case optimize_round f of
        Done r \<Rightarrow> (if fst r then optimize (snd r) else Done (snd r))
      | Panic \<Rightarrow> Panic | NoFuel \<Rightarrow> NoFuel)"
  by pat_completeness auto
termination
  by (relation "measure opt_size") (auto dest: round_shrinks simp: shrinks_def)

declare optimize.simps [simp del]

section \<open>The result is a fixed point\<close>

text \<open>A pass that reports no change returns its input.\<close>

definition honest :: "MIRFunction \<Rightarrow> bool \<times> MIRFunction \<Rightarrow> bool" where
  "honest f r \<longleftrightarrow> (\<not> fst r \<longrightarrow> snd r = f)"

lemma map_operands_id: "(\<And>v. v \<in> set (operands i) \<Longrightarrow> h v = v) \<Longrightarrow> map_operands h i = i"
proof (cases i)
  case (MReturn v l)
  then show "(\<And>v. v \<in> set (operands i) \<Longrightarrow> h v = v) \<Longrightarrow> map_operands h i = i"
    by (cases v) (auto simp: map_operands_def operands_def)
qed (auto simp: map_operands_def operands_def map_idI)

lemma map_blocks_id: "(\<And>b. b \<in> set (mf_blocks f) \<Longrightarrow> g (bb_instructions b) = bb_instructions b) \<Longrightarrow> map_blocks g f = f"
proof -
  assume a: "\<And>b. b \<in> set (mf_blocks f) \<Longrightarrow> g (bb_instructions b) = bb_instructions b"
  have "map (map_block g) (mf_blocks f) = mf_blocks f" by (rule map_idI) (simp add: map_block_def a)
  then show ?thesis by (simp add: map_blocks_def)
qed

lemma propagate_honest: "honest f (propagate_constants f)"
proof -
  define m where "m = single_assign_constants f"
  have v: "\<not> fst (replace_value_if_const m v) \<Longrightarrow> snd (replace_value_if_const m v) = v" for v
    by (auto simp: replace_value_if_const_def split: MIRValue.splits option.splits)
  have "snd (replace_variable_uses m i) = i" if "\<not> fst (replace_variable_uses m i)" for i
    using that v unfolding replace_variable_uses_def fst_conv snd_conv
    by (intro map_operands_id) (auto simp: list_ex_iff)
  then have "\<not> list_ex (\<lambda>i. fst (replace_variable_uses m i)) (instructions f) \<Longrightarrow>
      map_blocks (map (\<lambda>i. snd (replace_variable_uses m i))) f = f"
    unfolding list_ex_iff by (intro map_blocks_id map_idI) (metis in_instructions)
  then show ?thesis by (simp add: honest_def propagate_constants_def Let_def m_def)
qed

lemma truncate_id: "\<not> length (truncate_block is) < length is \<Longrightarrow> truncate_block is = is"
  by (induction "is") (auto split: if_splits)

lemma dead_code_honest: "honest f (eliminate_dead_code f)"
  by (auto simp: honest_def eliminate_dead_code_def list_ex_iff intro!: map_blocks_id truncate_id)

lemma unused_honest: "honest f (remove_unused_variables f)"
proof -
  have "\<forall>i \<in> set (instructions f). \<not> removable f i \<Longrightarrow> map_blocks (filter (\<lambda>i. \<not> removable f i)) f = f"
    by (intro map_blocks_id filter_True) (metis in_instructions)
  then show ?thesis by (auto simp: honest_def remove_unused_variables_def list_ex_iff)
qed

lemma promote_honest: "honest f (promote_local_constant_arrays f)"
  by (auto simp: honest_def promote_local_constant_arrays_def split: prod.splits)

lemma append_loop_id: "append_loop cand asg is = (js, asg', False) \<Longrightarrow> js = is"
  by (induction cand asg "is" arbitrary: js asg' rule: append_loop.induct)
    (auto simp: Let_def split: option.splits prod.splits)

lemma append_blocks_id: "append_blocks cand asg bs = (bs', False) \<Longrightarrow> bs' = bs"
  by (induction cand asg bs arbitrary: bs' rule: append_blocks.induct)
    (auto split: prod.splits dest!: append_loop_id)

lemma append_honest: "honest f (rewrite_local_string_appends f)"
  using append_blocks_id [of "append_candidate f" "[]" "mf_blocks f"]
  by (auto simp: honest_def rewrite_local_string_appends_def split: prod.splits)

lemma unchanged_list:
  "map g xs = map Done rs \<Longrightarrow> \<not> list_ex fst rs \<Longrightarrow> (\<And>x y. g x = Done (False, y) \<Longrightarrow> y = x) \<Longrightarrow> map snd rs = xs"
proof (induction xs arbitrary: rs)
  case (Cons x xs)
  then show ?case by (cases rs) auto
qed simp

lemma fold_honest: "fold_constants f = Done r \<Longrightarrow> honest f r"
proof -
  have i: "fold_instruction i = Done (False, i') \<Longrightarrow> i' = i" for i i'
    by (erule fold_instruction_cases) simp_all
  have b: "fold_block b = Done (False, b') \<Longrightarrow> b' = b" for b b'
    using unchanged_list [of fold_instruction "bb_instructions b", OF _ _ i]
    by (auto simp: fold_block_def collect_outcomes_Done split: outcome.splits)
  show "fold_constants f = Done r \<Longrightarrow> honest f r"
    using unchanged_list [of fold_block "mf_blocks f", OF _ _ b]
    by (auto simp: fold_constants_def collect_outcomes_Done honest_def split: outcome.splits)
qed

lemma round_honest: "optimize_round f = Done (False, g) \<Longrightarrow> g = f"
proof -
  assume a: "optimize_round f = Done (False, g)"
  obtain c1 f1 where 1: "propagate_constants f = (c1, f1)" by fastforce
  from a obtain c2 f2 where 2: "fold_constants f1 = Done (c2, f2)"
    by (auto simp: optimize_round_def 1 split: outcome.splits)
  obtain c3 f3 where 3: "promote_local_constant_arrays f2 = (c3, f3)" by fastforce
  obtain c4 f4 where 4: "rewrite_local_string_appends f3 = (c4, f4)" by fastforce
  obtain c5 f5 where 5: "eliminate_dead_code f4 = (c5, f5)" by fastforce
  obtain c6 f6 where 6: "remove_unused_variables f5 = (c6, f6)" by fastforce
  have "\<not> (c1 \<or> c2 \<or> c3 \<or> c4 \<or> c5 \<or> c6) \<and> g = f6" using a by (simp add: optimize_round_def 1 2 3 4 5 6)
  then show ?thesis
    using propagate_honest [of f, unfolded 1] fold_honest [OF 2] promote_honest [of f2, unfolded 3]
      append_honest [of f3, unfolded 4] dead_code_honest [of f4, unfolded 5] unused_honest [of f5, unfolded 6]
    by (simp add: honest_def)
qed

lemma collect_outcomes_no_fuel: "NoFuel \<notin> set rs \<Longrightarrow> collect_outcomes rs \<noteq> NoFuel"
  by (induction rs rule: collect_outcomes.induct) (auto split: outcome.splits)

lemma fold_constants_no_fuel: "fold_constants f \<noteq> NoFuel"
proof -
  have o: "fold_i64 op l r \<noteq> NoFuel" for op l r
    by (cases op) (simp_all add: fold_i64_def)
  have t: "fold_text op lt lv rv \<noteq> NoFuel" for op lt lv rv
    using o [of op "the (parse_i64 lv)" "the (parse_i64 rv)"]
    by (cases "parse_i64 lv"; cases "parse_i64 rv") (simp_all add: fold_text_def split: outcome.splits option.splits)
  have i: "fold_instruction i \<noteq> NoFuel" for i
  proof (cases i)
    case (MBinaryOp d a op b w l)
    with t show ?thesis
      by (cases a; cases b) (auto simp: fold_instruction_def split: outcome.splits option.splits)
  qed (simp_all add: fold_instruction_def)
  have "NoFuel \<notin> set (map fold_instruction (bb_instructions b))" for b
    using i by (metis ex_map_conv)
  from collect_outcomes_no_fuel [OF this] have b: "fold_block b \<noteq> NoFuel" for b
    by (auto simp: fold_block_def split: outcome.splits)
  then have "NoFuel \<notin> set (map fold_block (mf_blocks f))" by (metis ex_map_conv)
  from collect_outcomes_no_fuel [OF this] show ?thesis
    by (auto simp: fold_constants_def split: outcome.splits)
qed

lemma optimize_ends:
  "optimize f = Panic \<or> (\<exists>h. optimize f = Done h \<and> optimize_round h = Done (False, h) \<and> opt_size h \<le> opt_size f)"
proof (induction f rule: optimize.induct)
  case (1 f)
  have nf: "optimize_round f \<noteq> NoFuel"
    using fold_constants_no_fuel by (auto simp: optimize_round_def Let_def split: prod.splits outcome.splits)
  show ?case
  proof (cases "optimize_round f")
    case (Done r)
    obtain ch g where r: "r = (ch, g)" by (cases r)
    have s: "opt_size g \<le> opt_size f" using round_shrinks [OF Done] by (simp add: shrinks_def r)
    show ?thesis
    proof (cases ch)
      case True
      then have "optimize f = optimize g" using Done r by (subst optimize.simps) simp
      with 1 [OF Done] True r s show ?thesis by (auto intro: order_trans)
    next
      case False
      then have "g = f" using Done r round_honest by simp
      with False Done r show ?thesis by (subst optimize.simps) simp
    qed
  qed (use nf in \<open>subst optimize.simps, simp\<close>)+
qed

text \<open>
  Property C1: the loop of the optimizer ends on every function: either with a function no larger
  than the input on which a further round changes nothing, or with the panic of the compiler on
  an overflowing division of constants. It never runs forever.
\<close>

theorem optimize_terminates:
  "optimize f = Panic \<or> (\<exists>h. optimize f = Done h \<and> optimize_round h = Done (False, h) \<and> opt_size h \<le> opt_size f)"
  by (rule optimize_ends)

end
