(* ===== verification/MirSem.thy ===== *)
theory MirSem
  imports MirOptimize
begin

text \<open>
  What the passes preserve. The generated code and the runtime are not in this development, so
  they are a parameter: a record of the meaning of constants, operators, variables, exceptions and
  of every other instruction as a primitive. Over it a function runs step by step; the passes are
  compared with the function they rewrite on every run.
\<close>

section \<open>The machine\<close>

text \<open>
  A value goes with the type of its operand, on which the generated code depends. A constant is
  evaluated in the world, which it may change: a string is allocated, and a lambda makes a new
  closure with a copy of the captured variables. Some variables are kept outside the frame of the
  call: globals, whose names start with \<open>g_\<close>, and the captured ones, which live in the
  environment of the closure (\<open>get_captured_index\<close> of the code generator). Values are converted
  when they are moved to a variable and when they are read from it. A primitive, named by its
  instruction without the operands, depends on the values and the types of the operands.
\<close>

type_synonym 'v operand = "'v \<times> TejxType"

record ('v, 'h) runtime =
  rt_const :: "string \<Rightarrow> TejxType \<Rightarrow> 'h \<Rightarrow> 'v \<times> 'h"
  rt_true :: "'v operand \<Rightarrow> bool"
  rt_binop :: "TokenType \<Rightarrow> TejxType \<Rightarrow> 'v operand \<Rightarrow> 'v operand \<Rightarrow> 'v + 'v"
  rt_prim :: "MIRInstruction \<Rightarrow> 'v operand list \<Rightarrow> 'h \<Rightarrow> ('v + 'v) \<times> 'h"
  rt_raise :: "'v \<Rightarrow> 'h \<Rightarrow> nat option \<times> 'h"
  rt_captured :: "string \<Rightarrow> bool"
  rt_load :: "string \<Rightarrow> TejxType \<Rightarrow> 'h \<Rightarrow> 'v"
  rt_store :: "string \<Rightarrow> 'v \<Rightarrow> 'h \<Rightarrow> 'h"
  rt_move :: "string \<Rightarrow> 'v operand \<Rightarrow> 'v"
  rt_read :: "string \<Rightarrow> TejxType \<Rightarrow> 'v \<Rightarrow> 'v"

text \<open>
  Block and offset of the next instruction, the variables of the frame that have a value, and the
  rest of the world.
\<close>

record ('v, 'h) state =
  st_block :: nat
  st_pc :: nat
  st_env :: "string \<rightharpoonup> 'v"
  st_heap :: 'h

datatype ('v, 'h) result =
    Running "('v, 'h) state"
  | Returned "'v operand option" 'h
  | Thrown 'v 'h
  | Stuck

definition is_global :: "string \<Rightarrow> bool" where
  "is_global n = starts_with n ''g_''"

definition is_shared :: "('v, 'h) runtime \<Rightarrow> string \<Rightarrow> bool" where
  "is_shared rt n \<longleftrightarrow> is_global n \<or> rt_captured rt n"

definition eval_value :: "('v, 'h) runtime \<Rightarrow> MIRValue \<Rightarrow> ('v, 'h) state \<Rightarrow> ('v operand \<times> ('v, 'h) state) option" where
  "eval_value rt v s =
     (case v of
        MConstant x t \<Rightarrow> (let (w, h) = rt_const rt x t (st_heap s) in Some ((w, t), s\<lparr>st_heap := h\<rparr>))
      | MVariable n t \<Rightarrow>
          if is_shared rt n then Some ((rt_load rt n t (st_heap s), t), s)
          else map_option (\<lambda>w. ((rt_read rt n t w, t), s)) (st_env s n))"

text \<open>The operands from left to right.\<close>

fun eval_values :: "('v, 'h) runtime \<Rightarrow> MIRValue list \<Rightarrow> ('v, 'h) state \<Rightarrow> ('v operand list \<times> ('v, 'h) state) option" where
  "eval_values rt [] s = Some ([], s)"
| "eval_values rt (v # vs) s =
     (case eval_value rt v s of
        None \<Rightarrow> None
      | Some (x, s') \<Rightarrow> map_option (\<lambda>(xs, s''). (x # xs, s'')) (eval_values rt vs s'))"

definition goto :: "nat \<Rightarrow> ('v, 'h) state \<Rightarrow> ('v, 'h) result" where
  "goto b s = Running (s\<lparr>st_block := b, st_pc := 0\<rparr>)"

definition next_inst :: "('v, 'h) state \<Rightarrow> ('v, 'h) result" where
  "next_inst s = Running (s\<lparr>st_pc := Suc (st_pc s)\<rparr>)"

definition write_dst :: "('v, 'h) runtime \<Rightarrow> string option \<Rightarrow> 'v \<Rightarrow> ('v, 'h) state \<Rightarrow> ('v, 'h) state" where
  "write_dst rt d v s =
     (case d of
        None \<Rightarrow> s
      | Some n \<Rightarrow> if is_shared rt n then s\<lparr>st_heap := rt_store rt n v (st_heap s)\<rparr>
                 else s\<lparr>st_env := (st_env s)(n \<mapsto> v)\<rparr>)"

definition raise :: "('v, 'h) runtime \<Rightarrow> 'v \<Rightarrow> ('v, 'h) state \<Rightarrow> ('v, 'h) result" where
  "raise rt e s =
     (case rt_raise rt e (st_heap s) of
        (Some k, h) \<Rightarrow> goto k (s\<lparr>st_heap := h\<rparr>)
      | (None, h) \<Rightarrow> Thrown e h)"

definition finish_inst ::
  "('v, 'h) runtime \<Rightarrow> string option \<Rightarrow> 'v + 'v \<Rightarrow> ('v, 'h) state \<Rightarrow> ('v, 'h) result" where
  "finish_inst rt d r s = (case r of Inr v \<Rightarrow> next_inst (write_dst rt d v s) | Inl e \<Rightarrow> raise rt e s)"

text \<open>One instruction on the values of its operands.\<close>

definition exec_inst ::
  "('v, 'h) runtime \<Rightarrow> MIRInstruction \<Rightarrow> 'v operand list \<Rightarrow> ('v, 'h) state \<Rightarrow> ('v, 'h) result" where
  "exec_inst rt i vs s =
     (case i of
        MMove d _ _ \<Rightarrow> next_inst (write_dst rt (Some d) (rt_move rt d (hd vs)) s)
      | MBinaryOp d _ op _ w _ \<Rightarrow> finish_inst rt (Some d) (rt_binop rt op w (hd vs) (hd (tl vs))) s
      | MBranch _ t f _ \<Rightarrow> goto (if rt_true rt (hd vs) then t else f) s
      | MJump t _ \<Rightarrow> goto t s
      | MReturn v _ \<Rightarrow> Returned (case v of Some _ \<Rightarrow> Some (hd vs) | None \<Rightarrow> None) (st_heap s)
      | MThrow _ _ \<Rightarrow> raise rt (fst (hd vs)) s
      | MTrySetup t _ _ \<Rightarrow> goto t s
      | _ \<Rightarrow> (let (r, h) = rt_prim rt (erase_operands i) vs (st_heap s)
             in finish_inst rt (inst_dst i) r (s\<lparr>st_heap := h\<rparr>)))"

text \<open>One step: falling off a block goes on with the next one.\<close>

definition step :: "('v, 'h) runtime \<Rightarrow> MIRFunction \<Rightarrow> ('v, 'h) state \<Rightarrow> ('v, 'h) result" where
  "step rt f s =
     (if length (mf_blocks f) \<le> st_block s then Stuck
      else let is = bb_instructions (mf_blocks f ! st_block s) in
        if length is \<le> st_pc s then
          (if Suc (st_block s) < length (mf_blocks f) then goto (Suc (st_block s)) s
           else Returned None (st_heap s))
        else let i = is ! st_pc s in
          (case eval_values rt (operands i) s of
             None \<Rightarrow> Stuck
           | Some (vs, s') \<Rightarrow> exec_inst rt i vs s'))"

fun iterate :: "(('v, 'h) state \<Rightarrow> ('v, 'h) result) \<Rightarrow> nat \<Rightarrow> ('v, 'h) state \<Rightarrow> ('v, 'h) result" where
  "iterate st 0 s = Running s"
| "iterate st (Suc n) s = (case st s of Running s' \<Rightarrow> iterate st n s' | r \<Rightarrow> r)"

definition run :: "('v, 'h) runtime \<Rightarrow> MIRFunction \<Rightarrow> nat \<Rightarrow> ('v, 'h) state \<Rightarrow> ('v, 'h) result" where
  "run rt f = iterate (step rt f)"

text \<open>The start of a call: the parameters have values, the other locals have none.\<close>

definition start :: "MIRFunction \<Rightarrow> (string \<rightharpoonup> 'v) \<Rightarrow> 'h \<Rightarrow> ('v, 'h) state" where
  "start f args h =
     \<lparr>st_block = mf_entry_block f, st_pc = 0, st_env = args |` set (mf_params f), st_heap = h\<rparr>"

section \<open>Lock-step passes\<close>

text \<open>
  The contract of a pass that keeps the steps of a function: an invariant of the states that the
  steps of the source keep, under which the rewritten function makes the same step wherever the
  source does not get stuck. Running any number of steps then gives the same result.
\<close>

locale lockstep =
  fixes src_step tgt_step :: "('v, 'h) state \<Rightarrow> ('v, 'h) result"
    and inv :: "('v, 'h) state \<Rightarrow> bool"
  assumes same_step: "inv s \<Longrightarrow> src_step s \<noteq> Stuck \<Longrightarrow> tgt_step s = src_step s"
    and inv_step: "inv s \<Longrightarrow> src_step s = Running s' \<Longrightarrow> inv s'"
begin

lemma iterate_same: "inv s \<Longrightarrow> iterate src_step n s \<noteq> Stuck \<Longrightarrow> iterate tgt_step n s = iterate src_step n s"
proof (induction n arbitrary: s)
  case (Suc n)
  show ?case
  proof (cases "src_step s")
    case (Running s')
    with Suc same_step [OF Suc(2)] inv_step [OF Suc(2) Running] show ?thesis by simp
  qed (use Suc same_step [OF Suc(2)] in auto)
qed simp

end

text \<open>The stronger contract: the rewritten function also gets stuck where the source does.\<close>

locale lockstep_exact = lockstep +
  assumes same_stuck: "inv s \<Longrightarrow> src_step s = Stuck \<Longrightarrow> tgt_step s = Stuck"
begin

lemma iterate_equal: "inv s \<Longrightarrow> iterate tgt_step n s = iterate src_step n s"
proof (induction n arbitrary: s)
  case (Suc n)
  have e: "tgt_step s = src_step s"
    using same_step [OF Suc(2)] same_stuck [OF Suc(2)] by (cases "src_step s") auto
  show ?case
    using Suc inv_step [OF Suc(2)] by (cases "src_step s") (simp_all add: e)
qed simp

end

section \<open>Propagation of constants\<close>

text \<open>
  Where the pass is right: the replaced variables are in the frame, and not captured; the constant
  has one value, and its evaluation no effect; the variable is used at the type of the constant,
  at which it reads what was moved to it.
\<close>

definition constant_of :: "('v, 'h) runtime \<Rightarrow> string \<Rightarrow> TejxType \<Rightarrow> 'v \<Rightarrow> bool" where
  "constant_of rt x t v \<longleftrightarrow> (\<forall>h. rt_const rt x t h = (v, h))"

definition used_at :: "string \<Rightarrow> TejxType \<Rightarrow> MIRFunction \<Rightarrow> bool" where
  "used_at n t f \<longleftrightarrow> (\<forall>i \<in> set (instructions f). \<forall>u. MVariable n u \<in> set (operands i) \<longrightarrow> u = t)"

definition propagatable :: "('v, 'h) runtime \<Rightarrow> MIRFunction \<Rightarrow> bool" where
  "propagatable rt f \<longleftrightarrow>
     (\<forall>n x t. single_assign_constants f n = Some (MConstant x t) \<longrightarrow>
        \<not> rt_captured rt n \<and> used_at n t f \<and>
        (\<exists>v. constant_of rt x t v \<and> rt_read rt n t (rt_move rt n (v, t)) = v))"

text \<open>
  A name the pass replaces is assigned only by the move of its constant; so it has no value yet,
  or what that move leaves.
\<close>

definition constants_kept :: "('v, 'h) runtime \<Rightarrow> MIRFunction \<Rightarrow> ('v, 'h) state \<Rightarrow> bool" where
  "constants_kept rt f s \<longleftrightarrow>
     (\<forall>n x t v. single_assign_constants f n = Some (MConstant x t) \<longrightarrow> constant_of rt x t v \<longrightarrow>
        st_env s n = None \<or> st_env s n = Some (rt_move rt n (v, t)))"

lemma count_map_filter_unique:
  assumes "count_list (List.map_filter g xs) n \<le> 1" "x \<in> set xs" "g x = Some n" "y \<in> set xs" "g y = Some n"
  shows "x = y"
  using assms
proof (induction xs)
  case (Cons a xs)
  have pos: "z \<in> set xs \<Longrightarrow> g z = Some n \<Longrightarrow> 0 < count_list (List.map_filter g xs) n" for z
    by (induction xs) (auto simp: List.map_filter_simps split: option.splits)
  have le: "count_list (List.map_filter g xs) n \<le> 1"
    using Cons.prems(1) by (auto simp: List.map_filter_simps split: option.splits if_splits)
  show ?case
  proof (cases "g a = Some n")
    case True
    then have "count_list (List.map_filter g xs) n = 0" using Cons.prems(1) by (simp add: List.map_filter_simps)
    with Cons.prems pos show ?thesis by auto
  next
    case False
    with Cons.IH [OF le] Cons.prems show ?thesis by auto
  qed
qed simp

lemma const_move_Some: "const_move b i = Some p \<Longrightarrow> \<exists>d x t l. i = MMove d (MConstant x t) l \<and> p = (d, MConstant x t)"
proof (cases i)
  case (MMove d v l)
  then show "const_move b i = Some p \<Longrightarrow> \<exists>d x t l. i = MMove d (MConstant x t) l \<and> p = (d, MConstant x t)"
    by (cases v) (auto simp: const_move_def split: if_splits)
qed (simp_all add: const_move_def)

lemma const_moves_inst: "(n, c) \<in> set (const_moves f) \<Longrightarrow> \<exists>l. MMove n c l \<in> set (instructions f)"
proof -
  assume "(n, c) \<in> set (const_moves f)"
  then obtain b bb i where b: "(b, bb) \<in> set (enumerate 0 (mf_blocks f))" "i \<in> set (bb_instructions bb)"
    "const_move b i = Some (n, c)"
    by (auto simp: const_moves_def map_filter_def)
  from b(1) have "bb \<in> set (mf_blocks f)" by (auto simp: in_set_enumerate_eq)
  moreover obtain l where "i = MMove n c l" using const_move_Some [OF b(3)] by auto
  ultimately show ?thesis using b(2) by (auto simp: in_instructions)
qed

lemma single_assign_facts:
  assumes "single_assign_constants f n = Some c"
  shows "\<not> is_global n" "n \<notin> set (mf_params f)"
    "i \<in> set (instructions f) \<Longrightarrow> inst_dst i = Some n \<Longrightarrow> \<exists>l. i = MMove n c l"
    "\<exists>x t. c = MConstant x t"
proof -
  from assms have d: "def_count f n = 1" "\<not> starts_with n ''g_''" "map_of (rev (const_moves f)) n = Some c"
    by (auto simp: single_assign_constants_def split: if_splits)
  from d(3) obtain l where l: "MMove n c l \<in> set (instructions f)"
    using const_moves_inst by (metis map_of_SomeD set_rev)
  have dm: "inst_dst (MMove n c l) = Some n" by (simp add: inst_dst_def)
  have "0 < count_list (List.map_filter inst_dst is) n" if "MMove n c l \<in> set is" for "is"
    using that by (induction "is") (auto simp: List.map_filter_simps dm split: option.splits)
  from this [OF l] d(1) have p: "count_list (mf_params f) n = 0"
    "count_list (List.map_filter inst_dst (instructions f)) n \<le> 1"
    by (simp_all add: def_count_def)
  show "\<not> is_global n" using d(2) by (simp add: is_global_def)
  show "n \<notin> set (mf_params f)" using p(1) by (simp add: count_list_0_iff)
  show "i \<in> set (instructions f) \<Longrightarrow> inst_dst i = Some n \<Longrightarrow> \<exists>l. i = MMove n c l"
    using count_map_filter_unique [OF p(2) _ _ l dm] by blast
  show "\<exists>x t. c = MConstant x t" by (rule single_assign_constant [OF assms])
qed

lemma exec_map_operands: "exec_inst rt (map_operands h i) vs s = exec_inst rt i vs s"
  by (cases i) (auto simp: exec_inst_def map_operands_def erase_operands_def inst_dst_def comp_def
      split: option.splits)

text \<open>What a step does to the variables of the frame: it writes the destination, if anything.\<close>

definition env_writes :: "string option \<Rightarrow> ('v, 'h) state \<Rightarrow> ('v, 'h) result \<Rightarrow> bool" where
  "env_writes d s r \<longleftrightarrow>
     (\<forall>s'. r = Running s' \<longrightarrow>
        st_env s' = st_env s \<or> (\<exists>n v. d = Some n \<and> \<not> is_global n \<and> st_env s' = (st_env s)(n \<mapsto> v)))"

lemma env_writes_simps [simp]:
  "env_writes d s (goto b s)" "env_writes d s (Returned v h)" "env_writes d s (Thrown e h)"
  "env_writes d (s\<lparr>st_heap := h\<rparr>) r = env_writes d s r"
  by (auto simp: env_writes_def goto_def)

lemma env_writes_write [simp]: "env_writes d s (next_inst (write_dst rt d v s))"
  by (auto simp: env_writes_def next_inst_def write_dst_def is_shared_def split: option.splits)

lemma env_writes_raise [simp]: "env_writes d s (raise rt e s)"
  by (auto simp: raise_def goto_def env_writes_def split: prod.splits option.splits)

lemma env_writes_finish [simp]: "env_writes d s (finish_inst rt d r s)"
  by (cases r) (simp_all add: finish_inst_def)

lemma env_writes_prim: "env_writes d s (case rt_prim rt i vs h of (r, h') \<Rightarrow> finish_inst rt d r (s\<lparr>st_heap := h'\<rparr>))"
proof -
  have "env_writes d s (finish_inst rt d r (s\<lparr>st_heap := h'\<rparr>))" for r h'
    using env_writes_finish [of d "s\<lparr>st_heap := h'\<rparr>" rt r] unfolding env_writes_simps(4) .
  then show ?thesis by (auto split: prod.splits)
qed

lemma exec_env: "env_writes (inst_dst i) s (exec_inst rt i vs s)"
  by (cases i) (simp_all add: exec_inst_def inst_dst_def env_writes_prim)

text \<open>Operands change only the world.\<close>

lemma state_heap_self: "\<exists>h. s = s\<lparr>st_heap := h\<rparr>"
  by (rule exI [of _ "st_heap s"]) simp

lemma eval_value_state: "eval_value rt v s = Some (x, s') \<Longrightarrow> \<exists>h. s' = s\<lparr>st_heap := h\<rparr>"
  by (cases v) (auto simp: eval_value_def split: prod.splits if_splits intro: state_heap_self)

lemma eval_values_state: "eval_values rt vs s = Some (xs, s') \<Longrightarrow> \<exists>h. s' = s\<lparr>st_heap := h\<rparr>"
proof (induction vs arbitrary: s xs)
  case (Cons v vs)
  then obtain x s1 ys where 1: "eval_value rt v s = Some (x, s1)" "eval_values rt vs s1 = Some (ys, s')"
    by (auto split: option.splits)
  from eval_value_state [OF 1(1)] Cons.IH [OF 1(2)] show ?case by auto
qed (auto intro: state_heap_self)

lemma step_cases:
  assumes "step rt f s \<noteq> Stuck"
  obtains (inst) b i vs h where "b = mf_blocks f ! st_block s" "st_block s < length (mf_blocks f)"
    "st_pc s < length (bb_instructions b)" "i = bb_instructions b ! st_pc s"
    "eval_values rt (operands i) s = Some (vs, s\<lparr>st_heap := h\<rparr>)" "step rt f s = exec_inst rt i vs (s\<lparr>st_heap := h\<rparr>)"
  | (fall) "st_block s < length (mf_blocks f)"
    "length (bb_instructions (mf_blocks f ! st_block s)) \<le> st_pc s"
    "step rt f s = (if Suc (st_block s) < length (mf_blocks f) then goto (Suc (st_block s)) s
      else Returned None (st_heap s))"
  using assms eval_values_state by (fastforce simp: step_def Let_def split: if_splits option.splits)

text \<open>The rewriting of the pass, and its step.\<close>

lemma propagate_blocks:
  "snd (propagate_constants f) = map_blocks (map (map_operands (\<lambda>v. snd (replace_value_if_const (single_assign_constants f) v)))) f"
  by (simp add: propagate_constants_def replace_variable_uses_def Let_def)

lemma propagate_eval:
  assumes "propagatable rt f" "constants_kept rt f s" "i \<in> set (instructions f)" "v \<in> set (operands i)"
    and "eval_value rt v s = Some r"
  shows "eval_value rt (snd (replace_value_if_const (single_assign_constants f) v)) s = Some r"
proof (cases v)
  case v: (MVariable n t)
  show ?thesis
  proof (cases "single_assign_constants f n")
    case (Some c)
    from single_assign_facts(1,4) [OF Some] obtain y u where c: "c = MConstant y u" and g: "\<not> is_global n" by blast
    from assms(1) Some c obtain w where p: "\<not> rt_captured rt n" "used_at n u f"
      "constant_of rt y u w" "rt_read rt n u (rt_move rt n (w, u)) = w" unfolding propagatable_def by blast
    have u: "t = u" using p(2) assms(3,4) v unfolding used_at_def by blast
    have "st_env s n = None \<or> st_env s n = Some (rt_move rt n (w, u))"
      using assms(2) Some c p(3) unfolding constants_kept_def by blast
    with assms(5) v g p(1) u have "st_env s n = Some (rt_move rt n (w, u))" "r = ((rt_read rt n u (rt_move rt n (w, u)), u), s)"
      by (auto simp: eval_value_def is_shared_def)
    with p(3,4) Some c v show ?thesis
      by (simp add: replace_value_if_const_def eval_value_def constant_of_def)
  qed (use assms(5) v in \<open>simp add: replace_value_if_const_def\<close>)
qed (use assms(5) in \<open>simp add: replace_value_if_const_def\<close>)

lemma propagate_evals:
  assumes "propagatable rt f" "i \<in> set (instructions f)"
  shows "set vs \<subseteq> set (operands i) \<Longrightarrow> constants_kept rt f s \<Longrightarrow> eval_values rt vs s = Some r \<Longrightarrow>
    eval_values rt (map (\<lambda>v. snd (replace_value_if_const (single_assign_constants f) v)) vs) s = Some r"
proof (induction vs arbitrary: s r)
  case (Cons v vs)
  then obtain x s1 xs s2 where 1: "eval_value rt v s = Some (x, s1)" "eval_values rt vs s1 = Some (xs, s2)"
    "r = (x # xs, s2)" by (auto split: option.splits)
  from eval_value_state [OF 1(1)] obtain h where "s1 = s\<lparr>st_heap := h\<rparr>" by blast
  with Cons.prems(2) have "constants_kept rt f s1" unfolding constants_kept_def by simp
  with Cons 1 propagate_eval [OF assms(1) Cons.prems(2) assms(2) _ 1(1)] show ?case by simp
qed simp

lemma propagate_step:
  assumes "propagatable rt f" "constants_kept rt f s" "step rt f s \<noteq> Stuck"
  shows "step rt (snd (propagate_constants f)) s = step rt f s"
  using assms(3)
proof (cases rule: step_cases)
  case (inst b i vs h)
  define g where "g = (\<lambda>v. snd (replace_value_if_const (single_assign_constants f) v))"
  have "i \<in> set (instructions f)" using inst(1-4) nth_mem by (metis in_instructions)
  then have "eval_values rt (operands (map_operands g i)) s = Some (vs, s\<lparr>st_heap := h\<rparr>)"
    unfolding operands_map g_def using propagate_evals [OF assms(1) _ order_refl assms(2) inst(5)] by simp
  with inst show ?thesis
    by (simp add: propagate_blocks g_def [symmetric] step_def Let_def exec_map_operands)
next
  case fall
  then show ?thesis by (simp add: propagate_blocks step_def Let_def)
qed

lemma moved_constant:
  assumes "exec_inst rt (MMove n c l) vs s = Running s'" "st_env s' = (st_env s)(n \<mapsto> w)" "\<not> is_shared rt n"
  shows "w = rt_move rt n (hd vs)"
proof -
  have "st_env s' = (st_env s)(n \<mapsto> rt_move rt n (hd vs))"
    using assms(1,3) by (auto simp: exec_inst_def next_inst_def write_dst_def)
  with assms(2) show ?thesis by (metis fun_upd_same option.inject)
qed

lemma propagate_inv:
  assumes "propagatable rt f" "constants_kept rt f s" "step rt f s = Running s'"
  shows "constants_kept rt f s'"
proof -
  have "step rt f s \<noteq> Stuck" using assms(3) by simp
  then show ?thesis
  proof (cases rule: step_cases)
    case (inst b i vs h)
    have i: "i \<in> set (instructions f)" using inst(1-4) nth_mem by (metis in_instructions)
    show ?thesis unfolding constants_kept_def
    proof (intro allI impI)
      fix n x t v assume c: "single_assign_constants f n = Some (MConstant x t)" and v: "constant_of rt x t v"
      have old: "st_env s n = None \<or> st_env s n = Some (rt_move rt n (v, t))"
        using assms(2) c v unfolding constants_kept_def by blast
      have "env_writes (inst_dst i) s (Running s')"
        using exec_env [of i "s\<lparr>st_heap := h\<rparr>" rt vs] inst(6) assms(3) by simp
      then consider "st_env s' = st_env s" | m w where "inst_dst i = Some m" "st_env s' = (st_env s)(m \<mapsto> w)"
        by (auto simp: env_writes_def)
      then show "st_env s' n = None \<or> st_env s' n = Some (rt_move rt n (v, t))"
      proof cases
        case (2 m w)
        show ?thesis
        proof (cases "m = n")
          case True
          from single_assign_facts(1,3) [OF c] i 2(1) True obtain l where
            m: "i = MMove n (MConstant x t) l" "\<not> is_global n" by blast
          have "\<not> is_shared rt n" using assms(1) c m(2) unfolding propagatable_def is_shared_def by blast
          moreover have "hd vs = (v, t)" using inst(5) m(1) v by (auto simp: operands_def eval_value_def constant_of_def)
          ultimately have "w = rt_move rt n (v, t)"
            using moved_constant [of rt n "MConstant x t" l vs "s\<lparr>st_heap := h\<rparr>" s' w] inst(6) assms(3) m(1) 2(2) True
            by simp
          with 2(2) True show ?thesis by simp
        qed (use 2 old in simp)
      qed (use old in simp)
    qed
  next
    case fall
    then have "st_env s' = st_env s" using assms(3) by (auto simp: goto_def split: if_splits)
    with assms(2) show ?thesis by (simp add: constants_kept_def)
  qed
qed

interpretation propagation: lockstep "step rt f" "step rt (snd (propagate_constants f))"
    "\<lambda>s. propagatable rt f \<and> constants_kept rt f s"
  for rt :: "('v, 'h) runtime" and f
  by unfold_locales (auto simp: propagate_step propagate_inv)

lemma start_constants_kept: "constants_kept rt f (start f args h)"
  using single_assign_facts(2) [of f] by (auto simp: constants_kept_def start_def restrict_map_def)

text \<open>
  Property C2: propagation of constants keeps every run of a function whose propagated variables
  are not captured, are used at the type of their constant and read back what is moved to them,
  and whose propagated constants have one value, without an effect: from the start of a call,
  every run of the function that never reads a variable without a value is a run of the rewritten
  function, step by step, with the same result, whatever operators and primitives mean.
\<close>

theorem propagate_keeps_runs:
  assumes "propagatable rt f" "run rt f n (start f args h) \<noteq> Stuck"
  shows "run rt (snd (propagate_constants f)) n (start f args h) = run rt f n (start f args h)"
  using propagation.iterate_same [OF conjI [OF assms(1) start_constants_kept]] assms(2) by (simp add: run_def)

text \<open>An instance: the constant moved into a temporary is propagated into the return.\<close>

definition sample_runtime :: "(nat, nat) runtime" where
  "sample_runtime =
     \<lparr>rt_const = (\<lambda>x t h. (length x, h)), rt_true = (\<lambda>v. fst v \<noteq> 0), rt_binop = (\<lambda>op w a b. Inr (fst a + fst b)),
      rt_prim = (\<lambda>i vs h. (Inr 0, h)), rt_raise = (\<lambda>e h. (None, h)), rt_captured = (\<lambda>n. False),
      rt_load = (\<lambda>n t h. h), rt_store = (\<lambda>n v h. v), rt_move = (\<lambda>n v. fst v), rt_read = (\<lambda>n t v. v)\<rparr>"

definition sample_function :: MIRFunction where
  "sample_function = (function_new ''f'' TyVoid)
     \<lparr>mf_blocks := [\<lparr>bb_name = ''entry'',
        bb_instructions = [MMove ''_t0'' (MConstant ''42'' TyInt32) 1, MReturn (Some (MVariable ''_t0'' TyInt32)) 1],
        bb_exception_handler = None\<rparr>]\<rparr>"

lemmas evaluate_steps =
  run_def start_def numeral_2_eq_2 step_def function_new_def operands_def eval_value_def exec_inst_def
  next_inst_def write_dst_def is_shared_def is_global_def starts_with_def

lemmas evaluate_propagation =
  propagate_blocks single_assign_constants_def const_moves_def const_move_def def_count_def instructions_def
  inst_dst_def List.map_filter_simps map_blocks_def map_block_def map_operands_def replace_value_if_const_def
  starts_with_def function_new_def

theorem propagate_keeps_runs_witness:
  "run sample_runtime sample_function 2 (start sample_function Map.empty 7) = Returned (Some (2, TyInt32)) 7 \<and>
   run sample_runtime (snd (propagate_constants sample_function)) 2 (start sample_function Map.empty 7)
     = Returned (Some (2, TyInt32)) 7"
proof -
  have r: "run sample_runtime sample_function 2 (start sample_function Map.empty 7) = Returned (Some (2, TyInt32)) 7"
    by (simp add: sample_runtime_def sample_function_def evaluate_steps)
  then have "run sample_runtime sample_function 2 (start sample_function Map.empty 7) \<noteq> Stuck" by simp
  moreover have "propagatable sample_runtime sample_function"
    by (auto simp: propagatable_def used_at_def constant_of_def sample_runtime_def sample_function_def
        evaluate_propagation operands_def split: if_splits)
  ultimately show ?thesis using propagate_keeps_runs r by metis
qed

section \<open>Propagation of what the frame does not hold\<close>

definition one_block :: "string \<Rightarrow> string list \<Rightarrow> TejxType \<Rightarrow> MIRInstruction list \<Rightarrow> MIRFunction" where
  "one_block g ps t is =
     (function_new g t)\<lparr>mf_params := ps,
       mf_blocks := [\<lparr>bb_name = ''entry_0'', bb_instructions = is, bb_exception_handler = None\<rparr>]\<rparr>"

text \<open>A lambda that keeps the value of a captured variable \<open>n\<close>, sets it, and returns what it kept.\<close>

definition exchange :: "string list \<Rightarrow> string \<Rightarrow> string \<Rightarrow> string \<Rightarrow> TejxType \<Rightarrow> MIRFunction" where
  "exchange ps n y x t =
     one_block ''lambda_0'' ps t
       [MMove y (MVariable n t) 0, MMove n (MConstant x t) 0, MReturn (Some (MVariable y t)) 0]"

text \<open>A function that makes a closure \<open>k\<close>, sets a variable \<open>n\<close> the closure captures, and returns the closure.\<close>

definition late_closure :: "string list \<Rightarrow> string \<Rightarrow> string \<Rightarrow> TejxType \<Rightarrow> string \<Rightarrow> string \<Rightarrow> TejxType \<Rightarrow> MIRFunction" where
  "late_closure ps k c u n x t =
     one_block ''f'' ps u
       [MMove k (MConstant c u) 0, MMove n (MConstant x t) 0, MReturn (Some (MVariable k u)) 0]"

lemmas evaluate_one_block =
  one_block_def function_new_def instructions_def single_assign_constants_def const_moves_def const_move_def
  def_count_def inst_dst_def List.map_filter_simps count_list_0_iff fun_upd_def is_global_def

lemma exchange_constants:
  assumes "n \<notin> set ps" "y \<notin> set ps" "y \<noteq> n" "\<not> is_global n"
  shows "single_assign_constants (exchange ps n y x t) = [n \<mapsto> MConstant x t]"
  using assms by (intro ext) (auto simp: exchange_def evaluate_one_block)

lemma late_closure_constants:
  assumes "n \<notin> set ps" "k \<notin> set ps" "k \<noteq> n" "\<not> is_global n" "\<not> is_global k"
  shows "single_assign_constants (late_closure ps k c u n x t) = [k \<mapsto> MConstant c u, n \<mapsto> MConstant x t]"
  using assms by (intro ext) (auto simp: late_closure_def evaluate_one_block)

lemma run_3:
  "run rt f 3 s = (case step rt f s of Running s1 \<Rightarrow> (case step rt f s1 of Running s2 \<Rightarrow> step rt f s2 | r \<Rightarrow> r) | r \<Rightarrow> r)"
  by (simp add: run_def numeral_3_eq_3 split: result.split)

lemmas evaluate_three_steps =
  run_3 step_def start_def Let_def goto_def next_inst_def exec_inst_def write_dst_def eval_value_def operands_def
  map_operands_def replace_value_if_const_def one_block_def function_new_def map_blocks_def map_block_def

text \<open>
  Property C28: the pass takes a captured variable for one of the frame: a lambda that reads a
  captured variable, sets it to a constant and returns what it read returns the constant after the
  pass, and not what the environment of the closure held, whatever the names, the constant and the
  environment are.
\<close>

theorem propagation_ignores_captures:
  assumes "rt_captured rt n" "\<not> is_global n" "\<not> is_shared rt y" "n \<notin> set ps" "y \<notin> set ps"
    and "constant_of rt x t v" "\<And>w. rt_read rt y t (rt_move rt y (w, t)) = w"
  shows "run rt (exchange ps n y x t) 3 (start (exchange ps n y x t) args h)
      = Returned (Some (rt_load rt n t h, t)) (rt_store rt n (rt_move rt n (v, t)) h) \<and>
    run rt (snd (propagate_constants (exchange ps n y x t))) 3 (start (exchange ps n y x t) args h)
      = Returned (Some (v, t)) (rt_store rt n (rt_move rt n (v, t)) h)"
proof
  have n: "y \<noteq> n" "is_shared rt n" using assms(1,3) by (auto simp: is_shared_def)
  show "run rt (exchange ps n y x t) 3 (start (exchange ps n y x t) args h)
      = Returned (Some (rt_load rt n t h, t)) (rt_store rt n (rt_move rt n (v, t)) h)"
    using assms n by (simp add: exchange_def evaluate_three_steps constant_of_def)
  show "run rt (snd (propagate_constants (exchange ps n y x t))) 3 (start (exchange ps n y x t) args h)
      = Returned (Some (v, t)) (rt_store rt n (rt_move rt n (v, t)) h)"
    unfolding propagate_blocks exchange_constants [OF assms(4,5) n(1) assms(2)]
    using assms n by (simp add: exchange_def evaluate_three_steps constant_of_def)
qed

text \<open>A runtime with one captured variable, the world, and closures that copy it.\<close>

definition capture_runtime :: "(nat, nat) runtime" where
  "capture_runtime = sample_runtime
     \<lparr>rt_captured := (\<lambda>n. n = ''n$0''), rt_const := (\<lambda>x t h. (if x = ''lambda_0'' then h else length x, h))\<rparr>"

lemma capture_runtime_facts:
  "rt_captured capture_runtime ''n$0''" "\<not> is_global ''n$0''" "\<not> is_shared capture_runtime ''y$1''"
  "constant_of capture_runtime ''5'' t 1" "rt_read capture_runtime n t (rt_move capture_runtime n (w, t)) = w"
  by (simp_all add: capture_runtime_def sample_runtime_def constant_of_def is_shared_def is_global_def starts_with_def)

theorem propagation_ignores_captures_witness:
  "run capture_runtime (exchange [''__env''] ''n$0'' ''y$1'' ''5'' TyInt32) 3
     (start (exchange [''__env''] ''n$0'' ''y$1'' ''5'' TyInt32) Map.empty 7) = Returned (Some (7, TyInt32)) 1 \<and>
   run capture_runtime (snd (propagate_constants (exchange [''__env''] ''n$0'' ''y$1'' ''5'' TyInt32))) 3
     (start (exchange [''__env''] ''n$0'' ''y$1'' ''5'' TyInt32) Map.empty 7) = Returned (Some (1, TyInt32)) 1"
  using propagation_ignores_captures [where rt = capture_runtime and ps = "[''__env'']" and args = Map.empty and h = 7,
      OF capture_runtime_facts(1-3) _ _ capture_runtime_facts(4,5)]
  by (simp add: capture_runtime_def sample_runtime_def)

text \<open>
  Property C35: the pass moves the evaluation of a constant to the uses of its variable, where a
  lambda makes another closure, of the environment as it is then. After the pass, a function that
  makes a closure, sets a variable the closure captures and returns the closure makes a second
  closure after the assignment, and returns that one, whatever the names and the lambda are.
\<close>

theorem propagation_moves_closures:
  assumes "\<not> is_shared rt k" "rt_captured rt n" "\<not> is_global n" "n \<notin> set ps" "k \<notin> set ps"
    and "constant_of rt x t w" "\<And>v. rt_read rt k u (rt_move rt k (v, u)) = v"
    and "rt_const rt c u h = (v1, h1)" "rt_const rt c u (rt_store rt n (rt_move rt n (w, t)) h1) = (v2, h2)"
  shows "run rt (late_closure ps k c u n x t) 3 (start (late_closure ps k c u n x t) args h)
      = Returned (Some (v1, u)) (rt_store rt n (rt_move rt n (w, t)) h1) \<and>
    run rt (snd (propagate_constants (late_closure ps k c u n x t))) 3 (start (late_closure ps k c u n x t) args h)
      = Returned (Some (v2, u)) h2"
proof
  have n: "k \<noteq> n" "is_shared rt n" "\<not> is_global k" using assms(1,2) by (auto simp: is_shared_def)
  show "run rt (late_closure ps k c u n x t) 3 (start (late_closure ps k c u n x t) args h)
      = Returned (Some (v1, u)) (rt_store rt n (rt_move rt n (w, t)) h1)"
    using assms n by (simp add: late_closure_def evaluate_three_steps constant_of_def)
  show "run rt (snd (propagate_constants (late_closure ps k c u n x t))) 3 (start (late_closure ps k c u n x t) args h)
      = Returned (Some (v2, u)) h2"
    unfolding propagate_blocks late_closure_constants [OF assms(4,5) n(1) assms(3) n(3)]
    using assms n by (simp add: late_closure_def evaluate_three_steps constant_of_def)
qed

definition closure_type :: TejxType where
  "closure_type = TyFunction [] TyInt32"

theorem propagation_moves_closures_witness:
  "run capture_runtime (late_closure [] ''y$1'' ''lambda_0'' closure_type ''n$0'' ''5'' TyInt32) 3
     (start (late_closure [] ''y$1'' ''lambda_0'' closure_type ''n$0'' ''5'' TyInt32) Map.empty 7)
     = Returned (Some (7, closure_type)) 1 \<and>
   run capture_runtime (snd (propagate_constants (late_closure [] ''y$1'' ''lambda_0'' closure_type ''n$0'' ''5'' TyInt32))) 3
     (start (late_closure [] ''y$1'' ''lambda_0'' closure_type ''n$0'' ''5'' TyInt32) Map.empty 7)
     = Returned (Some (1, closure_type)) 1"
  by (rule conjE [OF propagation_moves_closures [where rt = capture_runtime and args = Map.empty and h = 7
        and ps = "[]" and c = "''lambda_0''" and u = closure_type and ?v1.0 = 7 and ?h1.0 = 7 and ?v2.0 = 1 and ?h2.0 = 1,
        OF capture_runtime_facts(3,1,2) _ _ capture_runtime_facts(4,5)]])
    (simp_all add: capture_runtime_def sample_runtime_def)

section \<open>Dead code\<close>

definition before_terminator :: "MIRFunction \<Rightarrow> ('v, 'h) state \<Rightarrow> bool" where
  "before_terminator f s \<longleftrightarrow>
     (st_block s < length (mf_blocks f) \<longrightarrow>
       (let is = bb_instructions (mf_blocks f ! st_block s)
        in st_pc s < length (truncate_block is) \<or> truncate_block is = is))"

lemma truncate_Nil [simp]: "truncate_block is = [] \<longleftrightarrow> is = []"
  by (cases "is") auto

lemma truncate_prefix:
  "k < length (truncate_block is) \<Longrightarrow> truncate_block is ! k = is ! k \<and> k < length is \<and>
     (Suc k < length (truncate_block is) \<or> truncate_block is = is \<or> is_terminator (is ! k))"
proof (induction "is" arbitrary: k)
  case (Cons i "is")
  then show ?case by (cases k) (auto split: if_splits)
qed simp

lemma truncate_nonempty: "0 < length (truncate_block is) \<or> truncate_block is = is"
  by (cases "is") auto

text \<open>A terminator never goes on to the next instruction.\<close>

definition pc_moves :: "bool \<Rightarrow> ('v, 'h) state \<Rightarrow> ('v, 'h) result \<Rightarrow> bool" where
  "pc_moves stops s r \<longleftrightarrow>
     (\<forall>s'. r = Running s' \<longrightarrow>
        st_pc s' = 0 \<or> (\<not> stops \<and> st_pc s' = Suc (st_pc s) \<and> st_block s' = st_block s))"

lemma pc_moves_simps [simp]:
  "pc_moves b s (goto k s)" "pc_moves b s (Returned vo h)" "pc_moves b s (Thrown e h)"
  "pc_moves False s (next_inst (write_dst rt d v s))"
  "pc_moves b (s\<lparr>st_heap := h\<rparr>) r = pc_moves b s r"
  by (auto simp: pc_moves_def goto_def next_inst_def write_dst_def split: option.splits)

lemma pc_moves_raise [simp]: "pc_moves b s (raise rt e s)"
  by (auto simp: raise_def goto_def pc_moves_def split: prod.splits option.splits)

lemma pc_moves_finish [simp]: "pc_moves False s (finish_inst rt d r s)"
  by (cases r) (simp_all add: finish_inst_def)

lemma pc_moves_prim: "pc_moves False s (case rt_prim rt i vs h of (r, h') \<Rightarrow> finish_inst rt d r (s\<lparr>st_heap := h'\<rparr>))"
proof -
  have "pc_moves False s (finish_inst rt d r (s\<lparr>st_heap := h'\<rparr>))" for r h'
    using pc_moves_finish [where s = "s\<lparr>st_heap := h'\<rparr>" and rt = rt and d = d and r = r] unfolding pc_moves_simps(5) .
  then show ?thesis by (auto split: prod.splits)
qed

lemma exec_pc: "pc_moves (is_terminator i) s (exec_inst rt i vs s)"
  by (cases i) (simp_all add: exec_inst_def is_terminator_def pc_moves_prim)

lemma dead_code_blocks: "snd (eliminate_dead_code f) = map_blocks truncate_block f"
  by (simp add: eliminate_dead_code_def)

lemma dead_code_step:
  assumes "before_terminator f s"
  shows "step rt (snd (eliminate_dead_code f)) s = step rt f s"
proof (cases "st_block s < length (mf_blocks f)")
  case True
  define ins where "ins = bb_instructions (mf_blocks f ! st_block s)"
  have "st_pc s < length (truncate_block ins) \<or> truncate_block ins = ins"
    using assms True by (simp add: before_terminator_def ins_def Let_def)
  then consider "truncate_block ins = ins" | "st_pc s < length (truncate_block ins)" by blast
  then show ?thesis
  proof cases
    case 1
    with True show ?thesis by (simp add: dead_code_blocks step_def ins_def Let_def)
  next
    case 2
    with truncate_prefix [OF 2] True show ?thesis by (simp add: dead_code_blocks step_def ins_def Let_def)
  qed
qed (simp add: dead_code_blocks step_def)

lemma before_terminator_0: "st_pc s = 0 \<Longrightarrow> before_terminator f s"
  using truncate_nonempty by (auto simp: before_terminator_def Let_def)

lemma dead_code_inv:
  assumes "before_terminator f s" "step rt f s = Running s'"
  shows "before_terminator f s'"
proof -
  have "step rt f s \<noteq> Stuck" using assms(2) by simp
  then show ?thesis
  proof (cases rule: step_cases)
    case (inst b i vs h)
    have "pc_moves (is_terminator i) s (Running s')"
      using exec_pc [of i "s\<lparr>st_heap := h\<rparr>" rt vs] inst(6) assms(2) by simp
    then consider "st_pc s' = 0" | "\<not> is_terminator i" "st_pc s' = Suc (st_pc s)" "st_block s' = st_block s"
      by (auto simp: pc_moves_def)
    then show ?thesis
    proof cases
      case 2
      show ?thesis
        using assms(1) 2 inst truncate_prefix [of "st_pc s" "bb_instructions b"]
        by (auto simp: before_terminator_def Let_def)
    qed (rule before_terminator_0)
  next
    case fall
    then have "st_pc s' = 0" using assms(2) by (auto simp: goto_def split: if_splits)
    then show ?thesis by (rule before_terminator_0)
  qed
qed

interpretation dead_code: lockstep_exact "step rt f" "step rt (snd (eliminate_dead_code f))" "before_terminator f"
  for rt :: "('v, 'h) runtime" and f
  by unfold_locales (auto simp: dead_code_step dead_code_inv)

text \<open>
  Property C8: dropping what follows a terminator changes no run at all: from the start of a call
  the rewritten function makes exactly the steps of the function, stuck states included.
\<close>

theorem dead_code_keeps_runs:
  "run rt (snd (eliminate_dead_code f)) n (start f args h) = run rt f n (start f args h)"
  unfolding run_def by (rule dead_code.iterate_equal) (simp add: before_terminator_0 start_def)

section \<open>Folding against fixed-width arithmetic\<close>

text \<open>The value a \<open>w\<close>-bit signed integer has after wrapping.\<close>

definition wrap_int :: "nat \<Rightarrow> int \<Rightarrow> int" where
  "wrap_int w x = (x + 2 ^ (w - 1)) mod 2 ^ w - 2 ^ (w - 1)"

lemma wrap_i64_eq: "wrap_i64 x = wrap_int 64 x"
  by (simp add: wrap_i64_def wrap_int_def)

lemma wrap_int_cong: "x mod 2 ^ w = y mod 2 ^ w \<Longrightarrow> wrap_int w x = wrap_int w y"
  unfolding wrap_int_def by (metis mod_add_left_eq)

lemma wrap_int_mod: "wrap_int w x mod 2 ^ w = x mod 2 ^ w"
  by (simp add: wrap_int_def mod_diff_left_eq)

lemma wrap_int_wider:
  assumes "w \<le> v"
  shows "wrap_int w (wrap_int v x) = wrap_int w x"
proof (rule wrap_int_cong)
  have d: "(2 :: int) ^ w dvd 2 ^ v" using assms by (rule le_imp_power_dvd)
  have "wrap_int v x mod 2 ^ v mod 2 ^ w = x mod 2 ^ v mod 2 ^ w" by (simp add: wrap_int_mod)
  then show "wrap_int v x mod 2 ^ w = x mod 2 ^ w" by (simp add: mod_mod_cancel [OF d])
qed

definition ring_op :: "TokenType \<Rightarrow> int \<Rightarrow> int \<Rightarrow> int" where
  "ring_op op l r = (case op of TkPlus \<Rightarrow> l + r | TkMinus \<Rightarrow> l - r | _ \<Rightarrow> l * r)"

text \<open>
  Property C14: sums, differences and products folded at 64 bits are right at every width up to
  that: wrapped to the width of the operation, the folded constant is the result of the operation
  on the wrapped operands, so overflow at compile time is overflow at run time.
\<close>

theorem fold_ring_width:
  assumes "op \<in> {TkPlus, TkMinus, TkStar}" "w \<le> 64"
  shows "\<exists>v. fold_i64 op l r = Done (Some v) \<and>
    wrap_int w v = wrap_int w (ring_op op (wrap_int w l) (wrap_int w r))"
proof -
  have "fold_i64 op l r = Done (Some (wrap_int 64 (ring_op op l r)))"
    using assms(1) by (auto simp: fold_i64_def ring_op_def wrap_i64_eq)
  moreover have "wrap_int w (ring_op op l r) = wrap_int w (ring_op op (wrap_int w l) (wrap_int w r))"
  proof (rule wrap_int_cong)
    show "ring_op op l r mod 2 ^ w = ring_op op (wrap_int w l) (wrap_int w r) mod 2 ^ w"
      using assms(1) mod_add_cong [OF wrap_int_mod wrap_int_mod, of w l r]
        mod_diff_cong [OF wrap_int_mod wrap_int_mod, of w l r]
        mod_mult_cong [OF wrap_int_mod wrap_int_mod, of w l r]
      by (auto simp: ring_op_def)
  qed
  ultimately show ?thesis using wrap_int_wider [OF assms(2)] by simp
qed

theorem fold_ring_width_witness:
  "\<exists>v. fold_i64 TkPlus 2147483647 1 = Done (Some v) \<and>
    wrap_int 32 v = wrap_int 32 (ring_op TkPlus (wrap_int 32 2147483647) (wrap_int 32 1))"
  by (rule fold_ring_width) simp_all

lemma digit_chars:
  "char_of (48::nat) = CHR ''0''" "char_of (49::nat) = CHR ''1''" "char_of (50::nat) = CHR ''2''"
  "char_of (51::nat) = CHR ''3''" "char_of (52::nat) = CHR ''4''" "char_of (53::nat) = CHR ''5''"
  "char_of (54::nat) = CHR ''6''" "char_of (55::nat) = CHR ''7''" "char_of (56::nat) = CHR ''8''"
  "char_of (57::nat) = CHR ''9''"
  by code_simp+

lemma wrap_int_overflow:
  assumes "0 < w" "- (2 ^ (w - 1)) \<le> l" "l < 2 ^ (w - 1)" "- (2 ^ (w - 1)) \<le> r" "r < 2 ^ (w - 1)"
  shows "2 ^ (w - 1) \<le> l + r \<Longrightarrow> wrap_int w (l + r) = l + r - 2 ^ w"
    "l + r < - (2 ^ (w - 1)) \<Longrightarrow> wrap_int w (l + r) = l + r + 2 ^ w"
    "- (2 ^ (w - 1)) \<le> l + r \<Longrightarrow> l + r < 2 ^ (w - 1) \<Longrightarrow> wrap_int w (l + r) = l + r"
proof -
  have w: "(2 :: int) ^ w = 2 * 2 ^ (w - 1)" using assms(1) by (cases w) simp_all
  have m: "(x + 2 ^ (w - 1)) mod 2 ^ w = x + 2 ^ (w - 1) - k * 2 ^ w"
    if "0 \<le> x + 2 ^ (w - 1) - k * 2 ^ w" "x + 2 ^ (w - 1) - k * 2 ^ w < 2 ^ w" for x k :: int
    using mod_pos_pos_trivial [OF that] by (metis minus_mod_self2 mod_mult_self4 mult.commute diff_add_cancel mod_mult_self1)
  show "2 ^ (w - 1) \<le> l + r \<Longrightarrow> wrap_int w (l + r) = l + r - 2 ^ w"
    using m [of "l + r" 1] assms w unfolding wrap_int_def by simp
  show "l + r < - (2 ^ (w - 1)) \<Longrightarrow> wrap_int w (l + r) = l + r + 2 ^ w"
    using m [of "l + r" "-1"] assms w unfolding wrap_int_def by simp
  show "- (2 ^ (w - 1)) \<le> l + r \<Longrightarrow> l + r < 2 ^ (w - 1) \<Longrightarrow> wrap_int w (l + r) = l + r"
    using m [of "l + r" 0] assms w unfolding wrap_int_def by simp
qed

lemma sdiv_pos: "0 < d \<Longrightarrow> (x :: int) sdiv d = (if 0 \<le> x then x div d else - (- x div d))"
  by (auto simp: signed_divide_int_def sgn_if)

text \<open>The values of a \<open>w\<close>-bit signed type.\<close>

definition signed_range :: "nat \<Rightarrow> int set" where
  "signed_range w = {- (2 ^ (w - 1)) ..< 2 ^ (w - 1)}"

lemma overflowed_quotient:
  assumes "0 < w" "l \<in> signed_range w" "r \<in> signed_range w" "l + r \<notin> signed_range w" "2 \<le> d" "d \<in> signed_range w"
  shows "(l + r) sdiv d \<in> signed_range w \<and> wrap_int w (l + r) sdiv d \<noteq> (l + r) sdiv d"
proof -
  define B where "B = (2 :: int) ^ (w - 1)"
  have w: "(2 :: int) ^ w = 2 * B" using assms(1) by (cases w) (simp_all add: B_def)
  have range: "x \<in> signed_range w \<longleftrightarrow> - B \<le> x \<and> x < B" for x by (simp add: signed_range_def B_def)
  have B: "- B \<le> l" "l < B" "- B \<le> r" "r < B" "d < B" "B \<le> l + r \<or> l + r < - B"
    using assms by (auto simp: signed_range_def B_def)
  note o = wrap_int_overflow [OF assms(1), of l r, folded B_def, OF B(1-4), unfolded w]
  from B(6) show ?thesis
  proof
    assume h: "B \<le> l + r"
    have "1 \<le> (l + r) div d" using h B(5) assms(5) by (simp add: int_one_le_iff_zero_less pos_imp_zdiv_pos_iff)
    moreover have "(l + r) div d \<le> (l + r) div 2" using h assms(5) B(5) by (intro zdiv_mono2) auto
    moreover have "0 \<le> - (l + r - 2 * B) div d" using B assms(5) by (simp add: pos_imp_zdiv_nonneg_iff)
    moreover have "(l + r) div 2 < B" using B by linarith
    ultimately show ?thesis using h B assms(5) o(1) by (auto simp: sdiv_pos range)
  next
    assume h: "l + r < - B"
    have "1 \<le> - (l + r) div d" using h B(5) assms(5) by (simp add: int_one_le_iff_zero_less pos_imp_zdiv_pos_iff)
    moreover have "- (l + r) div d \<le> - (l + r) div 2" using h assms(5) B(5) by (intro zdiv_mono2) auto
    moreover have "0 \<le> (l + r + 2 * B) div d" using B assms(5) by (simp add: pos_imp_zdiv_nonneg_iff)
    moreover have "- (l + r) div 2 \<le> B" using B by linarith
    ultimately show ?thesis using h B assms(5) o(2) by (auto simp: sdiv_pos range)
  qed
qed

text \<open>
  Property C15: division is where the widths differ. Whenever the sum of two constants of a signed
  type of less than 64 bits overflows, folding keeps the sum at 64 bits, and folding its quotient
  by a constant of at least two gives another number than dividing the wrapped sum, although that
  number fits the type.
\<close>

theorem fold_division_width:
  assumes "0 < w" "w < 64" "is_numeric t"
    and "l \<in> signed_range w" "r \<in> signed_range w" "l + r \<notin> signed_range w" "2 \<le> d" "d \<in> signed_range w"
  shows "fold_instruction (MBinaryOp a (MConstant (int_to_string l) t) TkPlus (MConstant (int_to_string r) t) t k)
      = Done (True, MMove a (MConstant (int_to_string (l + r)) t) k) \<and>
    fold_instruction (MBinaryOp b (MConstant (int_to_string (l + r)) t) TkSlash (MConstant (int_to_string d) t) t k')
      = Done (True, MMove b (MConstant (int_to_string ((l + r) sdiv d)) t) k') \<and>
    (l + r) sdiv d \<in> signed_range w \<and> wrap_int w (l + r) sdiv d \<noteq> (l + r) sdiv d"
proof -
  have p: "(2 :: int) ^ (w - 1) \<le> 2 ^ 62" using assms(2) by (intro power_increasing) auto
  have n: "parse_i64 (int_to_string x) = Some x" if "- (2 ^ 63) \<le> x" "x < 2 ^ 63" for x
    by (rule parse_i64_to_string) (use that in simp_all)
  have i: "- (2 ^ 63) \<le> x" "x < 2 ^ 63" if "x \<in> {l, r, d, l + r}" for x
    using assms(4,5,8) p that by (auto simp: signed_range_def)
  have "wrap_i64 (l + r) = l + r" using i [of "l + r"] by (simp add: wrap_i64_def)
  then have "fold_instruction (MBinaryOp a (MConstant (int_to_string l) t) TkPlus (MConstant (int_to_string r) t) t k)
      = Done (True, MMove a (MConstant (int_to_string (l + r)) t) k)"
    using assms(3) n [OF i] by (simp add: fold_instruction_def fold_text_def fold_i64_def)
  moreover have "fold_instruction (MBinaryOp b (MConstant (int_to_string (l + r)) t) TkSlash (MConstant (int_to_string d) t) t k')
      = Done (True, MMove b (MConstant (int_to_string ((l + r) sdiv d)) t) k')"
    using assms(3,7) n [OF i] by (simp add: fold_instruction_def fold_text_def fold_i64_def)
  ultimately show ?thesis using overflowed_quotient [OF assms(1,4-8)] by simp
qed

theorem fold_division_width_witness:
  "fold_instruction (MBinaryOp ''b'' (MConstant (int_to_string 2147483648) TyInt32) TkSlash (MConstant (int_to_string 2) TyInt32) TyInt32 2)
     = Done (True, MMove ''b'' (MConstant (int_to_string 1073741824) TyInt32) 2) \<and> wrap_int 32 2147483648 sdiv 2 \<noteq> 1073741824"
  using fold_division_width [of 32 TyInt32 2147483647 1 2 "''a''" 1 "''b''" 2]
  by (simp add: is_numeric_def signed_range_def signed_divide_int_def)
text \<open>
  Note: constants of a floating-point type whose texts are integers, as the texts of folded
  results are, are divided as integers: \<open>7 / 2\<close> at \<open>float64\<close> becomes \<open>3\<close>.
\<close>

theorem fold_float_as_int:
  "fold_instruction (MBinaryOp ''a'' (MConstant ''7'' TyFloat64) TkSlash (MConstant ''2'' TyFloat64) TyFloat64 1)
     = Done (True, MMove ''a'' (MConstant ''3'' TyFloat64) 1)"
proof -
  have p: "parse_i64 ''7'' = Some 7" "parse_i64 ''2'' = Some 2"
    by (simp_all add: parse_i64_def strip_plus_def all_digits_def digits_value_def str_simps Let_def)
  have t: "int_to_string 3 = ''3''" by (simp add: int_to_string_def nat_to_string.simps digit_char_def digit_chars)
  show ?thesis
    by (simp add: fold_instruction_def fold_text_def is_numeric_def p t fold_i64_def signed_divide_int_def)
qed

end
