(* ===== verification/MirLowerSem.thy ===== *)
theory MirLowerSem
  imports MirLowerTotal MirSem
begin

text \<open>
  What the lowering means on the machine of \<open>MirSem\<close>: control stays at the instructions of the
  function, and two programs whose \<open>finally\<close> block runs the wrong number of times.
\<close>

section \<open>Control\<close>

text \<open>A state that is at an instruction of an ended block.\<close>

definition control_ok :: "MIRFunction \<Rightarrow> ('v, 'h) state \<Rightarrow> bool" where
  "control_ok f s \<longleftrightarrow>
     target_ok (mf_blocks f) (st_block s) \<and> st_pc s < length (bb_instructions (mf_blocks f ! st_block s))"

text \<open>The runtime resumes at a handler, which is an ended block of the function.\<close>

definition raises_to_targets :: "('v, 'h) runtime \<Rightarrow> MIRFunction \<Rightarrow> bool" where
  "raises_to_targets rt f \<longleftrightarrow> (\<forall>e h k h'. rt_raise rt e h = (Some k, h') \<longrightarrow> target_ok (mf_blocks f) k)"

lemma control_goto: "target_ok (mf_blocks f) t \<Longrightarrow> goto t s = Running s' \<Longrightarrow> control_ok f s'"
  by (auto simp: goto_def control_ok_def target_ok_def block_ended_def)

lemma control_raise:
  "raises_to_targets rt f \<Longrightarrow> raise rt e s = Running s' \<Longrightarrow> control_ok f s'"
  unfolding raise_def raises_to_targets_def by (auto dest!: control_goto split: prod.splits option.splits)

text \<open>An instruction that does not end its block is not its last one.\<close>

lemma control_next:
  fixes s s' :: "('v, 'h) state"
  assumes "well_formed f" "control_ok f s" "\<not> ends_block (bb_instructions (mf_blocks f ! st_block s) ! st_pc s)"
    and "st_block s' = st_block s" "st_pc s' = Suc (st_pc s)"
  shows "control_ok f s'"
proof -
  let ?is = "bb_instructions (mf_blocks f ! st_block s)"
  have "ends_block (last ?is)" "st_pc s < length ?is"
    using assms(2) by (auto simp: control_ok_def target_ok_def block_ended_def)
  then have "Suc (st_pc s) < length ?is"
    using assms(3) by (metis Suc_lessI diff_Suc_1 last_conv_nth length_0_conv not_less_zero)
  with assms(2,4,5) show ?thesis by (simp add: control_ok_def)
qed

lemma next_write: "next_inst (write_dst rt d v s) = Running s' \<Longrightarrow> st_block s' = st_block s \<and> st_pc s' = Suc (st_pc s)"
  by (auto simp: next_inst_def write_dst_def split: option.splits if_splits)

lemma control_finish:
  fixes s s0 s' :: "('v, 'h) state"
  assumes "well_formed f" "control_ok f s" "raises_to_targets rt f"
    and "\<not> ends_block (bb_instructions (mf_blocks f ! st_block s) ! st_pc s)"
    and "st_block s0 = st_block s" "st_pc s0 = st_pc s" "finish_inst rt d r s0 = Running s'"
  shows "control_ok f s'"
proof (cases r)
  case (Inr v)
  with assms(7) have "st_block s' = st_block s0 \<and> st_pc s' = Suc (st_pc s0)"
    by (auto simp: finish_inst_def dest: next_write)
  with control_next [OF assms(1,2,4)] assms(5,6) show ?thesis by simp
qed (use control_raise [OF assms(3)] assms(7) in \<open>simp add: finish_inst_def\<close>)

lemma exec_finishes:
  assumes "\<not> ends_block i" "exec_inst rt i vs s = Running s'"
  shows "\<exists>s0 d r. st_block s0 = st_block s \<and> st_pc s0 = st_pc s \<and> finish_inst rt d r s0 = Running s'"
proof -
  have "finish_inst rt d (Inr v) s0 = next_inst (write_dst rt d v s0)" for d v s0
    by (simp add: finish_inst_def)
  then have move: "\<exists>d r. finish_inst rt d r s = Running s'" if "next_inst (write_dst rt d v s) = Running s'" for d v
    using that by metis
  have prim: "st_block (s\<lparr>st_heap := h\<rparr>) = st_block s \<and> st_pc (s\<lparr>st_heap := h\<rparr>) = st_pc s" for h
    by simp
  show ?thesis
    using assms move prim
    by (cases i) (force simp: exec_inst_def ends_block_def is_terminator_def split: prod.splits)+
qed

lemma control_step:
  assumes "well_formed f" "raises_to_targets rt f" "control_ok f s" "step rt f s = Running s'"
  shows "control_ok f s'"
proof -
  let ?b = "mf_blocks f ! st_block s"
  define i where "i = bb_instructions ?b ! st_pc s"
  have b: "?b \<in> set (mf_blocks f)" "st_pc s < length (bb_instructions ?b)" "st_block s < length (mf_blocks f)"
    using assms(3) by (auto simp: control_ok_def target_ok_def)
  then have i: "i \<in> set (bb_instructions ?b)" by (simp add: i_def)
  have "block_ok (target_ok (mf_blocks f)) ?b" using assms(1) b(1) by (simp add: well_formed_def)
  with i have targets: "\<forall>t \<in> set (inst_targets i). target_ok (mf_blocks f) t" unfolding block_ok_def by blast
  obtain vs h where e: "exec_inst rt i vs (s\<lparr>st_heap := h\<rparr>) = Running s'"
    using assms(4) b by (auto simp: step_def Let_def i_def split: option.splits dest!: eval_values_state)
  define s1 where "s1 = s\<lparr>st_heap := h\<rparr>"
  have s1: "st_block s1 = st_block s" "st_pc s1 = st_pc s" by (simp_all add: s1_def)
  note e = e [folded s1_def]
  show ?thesis
  proof (cases "ends_block i")
    case True
    then show ?thesis
      using e targets control_goto control_raise [OF assms(2)]
      by (cases i) (auto simp: exec_inst_def ends_block_def is_terminator_def inst_targets_def split: if_splits)
  next
    case False
    obtain s0 d r where "st_block s0 = st_block s" "st_pc s0 = st_pc s" "finish_inst rt d r s0 = Running s'"
      using exec_finishes [OF False e] s1 by auto
    then show ?thesis by (rule control_finish [OF assms(1,3,2) False [unfolded i_def]])
  qed
qed

lemma control_run:
  assumes "well_formed f" "raises_to_targets rt f" "control_ok f s" "run rt f n s = Running s'"
  shows "control_ok f s'"
  using assms(3,4)
proof (induction n arbitrary: s)
  case (Suc n)
  then show ?case
    using control_step [OF assms(1,2)] by (auto simp: run_def split: result.splits)
qed (simp add: run_def)

lemma control_start: "well_formed f \<Longrightarrow> control_ok f (start f args h)"
  by (auto simp: control_ok_def start_def well_formed_def target_ok_def block_ended_def)

section \<open>Running a lowered function\<close>

text \<open>The fuel in a form that can be evaluated.\<close>

lemma lower_statement_numeral:
  "lower_statement (numeral k) st =
     pbind (modify (\<lambda>s. s\<lparr>lo_line := hstmt_line st\<rparr>)) (\<lambda>_. lower_kind (pred_numeral k) st)"
  by (simp only: numeral_eq_Suc lower_statement.simps)

lemma emit_control_transfer_numeral:
  "emit_control_transfer (numeral k) t =
     (pbind (gets lo_control_finally) (\<lambda>cs.
       (case cs of
           [] \<Rightarrow> emit_transfer t
         | c # rest \<Rightarrow>
             (pbind (modify (\<lambda>s. s\<lparr>lo_control_finally := rest\<rparr>)) (\<lambda>_.
               pbind (modify (pop_throw_finally_if (cf_id c))) (\<lambda>_.
               pbind pop_handler_if_any (\<lambda>_.
               pbind (lower_statement (pred_numeral k) (finally_stmt c)) (\<lambda>_.
               pbind terminated (\<lambda>d.
               (if d then skip else emit_control_transfer (pred_numeral k) t))))))))))"
  by (simp only: numeral_eq_Suc emit_control_transfer.simps)

lemma small_numbers:
  "nat_to_string (0) = ''0''"
  "nat_to_string (Suc 0) = ''1''"
  "nat_to_string (Suc (Suc 0)) = ''2''"
  "nat_to_string (Suc (Suc (Suc 0))) = ''3''"
  "nat_to_string (Suc (Suc (Suc (Suc 0)))) = ''4''"
  "nat_to_string (Suc (Suc (Suc (Suc (Suc 0))))) = ''5''"
  "nat_to_string (Suc (Suc (Suc (Suc (Suc (Suc 0)))))) = ''6''"
  "nat_to_string (Suc (Suc (Suc (Suc (Suc (Suc (Suc 0))))))) = ''7''"
  "nat_to_string (Suc (Suc (Suc (Suc (Suc (Suc (Suc (Suc 0)))))))) = ''8''"
  "nat_to_string (Suc (Suc (Suc (Suc (Suc (Suc (Suc (Suc (Suc 0))))))))) = ''9''"
  by (simp_all add: nat_to_string.simps digit_char_def digit_chars)

text \<open>Of a sequence only the first program is evaluated.\<close>

lemma pbind_weak: "pbind m f = pbind m f"
  by (rule refl)

lemmas evaluate_lowering =
  lower_statement_numeral emit_control_transfer_numeral small_numbers
  lower_hir_def lower_function_def lowering_new_def begin_function_def function_new_def set_entry_def
  modify_def gets_def pbind_def pmap_def ret_def skip_def Let_def
  new_block_def block_new_def lo_blocks_def set_blocks_def set_block_def current_def terminated_def has_handler_def
  emit_def emit_unless_terminated_def set_line_def is_terminated_def add_instruction_def is_terminator_def
  new_temp_def put_variable_def new_scope_def pop_scope_def new_finally_id_def
  lower_expression.simps call_into_def plain_call_def raw_temp_def resolve_callee_def math_intrinsics_def
  array_mutators_def hstmt_line_def hexpr_line_def bool_const_def
  lower_if_def lower_loop_def push_loop_def pop_loop_def emit_transfer_def emit_return_statement_def
  lower_try_finally_def push_control_finally_def push_throw_finally_def pop_control_finally_if_def
  pop_throw_finally_if_def push_exception_handler_def pop_exception_handler_def pop_handler_if_any_def
  leave_protected_def finish_finally_def enter_try_def bind_exception_def move_exception_def

text \<open>A runtime that records the functions that are called.\<close>

definition call_recorder :: "(string, string list) runtime" where
  "call_recorder =
     \<lparr>rt_const = (\<lambda>x _ h. (x, h)), rt_true = (\<lambda>v. fst v = ''true''), rt_binop = (\<lambda>_ _ _ _. Inr []),
      rt_prim = (\<lambda>i _ h. (Inr [], case i of MCall _ f _ _ \<Rightarrow> h @ [f] | _ \<Rightarrow> h)), rt_raise = (\<lambda>_ h. (None, h)),
      rt_captured = (\<lambda>_. False), rt_load = (\<lambda>_ _ _. []), rt_store = (\<lambda>_ _ h. h), rt_move = (\<lambda>_ v. fst v),
      rt_read = (\<lambda>_ _ v. v)\<rparr>"

definition calls_of :: "nat \<Rightarrow> HIRStatement \<Rightarrow> string list option" where
  "calls_of n st =
     (case lower_hir st (lowering_new [] []) of
        Done (f, _) \<Rightarrow>
          (case run call_recorder f n (start f Map.empty []) of Returned _ h \<Rightarrow> Some h | _ \<Rightarrow> None)
      | _ \<Rightarrow> None)"

definition call_statement :: "string \<Rightarrow> HIRStatement" where
  "call_statement f = HExprStmt (HCall f [] TyVoid 0) 0"

lemmas evaluate_run =
  calls_of_def call_statement_def call_recorder_def run_def iterate.simps start_def step_def goto_def next_inst_def exec_inst_def
  finish_inst_def write_dst_def is_shared_def eval_value_def operands_def erase_operands_def inst_dst_def is_global_def starts_with_def map_operands_def

lemma iterate_numeral:
  "iterate st (numeral k) s = (case st s of Running s' \<Rightarrow> iterate st (pred_numeral k) s' | r \<Rightarrow> r)"
  by (simp only: numeral_eq_Suc iterate.simps)

text \<open>
  Property C27: a function that comes out of the lowering never runs off the end of a block, nor
  into a block that does not exist or is empty: as long as it runs, it is at an instruction of a
  block that ends in a terminator. The hypothesis on the runtime is that it resumes at blocks
  that are handlers.
\<close>

theorem lowered_control_safe:
  assumes "lower_hir st (lowering_new sigs flds) = Done (f, l)" "raises_to_targets rt f"
    and "run rt f n (start f args h) = Running s"
  shows "control_ok f s"
proof -
  have "well_formed f"
    using lower_hir_returns [of "lowering_new sigs flds" st] assms(1) by (auto simp: lowering_new_def)
  from control_run [OF this assms(2) control_start [OF this] assms(3)] show ?thesis .
qed

text \<open>A function that throws, and a runtime that resumes at its entry.\<close>

definition throwing :: HIRStatement where
  "throwing = HThrow (HLiteral ''boom'' TyString 0) 0"

definition resuming :: "(string, string list) runtime" where
  "resuming = call_recorder\<lparr>rt_raise := (\<lambda>e h. (Some 0, h @ [e]))\<rparr>"

definition throwing_function :: MIRFunction where
  "throwing_function = (function_new ''tejx_main'' TyVoid)
     \<lparr>mf_blocks := [\<lparr>bb_name = ''entry_0'', bb_instructions = [MThrow (MConstant ''boom'' TyString) 0],
                     bb_exception_handler = None\<rparr>]\<rparr>"

lemma lower_throwing: "\<exists>l. lower_hir throwing (lowering_new [] []) = Done (throwing_function, l)"
  by (simp add: throwing_def throwing_function_def lower_throw_def evaluate_lowering cong: pbind_weak)

lemma run_throwing:
  "\<exists>s. run resuming throwing_function 3 (start throwing_function Map.empty []) = Running s \<and>
       st_heap s = [''boom'', ''boom'', ''boom'']"
  by (simp add: throwing_function_def resuming_def evaluate_run iterate_numeral function_new_def raise_def)

theorem lowered_control_safe_witness:
  "\<exists>l s. lower_hir throwing (lowering_new [] []) = Done (throwing_function, l) \<and>
     run resuming throwing_function 3 (start throwing_function Map.empty []) = Running s \<and>
     control_ok throwing_function s"
proof -
  obtain l s where l: "lower_hir throwing (lowering_new [] []) = Done (throwing_function, l)"
    and s: "run resuming throwing_function 3 (start throwing_function Map.empty []) = Running s"
    using lower_throwing run_throwing by blast
  have r: "raises_to_targets resuming throwing_function"
    by (simp add: raises_to_targets_def resuming_def throwing_function_def target_ok_def block_ended_def
        ends_block_def is_terminator_def)
  from lowered_control_safe [OF l r s] l s show ?thesis by blast
qed

text \<open>
  Note: two ways of leaving a protected block run its \<open>finally\<close> block the wrong number of
  times. A \<open>break\<close> of a loop inside the protected block is lowered like one that leaves the
  block: the \<open>finally\<close> block runs at the \<open>break\<close> and again at the end. And the first \<open>return\<close> of
  a protected block takes the \<open>finally\<close> block off the stack: the second one, which is the one
  that is executed here, returns without running it.
\<close>

theorem finally_block_run_count:
  "calls_of 30 (HTry (HLoop (HLiteral ''true'' TyBool 0) (HBreak 0) None False 0) None (HBlock [] 0)
      (Some (call_statement ''cleanup'')) 0) = Some [''cleanup'', ''cleanup''] \<and>
   calls_of 30 (HTry (HSequenceStmt [HIfStmt (HLiteral ''false'' TyBool 0) (HReturn None 0) None 0, HReturn None 0] 0)
      None (HBlock [] 0) (Some (call_statement ''cleanup'')) 0) = Some []"
  apply (rule conjI)
  subgoal by (simp add: evaluate_lowering evaluate_run iterate_numeral cong: pbind_weak)
  subgoal by (simp add: evaluate_lowering evaluate_run iterate_numeral cong: pbind_weak)
  done

end
