(* ===== verification/Sync.thy ===== *)
theory Sync
  imports Prelude
begin

text \<open>
  \<open>runtime/core/mutex.rs\<close> and \<open>runtime/core/condition.rs\<close> with the parking of virtual threads,
  \<open>vt_park\<close> and \<open>vt_unpark\<close> of \<open>runtime/core/vthread.rs\<close>: a mutex, a condition variable and any
  number of threads. Every access to shared memory is a step of its own, except where the memory
  is only touched under one lock; the steps of the threads interleave. Memory is sequentially
  consistent: the orderings of the atomic accesses are not modelled.
\<close>

section \<open>The state\<close>

text \<open>
  \<open>TejxMutex\<close>, the shards of parked threads as one table of tokens, and \<open>ConditionData\<close>. A token
  in \<open>pk_parked\<close> stands for the thread that was suspended with it. \<open>mx_guard\<close> is the thread that
  holds \<open>wait_lock\<close>. The flags of the waiting OS threads are numbered.
\<close>

type_synonym tid = nat

record sync =
  mx_state :: bool
  mx_waiters :: "nat list"
  mx_guard :: "tid option"
  mx_granted :: nat
  pk_next :: nat
  pk_parked :: "nat set"
  pk_unparked :: "nat set"
  cv_vt_waiters :: "nat list"
  cv_os_waiters :: "nat list"
  cv_flags :: "nat set"
  cv_next_flag :: nat

definition sync_new :: sync where
  "sync_new =
     \<lparr>mx_state = False, mx_waiters = [], mx_guard = None, mx_granted = 0, pk_next = 1, pk_parked = {},
      pk_unparked = {}, cv_vt_waiters = [], cv_os_waiters = [], cv_flags = {}, cv_next_flag = 0\<rparr>"

section \<open>The positions of a thread\<close>

text \<open>In \<open>lock\<close>: the fast path, the spin loop with its round, the virtual thread's loop with its token, the OS thread's loop with its backoff.\<close>

datatype lock_pc =
    FastLoad | FastCas
  | SpinLoad nat | SpinState nat | SpinCas nat
  | NextToken | GuardWaiters nat | QueueLoad nat | QueueCas nat | QueuePush nat
  | Woken nat | TakeGrant nat | FreeLoad nat | FreeCas nat | ForgetHeld nat | Forget nat
  | OsLoad nat | OsCas nat

datatype park_pc = Park | Suspended | Parked

text \<open>Where a parked thread goes on: in \<open>lock\<close>, or in \<open>rt_Condition_wait\<close>.\<close>

datatype resume = ToLock | ToWait

datatype unlock_pc = PopWaiter | Grant nat | Unpark nat | ClearGrant | ClearState

text \<open>What follows \<open>unlock\<close>: the caller, or the waiting for a notification.\<close>

datatype after_unlock = Released | WaitToken nat | WaitFlag nat

datatype wait_pc = WaitStart | Enqueue nat | EnqueueFlag nat | SpinFlag nat

datatype notify_pc =
    NotifyVt | NotifyUnpark nat | NotifyOs | NotifyFlag nat
  | DrainVt | UnparkAll "nat list" | DrainOs | FlagAll "nat list"

text \<open>\<open>Inside\<close> is between \<open>lock\<close> and \<open>unlock\<close>; a notification remembers where it was called.\<close>

datatype pc =
    Outside
  | Inside
  | Lock lock_pc
  | Parking park_pc nat resume
  | Unlock unlock_pc after_unlock
  | Wait wait_pc
  | Notify notify_pc bool

type_synonym outcome_of_step = "(sync \<times> pc) option"

section \<open>Parking\<close>

definition vt_next_park_token :: "sync \<Rightarrow> nat \<times> sync" where
  "vt_next_park_token s = (pk_next s, s\<lparr>pk_next := pk_next s + 1\<rparr>)"

definition vt_unpark :: "nat \<Rightarrow> sync \<Rightarrow> sync" where
  "vt_unpark t s =
     (if t \<in> pk_parked s then s\<lparr>pk_parked := pk_parked s - {t}\<rparr>
      else s\<lparr>pk_unparked := pk_unparked s \<union> {t}\<rparr>)"

definition resumed :: "nat \<Rightarrow> resume \<Rightarrow> pc" where
  "resumed t r = (case r of ToLock \<Rightarrow> Lock (Woken t) | ToWait \<Rightarrow> Lock FastLoad)"

text \<open>
  \<open>vt_park\<close>, then, after the switch to the worker, the end of \<open>worker_loop\<close>: the token may have
  been unparked in the meantime. A parked thread cannot go on until it is taken from the table.
\<close>

fun park_step :: "sync \<Rightarrow> park_pc \<Rightarrow> nat \<Rightarrow> resume \<Rightarrow> outcome_of_step" where
  "park_step s Park t r =
     Some (if t \<in> pk_unparked s then (s\<lparr>pk_unparked := pk_unparked s - {t}\<rparr>, resumed t r)
           else (s, Parking Suspended t r))"
| "park_step s Suspended t r =
     Some (if t \<in> pk_unparked s then (s\<lparr>pk_unparked := pk_unparked s - {t}\<rparr>, resumed t r)
           else (s\<lparr>pk_parked := pk_parked s \<union> {t}\<rparr>, Parking Parked t r))"
| "park_step s Parked t r = (if t \<in> pk_parked s then None else Some (s, resumed t r))"

section \<open>The mutex\<close>

definition spin_rounds :: nat where
  "spin_rounds = 32"

definition backoff_next :: "nat \<Rightarrow> nat" where
  "backoff_next b = (if b < 64 then 2 * b else b)"

text \<open>\<open>compare_exchange(false, true)\<close> on the state of the mutex.\<close>

definition try_acquire :: "sync \<Rightarrow> sync option" where
  "try_acquire s = (if mx_state s then None else Some (s\<lparr>mx_state := True\<rparr>))"

fun lock_step :: "bool \<Rightarrow> tid \<Rightarrow> sync \<Rightarrow> lock_pc \<Rightarrow> outcome_of_step" where
  "lock_step vt i s FastLoad = Some (s, if mx_granted s = 0 then Lock FastCas else Lock (SpinLoad 0))"
| "lock_step vt i s FastCas =
     Some (case try_acquire s of Some s' \<Rightarrow> (s', Inside) | None \<Rightarrow> (s, Lock (SpinLoad 0)))"
| "lock_step vt i s (SpinLoad n) =
     Some (s, if spin_rounds \<le> n then Lock (if vt then NextToken else OsLoad 1)
              else if mx_granted s = 0 then Lock (SpinState n) else Lock (SpinLoad (n + 1)))"
| "lock_step vt i s (SpinState n) = Some (s, if mx_state s then Lock (SpinLoad (n + 1)) else Lock (SpinCas n))"
| "lock_step vt i s (SpinCas n) =
     Some (case try_acquire s of Some s' \<Rightarrow> (s', Inside) | None \<Rightarrow> (s, Lock (SpinLoad (n + 1))))"
| "lock_step vt i s NextToken = (let (t, s') = vt_next_park_token s in Some (s', Lock (GuardWaiters t)))"
| "lock_step vt i s (GuardWaiters t) =
     (if mx_guard s = None then Some (s\<lparr>mx_guard := Some i\<rparr>, Lock (QueueLoad t)) else None)"
| "lock_step vt i s (QueueLoad t) = Some (s, Lock (if mx_granted s = 0 then QueueCas t else QueuePush t))"
| "lock_step vt i s (QueueCas t) =
     Some (case try_acquire s of Some s' \<Rightarrow> (s'\<lparr>mx_guard := None\<rparr>, Inside) | None \<Rightarrow> (s, Lock (QueuePush t)))"
| "lock_step vt i s (QueuePush t) =
     Some (s\<lparr>mx_waiters := mx_waiters s @ [t], mx_guard := None\<rparr>, Parking Park t ToLock)"
| "lock_step vt i s (Woken t) = Some (s, Lock (if mx_granted s = t then TakeGrant t else FreeLoad t))"
| "lock_step vt i s (TakeGrant t) = Some (s\<lparr>mx_granted := 0\<rparr>, Inside)"
| "lock_step vt i s (FreeLoad t) = Some (s, Lock (if mx_granted s = 0 then FreeCas t else Forget t))"
| "lock_step vt i s (FreeCas t) =
     Some (case try_acquire s of Some s' \<Rightarrow> (s', Lock (ForgetHeld t)) | None \<Rightarrow> (s, Lock (Forget t)))"
| "lock_step vt i s (ForgetHeld t) =
     (if mx_guard s = None then Some (s\<lparr>mx_waiters := filter (\<lambda>x. x \<noteq> t) (mx_waiters s)\<rparr>, Inside) else None)"
| "lock_step vt i s (Forget t) =
     (if mx_guard s = None then Some (s\<lparr>mx_waiters := filter (\<lambda>x. x \<noteq> t) (mx_waiters s)\<rparr>, Lock NextToken) else None)"
| "lock_step vt i s (OsLoad b) = Some (s, Lock (if mx_granted s \<noteq> 0 then OsLoad (backoff_next b) else OsCas b))"
| "lock_step vt i s (OsCas b) =
     Some (case try_acquire s of Some s' \<Rightarrow> (s', Inside) | None \<Rightarrow> (s, Lock (OsLoad (backoff_next b))))"

definition continue_with :: "after_unlock \<Rightarrow> pc" where
  "continue_with k =
     (case k of Released \<Rightarrow> Outside | WaitToken t \<Rightarrow> Parking Park t ToWait | WaitFlag f \<Rightarrow> Wait (SpinFlag f))"

fun unlock_step :: "sync \<Rightarrow> unlock_pc \<Rightarrow> after_unlock \<Rightarrow> outcome_of_step" where
  "unlock_step s PopWaiter k =
     (if mx_guard s = None then
        (case mx_waiters s of
           [] \<Rightarrow> Some (s, Unlock ClearGrant k)
         | t # ts \<Rightarrow> Some (s\<lparr>mx_waiters := ts\<rparr>, Unlock (Grant t) k))
      else None)"
| "unlock_step s (Grant t) k = Some (s\<lparr>mx_granted := t\<rparr>, Unlock (Unpark t) k)"
| "unlock_step s (Unpark t) k = Some (vt_unpark t s, continue_with k)"
| "unlock_step s ClearGrant k = Some (s\<lparr>mx_granted := 0\<rparr>, Unlock ClearState k)"
| "unlock_step s ClearState k = Some (s\<lparr>mx_state := False\<rparr>, continue_with k)"

section \<open>The condition variable\<close>

fun wait_step :: "bool \<Rightarrow> sync \<Rightarrow> wait_pc \<Rightarrow> outcome_of_step" where
  "wait_step vt s WaitStart =
     (if vt then (let (t, s') = vt_next_park_token s in Some (s', Wait (Enqueue t)))
      else Some (s\<lparr>cv_next_flag := cv_next_flag s + 1\<rparr>, Wait (EnqueueFlag (cv_next_flag s))))"
| "wait_step vt s (Enqueue t) =
     Some (s\<lparr>cv_vt_waiters := cv_vt_waiters s @ [t]\<rparr>, Unlock PopWaiter (WaitToken t))"
| "wait_step vt s (EnqueueFlag f) =
     Some (s\<lparr>cv_os_waiters := cv_os_waiters s @ [f]\<rparr>, Unlock PopWaiter (WaitFlag f))"
| "wait_step vt s (SpinFlag f) = Some (s, if f \<in> cv_flags s then Lock FastLoad else Wait (SpinFlag f))"

definition return_to :: "bool \<Rightarrow> pc" where
  "return_to inside = (if inside then Inside else Outside)"

text \<open>\<open>rt_Condition_notify\<close> takes the first waiter, a virtual thread if there is one; \<open>rt_Condition_notifyAll\<close> takes them all.\<close>

fun notify_step :: "sync \<Rightarrow> notify_pc \<Rightarrow> bool \<Rightarrow> outcome_of_step" where
  "notify_step s NotifyVt b =
     Some (case cv_vt_waiters s of
             t # ts \<Rightarrow> (s\<lparr>cv_vt_waiters := ts\<rparr>, Notify (NotifyUnpark t) b)
           | [] \<Rightarrow> (s, Notify NotifyOs b))"
| "notify_step s (NotifyUnpark t) b = Some (vt_unpark t s, return_to b)"
| "notify_step s NotifyOs b =
     Some (case cv_os_waiters s of
             f # fs \<Rightarrow> (s\<lparr>cv_os_waiters := fs\<rparr>, Notify (NotifyFlag f) b)
           | [] \<Rightarrow> (s, return_to b))"
| "notify_step s (NotifyFlag f) b = Some (s\<lparr>cv_flags := cv_flags s \<union> {f}\<rparr>, return_to b)"
| "notify_step s DrainVt b = Some (s\<lparr>cv_vt_waiters := []\<rparr>, Notify (UnparkAll (cv_vt_waiters s)) b)"
| "notify_step s (UnparkAll ts) b =
     Some (case ts of t # ts \<Rightarrow> (vt_unpark t s, Notify (UnparkAll ts) b) | [] \<Rightarrow> (s, Notify DrainOs b))"
| "notify_step s DrainOs b = Some (s\<lparr>cv_os_waiters := []\<rparr>, Notify (FlagAll (cv_os_waiters s)) b)"
| "notify_step s (FlagAll fs) b =
     Some (case fs of f # fs \<Rightarrow> (s\<lparr>cv_flags := cv_flags s \<union> {f}\<rparr>, Notify (FlagAll fs) b) | [] \<Rightarrow> (s, return_to b))"

section \<open>The system\<close>

text \<open>
  A thread calls an operation, or goes on in the one it is in. It calls \<open>unlock\<close> and \<open>wait\<close> only
  with the mutex locked, and \<open>lock\<close> only without. \<open>vt i\<close> tells whether the thread is virtual.
\<close>

datatype action = GoOn | CallLock | CallUnlock | CallWait | CallNotify | CallNotifyAll

fun thread_step :: "bool \<Rightarrow> tid \<Rightarrow> sync \<Rightarrow> pc \<Rightarrow> outcome_of_step" where
  "thread_step vt i s (Lock p) = lock_step vt i s p"
| "thread_step vt i s (Parking p t r) = park_step s p t r"
| "thread_step vt i s (Unlock p k) = unlock_step s p k"
| "thread_step vt i s (Wait p) = wait_step vt s p"
| "thread_step vt i s (Notify p b) = notify_step s p b"
| "thread_step vt i s Outside = None"
| "thread_step vt i s Inside = None"

definition call :: "action \<Rightarrow> pc \<Rightarrow> pc option" where
  "call a p =
     (if a = CallLock \<and> p = Outside then Some (Lock FastLoad)
      else if a = CallUnlock \<and> p = Inside then Some (Unlock PopWaiter Released)
      else if a = CallWait \<and> p = Inside then Some (Wait WaitStart)
      else if a = CallNotify \<and> p \<in> {Outside, Inside} then Some (Notify NotifyVt (p = Inside))
      else if a = CallNotifyAll \<and> p \<in> {Outside, Inside} then Some (Notify DrainVt (p = Inside))
      else None)"

definition act :: "bool \<Rightarrow> tid \<Rightarrow> action \<Rightarrow> sync \<Rightarrow> pc \<Rightarrow> outcome_of_step" where
  "act vt i a s p = (if a = GoOn then thread_step vt i s p else map_option (\<lambda>q. (s, q)) (call a p))"

type_synonym system = "sync \<times> (tid \<Rightarrow> pc)"

definition sys_step :: "(tid \<Rightarrow> bool) \<Rightarrow> system \<Rightarrow> tid \<times> action \<Rightarrow> system option" where
  "sys_step vt c e =
     (case c of (s, pcs) \<Rightarrow> case e of (i, a) \<Rightarrow>
        map_option (\<lambda>(s', p). (s', pcs(i := p))) (act (vt i) i a s (pcs i)))"

fun run_schedule :: "(tid \<Rightarrow> bool) \<Rightarrow> system \<Rightarrow> (tid \<times> action) list \<Rightarrow> system option" where
  "run_schedule vt c [] = Some c"
| "run_schedule vt c (e # es) = (case sys_step vt c e of Some c' \<Rightarrow> run_schedule vt c' es | None \<Rightarrow> None)"

definition initial :: system where
  "initial = (sync_new, \<lambda>_. Outside)"

inductive reachable :: "(tid \<Rightarrow> bool) \<Rightarrow> system \<Rightarrow> bool" for vt where
  start: "reachable vt initial"
| step: "reachable vt c \<Longrightarrow> sys_step vt c e = Some c' \<Longrightarrow> reachable vt c'"

end
