(* ===== verification/SyncFacts.thy ===== *)
theory SyncFacts
  imports Sync
begin

text \<open>
  The invariant of the synchronization primitives over all interleavings, and mutual exclusion.
\<close>

section \<open>The invariant\<close>

text \<open>The token a thread queues for the mutex with, and the tokens of waits for a notification.\<close>

fun lock_token :: "pc \<Rightarrow> nat option" where
  "lock_token (Lock (GuardWaiters t)) = Some t"
| "lock_token (Lock (QueueLoad t)) = Some t"
| "lock_token (Lock (QueueCas t)) = Some t"
| "lock_token (Lock (QueuePush t)) = Some t"
| "lock_token (Parking p t ToLock) = Some t"
| "lock_token (Lock (Woken t)) = Some t"
| "lock_token (Lock (TakeGrant t)) = Some t"
| "lock_token _ = None"

fun wait_tokens :: "pc \<Rightarrow> nat set" where
  "wait_tokens (Wait (Enqueue t)) = {t}"
| "wait_tokens (Unlock p (WaitToken t)) = {t}"
| "wait_tokens (Parking p t ToWait) = {t}"
| "wait_tokens (Notify (NotifyUnpark t) b) = {t}"
| "wait_tokens (Notify (UnparkAll ts) b) = set ts"
| "wait_tokens _ = {}"

text \<open>The thread owns the mutex and has not begun to hand it over.\<close>

fun holds :: "pc \<Rightarrow> bool" where
  "holds Inside = True"
| "holds (Unlock (Unpark t) k) = False"
| "holds (Unlock p k) = True"
| "holds (Wait (SpinFlag f)) = False"
| "holds (Wait p) = True"
| "holds (Notify p b) = b"
| "holds _ = False"

definition queued :: "nat \<Rightarrow> pc \<Rightarrow> bool" where
  "queued t p \<longleftrightarrow> (\<exists>q. p = Parking q t ToLock)"

text \<open>A queued thread that can go on.\<close>

fun awake :: "sync \<Rightarrow> pc \<Rightarrow> bool" where
  "awake s (Parking Parked t ToLock) = (t \<notin> pk_parked s)"
| "awake s (Parking p t ToLock) = (t \<in> pk_unparked s)"
| "awake s (Lock (Woken t)) = True"
| "awake s (Lock (TakeGrant t)) = True"
| "awake s _ = False"

text \<open>The code after a wake-up without a grant.\<close>

fun unused :: "pc \<Rightarrow> bool" where
  "unused (Lock (FreeLoad t)) = True"
| "unused (Lock (FreeCas t)) = True"
| "unused (Lock (ForgetHeld t)) = True"
| "unused (Lock (Forget t)) = True"
| "unused _ = False"

fun unparking :: "pc \<Rightarrow> nat option" where
  "unparking (Unlock (Unpark t) k) = Some t"
| "unparking _ = None"

fun granting :: "pc \<Rightarrow> nat option" where
  "granting (Unlock (Grant t) k) = Some t"
| "granting _ = None"

text \<open>What holds of the shared state, of it and one thread, and of two threads.\<close>

definition shared_ok :: "sync \<Rightarrow> bool" where
  "shared_ok s \<longleftrightarrow>
     0 < pk_next s \<and> (\<forall>t \<in> pk_unparked s \<union> pk_parked s \<union> set (cv_vt_waiters s) \<union> set (mx_waiters s). t < pk_next s) \<and>
     0 \<notin> set (mx_waiters s) \<and> distinct (mx_waiters s) \<and> mx_granted s < pk_next s \<and>
     (mx_granted s \<noteq> 0 \<longrightarrow> mx_state s \<and> mx_granted s \<notin> set (mx_waiters s))"

definition token_ok :: "sync \<Rightarrow> pc \<Rightarrow> nat \<Rightarrow> bool" where
  "token_ok s p t \<longleftrightarrow>
     0 < t \<and> t < pk_next s \<and> t \<notin> set (cv_vt_waiters s) \<and> (awake s p \<longrightarrow> t = mx_granted s) \<and>
     (\<not> queued t p \<longrightarrow> t \<notin> set (mx_waiters s)) \<and>
     (\<not> queued t p \<and> \<not> awake s p \<longrightarrow> mx_granted s \<noteq> t \<and> t \<notin> pk_unparked s \<and> t \<notin> pk_parked s)"

definition thread_ok :: "sync \<Rightarrow> pc \<Rightarrow> bool" where
  "thread_ok s p \<longleftrightarrow>
     (\<forall>t. lock_token p = Some t \<longrightarrow> token_ok s p t) \<and> (\<forall>t \<in> wait_tokens p. t < pk_next s) \<and>
     (holds p \<longrightarrow> mx_state s \<and> mx_granted s = 0) \<and> \<not> unused p \<and>
     (\<forall>t. granting p = Some t \<longrightarrow> 0 < t \<and> t < pk_next s \<and> t \<notin> set (mx_waiters s)) \<and>
     (\<forall>t. unparking p = Some t \<longrightarrow> 0 < t \<and> t = mx_granted s)"

definition pair_ok :: "sync \<Rightarrow> pc \<Rightarrow> pc \<Rightarrow> bool" where
  "pair_ok s p r \<longleftrightarrow>
     \<not> (holds p \<and> holds r) \<and> (unparking p = None \<or> unparking r = None) \<and>
     (\<forall>t. lock_token r = Some t \<longrightarrow>
        lock_token p \<noteq> Some t \<and> t \<notin> wait_tokens p \<and> (granting p = Some t \<longrightarrow> queued t r) \<and>
        (unparking p = Some t \<longrightarrow> queued t r \<and> \<not> awake s r))"

definition sync_inv :: "sync \<Rightarrow> (tid \<Rightarrow> pc) \<Rightarrow> bool" where
  "sync_inv s P \<longleftrightarrow> shared_ok s \<and> (\<forall>i. thread_ok s (P i)) \<and> (\<forall>i j. i \<noteq> j \<longrightarrow> pair_ok s (P i) (P j))"

lemma sync_inv_initial: "sync_inv sync_new (\<lambda>_. Outside)"
  by (simp add: sync_inv_def shared_ok_def thread_ok_def pair_ok_def sync_new_def)

text \<open>The contract of a step, seen from the thread itself, another one, and two others.\<close>

definition keeps_inv :: "sync \<Rightarrow> pc \<Rightarrow> sync \<Rightarrow> pc \<Rightarrow> bool" where
  "keeps_inv s p s' q \<longleftrightarrow>
     (shared_ok s \<longrightarrow> thread_ok s p \<longrightarrow>
        shared_ok s' \<and> thread_ok s' q \<and>
        (\<forall>r. thread_ok s r \<longrightarrow> pair_ok s p r \<longrightarrow> pair_ok s r p \<longrightarrow>
           thread_ok s' r \<and> pair_ok s' q r \<and> pair_ok s' r q \<and>
           (\<forall>r'. pair_ok s p r' \<longrightarrow> pair_ok s r' p \<longrightarrow> thread_ok s r' \<longrightarrow> pair_ok s r r' \<longrightarrow> pair_ok s' r r')))"

lemma sync_inv_step:
  assumes "sync_inv s P" "keeps_inv s (P i) s' q"
  shows "sync_inv s' (P(i := q))"
proof -
  have i: "shared_ok s" "thread_ok s (P i)" "\<And>j. thread_ok s (P j)" "\<And>j k. j \<noteq> k \<Longrightarrow> pair_ok s (P j) (P k)"
    using assms(1) by (auto simp: sync_inv_def)
  have k: "shared_ok s'" "thread_ok s' q"
    "\<And>r. thread_ok s r \<Longrightarrow> pair_ok s (P i) r \<Longrightarrow> pair_ok s r (P i) \<Longrightarrow> thread_ok s' r \<and> pair_ok s' q r \<and> pair_ok s' r q"
    "\<And>r r'. thread_ok s r \<Longrightarrow> pair_ok s (P i) r \<Longrightarrow> pair_ok s r (P i) \<Longrightarrow> pair_ok s (P i) r' \<Longrightarrow> pair_ok s r' (P i) \<Longrightarrow>
       thread_ok s r' \<Longrightarrow> pair_ok s r r' \<Longrightarrow> pair_ok s' r r'"
    using assms(2) i(1,2) unfolding keeps_inv_def by blast+
  show ?thesis
    unfolding sync_inv_def
  proof (intro conjI allI impI)
    show "shared_ok s'" by (rule k(1))
    show "thread_ok s' ((P(i := q)) j)" for j using k(2,3) i(3,4) by (cases "j = i") auto
    show "pair_ok s' ((P(i := q)) j) ((P(i := q)) l)" if "j \<noteq> l" for j l
      using that k(3,4) i(3,4) by (cases "j = i"; cases "l = i") auto
  qed
qed

text \<open>A step that changes neither the tables nor what the invariant reads of the thread.\<close>

definition same_view :: "sync \<Rightarrow> sync \<Rightarrow> bool" where
  "same_view s s' \<longleftrightarrow>
     mx_state s' = mx_state s \<and> mx_granted s' = mx_granted s \<and> mx_waiters s' = mx_waiters s \<and>
     pk_next s' = pk_next s \<and> pk_parked s' = pk_parked s \<and> pk_unparked s' = pk_unparked s \<and> cv_vt_waiters s' = cv_vt_waiters s"

lemma awake_cong:
  "(\<And>t. lock_token r = Some t \<Longrightarrow> t \<in> pk_parked s' \<longleftrightarrow> t \<in> pk_parked s) \<Longrightarrow>
     (\<And>t. lock_token r = Some t \<Longrightarrow> t \<in> pk_unparked s' \<longleftrightarrow> t \<in> pk_unparked s) \<Longrightarrow> awake s' r = awake s r"
  by (cases "(s, r)" rule: awake.cases) auto

lemma same_view_ok:
  assumes "same_view s s'"
  shows "shared_ok s' = shared_ok s" "thread_ok s' = thread_ok s" "pair_ok s' = pair_ok s" "awake s' = awake s"
proof -
  show a: "awake s' = awake s" using assms by (intro ext awake_cong) (auto simp: same_view_def)
  show "shared_ok s' = shared_ok s" "thread_ok s' = thread_ok s" "pair_ok s' = pair_ok s"
    using assms by (auto simp: same_view_def shared_ok_def thread_ok_def token_ok_def pair_ok_def a intro!: ext)
qed

lemma keeps_silent:
  assumes "same_view s s'" "thread_ok s p \<Longrightarrow> shared_ok s \<Longrightarrow> thread_ok s q"
    and "\<And>r. thread_ok s p \<Longrightarrow> shared_ok s \<Longrightarrow> thread_ok s r \<Longrightarrow> pair_ok s p r \<Longrightarrow> pair_ok s r p \<Longrightarrow> pair_ok s q r \<and> pair_ok s r q"
  shows "keeps_inv s p s' q"
  using assms(2,3) unfolding keeps_inv_def same_view_ok [OF assms(1)] by blast

lemma queued_simps [simp]: "queued t (Lock p) = False" "queued t (Parking q u r) = (u = t \<and> r = ToLock)"
  "queued t Inside = False" "queued t Outside = False" "queued t (Unlock a k) = False" "queued t (Wait w) = False" "queued t (Notify n b) = False"
  by (auto simp: queued_def)

lemma wait_tokens_unlock [simp]: "wait_tokens (Unlock p k) = (case k of WaitToken t \<Rightarrow> {t} | _ \<Rightarrow> {})"
  by (cases k) auto

lemma keeps_invI:
  assumes "shared_ok s \<Longrightarrow> thread_ok s p \<Longrightarrow> shared_ok s'" "shared_ok s \<Longrightarrow> thread_ok s p \<Longrightarrow> thread_ok s' q"
    and "\<And>r. shared_ok s \<Longrightarrow> thread_ok s p \<Longrightarrow> thread_ok s r \<Longrightarrow> pair_ok s p r \<Longrightarrow> pair_ok s r p \<Longrightarrow> thread_ok s' r"
    and "\<And>r. shared_ok s \<Longrightarrow> thread_ok s p \<Longrightarrow> thread_ok s r \<Longrightarrow> pair_ok s p r \<Longrightarrow> pair_ok s r p \<Longrightarrow> pair_ok s' q r"
    and "\<And>r. shared_ok s \<Longrightarrow> thread_ok s p \<Longrightarrow> thread_ok s r \<Longrightarrow> pair_ok s p r \<Longrightarrow> pair_ok s r p \<Longrightarrow> pair_ok s' r q"
    and "\<And>r r'. shared_ok s \<Longrightarrow> thread_ok s p \<Longrightarrow> pair_ok s p r \<Longrightarrow> pair_ok s r p \<Longrightarrow> pair_ok s p r' \<Longrightarrow> pair_ok s r' p \<Longrightarrow>
       pair_ok s r r' \<Longrightarrow> pair_ok s' r r'"
  shows "keeps_inv s p s' q"
  using assms unfolding keeps_inv_def by blast


lemmas oks = thread_ok_def token_ok_def pair_ok_def


lemma keeps_grant: "keeps_inv s (Unlock (Grant t) k) (s\<lparr>mx_granted := t\<rparr>) (Unlock (Unpark t) k)"
proof -
  have a: "awake (s\<lparr>mx_granted := t\<rparr>) = awake s" by (intro ext awake_cong) auto
  show ?thesis
    apply (rule keeps_invI)
    subgoal by (auto simp: shared_ok_def thread_ok_def)
    subgoal by (auto simp: shared_ok_def thread_ok_def token_ok_def)
    subgoal for r by (cases "lock_token r"; cases "unparking r"; cases "granting r"; auto simp: oks a)
    subgoal for r by (cases "lock_token r"; cases "unparking r"; cases "granting r"; auto simp: oks a)
    subgoal for r by (cases "lock_token r"; cases "unparking r"; cases "granting r"; auto simp: oks a)
    subgoal for r r' by (cases "lock_token r'"; simp add: oks a)
    done
qed

lemma fresh_token:
  assumes "thread_ok s r" "shared_ok s"
  shows "lock_token r \<noteq> Some (pk_next s)" "pk_next s \<notin> wait_tokens r" "granting r \<noteq> Some (pk_next s)" "unparking r \<noteq> Some (pk_next s)"
  using assms by (auto simp: thread_ok_def token_ok_def shared_ok_def)

lemma pair_ok_cong: "awake s' = awake s \<Longrightarrow> pair_ok s' = pair_ok s"
  by (simp add: pair_ok_def fun_eq_iff)

lemma keeps_next_token:
  assumes p: "lock_token p = None" "wait_tokens p = {}" "holds q = holds p" "granting p = None" "unparking p = None"
   "granting q = None" "unparking q = None" "\<not> unused q" "\<And>s. \<not> awake s q" "\<And>t. \<not> queued t q"
   and q: "lock_token q = Some t \<and> wait_tokens q = {} \<or> lock_token q = None \<and> wait_tokens q = {t}"
   and s: "vt_next_park_token s = (t, s')"
  shows "keeps_inv s p s' q"
proof -
  have s': "t = pk_next s" "s' = s\<lparr>pk_next := Suc (pk_next s)\<rparr>" using s by (auto simp: vt_next_park_token_def)
  have a: "awake s' = awake s" by (intro ext awake_cong) (auto simp: s')
  show ?thesis
    apply (rule keeps_invI)
    subgoal by (simp add: shared_ok_def s' ball_Un less_SucI)
    subgoal premises prems using q
      apply (elim disjE conjE)
      subgoal using prems p by (auto simp: shared_ok_def thread_ok_def token_ok_def s')
      subgoal using prems p by (auto simp: shared_ok_def thread_ok_def token_ok_def s')
      done
    subgoal premises prems for r using prems(3) a by (cases "lock_token r"; cases "unparking r"; cases "granting r"; auto simp: thread_ok_def token_ok_def s' intro: less_SucI)
    subgoal premises prems for r using q
      apply (elim disjE conjE)
      using prems(4) p fresh_token [OF prems(3,1)] by (auto simp: pair_ok_def s' a)
    subgoal premises prems for r
    proof -
      have h: "\<not> (holds r \<and> holds q)" using prems(5) p(3) by (auto simp: pair_ok_def)
      show ?thesis using q
        apply (elim disjE conjE)
        using h p(7,10) fresh_token [OF prems(3,1)] by (simp_all add: pair_ok_def s'(1))
    qed
    subgoal by (simp add: pair_ok_cong [OF a])
    done
qed

lemma keeps_acquire:
  assumes p: "\<not> holds p" "granting p = None" "unparking p = None"
    and "try_acquire s = Some s0" "same_view s0 s'"
  shows "keeps_inv s p s' Inside"
proof -
  have s0: "s0 = s\<lparr>mx_state := True\<rparr>" "\<not> mx_state s" using assms(4) by (auto simp: try_acquire_def split: if_splits)
  have a: "awake (s\<lparr>mx_state := True\<rparr>) = awake s" by (intro ext awake_cong) auto
  have "keeps_inv s p s0 Inside"
    apply (rule keeps_invI)
    subgoal using s0 by (simp add: shared_ok_def)
    subgoal using s0 by (auto simp: shared_ok_def thread_ok_def)
    subgoal premises prems for r using prems(3) a s0 by (cases "lock_token r"; cases "unparking r"; cases "granting r"; auto simp: thread_ok_def token_ok_def)
    subgoal premises prems for r using prems(1,3) s0 by (auto simp: pair_ok_def thread_ok_def shared_ok_def)
    subgoal premises prems for r using prems(3) s0 by (auto simp: pair_ok_def thread_ok_def)
    subgoal using pair_ok_cong [OF a] s0(1) by simp
    done
  then show ?thesis by (simp add: keeps_inv_def same_view_ok [OF assms(5)])
qed

lemma keeps_invD: "(shared_ok s \<Longrightarrow> thread_ok s p \<Longrightarrow> keeps_inv s p s' q) \<Longrightarrow> keeps_inv s p s' q"
  by (simp add: keeps_inv_def)

lemma keeps_view: "keeps_inv s p s0 q \<Longrightarrow> same_view s0 s' \<Longrightarrow> keeps_inv s p s' q"
  by (simp add: keeps_inv_def same_view_ok)

lemma keeps_push: "keeps_inv s (Lock (QueuePush t)) (s\<lparr>mx_waiters := mx_waiters s @ [t]\<rparr>) (Parking Park t ToLock)"
proof -
  have a: "awake (s\<lparr>mx_waiters := mx_waiters s @ [t]\<rparr>) = awake s" by (intro ext awake_cong) auto
  show ?thesis
    apply (rule keeps_invI)
    subgoal by (auto simp: shared_ok_def thread_ok_def token_ok_def)
    subgoal by (auto simp: shared_ok_def thread_ok_def token_ok_def)
    subgoal for r by (cases "lock_token r"; cases "granting r"; auto simp: oks a)
    subgoal for r by (cases "lock_token r"; cases "granting r"; auto simp: oks a)
    subgoal for r by (cases "lock_token r"; cases "granting r"; auto simp: oks a)
    subgoal by (simp add: pair_ok_cong [OF a])
    done
qed

lemma keeps_take: "keeps_inv s (Lock (TakeGrant t)) (s\<lparr>mx_granted := 0\<rparr>) Inside"
proof -
  have a: "awake (s\<lparr>mx_granted := 0\<rparr>) = awake s" by (intro ext awake_cong) auto
  show ?thesis
    apply (rule keeps_invI)
    subgoal by (auto simp: shared_ok_def)
    subgoal by (auto simp: shared_ok_def thread_ok_def token_ok_def)
    subgoal for r by (cases "lock_token r"; cases "unparking r"; cases "granting r"; auto simp: oks a)
    subgoal for r by (cases "lock_token r"; cases "unparking r"; cases "granting r"; auto simp: oks a)
    subgoal for r by (cases "lock_token r"; cases "unparking r"; cases "granting r"; auto simp: oks a)
    subgoal by (simp add: pair_ok_cong [OF a])
    done
qed

definition same_role :: "sync \<Rightarrow> pc \<Rightarrow> pc \<Rightarrow> bool" where
  "same_role s p q \<longleftrightarrow>
     lock_token q \<in> {None, lock_token p} \<and> wait_tokens q \<subseteq> wait_tokens p \<and> (holds q \<longrightarrow> holds p) \<and>
     granting q = None \<and> unparking q = None \<and> \<not> unused q \<and>
     (lock_token q = None \<or> awake s q = awake s p \<and> (\<forall>t. queued t q = queued t p))"

lemma keeps_same:
  assumes "same_view s s'" "same_role s p q"
  shows "keeps_inv s p s' q"
proof (rule keeps_silent [OF assms(1)])
  show "thread_ok s q" if "thread_ok s p"
  proof (cases "lock_token q")
    case None then show ?thesis using that assms(2) by (auto simp: thread_ok_def same_role_def)
  next
    case (Some t) then show ?thesis using that assms(2) by (auto simp: thread_ok_def same_role_def token_ok_def)
  qed
  show "pair_ok s q r \<and> pair_ok s r q" if r: "pair_ok s p r" "pair_ok s r p" for r
  proof
    show "pair_ok s q r" using r(1) assms(2) by (auto simp: pair_ok_def same_role_def)
    show "pair_ok s r q" using r(2) assms(2)
      by (cases "lock_token q") (auto simp: pair_ok_def same_role_def)
  qed
qed

lemma keeps_pop:
  assumes "mx_waiters s = t # ts"
  shows "keeps_inv s (Unlock PopWaiter k) (s\<lparr>mx_waiters := ts\<rparr>) (Unlock (Grant t) k)"
proof -
  have a: "awake (s\<lparr>mx_waiters := ts\<rparr>) = awake s" by (intro ext awake_cong) auto
  show ?thesis
    apply (rule keeps_invI)
    subgoal using assms by (auto simp: shared_ok_def)
    subgoal using assms by (auto simp: shared_ok_def thread_ok_def)
    subgoal premises prems for r using prems(3) assms by (cases "lock_token r"; cases "unparking r"; cases "granting r"; auto simp: oks a)
    subgoal premises prems for r using prems(3,4) assms by (cases "lock_token r"; cases "unparking r"; cases "granting r"; auto simp: oks a)
    subgoal premises prems for r using prems(3,5) by (auto simp: pair_ok_def a)
    subgoal by (simp add: pair_ok_cong [OF a])
    done
qed

lemma keeps_unlock:
  "keeps_inv s (Unlock ClearState k) (s\<lparr>mx_state := False\<rparr>) (continue_with k)"
proof -
  have a: "awake (s\<lparr>mx_state := False\<rparr>) = awake s" by (intro ext awake_cong) auto
  have k: "same_role s (Unlock ClearState k) (continue_with k)" "\<not> holds (continue_with k)" "lock_token (continue_with k) = None"
    by (auto simp: same_role_def continue_with_def split: after_unlock.split)
  show ?thesis
    apply (rule keeps_invI)
    subgoal by (auto simp: shared_ok_def thread_ok_def)
    subgoal using k by (auto simp: shared_ok_def thread_ok_def same_role_def)
    subgoal premises prems for r using prems(3,4) by (cases "lock_token r"; cases "unparking r"; cases "granting r"; auto simp: oks a)
    subgoal premises prems for r using prems(3,4) k by (auto simp: pair_ok_def same_role_def)
    subgoal premises prems for r using prems(3,5) k by (auto simp: pair_ok_def a same_role_def)
    subgoal by (simp add: pair_ok_cong [OF a])
    done
qed

text \<open>Parking, unparking and queueing with the token of a wait.\<close>

lemma keeps_wait_tokens:
  assumes s': "mx_state s' = mx_state s" "mx_granted s' = mx_granted s" "mx_waiters s' = mx_waiters s" "pk_next s' = pk_next s"
    and D: "D \<subseteq> wait_tokens p" "pk_parked s' \<subseteq> pk_parked s \<union> D" "pk_unparked s' \<subseteq> pk_unparked s \<union> D"
      "set (cv_vt_waiters s') \<subseteq> set (cv_vt_waiters s) \<union> D" "pk_parked s - D \<subseteq> pk_parked s'" "pk_unparked s - D \<subseteq> pk_unparked s'"
    and q: "same_role s p q" "lock_token q = None"
  shows "keeps_inv s p s' q"
proof -
  have a: "awake s' r = awake s r" if "pair_ok s p r" for r
    using that D by (intro awake_cong) (auto simp: pair_ok_def)
  show ?thesis
  proof (rule keeps_invI)
    fix r r' assume t: "shared_ok s" "thread_ok s p"
    then have b: "\<forall>t \<in> D. t < pk_next s" using D(1) by (auto simp: thread_ok_def)
    show "shared_ok s'" using t(1) b D(2-4) unfolding shared_ok_def s' by blast
    show "thread_ok s' q" using t(2) q s' by (auto simp: thread_ok_def same_role_def)
    show "thread_ok s' r" if r: "thread_ok s r" "pair_ok s p r"
    proof -
      have "token_ok s' r t" if t: "lock_token r = Some t" for t
      proof -
        have "t \<notin> D" using t r(2) D(1) by (auto simp: pair_ok_def)
        moreover have "token_ok s r t" using t r(1) by (auto simp: thread_ok_def)
        ultimately show ?thesis using D(2-4) unfolding token_ok_def a [OF r(2)] s' by blast
      qed
      then show ?thesis using r(1) s' by (simp add: thread_ok_def)
    qed
    show "pair_ok s' q r" if r: "pair_ok s p r"
      using r q by (auto simp: pair_ok_def same_role_def)
    show "pair_ok s' r q" if r: "pair_ok s r p"
      using r q by (auto simp: pair_ok_def same_role_def)
    show "pair_ok s' r r'" if "pair_ok s r r'" "pair_ok s p r'"
      using that(1) a [OF that(2)] by (simp add: pair_ok_def)
  qed
qed

lemma keeps_drain:
  assumes "wait_tokens (Notify a b) = {}" "set ts \<subseteq> set (cv_vt_waiters s)" "wait_tokens (Notify a' b) \<subseteq> set (cv_vt_waiters s)"
  shows "keeps_inv s (Notify a b) (s\<lparr>cv_vt_waiters := ts\<rparr>) (Notify a' b)"
proof -
  let ?s = "s\<lparr>cv_vt_waiters := ts\<rparr>"
  have a: "awake ?s = awake s" by (intro ext awake_cong) auto
  show ?thesis
  proof (rule keeps_invI)
    fix r r' assume t: "shared_ok s" "thread_ok s (Notify a b)"
    show "shared_ok ?s" using t assms(2) by (auto simp: shared_ok_def)
    show "thread_ok ?s (Notify a' b)" using t assms(3) by (auto simp: thread_ok_def shared_ok_def)
    show "thread_ok ?s r" if r: "thread_ok s r"
      using r a assms(2) by (cases "lock_token r") (auto simp: thread_ok_def token_ok_def)
    show "pair_ok ?s (Notify a' b) r" if "pair_ok s (Notify a b) r" "thread_ok s r"
      using that assms(3) by (auto simp: pair_ok_def thread_ok_def token_ok_def)
    show "pair_ok ?s r (Notify a' b)" if "pair_ok s r (Notify a b)"
      using that by (auto simp: pair_ok_def)
    show "pair_ok ?s r r'" if "pair_ok s r r'" using that pair_ok_cong [OF a] by simp
  qed
qed

lemma vt_unpark_simps [simp]:
  "mx_state (vt_unpark t s) = mx_state s" "mx_granted (vt_unpark t s) = mx_granted s" "mx_waiters (vt_unpark t s) = mx_waiters s"
  "pk_next (vt_unpark t s) = pk_next s" "cv_vt_waiters (vt_unpark t s) = cv_vt_waiters s" "mx_guard (vt_unpark t s) = mx_guard s"
  by (simp_all add: vt_unpark_def)

lemma vt_unpark_tables:
  "pk_parked (vt_unpark t s) = pk_parked s - {t}"
  "pk_unparked (vt_unpark t s) = (if t \<in> pk_parked s then pk_unparked s else pk_unparked s \<union> {t})"
  by (auto simp: vt_unpark_def)

lemma keeps_unpark:
  "keeps_inv s (Unlock (Unpark t) k) (vt_unpark t s) (continue_with k)"
proof -
  let ?p = "Unlock (Unpark t) k"
  have a: "awake (vt_unpark t s) r = awake s r" if "lock_token r \<noteq> Some t" for r
    using that by (intro awake_cong) (auto simp: vt_unpark_tables)
  have k: "same_role s ?p (continue_with k)" "lock_token (continue_with k) = None"
    by (auto simp: same_role_def continue_with_def split: after_unlock.split)
  show ?thesis
  proof (rule keeps_invI)
    fix r r' assume t: "shared_ok s" "thread_ok s ?p"
    then have g: "t = mx_granted s" "t < pk_next s" by (auto simp: thread_ok_def shared_ok_def)
    show "shared_ok (vt_unpark t s)" using t(1) g(2) by (auto simp: shared_ok_def vt_unpark_tables)
    show "thread_ok (vt_unpark t s) (continue_with k)" using t(2) k by (auto simp: thread_ok_def same_role_def)
    show "thread_ok (vt_unpark t s) r" if r: "thread_ok s r" "pair_ok s ?p r"
    proof -
      have "token_ok (vt_unpark t s) r u" if u: "lock_token r = Some u" for u
      proof (cases "u = t")
        case True
        then have "queued u r" using u r(2) by (simp add: pair_ok_def)
        then show ?thesis using u r(1) g(1) True by (simp add: thread_ok_def token_ok_def)
      next
        case False
        have "token_ok s r u" using u r(1) by (simp add: thread_ok_def)
        then show ?thesis using False a u unfolding token_ok_def by (simp add: vt_unpark_tables)
      qed
      then show ?thesis using r(1) by (simp add: thread_ok_def)
    qed
    show "pair_ok (vt_unpark t s) (continue_with k) r" if r: "pair_ok s ?p r"
      using r k by (auto simp: pair_ok_def same_role_def)
    show "pair_ok (vt_unpark t s) r (continue_with k)" if r: "pair_ok s r ?p"
      using r k by (auto simp: pair_ok_def same_role_def)
    show "pair_ok (vt_unpark t s) r r'" if "pair_ok s r r'" "pair_ok s ?p r"
      using that by (auto simp: pair_ok_def)
  qed
qed

lemma granting_holds: "granting r = Some t \<Longrightarrow> holds r"
  by (cases r rule: granting.cases) simp_all

lemma keeps_woken:
  assumes p: "p = Parking w t ToLock" "awake s p" and s': "s' = s\<lparr>pk_unparked := pk_unparked s - {t}\<rparr> \<or> s' = s \<and> w = Parked"
  shows "keeps_inv s p s' (Lock (Woken t))"
proof -
  have v: "mx_state s' = mx_state s" "mx_granted s' = mx_granted s" "mx_waiters s' = mx_waiters s" "pk_next s' = pk_next s"
    "cv_vt_waiters s' = cv_vt_waiters s" "pk_parked s' = pk_parked s" "pk_unparked s' \<subseteq> pk_unparked s" "pk_unparked s - {t} \<subseteq> pk_unparked s'"
    using s' by auto
  have a: "awake s' r = awake s r" if "pair_ok s p r" for r
    using that v(7,8) p(1) by (intro awake_cong) (auto simp: pair_ok_def v(6))
  show ?thesis
  proof (rule keeps_invI)
    fix r r' assume t: "shared_ok s" "thread_ok s p"
    then have g: "t = mx_granted s" "0 < t" "t < pk_next s" "t \<notin> set (cv_vt_waiters s)"
      using p by (auto simp: thread_ok_def token_ok_def)
    show "shared_ok s'" using t(1) v(7) unfolding shared_ok_def v(1-6) by blast
    show "thread_ok s' (Lock (Woken t))" using t(1) g v by (auto simp: thread_ok_def token_ok_def shared_ok_def)
    show "thread_ok s' r" if r: "thread_ok s r" "pair_ok s p r"
      using r(1) a [OF r(2)] v by (cases "lock_token r") (auto simp: thread_ok_def token_ok_def)
    show "pair_ok s' (Lock (Woken t)) r" if "pair_ok s p r" "thread_ok s r"
      using that p by (auto simp: pair_ok_def)
    show "pair_ok s' r (Lock (Woken t))" if "pair_ok s r p" "thread_ok s r"
    proof -
      have "granting r \<noteq> Some t" using that(2) g granting_holds by (auto simp: thread_ok_def)
      moreover have "unparking r \<noteq> Some t" using that p g by (auto simp: pair_ok_def)
      ultimately show ?thesis using that(1) p(1) by (auto simp: pair_ok_def)
    qed
    show "pair_ok s' r r'" if "pair_ok s r r'" "pair_ok s p r'" using that(1) a [OF that(2)] by (simp add: pair_ok_def)
  qed
qed

lemma keeps_park:
  assumes "park_step s w t r = Some (s', q)"
  shows "keeps_inv s (Parking w t r) s' q"
proof (cases r)
  case ToLock
  consider (woken) "q = Lock (Woken t)" "awake s (Parking w t r)"
      "s' = s\<lparr>pk_unparked := pk_unparked s - {t}\<rparr> \<or> s' = s \<and> w = Parked"
    | (wait) "w = Park" "s' = s" "q = Parking Suspended t r"
    | (parked) "w = Suspended" "s' = s\<lparr>pk_parked := pk_parked s \<union> {t}\<rparr>" "q = Parking Parked t r" "t \<notin> pk_unparked s"
    using assms ToLock by (cases w) (auto simp: resumed_def split: if_splits)
  then show ?thesis
  proof cases
    case woken
    then show ?thesis using keeps_woken ToLock by blast
  next
    case wait
    then show ?thesis using ToLock by (intro keeps_same) (auto simp: same_view_def same_role_def)
  next
    case parked
    have a: "awake s' r = awake s r" if "lock_token r \<noteq> Some t" for r
      using that by (intro awake_cong) (auto simp: parked)
    show ?thesis
      unfolding parked(1,3) ToLock
    proof (rule keeps_invI)
      fix u u' assume o: "shared_ok s" "thread_ok s (Parking Suspended t ToLock)"
      then have g: "t < pk_next s" by (auto simp: thread_ok_def token_ok_def)
      show "shared_ok s'" using o(1) g by (auto simp: parked shared_ok_def)
      show "thread_ok s' (Parking Parked t ToLock)" using o by (auto simp: parked thread_ok_def token_ok_def)
      show "thread_ok s' u" if "thread_ok s u" "pair_ok s (Parking Suspended t ToLock) u"
        using that a [of u] by (cases "lock_token u") (auto simp: thread_ok_def token_ok_def pair_ok_def parked(2))
      show "pair_ok s' (Parking Parked t ToLock) u" if "pair_ok s (Parking Suspended t ToLock) u"
        using that by (auto simp: pair_ok_def)
      show "pair_ok s' u (Parking Parked t ToLock)" if "pair_ok s u (Parking Suspended t ToLock)"
        using that by (auto simp: pair_ok_def parked)
      show "pair_ok s' u u'" if "pair_ok s u u'" "pair_ok s (Parking Suspended t ToLock) u'"
        using that a [of u'] by (auto simp: pair_ok_def)
    qed
  qed
next
  case ToWait
  then show ?thesis using assms
    by (cases w) (auto simp: resumed_def same_role_def split: if_splits intro!: keeps_wait_tokens [where D = "{t}"])
qed

lemmas silent = keeps_same [unfolded same_view_def same_role_def]

lemma keeps_lock:
  assumes "lock_step vt i s w = Some (s', q)"
  shows "keeps_inv s (Lock w) s' q"
proof (rule keeps_invD)
  assume "shared_ok s" and t: "thread_ok s (Lock w)"
  show "keeps_inv s (Lock w) s' q"
  proof (cases w)
    case (QueuePush t)
    then show ?thesis using assms by (auto intro: keeps_view [OF keeps_push] simp: same_view_def)
  next
    case (TakeGrant t)
    then show ?thesis using assms by (auto intro: keeps_take)
  next
    case NextToken
    then show ?thesis using assms by (auto split: prod.splits intro!: keeps_next_token)
  next
    case (Woken t)
    then have "mx_granted s = t" using t by (simp add: thread_ok_def token_ok_def)
    then show ?thesis using assms Woken by (auto intro!: silent)
  next
    case FastCas
    then show ?thesis using assms
      by (cases "try_acquire s") (auto intro: keeps_acquire silent simp: same_view_def)
  next
    case (SpinCas n)
    then show ?thesis using assms by (cases "try_acquire s") (auto intro: keeps_acquire silent simp: same_view_def)
  next
    case (QueueCas n)
    then show ?thesis using assms by (cases "try_acquire s") (auto intro: keeps_acquire silent simp: same_view_def)
  next
    case (OsCas n)
    then show ?thesis using assms by (cases "try_acquire s") (auto intro: keeps_acquire silent simp: same_view_def)
  qed (use assms t in \<open>auto simp: thread_ok_def split: if_splits intro!: silent\<close>)
qed

lemma keeps_unlock_step:
  assumes "unlock_step s w k = Some (s', q)"
  shows "keeps_inv s (Unlock w k) s' q"
proof (rule keeps_invD)
  assume "shared_ok s" and t: "thread_ok s (Unlock w k)"
  show "keeps_inv s (Unlock w k) s' q"
  proof (cases w)
    case ClearGrant
    then have "mx_granted s = 0" using t by (simp add: thread_ok_def)
    then show ?thesis using assms ClearGrant by (auto intro!: silent)
  next
    case PopWaiter
    then show ?thesis using assms
      by (cases "mx_waiters s") (auto split: if_splits intro: keeps_pop silent)
  qed (use assms in \<open>auto intro: keeps_grant keeps_unpark keeps_unlock\<close>)
qed

lemma keeps_wait:
  assumes "wait_step vt s w = Some (s', q)"
  shows "keeps_inv s (Wait w) s' q"
proof (cases w)
  case WaitStart
  then show ?thesis using assms
    by (cases vt) (auto split: prod.splits if_splits intro: silent keeps_next_token)
next
  case (Enqueue t)
  then show ?thesis using assms by (auto intro!: keeps_wait_tokens [where D = "{t}"] simp: same_role_def)
qed (use assms in \<open>auto intro!: silent split: if_splits\<close>)

lemma return_to_simps [simp]:
  "lock_token (return_to b) = None" "wait_tokens (return_to b) = {}" "holds (return_to b) = b"
  "granting (return_to b) = None" "unparking (return_to b) = None" "unused (return_to b) = False"
  by (simp_all add: return_to_def)

lemma keeps_notify:
  assumes "notify_step s w b = Some (s', q)"
  shows "keeps_inv s (Notify w b) s' q"
proof (cases w)
  case NotifyVt
  show ?thesis
  proof (cases "cv_vt_waiters s")
    case Nil
    then show ?thesis using assms NotifyVt by (auto intro!: silent)
  next
    case (Cons t ts)
    then show ?thesis using assms NotifyVt by (auto intro!: keeps_drain)
  qed
next
  case (NotifyUnpark t)
  then show ?thesis using assms
    by (auto intro!: keeps_wait_tokens [where D = "{t}"] simp: same_role_def vt_unpark_tables split: if_splits)
next
  case DrainVt
  then show ?thesis using assms by (auto intro!: keeps_drain)
next
  case (UnparkAll ts)
  show ?thesis
  proof (cases ts)
    case Nil
    then show ?thesis using assms UnparkAll by (auto intro!: silent)
  next
    case (Cons t us)
    then show ?thesis using assms UnparkAll
      by (auto intro!: keeps_wait_tokens [where D = "{t}"] simp: same_role_def vt_unpark_tables split: if_splits)
  qed
qed (use assms in \<open>auto intro!: silent split: list.splits\<close>)

lemma keeps_called: "call a p = Some q \<Longrightarrow> keeps_inv s p s q"
  by (auto simp: call_def split: if_splits intro!: silent)

lemma act_keeps:
  assumes "act vt i a s p = Some (s', q)"
  shows "keeps_inv s p s' q"
proof (cases "a = GoOn")
  case True
  then show ?thesis using assms keeps_lock keeps_park keeps_unlock_step keeps_wait keeps_notify
    by (cases p) (auto simp: act_def)
qed (use assms keeps_called in \<open>auto simp: act_def\<close>)

lemma reachable_sync_inv: "reachable vt c \<Longrightarrow> sync_inv (fst c) (snd c)"
proof (induction rule: reachable.induct)
  case start
  show ?case by (simp add: initial_def sync_inv_initial)
next
  case (step c e c')
  obtain s P i a where c: "c = (s, P)" "e = (i, a)" by (metis surj_pair)
  then obtain s' q where q: "act (vt i) i a s (P i) = Some (s', q)" "c' = (s', P(i := q))"
    using step(2) by (auto simp: sys_step_def)
  have "sync_inv s P" using step.IH c by simp
  then show ?case using sync_inv_step [of s P i s' q] act_keeps [OF q(1)] q(2) by (simp only: fst_conv snd_conv)
qed
lemma run_reachable: "reachable vt c \<Longrightarrow> run_schedule vt c es = Some c' \<Longrightarrow> reachable vt c'"
  by (induction vt c es rule: run_schedule.induct) (auto split: option.splits intro: reachable.step)

text \<open>
  Property C29: at most one thread owns the mutex at a time, whatever the interleaving of any number
  of virtual and OS threads: where a thread is between the return of \<open>lock\<close> and the release
  (inside, at the start of \<open>unlock\<close> or of a wait, or notifying from inside), the mutex is marked as
  taken, nobody is being granted it, and no other thread is there.
\<close>
theorem mutual_exclusion:
  assumes "reachable vt (s, P)" "holds (P i)"
  shows "mx_state s \<and> mx_granted s = 0 \<and> (\<forall>j. holds (P j) \<longrightarrow> j = i)"
proof -
  have "sync_inv s P" using reachable_sync_inv [OF assms(1)] by simp
  then show ?thesis using assms(2) unfolding sync_inv_def thread_ok_def pair_ok_def by metis
qed

definition both_call :: "(tid \<times> action) list" where
  "both_call = [(0, CallLock), (1, CallLock), (0, GoOn), (1, GoOn), (1, GoOn), (0, GoOn), (0, GoOn)]"

lemma mutual_exclusion_witness:
  "\<exists>s P. run_schedule (\<lambda>_. True) initial both_call = Some (s, P) \<and> P 1 = Inside \<and>
     mx_state s \<and> mx_granted s = 0 \<and> (\<forall>j. holds (P j) \<longrightarrow> j = 1)"
proof -
  obtain c where c: "run_schedule (\<lambda>_. True) initial both_call = Some c" "snd c 1 = Inside"
    by (simp add: both_call_def initial_def sync_new_def sys_step_def act_def call_def try_acquire_def)
  have "reachable (\<lambda>_. True) (fst c, snd c)" using run_reachable [OF reachable.start c(1)] by simp
  from mutual_exclusion [OF this, of 1] show ?thesis using c by (intro exI [of _ "fst c"] exI [of _ "snd c"]) simp
qed

end
