(* ===== verification/SyncLive.thy ===== *)
theory SyncLive
  imports SyncFacts
begin

text \<open>
  The hand-over of the mutex to the first waiter, and the wake-up that is lost when a thread
  queues while the mutex is being released.
\<close>

section \<open>The hand-over\<close>

text \<open>The tokens of the tables a thread's step may put in or take out.\<close>

definition touched :: "pc \<Rightarrow> nat set" where
  "touched p = wait_tokens p \<union> {t. unparking p = Some t} \<union> {t. \<exists>w. p = Parking w t ToLock}"

lemma vt_unpark_other: "u \<noteq> t \<Longrightarrow> (u \<in> pk_parked (vt_unpark t s) \<longleftrightarrow> u \<in> pk_parked s) \<and> (u \<in> pk_unparked (vt_unpark t s) \<longleftrightarrow> u \<in> pk_unparked s)"
  by (simp add: vt_unpark_tables)

lemma park_touched:
  assumes "park_step s w t r = Some (s', q)" "u \<noteq> t"
  shows "(u \<in> pk_parked s' \<longleftrightarrow> u \<in> pk_parked s) \<and> (u \<in> pk_unparked s' \<longleftrightarrow> u \<in> pk_unparked s)"
  using assms by (cases w) (auto split: if_splits)

lemma lock_touched:
  assumes "lock_step vt i s w = Some (s', q)"
  shows "pk_parked s' = pk_parked s \<and> pk_unparked s' = pk_unparked s"
  using assms by (cases w) (auto simp: try_acquire_def vt_next_park_token_def split: if_splits)

lemma unlock_touched:
  assumes "unlock_step s w k = Some (s', q)" "unparking (Unlock w k) \<noteq> Some u"
  shows "(u \<in> pk_parked s' \<longleftrightarrow> u \<in> pk_parked s) \<and> (u \<in> pk_unparked s' \<longleftrightarrow> u \<in> pk_unparked s)"
  using assms by (cases w) (auto simp: vt_unpark_other split: if_splits list.splits)

lemma notify_touched:
  assumes "notify_step s w b = Some (s', q)" "u \<notin> wait_tokens (Notify w b)"
  shows "(u \<in> pk_parked s' \<longleftrightarrow> u \<in> pk_parked s) \<and> (u \<in> pk_unparked s' \<longleftrightarrow> u \<in> pk_unparked s)"
  using assms by (cases w) (auto simp: vt_unpark_other split: list.splits)

lemma act_touched:
  assumes "act vt i a s p = Some (s', q)" "u \<notin> touched p"
  shows "(u \<in> pk_parked s' \<longleftrightarrow> u \<in> pk_parked s) \<and> (u \<in> pk_unparked s' \<longleftrightarrow> u \<in> pk_unparked s)"
proof (cases "a = GoOn")
  case True
  then have t: "thread_step vt i s p = Some (s', q)" using assms(1) by (simp add: act_def)
  show ?thesis
  proof (cases p)
    case (Parking w t r)
    then have "u \<noteq> t" using assms(2) by (cases r) (auto simp: touched_def)
    then show ?thesis using t Parking park_touched by simp
  next
    case (Lock w)
    then show ?thesis using t lock_touched by simp
  next
    case (Unlock w k)
    then show ?thesis using t assms(2) unlock_touched by (simp add: touched_def)
  next
    case (Wait w)
    then show ?thesis using t
      by (cases w) (auto simp: vt_next_park_token_def split: if_splits)
  next
    case (Notify w b)
    then show ?thesis using t assms(2) notify_touched by (simp add: touched_def)
  qed (use t in simp_all)
qed (use assms in \<open>auto simp: act_def\<close>)

lemma other_untouched:
  assumes "pair_ok s p r" "lock_token r = Some t" "unparking p \<noteq> Some t"
  shows "t \<notin> touched p"
  using assms by (auto simp: pair_ok_def touched_def)

text \<open>A thread that has not been suspended yet is not in the table of the parked ones.\<close>

fun before_parking :: "pc \<Rightarrow> nat option" where
  "before_parking (Parking Park t ToLock) = Some t"
| "before_parking (Parking Suspended t ToLock) = Some t"
| "before_parking _ = None"

lemma sys_stepE:
  assumes "sys_step vt (s, P) (i, a) = Some (s', P')"
  obtains q where "act (vt i) i a s (P i) = Some (s', q)" "P' = P(i := q)"
  using assms by (auto simp: sys_step_def)

lemma act_parked:
  assumes "act vt i a s p = Some (s', q)" "t \<in> pk_parked s'"
  shows "t \<in> pk_parked s \<or> (\<exists>r. p = Parking Suspended t r)"
proof (cases "t \<in> touched p")
  case False
  then show ?thesis using act_touched assms by blast
next
  case True
  show ?thesis
  proof (cases "a = GoOn")
    case True
    note assms True \<open>t \<in> touched p\<close>
    then have t: "thread_step vt i s p = Some (s', q)" by (simp add: act_def)
    show ?thesis
    proof (cases p)
      case (Parking w u r)
      then show ?thesis using t assms(2) by (cases w) (auto split: if_splits)
    next
      case (Unlock w k)
      then show ?thesis using t assms(2) by (cases w) (auto simp: vt_unpark_tables split: if_splits list.splits)
    next
      case (Notify w b)
      then show ?thesis using t assms(2) by (cases w) (auto simp: vt_unpark_tables split: list.splits)
    next
      case (Wait w)
      then show ?thesis using t assms(2) by (cases w) (auto simp: vt_next_park_token_def split: if_splits)
    next
      case (Lock w)
      then show ?thesis using t assms(2) lock_touched by auto
    qed (use t in simp_all)
  qed (use assms in \<open>auto simp: act_def\<close>)
qed

lemma before_parking_step:
  assumes "act vt i a s p = Some (s', q)" "thread_ok s p" "before_parking q = Some t"
    and "\<And>u. before_parking p = Some u \<Longrightarrow> u \<notin> pk_parked s"
  shows "t \<notin> pk_parked s'"
proof (cases "a = GoOn")
  case True
  then have g: "thread_step vt i s p = Some (s', q)" using assms(1) by (simp add: act_def)
  show ?thesis
  proof (cases p)
    case (Parking w u r)
    then show ?thesis using g assms(3,4) by (cases w; cases r) (auto simp: resumed_def split: if_splits)
  next
    case (Lock w)
    then show ?thesis using g assms(2,3)
      by (cases w) (auto simp: try_acquire_def vt_next_park_token_def thread_ok_def token_ok_def split: if_splits)
  next
    case (Unlock w k)
    then show ?thesis using g assms(3)
      by (cases w; cases k) (auto simp: continue_with_def split: if_splits list.splits)
  next
    case (Notify w b)
    then show ?thesis using g assms(3) by (cases w; cases b) (auto simp: return_to_def split: list.splits)
  next
    case (Wait w)
    then show ?thesis using g assms(3) by (cases w) (auto simp: vt_next_park_token_def split: if_splits)
  qed (use g in simp_all)
qed (use assms in \<open>auto simp: act_def call_def split: if_splits\<close>)

lemma before_parking_token: "before_parking p = Some t \<Longrightarrow> lock_token p = Some t"
  by (cases p rule: before_parking.cases) auto

lemma parking_token: "lock_token (Parking w t r) = Some t \<or> t \<in> wait_tokens (Parking w t r)"
  by (cases r) simp_all

lemma reachable_before_parking: "reachable vt c \<Longrightarrow> before_parking (snd c i) = Some t \<Longrightarrow> t \<notin> pk_parked (fst c)"
proof (induction arbitrary: i t rule: reachable.induct)
  case start
  then show ?case by (simp add: initial_def)
next
  case (step c e c')
  obtain s P m a s' P' where c: "c = (s, P)" "e = (m, a)" "c' = (s', P')" by (metis surj_pair)
  obtain q where q: "act (vt m) m a s (P m) = Some (s', q)" "P' = P(m := q)"
    using step.hyps(2) c sys_stepE by metis
  have i: "thread_ok s (P m)" "i \<noteq> m \<Longrightarrow> pair_ok s (P m) (P i)"
    using reachable_sync_inv [OF step.hyps(1)] c by (simp_all add: sync_inv_def)
  have IH: "before_parking (P i) = Some u \<Longrightarrow> u \<notin> pk_parked s" for u i using step.IH c by simp
  show ?case
  proof (cases "i = m")
    case True
    then show ?thesis using before_parking_step [OF q(1) i(1) _ IH] step.prems q(2) c by simp
  next
    case False
    then have r: "before_parking (P i) = Some t" using step.prems q(2) c by simp
    then have "t \<notin> pk_parked s" "\<nexists>r. P m = Parking Suspended t r"
      using IH i(2) [OF False] before_parking_token [OF r] parking_token unfolding pair_ok_def by metis+
    then show ?thesis using act_parked [OF q(1)] c by auto
  qed
qed

text \<open>
  The way of the thread \<open>i\<close> into the mutex from the moment the thread \<open>j\<close> has taken its token from
  the queue, counted down: two steps of \<open>j\<close>, then three of \<open>i\<close>.
\<close>

fun to_go :: "nat \<Rightarrow> sync \<Rightarrow> pc \<Rightarrow> pc \<Rightarrow> nat \<Rightarrow> bool" where
  "to_go t s p r 0 = (r = Inside)"
| "to_go t s p r (Suc 0) = (r = Lock (TakeGrant t))"
| "to_go t s p r (Suc (Suc 0)) = (r = Lock (Woken t))"
| "to_go t s p r (Suc (Suc (Suc 0))) = (queued t r \<and> awake s r)"
| "to_go t s p r (Suc (Suc (Suc (Suc 0)))) = (queued t r \<and> unparking p = Some t)"
| "to_go t s p r (Suc (Suc (Suc (Suc (Suc 0))))) = (queued t r \<and> granting p = Some t)"
| "to_go t s p r n = False"

definition mover :: "tid \<Rightarrow> tid \<Rightarrow> nat \<Rightarrow> tid" where
  "mover i j n = (if 3 < n then j else i)"

lemma to_go_cases:
  assumes "to_go t s p r n" "0 < n"
  obtains "n = 1" "r = Lock (TakeGrant t)" | "n = 2" "r = Lock (Woken t)" | "n = 3" "queued t r" "awake s r"
  | "n = 4" "queued t r" "unparking p = Some t" | "n = 5" "queued t r" "granting p = Some t"
  using assms by (cases "(t, s, p, r, n)" rule: to_go.cases) (auto simp: numeral_eq_Suc)

lemma granting_unlock: "granting p = Some t \<longleftrightarrow> (\<exists>k. p = Unlock (Grant t) k)"
  by (cases p rule: granting.cases) auto

lemma unparking_unlock: "unparking p = Some t \<longleftrightarrow> (\<exists>k. p = Unlock (Unpark t) k)"
  by (cases p rule: unparking.cases) auto

lemma queued_token: "queued t r \<Longrightarrow> lock_token r = Some t"
  by (auto simp: queued_def)

lemma busy_goes_on: "call a (Unlock w k) = None" "call a (Lock v) = None" "call a (Parking x t r) = None"
  by (simp_all add: call_def)

lemma own_step:
  assumes "act vt m a s p = Some (s', q)" "p \<noteq> Inside" "p \<noteq> Outside"
  shows "a = GoOn" "thread_step vt m s p = Some (s', q)"
  using assms by (auto simp: act_def call_def split: if_splits)

lemma queued_step:
  assumes "act vt m a s p = Some (s', q)" "queued t p" "\<not> awake s p"
  shows "queued t q"
proof -
  obtain w where p: "p = Parking w t ToLock" using assms(2) by (auto simp: queued_def)
  have "park_step s w t ToLock = Some (s', q)" using own_step [OF assms(1)] p by simp
  then show ?thesis using p assms(3) by (cases w) (auto split: if_splits)
qed

lemma hand_over_step:
  assumes r: "reachable vt (s, P)" and g: "to_go t s (P j) (P i) n" and n: "0 < n" and ij: "i \<noteq> j"
    and step: "sys_step vt (s, P) (m, a) = Some (s', P')"
  shows "to_go t s' (P' j) (P' i) (if m = mover i j n then n - 1 else n)"
proof -
  obtain q where q: "act (vt m) m a s (P m) = Some (s', q)" "P' = P(m := q)" using sys_stepE [OF step] by metis
  have inv: "shared_ok s" "\<And>k. thread_ok s (P k)" "\<And>k l. k \<noteq> l \<Longrightarrow> pair_ok s (P k) (P l)"
    using reachable_sync_inv [OF r] by (simp_all add: sync_inv_def)
  from g n show ?thesis
  proof (cases rule: to_go_cases)
    case 1
    then show ?thesis using q own_step [OF q(1)] ij by (cases "m = i") (auto simp: mover_def)
  next
    case 2
    then have "mx_granted s = t" using inv(2) [of i] by (simp add: thread_ok_def token_ok_def)
    then show ?thesis using 2 q own_step [OF q(1)] ij
      by (cases "m = i") (auto simp: mover_def numeral_eq_Suc)
  next
    case 3
    then obtain w where w: "P i = Parking w t ToLock" by (auto simp: queued_def)
    show ?thesis
    proof (cases "m = i")
      case True
      then have "park_step s w t ToLock = Some (s', q)" using own_step [OF q(1)] w by simp
      then have "q = Lock (Woken t)" using 3 w by (cases w) (auto simp: resumed_def split: if_splits)
      then show ?thesis using 3 True q(2) by (simp add: mover_def numeral_eq_Suc)
    next
      case False
      then have p: "pair_ok s (P m) (P i)" using inv(3) by simp
      then have "t \<notin> touched (P m)" using 3 queued_token by (intro other_untouched [OF p]) (auto simp: pair_ok_def)
      then have "awake s' (P i) = awake s (P i)"
        using act_touched [OF q(1)] w by (intro awake_cong) auto
      then show ?thesis using 3 False q(2) by (simp add: mover_def numeral_eq_Suc)
    qed
  next
    case 4
    then obtain w k where w: "P i = Parking w t ToLock" "P j = Unlock (Unpark t) k"
      by (auto simp: queued_def unparking_unlock)
    have na: "\<not> awake s (P i)" using 4 inv(3) [of j i] ij queued_token by (auto simp: pair_ok_def)
    show ?thesis
    proof (cases "m = j")
      case True
      then have s': "s' = vt_unpark t s" using own_step [OF q(1)] w by simp
      have "awake s' (P i)"
        using reachable_before_parking [OF r, of i t] na w(1) s' by (cases w) (auto simp: vt_unpark_tables)
      then show ?thesis using 4 True q(2) ij by (simp add: mover_def numeral_eq_Suc)
    next
      case False
      then have "queued t (P' i)" using 4 q na queued_step by (cases "m = i") auto
      then show ?thesis using 4 False q(2) by (simp add: mover_def numeral_eq_Suc)
    qed
  next
    case 5
    then obtain w k where w: "P i = Parking w t ToLock" "P j = Unlock (Grant t) k"
      by (auto simp: queued_def granting_unlock)
    have "mx_granted s = 0" "0 < t" using inv(2) [of j] w(2) by (auto simp: thread_ok_def)
    then have na: "\<not> awake s (P i)" using w(1) inv(2) [of i] by (auto simp: thread_ok_def token_ok_def)
    show ?thesis
    proof (cases "m = j")
      case True
      then have "q = Unlock (Unpark t) k" using own_step [OF q(1)] w by simp
      then show ?thesis using 5 True q(2) ij by (simp add: mover_def numeral_eq_Suc)
    next
      case False
      then have "queued t (P' i)" using 5 q na queued_step by (cases "m = i") auto
      then show ?thesis using 5 False q(2) by (simp add: mover_def numeral_eq_Suc)
    qed
  qed
qed

lemma mover_enabled:
  assumes r: "reachable vt (s, P)" and g: "to_go t s (P j) (P i) n" and n: "0 < n"
  shows "sys_step vt (s, P) (mover i j n, GoOn) \<noteq> None"
  using g n
proof (cases rule: to_go_cases)
  case 2
  then show ?thesis by (auto simp: sys_step_def act_def mover_def)
next
  case 3
  then obtain w where "P i = Parking w t ToLock" by (auto simp: queued_def)
  then show ?thesis using 3 by (cases w) (auto simp: sys_step_def act_def mover_def)
qed (auto simp: sys_step_def act_def mover_def unparking_unlock granting_unlock)

text \<open>How many of the five steps are left after a schedule.\<close>

fun steps_left :: "tid \<Rightarrow> tid \<Rightarrow> nat \<Rightarrow> (tid \<times> action) list \<Rightarrow> nat" where
  "steps_left i j n [] = n"
| "steps_left i j 0 es = 0"
| "steps_left i j n ((m, a) # es) = steps_left i j (if m = mover i j n then n - 1 else n) es"

definition count_of :: "tid \<Rightarrow> (tid \<times> action) list \<Rightarrow> nat" where
  "count_of i es = length (filter (\<lambda>e. fst e = i) es)"

lemma hand_over_run:
  assumes "reachable vt (s, P)" "to_go t s (P j) (P i) n" "i \<noteq> j" "run_schedule vt (s, P) es = Some (s', P')"
  shows "if steps_left i j n es = 0
     then \<exists>bs ds s1 P1. es = bs @ ds \<and> run_schedule vt (s, P) bs = Some (s1, P1) \<and> P1 i = Inside
     else to_go t s' (P' j) (P' i) (steps_left i j n es)"
  using assms
proof (induction es arbitrary: s P n)
  case Nil
  then show ?case by (cases n) auto
next
  case (Cons e es)
  obtain m a where e: "e = (m, a)" by fastforce
  show ?case
  proof (cases n)
    case 0
    then have "e # es = [] @ (e # es) \<and> run_schedule vt (s, P) [] = Some (s, P) \<and> P i = Inside"
      using Cons.prems(2) by simp
    moreover have "steps_left i j n (e # es) = 0" using 0 by simp
    ultimately show ?thesis by (simp only: refl if_True) blast
  next
    case (Suc k)
    obtain s1 P1 where s1: "sys_step vt (s, P) e = Some (s1, P1)" "run_schedule vt (s1, P1) es = Some (s', P')"
      using Cons.prems(4) by (auto split: option.splits)
    have r: "reachable vt (s1, P1)" using reachable.step Cons.prems(1) s1(1) by blast
    let ?n = "if m = mover i j n then n - 1 else n"
    have g: "to_go t s1 (P1 j) (P1 i) ?n"
      using hand_over_step [OF Cons.prems(1,2) _ Cons.prems(3)] s1(1) e Suc by blast
    have l: "steps_left i j n (e # es) = steps_left i j ?n es" by (simp add: e Suc)
    show ?thesis
    proof (cases "steps_left i j ?n es = 0")
      case True
      then obtain bs ds s2 P2 where "es = bs @ ds" "run_schedule vt (s1, P1) bs = Some (s2, P2)" "P2 i = Inside"
        using Cons.IH [OF r g Cons.prems(3) s1(2)] by auto
      then have "e # es = (e # bs) @ ds \<and> run_schedule vt (s, P) (e # bs) = Some (s2, P2) \<and> P2 i = Inside" using s1(1) by simp
      then show ?thesis using True l by (simp only: refl if_True) blast
    next
      case False
      then show ?thesis using Cons.IH [OF r g Cons.prems(3) s1(2)] l by simp
    qed
  qed
qed

lemma left_append: "steps_left i j n (es @ fs) = steps_left i j (steps_left i j n es) fs"
  by (induction i j n es rule: steps_left.induct) (auto, (cases fs; simp)+)

lemma left_first: "i \<noteq> j \<Longrightarrow> steps_left i j n es \<le> max 3 (n - count_of j es)"
  by (induction i j n es rule: steps_left.induct) (auto simp: count_of_def mover_def split: if_splits)

lemma left_last: "n \<le> 3 \<Longrightarrow> steps_left i j n es \<le> n - count_of i es"
  by (induction i j n es rule: steps_left.induct) (auto simp: count_of_def mover_def split: if_splits)

lemma left_enough:
  assumes "i \<noteq> j" "2 \<le> count_of j es" "3 \<le> count_of i fs"
  shows "steps_left i j 5 (es @ fs) = 0"
  using left_first [OF assms(1), of 5 es] left_last [of "steps_left i j 5 es" i j fs] assms(2,3) by (simp add: left_append)

lemma handing_over:
  assumes "to_go t s p r n" "3 < n"
  shows "\<exists>k. p = Unlock (Grant t) k \<or> p = Unlock (Unpark t) k"
proof -
  have "0 < n" using assms(2) by simp
  with assms(1) show ?thesis
    by (cases rule: to_go_cases) (use assms(2) in \<open>auto simp: granting_unlock unparking_unlock\<close>)
qed

text \<open>
  Property C30: the hand-over reaches the waiter. Once \<open>unlock\<close> has taken the first token from the
  queue, two more steps of the releasing thread and then three of the thread with that token are
  enough, however the steps of others come between: the thread has the mutex. Until then one of
  the two can always go on: the releasing thread while it hands over, or the waiter.
\<close>
theorem hand_over_enters:
  assumes "reachable vt (s, P)" "P j = Unlock (Grant t) k" "lock_token (P i) = Some t"
    and "run_schedule vt (s, P) es = Some (s', P')"
  shows "(\<exists>bs ds s1 P1. es = bs @ ds \<and> run_schedule vt (s, P) bs = Some (s1, P1) \<and> P1 i = Inside) \<or>
    (\<forall>bs ds. es = bs @ ds \<longrightarrow> count_of j bs < 2 \<or> count_of i ds < 3) \<and>
    (sys_step vt (s', P') (i, GoOn) \<noteq> None \<or>
     (\<exists>k'. P' j = Unlock (Grant t) k' \<or> P' j = Unlock (Unpark t) k') \<and> sys_step vt (s', P') (j, GoOn) \<noteq> None)"
proof -
  have ij: "i \<noteq> j" using assms(2,3) by (auto split: after_unlock.splits)
  have "pair_ok s (P j) (P i)" using reachable_sync_inv [OF assms(1)] ij by (simp add: sync_inv_def)
  then have g: "to_go t s (P j) (P i) 5" using assms(2,3) by (simp add: pair_ok_def numeral_eq_Suc)
  note h = hand_over_run [OF assms(1) g ij assms(4)]
  show ?thesis
  proof (cases "steps_left i j 5 es = 0")
    case True
    then show ?thesis using h by simp
  next
    case False
    then have h': "to_go t s' (P' j) (P' i) (steps_left i j 5 es)" using h by simp
    have c: "count_of j bs < 2 \<or> count_of i ds < 3" if "es = bs @ ds" for bs ds
      using left_enough [OF ij, of bs ds] False that by (auto simp: not_less [symmetric])
    have "sys_step vt (s', P') (i, GoOn) \<noteq> None \<or>
      (\<exists>k'. P' j = Unlock (Grant t) k' \<or> P' j = Unlock (Unpark t) k') \<and> sys_step vt (s', P') (j, GoOn) \<noteq> None"
      using mover_enabled [OF run_reachable [OF assms(1,4)] h'] False handing_over [OF h'] by (auto simp: mover_def split: if_splits)
    with c show ?thesis by blast
  qed
qed

lemmas eval_sync = initial_def sync_new_def sys_step_def act_def call_def try_acquire_def eval_nat_numeral spin_rounds_def
  vt_next_park_token_def continue_with_def

definition queue_up :: "(tid \<times> action) list" where
  "queue_up =
     [(0, CallLock), (0, GoOn), (0, GoOn), (1, CallLock)] @ replicate 74 (1, GoOn) @ [(0, CallUnlock), (0, GoOn)]"


lemma hand_over_enters_witness:
  "\<exists>s P bs ds s1 P1. run_schedule (\<lambda>_. True) initial queue_up = Some (s, P) \<and> P 0 = Unlock (Grant 1) Released \<and>
     [(0, GoOn), (0, GoOn), (1, GoOn), (1, GoOn), (1, GoOn)] = bs @ ds \<and>
     run_schedule (\<lambda>_. True) (s, P) bs = Some (s1, P1) \<and> P1 1 = Inside"
proof -
  let ?es = "[(0, GoOn), (0, GoOn), (1, GoOn), (1, GoOn), (1, GoOn)] :: (tid \<times> action) list"
  obtain c where c: "run_schedule (\<lambda>_. True) initial queue_up = Some c" "snd c 0 = Unlock (Grant 1) Released"
      "lock_token (snd c 1) = Some 1" "\<exists>d. run_schedule (\<lambda>_. True) c ?es = Some d"
    by (simp add: queue_up_def eval_sync resumed_def vt_unpark_def)
  obtain s P where sP: "c = (s, P)" by fastforce
  obtain d where d: "run_schedule (\<lambda>_. True) (s, P) ?es = Some (fst d, snd d)" using c(4) sP by auto
  have "reachable (\<lambda>_. True) (s, P)" using run_reachable [OF reachable.start c(1)] sP by simp
  note h = hand_over_enters [OF this _ _ d, of 0 1 Released 1]
  have n: "\<not> (\<forall>bs ds. ?es = bs @ ds \<longrightarrow> count_of 0 bs < 2 \<or> count_of 1 ds < 3)"
  proof
    assume "\<forall>bs ds. ?es = bs @ ds \<longrightarrow> count_of 0 bs < 2 \<or> count_of 1 ds < 3"
    from this [rule_format, of "take 2 ?es" "drop 2 ?es"] show False by (simp add: count_of_def)
  qed
  have "P 0 = Unlock (Grant 1) Released" "lock_token (P 1) = Some 1" using c(2,3) sP by simp_all
  from h [OF this] n have "\<exists>bs ds s1 P1. ?es = bs @ ds \<and> run_schedule (\<lambda>_. True) (s, P) bs = Some (s1, P1) \<and> P1 1 = Inside"
    by blast
  then show ?thesis using c sP by auto
qed

section \<open>The lost wake-up\<close>

text \<open>
  The thread \<open>j\<close> calls \<open>lock\<close> and spins in vain; the thread \<open>i\<close> calls \<open>unlock\<close> and finds the queue
  empty; \<open>j\<close> queues and parks; \<open>i\<close> frees the mutex.
\<close>

definition lost_wake_up :: "tid \<Rightarrow> tid \<Rightarrow> (tid \<times> action) list" where
  "lost_wake_up i j =
     (j, CallLock) # replicate 68 (j, GoOn) @ [(i, CallUnlock), (i, GoOn)] @ replicate 6 (j, GoOn) @ replicate 2 (i, GoOn)"

lemma lost_wake_up_run:
  assumes "mx_state s" "mx_granted s = 0" "mx_waiters s = []" "mx_guard s = None" "pk_next s \<notin> pk_unparked s"
    "P i = Inside" "P j = Outside" "i \<noteq> j" "vt j"
  shows "run_schedule vt (s, P) (lost_wake_up i j) =
    Some (s\<lparr>pk_next := pk_next s + 1, mx_waiters := [pk_next s], pk_parked := pk_parked s \<union> {pk_next s}, mx_state := False\<rparr>,
       P(j := Parking Parked (pk_next s) ToLock, i := Outside))"
  using assms by (simp add: lost_wake_up_def eval_sync)

text \<open>
  Property C31: a virtual thread that queues while the mutex is being released can lose its wake-up:
  \<open>unlock\<close> looks at the queue and frees the mutex in two steps, and a thread that queues in between
  sleeps on a free mutex. From every reachable state in which a thread holds the mutex and no
  thread waits for it, this is a run for the holder and any virtual thread outside: the mutex is
  free, its holder is gone, the waiter is queued and parked and has no step; and if all other
  threads are outside, no thread can go on.
\<close>
theorem unlock_loses_wake_up:
  assumes "reachable vt (s, P)" "P i = Inside" "P j = Outside" "vt j" "mx_waiters s = []" "mx_guard s = None"
  shows "\<exists>s' P' t. run_schedule vt (s, P) (lost_wake_up i j) = Some (s', P') \<and>
     \<not> mx_state s' \<and> mx_granted s' = 0 \<and> mx_waiters s' = [t] \<and>
     P' = P(j := Parking Parked t ToLock, i := Outside) \<and> (\<forall>a. sys_step vt (s', P') (j, a) = None) \<and>
     ((\<forall>k. k \<noteq> i \<longrightarrow> P k = Outside) \<longrightarrow> (\<forall>k. sys_step vt (s', P') (k, GoOn) = None))"
proof -
  have "shared_ok s" "thread_ok s (P i)" using reachable_sync_inv [OF assms(1)] by (simp_all add: sync_inv_def)
  then have o: "mx_state s" "mx_granted s = 0" "pk_next s \<notin> pk_unparked s"
    using assms(2) by (auto simp: thread_ok_def shared_ok_def)
  have ij: "i \<noteq> j" using assms(2,3) by auto
  let ?s = "s\<lparr>pk_next := pk_next s + 1, mx_waiters := [pk_next s], pk_parked := pk_parked s \<union> {pk_next s}, mx_state := False\<rparr>"
  let ?P = "P(j := Parking Parked (pk_next s) ToLock, i := Outside)"
  have "run_schedule vt (s, P) (lost_wake_up i j) = Some (?s, ?P)"
    by (rule lost_wake_up_run) (use o assms ij in simp_all)
  moreover have "sys_step vt (?s, ?P) (j, a) = None" for a
    using ij by (simp add: sys_step_def act_def call_def)
  moreover have "sys_step vt (?s, ?P) (k, GoOn) = None" if "\<forall>k. k \<noteq> i \<longrightarrow> P k = Outside" for k
    using ij that by (auto simp: sys_step_def act_def)
  ultimately show ?thesis using o(2) by (intro exI [of _ ?s] exI [of _ ?P] exI [of _ "pk_next s"]) simp
qed

theorem unlock_loses_wake_up_witness:
  "\<exists>s P s' P' t. run_schedule (\<lambda>_. True) initial [(0, CallLock), (0, GoOn), (0, GoOn)] = Some (s, P) \<and>
     run_schedule (\<lambda>_. True) (s, P) (lost_wake_up 0 1) = Some (s', P') \<and>
     \<not> mx_state s' \<and> P' 1 = Parking Parked t ToLock \<and> (\<forall>k. sys_step (\<lambda>_. True) (s', P') (k, GoOn) = None)"
proof -
  obtain s P where r: "run_schedule (\<lambda>_. True) initial [(0, CallLock), (0, GoOn), (0, GoOn)] = Some (s, P)"
    and f: "P 0 = Inside" "\<forall>k. k \<noteq> 0 \<longrightarrow> P k = Outside" "mx_waiters s = []" "mx_guard s = None"
    by (simp add: eval_sync)
  have "reachable (\<lambda>_. True) (s, P)" by (rule run_reachable [OF reachable.start r])
  from unlock_loses_wake_up [OF this f(1) _ _ f(3,4), of 1] f(2) r show ?thesis by fastforce
qed
end
