(* ===== verification/AstTransform.thy ===== *)
theory AstTransform
  imports Types
begin

text \<open>
  The substitution of type parameters in a declaration, \<open>frontend/ast_transformer.rs\<close>: the copies
  of generic functions and classes are made with it.
\<close>

section \<open>Types\<close>

type_synonym substitutions = "string \<rightharpoonup> Type_Node"

fun substitute_type_node :: "substitutions \<Rightarrow> Type_Node \<Rightarrow> Type_Node" where
  "substitute_type_node b (TNNamed n) = (case b n of Some t \<Rightarrow> t | None \<Rightarrow> TNNamed n)"
| "substitute_type_node b (TNGeneric n ts) =
     TNGeneric (case b n of Some t \<Rightarrow> type_node_to_string t | None \<Rightarrow> n) (map (substitute_type_node b) ts)"
| "substitute_type_node b (TNOptional t) = TNOptional (substitute_type_node b t)"
| "substitute_type_node b (TNArray t) = TNArray (substitute_type_node b t)"
| "substitute_type_node b (TNSizedArray t e) = TNSizedArray (substitute_type_node b t) e"
| "substitute_type_node b (TNFunction ps r) =
     TNFunction (map (substitute_type_node b) ps) (substitute_type_node b r)"
| "substitute_type_node b (TNObject ms) = TNObject (map (\<lambda>(k, opt, t). (k, opt, substitute_type_node b t)) ms)"
| "substitute_type_node b (TNIntersection ts) = TNIntersection (map (substitute_type_node b) ts)"
| "substitute_type_node b TNAny = TNAny"

text \<open>The class of a \<open>new\<close> is a text: it is read as a type, substituted and printed.\<close>

definition bindings_of :: "substitutions \<Rightarrow> (string \<rightharpoonup> TejxType)" where
  "bindings_of b = (\<lambda>n. map_option from_node (b n))"

definition substitute_class_name :: "substitutions \<Rightarrow> string \<Rightarrow> string" where
  "substitute_class_name b n = to_name (substitute_generics (bindings_of b) (from_name n))"

section \<open>Sizes\<close>

abbreviation expr_size :: "Expr \<Rightarrow> nat" where
  "expr_size \<equiv> size_Expression size"

abbreviation function_size :: "(Expr, Statement) FunctionDeclaration \<Rightarrow> nat" where
  "function_size \<equiv> size_FunctionDeclaration expr_size size"

abbreviation class_size :: "(Expr, Statement) ClassDeclaration \<Rightarrow> nat" where
  "class_size \<equiv> size_ClassDeclaration expr_size size"

lemma list_member_size: "x \<in> set xs \<Longrightarrow> f x < size_list f xs"
  by (induction xs) auto

lemma pair_member_size: "(k, x) \<in> set xs \<Longrightarrow> f x < size_list (size_prod (\<lambda>_. 0) f) xs"
  by (induction xs) auto

lemmas ast_sizes =
  list_member_size [of _ _ expr_size] pair_member_size [of _ _ _ expr_size]
  list_member_size [of _ _ "size :: Statement \<Rightarrow> nat"] list_member_size [of _ _ "size_Parameter expr_size"]
  list_member_size [of _ _ "size_ClassMember expr_size"] list_member_size [of _ _ "size_ClassMethod expr_size size"]
  list_member_size [of _ _ "size_ClassGetter expr_size size"] list_member_size [of _ _ "size_ClassSetter expr_size size"]
  list_member_size [of _ _ "size_EnumMember expr_size"] list_member_size [of _ _ "size_Case expr_size size"]
  list_member_size [of _ _ "size_FunctionDeclaration expr_size size"]

section \<open>Expressions, statements and declarations\<close>

function transform_expression :: "substitutions \<Rightarrow> Expr \<Rightarrow> Expr"
  and transform_statement :: "substitutions \<Rightarrow> Statement \<Rightarrow> Statement"
  and transform_function :: "substitutions \<Rightarrow> (Expr, Statement) FunctionDeclaration \<Rightarrow> (Expr, Statement) FunctionDeclaration"
  and transform_class :: "substitutions \<Rightarrow> (Expr, Statement) ClassDeclaration \<Rightarrow> (Expr, Statement) ClassDeclaration"
where
  "transform_expression b (NumberLiteral v f l c) = NumberLiteral v f l c"
| "transform_expression b (StringLiteral v l c) = StringLiteral v l c"
| "transform_expression b (CharLiteral v' l c) = CharLiteral v' l c"
| "transform_expression b (BooleanLiteral v'' l c) = BooleanLiteral v'' l c"
| "transform_expression b (Identifier n l c) = Identifier n l c"
| "transform_expression b (ThisExpr l c) = ThisExpr l c"
| "transform_expression b (SuperExpr l c) = SuperExpr l c"
| "transform_expression b (NoneLiteral l c) = NoneLiteral l c"
| "transform_expression b (BinaryExpr x op y l c) = BinaryExpr (transform_expression b x) op (transform_expression b y) l c"
| "transform_expression b (UnaryExpr op x p l c) = UnaryExpr op (transform_expression b x) p l c"
| "transform_expression b (AssignmentExpr x y op l c) =
     AssignmentExpr (transform_expression b x) (transform_expression b y) op l c"
| "transform_expression b (CallExpr x ts es l c) = CallExpr (transform_expression b x) ts (map (transform_expression b) es) l c"
| "transform_expression b (SequenceExpr es l c) = SequenceExpr (map (transform_expression b) es) l c"
| "transform_expression b (MemberAccessExpr x m l c ns) = MemberAccessExpr (transform_expression b x) m l c ns"
| "transform_expression b (ArrayAccessExpr x y l c) = ArrayAccessExpr (transform_expression b x) (transform_expression b y) l c"
| "transform_expression b (ObjectLiteralExpr en sp l c) =
     ObjectLiteralExpr (map (map_prod id (transform_expression b)) en) (map (transform_expression b) sp) l c"
| "transform_expression b (ArrayLiteral es t l c) = ArrayLiteral (map (transform_expression b) es) t l c"
| "transform_expression b (NewExpr n es l c) = NewExpr (substitute_class_name b n) (map (transform_expression b) es) l c"
| "transform_expression b (LambdaExpr ps s l c) =
     LambdaExpr (map (\<lambda>p. Parameter (param_name p) (substitute_type_node b (param_type p)) (param_default p) (param_rest p)) ps)
       (transform_statement b s) l c"
| "transform_expression b (TernaryExpr x y z l c) =
     TernaryExpr (transform_expression b x) (transform_expression b y) (transform_expression b z) l c"
| "transform_expression b (OptionalMemberAccessExpr x m l c) = OptionalMemberAccessExpr (transform_expression b x) m l c"
| "transform_expression b (OptionalCallExpr x ts es l c) =
     OptionalCallExpr (transform_expression b x) ts (map (transform_expression b) es) l c"
| "transform_expression b (OptionalArrayAccessExpr x y l c) =
     OptionalArrayAccessExpr (transform_expression b x) (transform_expression b y) l c"
| "transform_expression b (NullishCoalescingExpr x y l c) =
     NullishCoalescingExpr (transform_expression b x) (transform_expression b y) l c"
| "transform_expression b (SpreadExpr x l c) = SpreadExpr (transform_expression b x) l c"
| "transform_expression b (SomeExpr x l c) = SomeExpr (transform_expression b x) l c"
| "transform_expression b (CastExpr x t l c) = CastExpr (transform_expression b x) (substitute_type_node b t) l c"

| "transform_statement b (VarDeclaration p t e k l c) =
     VarDeclaration p (substitute_type_node b t) (map_option (transform_expression b) e) k l c"
| "transform_statement b (FunctionDeclarationStmt f) = FunctionDeclarationStmt (transform_function b f)"
| "transform_statement b (ClassDeclarationStmt d) = ClassDeclarationStmt (transform_class b d)"
| "transform_statement b (ExtensionDeclarationStmt (ExtensionDeclaration t fs l c)) =
     ExtensionDeclarationStmt (ExtensionDeclaration (substitute_type_node b t) (map (transform_function b) fs) l c)"
| "transform_statement b (EnumDeclarationStmt (EnumDeclaration n ms l c)) =
     EnumDeclarationStmt (EnumDeclaration n
       (map (\<lambda>m. case m of EnumMember k v \<Rightarrow> EnumMember k (map_option (transform_expression b) v)) ms) l c)"
| "transform_statement b (TypeAliasDeclaration n t l c) = TypeAliasDeclaration n (substitute_type_node b t) l c"
| "transform_statement b (InterfaceDeclaration n ms l c) =
     InterfaceDeclaration n
       (map (\<lambda>m. case m of InterfaceMethod k ps t \<Rightarrow>
          InterfaceMethod k
            (map (\<lambda>p. Parameter (param_name p) (substitute_type_node b (param_type p)) (param_default p) (param_rest p)) ps)
            (substitute_type_node b t)) ms) l c"
| "transform_statement b (ReturnStmt e l c) = ReturnStmt (map_option (transform_expression b) e) l c"
| "transform_statement b (BreakStmt l c) = BreakStmt l c"
| "transform_statement b (ContinueStmt l c) = ContinueStmt l c"
| "transform_statement b (BlockStmt ss l c) = BlockStmt (map (transform_statement b) ss) l c"
| "transform_statement b (IfStmt e s s' l c) =
     IfStmt (transform_expression b e) (transform_statement b s) (map_option (transform_statement b) s') l c"
| "transform_statement b (WhileStmt e s l c) = WhileStmt (transform_expression b e) (transform_statement b s) l c"
| "transform_statement b (ForStmt i e u s l c) =
     ForStmt (map_option (transform_statement b) i) (map_option (transform_expression b) e)
       (map_option (transform_expression b) u) (transform_statement b s) l c"
| "transform_statement b (ForOfStmt p e s l c) = ForOfStmt p (transform_expression b e) (transform_statement b s) l c"
| "transform_statement b (SwitchStmt e cs l c) =
     SwitchStmt (transform_expression b e)
       (map (\<lambda>d. case d of Case v ss \<Rightarrow> Case (map_option (transform_expression b) v) (map (transform_statement b) ss)) cs) l c"
| "transform_statement b (ExpressionStmt e l c) = ExpressionStmt (transform_expression b e) l c"
| "transform_statement b (TryStmt s v h f l c) =
     TryStmt (transform_statement b s) v (transform_statement b h) (map_option (transform_statement b) f) l c"
| "transform_statement b (DelStmt e l c) = DelStmt (transform_expression b e) l c"
| "transform_statement b (ThrowStmt e l c) = ThrowStmt (transform_expression b e) l c"
| "transform_statement b (ImportDecl is n d l c) = ImportDecl is n d l c"
| "transform_statement b (ExportDecl s d l c) = ExportDecl (transform_statement b s) d l c"

| "transform_function b (FunctionDeclaration n ps t s ex gs l c) =
     FunctionDeclaration n
       (map (\<lambda>p. case p of Parameter k u d r \<Rightarrow>
          Parameter k (substitute_type_node b u) (map_option (transform_expression b) d) r) ps)
       (substitute_type_node b t) (transform_statement b s) ex gs l c"

| "transform_class b (ClassDeclaration n p gs ab is ms fs ges ses k l c) =
     ClassDeclaration n p gs ab is
       (map (\<lambda>m. case m of ClassMember x t a st e \<Rightarrow>
          ClassMember x (substitute_type_node b t) a st (map_option (transform_expression b) e)) ms)
       (map (\<lambda>m. case m of ClassMethod f a st v \<Rightarrow> ClassMethod (transform_function b f) a st v) fs)
       (map (\<lambda>g. case g of ClassGetter x t s a \<Rightarrow> ClassGetter x (substitute_type_node b t) (transform_statement b s) a) ges)
       (map (\<lambda>g. case g of ClassSetter x y t s a \<Rightarrow>
          ClassSetter x y (substitute_type_node b t) (transform_statement b s) a) ses)
       (map_option (transform_function b) k) l c"
  by pat_completeness auto

termination
proof (relation "measure (\<lambda>x. case x of
    Inl (Inl (b, e)) \<Rightarrow> expr_size e | Inl (Inr (b, s)) \<Rightarrow> size s
  | Inr (Inl (b, f)) \<Rightarrow> function_size f | Inr (Inr (b, d)) \<Rightarrow> class_size d)", goal_cases)
qed (auto dest!: ast_sizes)

end
