(* ===== verification/AstTransformFacts.thy ===== *)
theory AstTransformFacts
  imports AstTransform TypesRoundTrip
begin

text \<open>Substituting in a type's tree and in the type it stands for is the same.\<close>

text \<open>
  Substitution in a type the way it is done in a tree: the head of a generic type is replaced too,
  by the text of what it is bound to.
\<close>

fun substitute_heads :: "substitutions \<Rightarrow> TejxType \<Rightarrow> TejxType" where
  "substitute_heads b (TyClass n ts) =
     (if ts = [] then (case b n of Some t \<Rightarrow> from_node t | None \<Rightarrow> TyClass n [])
      else TyClass (case b n of Some t \<Rightarrow> type_node_to_string t | None \<Rightarrow> n) (map (substitute_heads b) ts))"
| "substitute_heads b (TyOptional t) = TyOptional (substitute_heads b t)"
| "substitute_heads b (TyFixedArray t n) = TyFixedArray (substitute_heads b t) n"
| "substitute_heads b (TyDynamicArray t) = TyDynamicArray (substitute_heads b t)"
| "substitute_heads b (TySlice t) = TySlice (substitute_heads b t)"
| "substitute_heads b (TyFunction ps r) = TyFunction (map (substitute_heads b) ps) (substitute_heads b r)"
| "substitute_heads b (TyObject ms) = TyObject (map (\<lambda>(k, opt, t). (k, opt, substitute_heads b t)) ms)"
| "substitute_heads b t = t"

fun generic_heads :: "TejxType \<Rightarrow> string set" where
  "generic_heads (TyClass n ts) = (if ts = [] then {} else insert n (\<Union>t \<in> set ts. generic_heads t))"
| "generic_heads (TyOptional t) = generic_heads t"
| "generic_heads (TyFixedArray t n) = generic_heads t"
| "generic_heads (TyDynamicArray t) = generic_heads t"
| "generic_heads (TySlice t) = generic_heads t"
| "generic_heads (TyFunction ps r) = (\<Union>p \<in> set ps. generic_heads p) \<union> generic_heads r"
| "generic_heads (TyObject ms) = (\<Union>(k, opt, t) \<in> set ms. generic_heads t)"
| "generic_heads t = {}"

lemma substitute_heads_generics:
  "generic_heads t \<inter> dom b = {} \<Longrightarrow> substitute_heads b t = substitute_generics (bindings_of b) t"
proof (induction b t rule: substitute_heads.induct)
  case (1 b n ts)
  then show ?case by (cases "ts = []") (auto simp: bindings_of_def domIff disjoint_iff split: option.splits)
next
  case (6 b ps r)
  then show ?case by (auto simp: disjoint_iff)
next
  case (7 b ms)
  then show ?case by (fastforce simp: disjoint_iff)
qed auto

text \<open>
  A bound name is a name of its own, what an unbound text stands for has no bound names, and a
  generic type has arguments.
\<close>

fun substitutable :: "substitutions \<Rightarrow> Type_Node \<Rightarrow> bool" where
  "substitutable b (TNNamed n) =
     (if n \<in> dom b then from_name n = TyClass n []
      else (type_params (from_name n) \<union> generic_heads (from_name n)) \<inter> dom b = {})"
| "substitutable b (TNGeneric n ts) = (ts \<noteq> [] \<and> (\<forall>t \<in> set ts. substitutable b t))"
| "substitutable b (TNOptional t) = substitutable b t"
| "substitutable b (TNArray t) = substitutable b t"
| "substitutable b (TNSizedArray t e) = substitutable b t"
| "substitutable b (TNFunction ps r) = ((\<forall>p \<in> set ps. substitutable b p) \<and> substitutable b r)"
| "substitutable b (TNObject ms) = (\<forall>(k, opt, t) \<in> set ms. substitutable b t)"
| "substitutable b (TNIntersection ts) = True"
| "substitutable b TNAny = True"

lemma dom_bindings [simp]: "dom (bindings_of b) = dom b"
  by (auto simp: bindings_of_def dom_def)

lemma substitute_heads_tree:
  "substitutable b t \<Longrightarrow> from_node (substitute_type_node b t) = substitute_heads b (from_node t)"
proof (induction b t rule: substitute_type_node.induct)
  case (1 b n)
  show ?case
  proof (cases "b n")
    case None
    then have d: "generic_heads (from_name n) \<inter> dom b = {}" "dom b \<inter> type_params (from_name n) = {}"
      using 1 by (auto simp: domIff)
    from None show ?thesis
      using substitute_heads_generics [OF d(1)] substitute_id [of "bindings_of b" "from_name n"] d(2) by simp
  qed (use 1 in \<open>simp add: domIff\<close>)
next
  case (5 b t e)
  then show ?case by (simp split: Expression.split)
next
  case (7 b ms)
  then show ?case by fastforce
qed auto

text \<open>
  Property C36: substituting type parameters in the syntax tree of a type, as the copies of generic
  declarations are made, gives the substitution in the type it stands for that also replaces the
  heads of generic types, by the texts of what they are bound to; it is the substitution of the
  types themselves wherever no head is bound. The parameters' names must read as names.
\<close>
theorem substitute_type_node_commutes:
  assumes "substitutable b t"
  shows "from_node (substitute_type_node b t) = substitute_heads b (from_node t) \<and>
    (generic_heads (from_node t) \<inter> dom b = {} \<longrightarrow>
       from_node (substitute_type_node b t) = substitute_generics (bindings_of b) (from_node t))"
  using substitute_heads_tree [OF assms] substitute_heads_generics by simp

theorem substitute_type_node_commutes_witness:
  "from_node (substitute_type_node [''T'' \<mapsto> TNNamed ''Foo''] (TNGeneric ''T'' [TNArray (TNNamed ''T'')]))
     = TyClass ''Foo'' [TyDynamicArray (TyClass ''Foo'' [])] \<and>
   from_node (substitute_type_node [''T'' \<mapsto> TNNamed ''Foo''] (TNFunction [TNNamed ''T''] (TNOptional (TNNamed ''T''))))
     = substitute_generics (bindings_of [''T'' \<mapsto> TNNamed ''Foo''])
         (from_node (TNFunction [TNNamed ''T''] (TNOptional (TNNamed ''T''))))"
proof -
  have n: "from_name ''T'' = TyClass ''T'' []" "from_name ''Foo'' = TyClass ''Foo'' []"
    by (simp_all add: from_name_word plain_name_def builtin_types_def str_simps)
  show ?thesis
    using substitute_type_node_commutes [of "[''T'' \<mapsto> TNNamed ''Foo'']" "TNGeneric ''T'' [TNArray (TNNamed ''T'')]"]
      substitute_type_node_commutes [of "[''T'' \<mapsto> TNNamed ''Foo'']" "TNFunction [TNNamed ''T''] (TNOptional (TNNamed ''T''))"]
    by (simp add: n)
qed
end
