(* ===== verification/AstLower.thy ===== *)
theory AstLower
  imports Hir Compat AstTransform "HOL-Library.AList"
begin

text \<open>
  From the syntax tree to the high-level representation, \<open>src/compiler/middle/lowering/\<close>: the state
  of the pass, scopes and captured variables, generic functions and classes, patterns and the
  narrowing of types by conditions. The tables of imports and files are not part of the state.
\<close>

section \<open>State\<close>

text \<open>
  \<open>struct Lowering\<close>. The stacks are lists with the top in front. Where the source iterates over a
  hash map, the map is an association list, in the order of insertion.
\<close>

record ast_lowering =
  al_lambda_counter :: nat
  al_user_functions :: "string \<rightharpoonup> TejxType"
  al_user_function_args :: "string \<rightharpoonup> nat"
  al_param_defaults :: "string \<rightharpoonup> Expr option list"
  al_ctor_defaults :: "string \<rightharpoonup> Expr option list"
  al_externs :: "string set"
  al_variadics :: "string \<rightharpoonup> nat"
  al_lambda_functions :: "HIRStatement list"
  al_nested_functions :: "HIRStatement list"
  al_scopes :: "((string \<rightharpoonup> string \<times> TejxType) \<times> nat) list"
  al_lambda_depth :: nat
  al_next_scope_id :: nat
  al_current_class :: "string option"
  al_parent_class :: "string option"
  al_class_methods :: "string \<rightharpoonup> string list"
  al_instance_fields :: "(string \<times> (string \<times> TejxType \<times> Expr) list) list"
  al_static_fields :: "string \<rightharpoonup> (string \<times> TejxType \<times> Expr) list"
  al_getters :: "string \<rightharpoonup> string set"
  al_setters :: "string \<rightharpoonup> string set"
  al_class_parents :: "(string \<times> string) list"
  al_class_generics :: "string \<rightharpoonup> string list"
  al_function_generics :: "string \<rightharpoonup> string list"
  al_erased :: "string set"
  al_discovered :: "(string \<times> TejxType list list) list"
  al_aliases :: "string \<rightharpoonup> TejxType"
  al_enum_members :: "string \<rightharpoonup> int"
  al_lambda_types :: "nat \<times> nat \<rightharpoonup> TejxType list"
  al_lambda_returns :: "nat \<times> nat \<rightharpoonup> TejxType"
  al_call_instantiations :: "nat \<times> nat \<times> string \<rightharpoonup> TejxType list"
  al_expected :: "TejxType option"
  al_return_types :: "TejxType list"
  al_class_instantiations :: "(string \<times> TejxType list list) list"
  al_function_instantiations :: "(string \<times> TejxType list list) list"
  al_env_owners :: "string list"
  al_captured :: "string \<rightharpoonup> string set"
  al_lambda_owner :: "string \<rightharpoonup> string"
  al_function_display :: "string \<rightharpoonup> string"
  al_class_display :: "string \<rightharpoonup> string"
  al_current_file :: string
  al_source_files :: "string \<rightharpoonup> string"
  al_pending_display :: "string option"

type_synonym 'a ast_lower = "('a, ast_lowering) program"

definition ast_lowering_new :: ast_lowering where
  "ast_lowering_new =
     \<lparr>al_lambda_counter = 0, al_user_functions = Map.empty, al_user_function_args = Map.empty,
      al_param_defaults = Map.empty, al_ctor_defaults = Map.empty, al_externs = {}, al_variadics = Map.empty,
      al_lambda_functions = [], al_nested_functions = [], al_scopes = [(Map.empty, 0)], al_lambda_depth = 0,
      al_next_scope_id = 1, al_current_class = None, al_parent_class = None, al_class_methods = Map.empty,
      al_instance_fields = [], al_static_fields = Map.empty, al_getters = Map.empty, al_setters = Map.empty,
      al_class_parents = [], al_class_generics = Map.empty, al_function_generics = Map.empty, al_erased = {},
      al_discovered = [], al_aliases = Map.empty, al_enum_members = Map.empty, al_lambda_types = Map.empty,
      al_lambda_returns = Map.empty, al_call_instantiations = Map.empty, al_expected = None, al_return_types = [],
      al_class_instantiations = [], al_function_instantiations = [], al_env_owners = [], al_captured = Map.empty,
      al_lambda_owner = Map.empty, al_function_display = Map.empty, al_class_display = Map.empty,
      al_current_file = [], al_source_files = Map.empty, al_pending_display = None\<rparr>"

definition al_get :: "(ast_lowering \<Rightarrow> 'a) \<Rightarrow> 'a ast_lower" where
  "al_get f s = Done (f s, s)"

definition al_put :: "(ast_lowering \<Rightarrow> ast_lowering) \<Rightarrow> unit ast_lower" where
  "al_put f s = Done ((), f s)"

definition al_skip :: "unit ast_lower" where
  "al_skip = ret ()"

fun al_each :: "('a \<Rightarrow> 'b ast_lower) \<Rightarrow> 'a list \<Rightarrow> 'b list ast_lower" where
  "al_each f [] = ret []"
| "al_each f (x # xs) = (pbind (f x) (\<lambda>y.
  pbind (al_each f xs) (\<lambda>ys.
  ret (y # ys))))"

definition al_option :: "('a \<Rightarrow> 'b ast_lower) \<Rightarrow> 'a option \<Rightarrow> 'b option ast_lower" where
  "al_option f x = (case x of None \<Rightarrow> ret None | Some a \<Rightarrow> pmap Some (f a))"

text \<open>\<open>map.entry(k).or_default().insert(v)\<close> on an association list of sets.\<close>

definition insert_instance :: "string \<Rightarrow> TejxType list \<Rightarrow> (string \<times> TejxType list list) list \<Rightarrow> (string \<times> TejxType list list) list" where
  "insert_instance n ts m =
     (case map_of m n of
        None \<Rightarrow> m @ [(n, [ts])]
      | Some is \<Rightarrow> if ts \<in> set is then m else AList.update n (is @ [ts]) m)"

section \<open>Aliases\<close>

text \<open>\<open>resolve_inner\<close>; the first argument is the number of levels left.\<close>

fun resolve_inner :: "nat \<Rightarrow> (string \<rightharpoonup> TejxType) \<Rightarrow> TejxType \<Rightarrow> TejxType" where
  "resolve_inner 0 a t = t"
| "resolve_inner (Suc k) a t =
     (case t of
        TyClass n gs \<Rightarrow>
          (case a n of
             Some u \<Rightarrow> resolve_inner k a u
           | None \<Rightarrow> if gs = [] then TyClass n [] else TyClass n (map (resolve_inner k a) gs))
      | TyFixedArray u m \<Rightarrow> TyFixedArray (resolve_inner k a u) m
      | TyDynamicArray u \<Rightarrow> TyDynamicArray (resolve_inner k a u)
      | TySlice u \<Rightarrow> TySlice (resolve_inner k a u)
      | TyFunction ps r \<Rightarrow> TyFunction (map (resolve_inner k a) ps) (resolve_inner k a r)
      | TyOptional u \<Rightarrow> TyOptional (resolve_inner k a u)
      | TyObject ms \<Rightarrow> TyObject (map (\<lambda>(n, opt, u). (n, opt, resolve_inner k a u)) ms)
      | _ \<Rightarrow> t)"

definition alias_levels :: nat where
  "alias_levels = 21"

definition resolve_alias_type :: "ast_lowering \<Rightarrow> TejxType \<Rightarrow> TejxType" where
  "resolve_alias_type s t = resolve_inner alias_levels (al_aliases s) t"

definition register_type_alias :: "string \<Rightarrow> TejxType \<Rightarrow> ast_lowering \<Rightarrow> ast_lowering" where
  "register_type_alias n t s = s\<lparr>al_aliases := (al_aliases s)(n \<mapsto> t)\<rparr>"

section \<open>Scopes and captured variables\<close>

definition al_enter_scope :: "unit ast_lower" where
  "al_enter_scope = al_put (\<lambda>s. s\<lparr>al_scopes := (Map.empty, al_lambda_depth s) # al_scopes s\<rparr>)"

definition enter_lambda_scope :: "unit ast_lower" where
  "enter_lambda_scope =
     al_put (\<lambda>s. s\<lparr>al_lambda_depth := al_lambda_depth s + 1, al_scopes := (Map.empty, al_lambda_depth s + 1) # al_scopes s\<rparr>)"

definition al_exit_scope :: "unit ast_lower" where
  "al_exit_scope =
     al_put (\<lambda>s. case al_scopes s of
        [] \<Rightarrow> s
      | (sc, d) # scs \<Rightarrow>
          s\<lparr>al_scopes := scs,
            al_lambda_depth := (if 0 < d \<and> d = al_lambda_depth s \<and> (\<forall>(sc', d') \<in> set scs. d' \<noteq> d) then d - 1 else al_lambda_depth s)\<rparr>)"

definition define_name :: "string \<Rightarrow> TejxType \<Rightarrow> string ast_lower" where
  "define_name n t s =
     (case al_scopes s of
        [] \<Rightarrow> Panic
      | (sc, d) # scs \<Rightarrow>
          (case sc n of
             Some (m, u) \<Rightarrow> Done (m, s)
           | None \<Rightarrow>
               (let m = (if scs = [] then ''g_'' @ n else n @ ''$'' @ nat_to_string (al_next_scope_id s))
                in Done (m, s\<lparr>al_scopes := (sc(n \<mapsto> (m, resolve_alias_type s t)), d) # scs,
                             al_next_scope_id := (if scs = [] then al_next_scope_id s else al_next_scope_id s + 1)\<rparr>))))"

text \<open>The entry of a name with the depth of its scope, and whether the scope is not the global one.\<close>

fun find_scope :: "string \<Rightarrow> ((string \<rightharpoonup> string \<times> TejxType) \<times> nat) list \<Rightarrow> ((string \<times> TejxType) \<times> nat \<times> bool) option" where
  "find_scope n [] = None"
| "find_scope n ((sc, d) # scs) = (case sc n of Some i \<Rightarrow> Some (i, d, scs \<noteq> []) | None \<Rightarrow> find_scope n scs)"

definition capture :: "string \<Rightarrow> ast_lowering \<Rightarrow> ast_lowering" where
  "capture m s =
     (case al_env_owners s of
        [] \<Rightarrow> s
      | owner # _ \<Rightarrow>
          s\<lparr>al_captured := (al_captured s)(owner \<mapsto> insert m (case al_captured s owner of None \<Rightarrow> {} | Some c \<Rightarrow> c))\<rparr>)"

definition lookup_var :: "string \<Rightarrow> (string \<times> TejxType) option ast_lower" where
  "lookup_var n s =
     (case find_scope n (al_scopes s) of
        None \<Rightarrow> Done (None, s)
      | Some (i, d, inner) \<Rightarrow>
          Done (Some i, if d < (case al_scopes s of [] \<Rightarrow> 0 | (_, d') # _ \<Rightarrow> d') \<and> inner then capture (fst i) s else s))"

definition narrow_type :: "string \<Rightarrow> TejxType \<Rightarrow> unit ast_lower" where
  "narrow_type n t =
     (pbind (lookup_var n) (\<lambda>i.
       (case i of
           None \<Rightarrow> al_skip
         | Some (m, _) \<Rightarrow>
             al_put (\<lambda>s. case al_scopes s of
               [] \<Rightarrow> s
             | (sc, d) # scs \<Rightarrow> s\<lparr>al_scopes := (sc(n \<mapsto> (m, resolve_alias_type s t)), d) # scs\<rparr>))))"

definition push_env_owner :: "string \<Rightarrow> unit ast_lower" where
  "push_env_owner n =
     al_put (\<lambda>s. s\<lparr>al_env_owners := n # al_env_owners s,
       al_captured := (al_captured s)(n \<mapsto> (case al_captured s n of None \<Rightarrow> {} | Some c \<Rightarrow> c))\<rparr>)"

definition pop_env_owner :: "unit ast_lower" where
  "pop_env_owner = al_put (\<lambda>s. s\<lparr>al_env_owners := tl (al_env_owners s)\<rparr>)"

definition register_lambda_env_owner :: "string \<Rightarrow> unit ast_lower" where
  "register_lambda_env_owner n =
     al_put (\<lambda>s. case al_env_owners s of
       [] \<Rightarrow> s | owner # _ \<Rightarrow> s\<lparr>al_lambda_owner := (al_lambda_owner s)(n \<mapsto> owner)\<rparr>)"

text \<open>The expected type is put aside, set, and put back.\<close>

definition with_expected :: "TejxType option \<Rightarrow> 'a ast_lower \<Rightarrow> 'a ast_lower" where
  "with_expected t m =
     (pbind (al_get al_expected) (\<lambda>prev.
       pbind (al_put (\<lambda>s. s\<lparr>al_expected := t\<rparr>)) (\<lambda>_.
       pbind m (\<lambda>x.
       pbind (al_put (\<lambda>s. s\<lparr>al_expected := prev\<rparr>)) (\<lambda>_.
       ret x)))))"

text \<open>A scope around a part, one of a lambda, a return type, and an owner of captured variables.\<close>

definition in_scope :: "'a ast_lower \<Rightarrow> 'a ast_lower" where
  "in_scope m = (pbind al_enter_scope (\<lambda>_.
    pbind m (\<lambda>x.
    pbind al_exit_scope (\<lambda>_.
    ret x))))"

definition in_lambda_scope :: "'a ast_lower \<Rightarrow> 'a ast_lower" where
  "in_lambda_scope m = (pbind enter_lambda_scope (\<lambda>_.
    pbind m (\<lambda>x.
    pbind al_exit_scope (\<lambda>_.
    ret x))))"

definition with_return_type :: "TejxType \<Rightarrow> 'a ast_lower \<Rightarrow> 'a ast_lower" where
  "with_return_type t m =
     (pbind (al_put (\<lambda>s. s\<lparr>al_return_types := t # al_return_types s\<rparr>)) (\<lambda>_.
       pbind m (\<lambda>x.
       pbind (al_put (\<lambda>s. s\<lparr>al_return_types := tl (al_return_types s)\<rparr>)) (\<lambda>_.
       ret x))))"

definition with_env_owner :: "string \<Rightarrow> 'a ast_lower \<Rightarrow> 'a ast_lower" where
  "with_env_owner n m = (pbind (push_env_owner n) (\<lambda>_.
    pbind m (\<lambda>x.
    pbind pop_env_owner (\<lambda>_.
    ret x))))"

definition non_none_type :: "TejxType \<Rightarrow> TejxType" where
  "non_none_type t = (case t of TyOptional u \<Rightarrow> u | _ \<Rightarrow> t)"

section \<open>Generic functions and classes\<close>

definition base_of :: "string \<Rightarrow> string" where
  "base_of n = takeWhile (\<lambda>c. c \<noteq> CHR ''<'') n"

text \<open>\<open>is_concrete_type\<close>: short names that start with an upper-case letter are taken for parameters.\<close>

fun is_concrete_type :: "TejxType \<Rightarrow> bool" where
  "is_concrete_type (TyClass n gs) =
     (n \<noteq> ''<inferred>'' \<and> \<not> starts_with n ''$MISSING_GENERIC_'' \<and>
      (if gs = [] then \<not> (byte_len n \<le> 2 \<and> n \<noteq> [] \<and> is_uppercase (hd n) \<and> list_all is_alphanumeric n)
       else (\<forall>g \<in> set gs. is_concrete_type g)))"
| "is_concrete_type (TyFixedArray t _) = is_concrete_type t"
| "is_concrete_type (TyDynamicArray t) = is_concrete_type t"
| "is_concrete_type (TySlice t) = is_concrete_type t"
| "is_concrete_type (TyOptional t) = is_concrete_type t"
| "is_concrete_type (TyFunction ps r) = ((\<forall>p \<in> set ps. is_concrete_type p) \<and> is_concrete_type r)"
| "is_concrete_type (TyObject ms) = (\<forall>(k, opt, t) \<in> set ms. is_concrete_type t)"
| "is_concrete_type _ = True"

definition function_template_name :: "string \<Rightarrow> string" where
  "function_template_name n = (if starts_with n ''f_'' then drop 2 n else n)"

text \<open>\<open>trim_start_matches\<close> of a text.\<close>

function strip_all :: "string \<Rightarrow> string \<Rightarrow> string" where
  "strip_all p s = (if p \<noteq> [] \<and> starts_with s p then strip_all p (drop (length p) s) else s)"
  by auto
termination
  by (relation "measure (\<lambda>(p, s). length s)") (auto dest: starts_with_nonempty intro!: diff_less)

declare strip_all.simps [simp del]

definition replace_chars :: "char list \<Rightarrow> string \<Rightarrow> string \<Rightarrow> string" where
  "replace_chars cs r s = concat (map (\<lambda>c. if c \<in> set cs then r else [c]) s)"

definition sanitize_monomorph_part :: "string \<Rightarrow> string" where
  "sanitize_monomorph_part raw =
     replace_chars '';  '' ''_'' (replace_text ''; '' ''_'' (replace_chars '':'' ''_'' (replace_text '': '' ''_''
       (replace_chars ''{}'' ''_'' (replace_text '' }'' ''_'' (replace_text ''{ '' ''_obj_'' (replace_chars ''&'' ''_''
       (replace_text '' & '' ''_and_'' (replace_chars ''|'' ''_'' (replace_text '' | '' ''_or_'' (replace_chars '','' ''_''
       (replace_text '', '' ''_'' (replace_chars ''<>'' ''_'' (replace_text ''[]'' ''_arr'' raw))))))))))))))"

definition monomorphized_name :: "string \<Rightarrow> TejxType list \<Rightarrow> string" where
  "monomorphized_name n ts = trim (base_of n) @ concat (map (\<lambda>t. CHR ''_'' # sanitize_monomorph_part (to_name t)) ts)"

definition monomorphized_class_name :: "ast_lowering \<Rightarrow> TejxType \<Rightarrow> string" where
  "monomorphized_class_name s t =
     (case t of
        TyClass n gs \<Rightarrow>
          if gs \<noteq> [] then monomorphized_name n gs
          else (case map_of (al_class_instantiations s) n of
                  Some [ts] \<Rightarrow> monomorphized_name n ts
                | _ \<Rightarrow> n)
      | _ \<Rightarrow> to_name t)"

lemma size_formal: "(f, a) \<in> set (zip gs hs) \<Longrightarrow> size (f :: TejxType) \<le> size_list size gs"
proof -
  assume "(f, a) \<in> set (zip gs hs)"
  then have "f \<in> set gs" by (rule set_zip_leftD)
  then show ?thesis by (induction gs) auto
qed

function (sequential) collect_generic_bindings :: "string set \<Rightarrow> TejxType \<Rightarrow> TejxType \<Rightarrow> (string \<rightharpoonup> TejxType) \<Rightarrow> (string \<rightharpoonup> TejxType)" where
  "collect_generic_bindings ps (TyClass n gs) t b =
     (if gs = [] \<and> n \<in> ps then (case b n of None \<Rightarrow> b(n \<mapsto> t) | Some _ \<Rightarrow> b)
      else (case t of
              TyClass m hs \<Rightarrow>
                if n = m \<and> length gs = length hs
                then fold (\<lambda>(f, a). collect_generic_bindings ps f a) (zip gs hs) b else b
            | _ \<Rightarrow> b))"
| "collect_generic_bindings ps (TyDynamicArray f) t b =
     (case t of TyDynamicArray a \<Rightarrow> collect_generic_bindings ps f a b | TyFixedArray a _ \<Rightarrow> collect_generic_bindings ps f a b
      | TySlice a \<Rightarrow> collect_generic_bindings ps f a b | _ \<Rightarrow> b)"
| "collect_generic_bindings ps (TyFixedArray f _) t b =
     (case t of TyDynamicArray a \<Rightarrow> collect_generic_bindings ps f a b | TyFixedArray a _ \<Rightarrow> collect_generic_bindings ps f a b
      | TySlice a \<Rightarrow> collect_generic_bindings ps f a b | _ \<Rightarrow> b)"
| "collect_generic_bindings ps (TySlice f) t b =
     (case t of TyDynamicArray a \<Rightarrow> collect_generic_bindings ps f a b | TyFixedArray a _ \<Rightarrow> collect_generic_bindings ps f a b
      | TySlice a \<Rightarrow> collect_generic_bindings ps f a b | _ \<Rightarrow> b)"
| "collect_generic_bindings ps (TyFunction fs r) t b =
     (case t of
        TyFunction as u \<Rightarrow> collect_generic_bindings ps r u (fold (\<lambda>(f, a). collect_generic_bindings ps f a) (zip fs as) b)
      | _ \<Rightarrow> b)"
| "collect_generic_bindings ps (TyOptional f) t b =
     (case t of
        TyOptional a \<Rightarrow> collect_generic_bindings ps f a b
      | _ \<Rightarrow> if to_name t \<noteq> ''None'' then collect_generic_bindings ps f t b else b)"
| "collect_generic_bindings ps (TyObject ms) t b =
     (case t of
        TyObject ns \<Rightarrow>
          fold (\<lambda>(k, opt, f) b. case map_of ns k of None \<Rightarrow> b | Some (_, a) \<Rightarrow> collect_generic_bindings ps f a b) ms b
      | _ \<Rightarrow> b)"
| "collect_generic_bindings ps _ t b = b"
  by pat_completeness auto
termination
  by (relation "measure (\<lambda>(ps, f, t, b). size f)") (auto dest: size_formal size_prop_type)

text \<open>The arguments between the outer angle brackets of a type's text.\<close>

fun split_arguments :: "int \<Rightarrow> string \<Rightarrow> string \<Rightarrow> string list" where
  "split_arguments d cur [] = [trim (rev cur)]"
| "split_arguments d cur (c # s) =
     (if c = CHR '','' \<and> d = 0 then trim (rev cur) # split_arguments d [] s
      else split_arguments (if c = CHR ''<'' then d + 1 else if c = CHR ''>'' then d - 1 else d) (c # cur) s)"

definition receiver_params :: "ast_lowering \<Rightarrow> TejxType \<Rightarrow> string \<Rightarrow> string list" where
  "receiver_params s t callee =
     (let cls = (case t of
                   TyClass _ _ \<Rightarrow> (case al_class_generics s (trim (base_of (to_name t))) of Some ps \<Rightarrow> ps | None \<Rightarrow> [])
                 | _ \<Rightarrow> []);
          ps = (if cls \<noteq> [] then cls else case al_function_generics s callee of Some ps \<Rightarrow> ps | None \<Rightarrow> [])
      in if ps = [] \<and> is_array t then [''T''] else ps)"

definition receiver_arguments :: "TejxType \<Rightarrow> string list option" where
  "receiver_arguments t =
     (if is_array t then Some [to_name (get_array_element_type t)]
      else case (find_char CHR ''<'' (to_name t), rfind_from (\<lambda>c. c = CHR ''>'') (to_name t)) of
             (Some i, Some j) \<Rightarrow> Some (split_arguments 0 [] (slice (i + 1) j (to_name t)))
           | _ \<Rightarrow> None)"

text \<open>
  \<open>Lowering::substitute_generics\<close>: the parameters of the receiver's class, or of the function,
  stand for the arguments in the receiver's text. The slice panics if it is the wrong way round.
\<close>

definition receiver_panics :: "TejxType \<Rightarrow> bool" where
  "receiver_panics t \<longleftrightarrow>
     \<not> is_array t \<and> (case (find_char CHR ''<'' (to_name t), rfind_from (\<lambda>c. c = CHR ''>'') (to_name t)) of
                       (Some i, Some j) \<Rightarrow> j < i + 1 | _ \<Rightarrow> False)"

definition substitute_receiver :: "TejxType \<Rightarrow> TejxType \<Rightarrow> string \<Rightarrow> TejxType ast_lower" where
  "substitute_receiver r t callee s =
     (let ps = receiver_params s t callee
      in if ps = [] then Done (r, s)
         else if receiver_panics t then Panic
         else Done (case receiver_arguments t of
                      None \<Rightarrow> r
                    | Some as \<Rightarrow> substitute_generics (map_of (rev (zip ps (map from_name as)))) r, s))"

text \<open>The functions whose generic parameters are looked at.\<close>

definition generics_of_callee :: "ast_lowering \<Rightarrow> string \<Rightarrow> string list option" where
  "generics_of_callee s callee =
     (if starts_with callee ''rt_'' \<or> starts_with callee ''std_'' \<or> starts_with callee ''tejx_'' \<or>
         callee \<in> al_externs s \<or> callee \<in> al_erased s then None
      else case al_function_generics s callee of Some (p # ps) \<Rightarrow> Some (p # ps) | _ \<Rightarrow> None)"

definition discover_instance :: "string \<Rightarrow> TejxType list \<Rightarrow> ast_lowering \<Rightarrow> ast_lowering" where
  "discover_instance callee ts s =
     s\<lparr>al_discovered := insert_instance (function_template_name callee) ts (al_discovered s)\<rparr>"

definition instance_bindings ::
  "ast_lowering \<Rightarrow> string \<Rightarrow> string list \<Rightarrow> HIRExpression list \<Rightarrow> Type_Node list option \<Rightarrow> (string \<rightharpoonup> TejxType) option" where
  "instance_bindings s callee ps args explicit =
     (case explicit of
        Some ts \<Rightarrow> if length ts \<noteq> length ps then None else Some (map_of (rev (zip ps (map from_node ts))))
      | None \<Rightarrow>
          (case al_user_functions s callee of
             Some (TyFunction fs _) \<Rightarrow>
               Some (fold (\<lambda>(f, a). collect_generic_bindings (set ps) f a) (zip fs (map hexpr_type args)) Map.empty)
           | _ \<Rightarrow> None))"

definition resolve_function_monomorph ::
  "string \<Rightarrow> HIRExpression list \<Rightarrow> Type_Node list option \<Rightarrow> (string \<times> (string \<rightharpoonup> TejxType)) option ast_lower" where
  "resolve_function_monomorph callee args explicit s =
     (case generics_of_callee s callee of
        None \<Rightarrow> Done (None, s)
      | Some ps \<Rightarrow>
          (case instance_bindings s callee ps args explicit of
             None \<Rightarrow> Done (None, s)
           | Some b \<Rightarrow>
               if (\<exists>p \<in> set ps. b p = None) \<or> (\<exists>p \<in> set ps. \<not> is_concrete_type (the (b p))) then Done (None, s)
               else (let ts = map (\<lambda>p. the (b p)) ps
                     in Done (Some (monomorphized_name callee ts, b), discover_instance callee ts s))))"

definition resolve_recorded_function_monomorph ::
  "string \<Rightarrow> string \<Rightarrow> nat \<Rightarrow> nat \<Rightarrow> (string \<times> (string \<rightharpoonup> TejxType)) option ast_lower" where
  "resolve_recorded_function_monomorph callee call_name line col s =
     (case (generics_of_callee s callee, al_call_instantiations s (line, col, call_name)) of
        (Some ps, Some ts) \<Rightarrow>
          if length ts \<noteq> length ps \<or> (\<exists>t \<in> set ts. \<not> is_concrete_type t) then Done (None, s)
          else Done (Some (monomorphized_name callee ts, map_of (rev (zip ps ts))), discover_instance callee ts s)
      | _ \<Rightarrow> Done (None, s))"

text \<open>\<open>can_erase_generic_function\<close>: the return type does not mention a parameter.\<close>

fun contains_generic :: "Type_Node \<Rightarrow> string set \<Rightarrow> bool" where
  "contains_generic (TNNamed n) ps = (n \<in> ps)"
| "contains_generic (TNGeneric n ts) ps = (n \<in> ps \<or> (\<exists>t \<in> set ts. contains_generic t ps))"
| "contains_generic (TNArray t) ps = contains_generic t ps"
| "contains_generic (TNSizedArray t e) ps = contains_generic t ps"
| "contains_generic (TNOptional t) ps = contains_generic t ps"
| "contains_generic (TNFunction ts r) ps = ((\<exists>t \<in> set ts. contains_generic t ps) \<or> contains_generic r ps)"
| "contains_generic (TNObject ms) ps = (\<exists>(k, opt, t) \<in> set ms. contains_generic t ps)"
| "contains_generic (TNIntersection ts) ps = (\<exists>t \<in> set ts. contains_generic t ps)"
| "contains_generic TNAny ps = False"

definition can_erase_generic_function :: "(Expr, Statement) FunctionDeclaration \<Rightarrow> bool" where
  "can_erase_generic_function f \<longleftrightarrow>
     fn_generics f \<noteq> [] \<and> \<not> contains_generic (fn_return_type f) (set (map generic_name (fn_generics f)))"

definition should_lower_function :: "ast_lowering \<Rightarrow> (Expr, Statement) FunctionDeclaration \<Rightarrow> bool" where
  "should_lower_function s f \<longleftrightarrow> fn_generics f = [] \<or> ''f_'' @ fn_name f \<in> al_erased s"

section \<open>Default values and patterns\<close>

definition zero_literal :: "TejxType \<Rightarrow> nat \<Rightarrow> HIRExpression option" where
  "zero_literal t line =
     (if t = TyBool then Some (HLiteral ''false'' TyBool line)
      else if t \<in> {TyInt8, TyUInt8, TyInt16, TyUInt16, TyInt32, TyUInt32, TyInt64, TyUInt64, TyInt128, TyUInt128}
        then Some (HLiteral ''0'' t line)
      else if t \<in> {TyFloat32, TyFloat64} then Some (HLiteral ''0.0'' t line)
      else if t = TyChar then Some (HLiteral [CHR 0x00] TyChar line)
      else if t = TyString then Some (HLiteral [] TyString line)
      else None)"

fun default_fixed_array_init :: "nat \<Rightarrow> TejxType \<Rightarrow> HIRExpression" where
  "default_fixed_array_init line (TyFixedArray t n) =
     (if \<not> is_array t then HArrayLiteral [] None (TyFixedArray t n) line
      else HArrayLiteral (replicate n (default_fixed_array_init line t)) None (TyFixedArray t n) line)"
| "default_fixed_array_init line (TyDynamicArray t) = HArrayLiteral [] None (TyDynamicArray t) line"
| "default_fixed_array_init line t = (case zero_literal t line of Some e \<Rightarrow> e | None \<Rightarrow> HNoneLiteral line)"

fun pad_fixed_array_literal :: "HIRExpression \<Rightarrow> TejxType \<Rightarrow> HIRExpression" where
  "pad_fixed_array_literal (HArrayLiteral es sized t l) (TyFixedArray u n) =
     (let ps = map (\<lambda>e. pad_fixed_array_literal e u) es
      in HArrayLiteral (if is_array u then ps @ replicate (n - length ps) (default_fixed_array_init l u) else ps) sized t l)"
| "pad_fixed_array_literal (HArrayLiteral es sized t l) (TyDynamicArray u) =
     HArrayLiteral (map (\<lambda>e. pad_fixed_array_literal e u) es) sized t l"
| "pad_fixed_array_literal e t = e"

definition fresh_tmp :: "string ast_lower" where
  "fresh_tmp =
     (pbind (al_get al_lambda_counter) (\<lambda>n.
       pbind (al_put (\<lambda>s. s\<lparr>al_lambda_counter := al_lambda_counter s + 1\<rparr>)) (\<lambda>_.
       ret (''destructure_tmp_'' @ nat_to_string n))))"

definition binding_prop_type :: "ast_lowering \<Rightarrow> TejxType \<Rightarrow> string \<Rightarrow> TejxType" where
  "binding_prop_type s t k =
     (case t of
        TyObject ms \<Rightarrow> (case map_of ms k of Some (_, u) \<Rightarrow> u | None \<Rightarrow> TyAny)
      | TyClass n _ \<Rightarrow>
          (case map_of (al_instance_fields s) n of
             Some fs \<Rightarrow> (case map_of fs k of Some (u, _) \<Rightarrow> u | None \<Rightarrow> TyAny)
           | None \<Rightarrow> TyAny)
      | _ \<Rightarrow> TyAny)"

lemma al_each_cong [fundef_cong]:
  "xs = ys \<Longrightarrow> (\<And>x. x \<in> set ys \<Longrightarrow> f x = g x) \<Longrightarrow> al_each f xs = al_each g ys"
  by (induction ys arbitrary: xs) auto

lemma size_element: "(i, b) \<in> set (enumerate n bs) \<Longrightarrow> size (b :: BindingNode) \<le> size_list size bs"
proof -
  assume "(i, b) \<in> set (enumerate n bs)"
  then have "b \<in> set bs" by (auto simp: enumerate_eq_zip dest: set_zip_rightD)
  then show ?thesis by (induction bs) auto
qed

lemma size_entry: "(k, b) \<in> set bs \<Longrightarrow> size (b :: BindingNode) \<le> size_list (size_prod (\<lambda>_. 0) size) bs"
  by (induction bs) auto

function lower_binding_pattern :: "BindingNode \<Rightarrow> HIRExpression option \<Rightarrow> TejxType \<Rightarrow> bool \<Rightarrow> HIRStatement list ast_lower" where
  "lower_binding_pattern (BIdentifier n) init t const =
     (pbind (define_name n t) (\<lambda>m.
       ret [HVarDecl m init t const 0]))"
| "lower_binding_pattern (ArrayBinding bs rest) init t const =
     (pbind fresh_tmp (\<lambda>tmp.
       let u = (case t of TyDynamicArray u \<Rightarrow> u | TyFixedArray u _ \<Rightarrow> u | TySlice u \<Rightarrow> u | _ \<Rightarrow> TyAny);
            v = HVariable tmp t 0 in
       pbind (al_each (\<lambda>(i, b). lower_binding_pattern b
                   (Some (HIndexAccess v (HLiteral (nat_to_string i) TyInt32 0) u 0)) u const) (enumerate 0 bs)) (\<lambda>parts.
       pbind ((case rest of
                   None \<Rightarrow> ret []
                 | Some b \<Rightarrow> lower_binding_pattern b
                     (Some (HCall ''rt_array_slice'' [v, HLiteral (nat_to_string (length bs)) TyInt32 0,
                        HCall ''rt_len'' [v] TyInt32 0] t 0)) t const)) (\<lambda>tail.
       ret (HVarDecl tmp init t True 0 # concat parts @ tail)))))"
| "lower_binding_pattern (ObjectBinding entries) init t const =
     (pbind fresh_tmp (\<lambda>tmp.
       pbind (al_each (\<lambda>(k, b).
                   (pbind (al_get (\<lambda>s. binding_prop_type s t k)) (\<lambda>u.
                     lower_binding_pattern b (Some (HMemberAccess (HVariable tmp t 0) k u 0)) u const))) entries) (\<lambda>parts.
       ret (HVarDecl tmp init t True 0 # concat parts))))"
  by pat_completeness auto
termination
  by (relation "measure (\<lambda>(b, i, t, c). size b)") (auto dest: size_element size_entry)

section \<open>Narrowing by conditions\<close>

definition has_effective_narrowing_type :: "TejxType \<Rightarrow> bool" where
  "has_effective_narrowing_type t \<longleftrightarrow> t \<noteq> TyVoid \<and> to_name t \<noteq> ''None''"

definition merge_then_narrowing_type :: "TejxType \<Rightarrow> TejxType \<Rightarrow> TejxType" where
  "merge_then_narrowing_type l r =
     (if l = TyVoid then r else if r = TyVoid then l
      else if to_name l = ''None'' then r else if to_name r = ''None'' then l
      else if l = r then l else r)"

type_synonym narrowing = "(string \<times> TejxType \<times> TejxType) option"

definition combine_and_narrowing :: "narrowing \<Rightarrow> narrowing \<Rightarrow> narrowing" where
  "combine_and_narrowing l r =
     (case (l, r) of
        (Some (n, t, _), None) \<Rightarrow> Some (n, t, TyVoid)
      | (None, Some (n, t, _)) \<Rightarrow> Some (n, t, TyVoid)
      | (Some (n, t, _), Some (m, u, _)) \<Rightarrow>
          Some (n, if n = m then merge_then_narrowing_type t u else t, TyVoid)
      | _ \<Rightarrow> None)"

definition none_comparison :: "Expr \<Rightarrow> TokenType \<Rightarrow> Expr \<Rightarrow> narrowing ast_lower" where
  "none_comparison l op r =
     (case (case (l, r) of
              (Identifier n _ _, NoneLiteral _ _) \<Rightarrow> Some n
            | (NoneLiteral _ _, Identifier n _ _) \<Rightarrow> Some n
            | _ \<Rightarrow> None) of
        None \<Rightarrow> ret None
      | Some n \<Rightarrow>
          if op \<noteq> TkBangEqual \<and> op \<noteq> TkEqualEqual then ret None
          else (pbind (lookup_var n) (\<lambda>i.
            (case i of
                     Some (_, TyOptional t) \<Rightarrow>
                       (let none = from_name ''None''
                        in ret (Some (if op = TkBangEqual then (n, t, none) else (n, none, t))))
                   | _ \<Rightarrow> ret None))))"

definition instance_test :: "Expr \<Rightarrow> TokenType \<Rightarrow> Expr \<Rightarrow> narrowing ast_lower" where
  "instance_test x op y =
     (case (x, y) of
        (Identifier v _ _, Identifier t _ _) \<Rightarrow>
          (pbind (lookup_var v) (\<lambda>i.
            (case i of
                Some (_, TyOptional u) \<Rightarrow> ret None
              | Some (_, u) \<Rightarrow> ret (Some (v, from_name t, u))
              | None \<Rightarrow> none_comparison x op y)))
      | _ \<Rightarrow> none_comparison x op y)"

fun get_narrowing_from_condition :: "Expr \<Rightarrow> narrowing ast_lower" where
  "get_narrowing_from_condition (UnaryExpr op r p l c) =
     (if op = TkBang
      then (pbind (get_narrowing_from_condition r) (\<lambda>n.
        ret (case n of Some (x, t, e) \<Rightarrow> Some (x, e, t) | None \<Rightarrow> None)))
      else ret None)"
| "get_narrowing_from_condition (BinaryExpr x op y l c) =
     (if op = TkAmpersandAmpersand \<or> op = TkPipePipe
      then (pbind (get_narrowing_from_condition x) (\<lambda>n.
        pbind ((case n of
                      Some (v, t, e) \<Rightarrow>
                        (let u = (if op = TkAmpersandAmpersand then t else e)
                         in if u \<noteq> TyVoid then in_scope ((pbind (narrow_type v u) (\<lambda>_.
                           get_narrowing_from_condition y)))
                            else get_narrowing_from_condition y)
                    | None \<Rightarrow> get_narrowing_from_condition y)) (\<lambda>m.
        ret (if op = TkAmpersandAmpersand then combine_and_narrowing n m else None))))
      else if op = TkInstanceof then instance_test x op y
      else none_comparison x op y)"
| "get_narrowing_from_condition e = ret None"

fun statement_guarantees_exit :: "Statement \<Rightarrow> bool" where
  "statement_guarantees_exit (ReturnStmt v l c) = True"
| "statement_guarantees_exit (ThrowStmt e l c) = True"
| "statement_guarantees_exit (BreakStmt l c) = True"
| "statement_guarantees_exit (ContinueStmt l c) = True"
| "statement_guarantees_exit (BlockStmt ss l c) = (\<exists>s \<in> set ss. statement_guarantees_exit s)"
| "statement_guarantees_exit (IfStmt e s (Some s') l c) = (statement_guarantees_exit s \<and> statement_guarantees_exit s')"
| "statement_guarantees_exit _ = False"

end
