(* ===== verification/AstLowerExpr.thy ===== *)
theory AstLowerExpr
  imports AstLower
begin

text \<open>
  Lowering of expressions, \<open>src/compiler/middle/lowering/expr.rs\<close>. The two recursive functions of
  the pass are the fields of \<open>lowerers\<close>. What the source reads of a call on a member after it has
  returned is left out, and so is a message it prints for one function name.
\<close>

record lowerers =
  lw_expression :: "Expr \<Rightarrow> HIRExpression ast_lower"
  lw_statement :: "Statement \<Rightarrow> HIRStatement option ast_lower"

section \<open>Types of results\<close>

fun type_debug :: "TejxType \<Rightarrow> string" where
  "type_debug TyInt8 = ''Int8''" | "type_debug TyUInt8 = ''UInt8''" | "type_debug TyInt16 = ''Int16''"
| "type_debug TyUInt16 = ''UInt16''" | "type_debug TyUInt32 = ''UInt32''" | "type_debug TyInt32 = ''Int32''"
| "type_debug TyUInt64 = ''UInt64''" | "type_debug TyInt64 = ''Int64''" | "type_debug TyInt128 = ''Int128''"
| "type_debug TyUInt128 = ''UInt128''" | "type_debug TyFloat16 = ''Float16''" | "type_debug TyFloat32 = ''Float32''"
| "type_debug TyFloat64 = ''Float64''" | "type_debug TyBool = ''Bool''" | "type_debug TyString = ''String''"
| "type_debug TyChar = ''Char''" | "type_debug TyVoid = ''Void''" | "type_debug TyAny = ''Any''"
| "type_debug (TyClass n gs) =
     ''Class('' @ CHR 0x22 # escape_key n @ [CHR 0x22] @ '', ['' @ join_with '', '' (map type_debug gs) @ ''])''"
| "type_debug (TyOptional t) = ''Optional('' @ type_debug t @ '')''"
| "type_debug (TyFixedArray t n) = ''FixedArray('' @ type_debug t @ '', '' @ nat_to_string n @ '')''"
| "type_debug (TyDynamicArray t) = ''DynamicArray('' @ type_debug t @ '')''"
| "type_debug (TySlice t) = ''Slice('' @ type_debug t @ '')''"
| "type_debug (TyFunction ps r) = ''Function(['' @ join_with '', '' (map type_debug ps) @ ''], '' @ type_debug r @ '')''"
| "type_debug (TyObject ms) =
     ''Object(['' @ join_with '', '' (map (\<lambda>(k, opt, t).
       CHR ''('' # CHR 0x22 # escape_key k @ [CHR 0x22] @ (if opt then '', true, '' else '', false, '') @ type_debug t @ '')'') ms)
     @ ''])''"

definition is_optional_type :: "TejxType \<Rightarrow> bool" where
  "is_optional_type t = (case t of TyOptional _ \<Rightarrow> True | TyClass n _ \<Rightarrow> n = ''None'' | _ \<Rightarrow> False)"

definition infer_coalesce_type :: "TejxType \<Rightarrow> TejxType \<Rightarrow> TejxType" where
  "infer_coalesce_type l r =
     (if to_name l = ''<inferred>'' then r
      else case l of TyOptional u \<Rightarrow> u | TyClass n _ \<Rightarrow> if n = ''None'' then r else l | _ \<Rightarrow> l)"

definition infer_ternary_type :: "TejxType \<Rightarrow> TejxType \<Rightarrow> TejxType" where
  "infer_ternary_type t f = (if t = f then t else if to_name t \<noteq> ''<inferred>'' then t else f)"

definition build_not_none_condition :: "HIRExpression \<Rightarrow> nat \<Rightarrow> HIRExpression" where
  "build_not_none_condition e line = HBinary e TkBangEqual (HNoneLiteral line) TyBool line"

definition narrow_integers :: "TejxType set" where
  "narrow_integers = {TyInt8, TyUInt8, TyInt16, TyUInt16, TyUInt32, TyInt32, TyUInt64, TyInt128, TyUInt128}"

definition infer_hir_binary_type :: "TejxType \<Rightarrow> TokenType \<Rightarrow> TejxType \<Rightarrow> TejxType" where
  "infer_hir_binary_type l op r =
     (if op \<in> {TkEqualEqual, TkBangEqual, TkLess, TkLessEqual, TkGreater, TkGreaterEqual, TkAmpersandAmpersand, TkPipePipe}
        then TyBool
      else if l = TyString \<or> r = TyString then TyString
      else if l = TyFloat64 \<or> r = TyFloat64 then TyFloat64
      else if l = TyFloat32 \<or> r = TyFloat32 then TyFloat32
      else if l = TyFloat16 \<or> r = TyFloat16 then TyFloat64
      else if l = TyUInt64 \<and> r = TyUInt64 then TyUInt64
      else if l = TyUInt32 \<and> r = TyUInt32 then TyUInt32
      else if l = TyUInt128 \<and> r = TyUInt128 then TyUInt128
      else if l = TyInt64 \<or> r = TyInt64 then TyInt64
      else if l \<in> narrow_integers \<or> r \<in> narrow_integers then TyInt32
      else TyInt64)"

section \<open>Literals\<close>

text \<open>\<open>format!("{:.0}", v)\<close>, rounded to the nearest integer, ties to even.\<close>

fun f64_rounded_string :: "f64 \<Rightarrow> string" where
  "f64_rounded_string NaN = ''NaN''"
| "f64_rounded_string (Infinity s) = (if s then ''-inf'' else ''inf'')"
| "f64_rounded_string (Finite s m e) =
     (if s then ''-'' else []) @
     nat_to_string (if 0 \<le> e then m * 2 ^ nat e else round_half_even m (2 ^ nat (- e)))"

definition float_literal :: "f64 \<Rightarrow> string" where
  "float_literal v =
     (let s = f64_to_string v in if CHR ''.'' \<notin> set s \<and> CHR ''e'' \<notin> set s then s @ ''.0'' else s)"

definition outside_i32 :: "f64 \<Rightarrow> bool" where
  "outside_i32 v \<longleftrightarrow> f64_less (f64_of_nat 2147483647) v \<or> f64_less v (f64_neg (f64_of_nat 2147483648))"

definition lower_number :: "f64 \<Rightarrow> bool \<Rightarrow> nat \<Rightarrow> HIRExpression ast_lower" where
  "lower_number v is_float_literal line =
     (pbind (al_get al_expected) (\<lambda>expected.
       ret (let plain = (if is_float_literal \<or> \<not> f64_is_integral v then HLiteral (float_literal v) TyFloat32 line
                          else HLiteral (f64_rounded_string v) (if outside_i32 v then TyInt64 else TyInt32) line)
             in case expected of
                  Some t \<Rightarrow> if is_numeric t then HLiteral (if is_float t then float_literal v else f64_rounded_string v) t line
                           else plain
                | None \<Rightarrow> plain)))"

definition lower_string :: "string \<Rightarrow> nat \<Rightarrow> HIRExpression ast_lower" where
  "lower_string v line =
     (pbind (al_get al_expected) (\<lambda>expected.
       ret (if expected = Some TyChar
             then HLiteral (nat_to_string (case v of [] \<Rightarrow> 0 | c # _ \<Rightarrow> code c)) TyChar line
             else HLiteral v TyString line)))"

definition add_missing_props ::
  "(string \<times> bool \<times> TejxType) list \<Rightarrow> (string \<times> bool \<times> TejxType) list \<Rightarrow> (string \<times> bool \<times> TejxType) list" where
  "add_missing_props ms props =
     fold (\<lambda>(k, opt, t) ps. if k \<in> fst ` set ps then ps else ps @ [(k, opt, t)]) ms props"

definition object_type ::
  "TejxType option \<Rightarrow> TejxType option \<Rightarrow> bool \<Rightarrow> (string \<times> bool \<times> TejxType) list \<Rightarrow> TejxType" where
  "object_type raw resolved spread props =
     (if spread then TyObject props
      else case (raw, resolved) of
             (Some (TyClass n gs), Some (TyObject _)) \<Rightarrow> TyClass n gs
           | (_, Some (TyObject ms)) \<Rightarrow> TyObject ms
           | _ \<Rightarrow> TyObject props)"

definition lower_object_literal :: "lowerers \<Rightarrow> (string \<times> Expr) list \<Rightarrow> Expr list \<Rightarrow> nat \<Rightarrow> HIRExpression ast_lower" where
  "lower_object_literal R entries spreads line =
     (pbind (al_get al_expected) (\<lambda>raw.
       pbind (al_get (\<lambda>s. map_option (resolve_alias_type s) raw)) (\<lambda>resolved.
       let field = (\<lambda>k. case resolved of Some (TyObject ms) \<Rightarrow> map_option snd (map_of ms k) | _ \<Rightarrow> None) in
       pbind (al_each (\<lambda>(k, e). (pbind (with_expected (field k) (lw_expression R e)) (\<lambda>v.
          ret (k, v)))) entries) (\<lambda>es.
       pbind (al_each (lw_expression R) spreads) (\<lambda>vs.
       let props = fold (\<lambda>v ps. case hexpr_type v of TyObject ms \<Rightarrow> add_missing_props ms ps | _ \<Rightarrow> ps) vs
                      (map (\<lambda>(k, v). (k, False, hexpr_type v)) es);
            t = object_type raw resolved (vs \<noteq> []) props in
       ret (foldl (\<lambda>e v. HCall ''rt_object_merge'' [e, v] t line) (HObjectLiteral es t line) vs))))))"

fun is_spread :: "Expr \<Rightarrow> bool" where
  "is_spread (SpreadExpr e l c) = True"
| "is_spread e = False"

text \<open>The parts of an array literal between its spreads.\<close>

fun array_chunks :: "lowerers \<Rightarrow> (HIRExpression list \<Rightarrow> HIRExpression) \<Rightarrow> HIRExpression list \<Rightarrow> Expr list \<Rightarrow> HIRExpression list ast_lower" where
  "array_chunks R lit cur [] = ret (if cur = [] then [] else [lit cur])"
| "array_chunks R lit cur (SpreadExpr e l c # es) =
     (pbind (lw_expression R e) (\<lambda>v.
       pbind (array_chunks R lit [] es) (\<lambda>rest.
       ret ((if cur = [] then [] else [lit cur]) @ v # rest))))"
| "array_chunks R lit cur (e # es) = (pbind (lw_expression R e) (\<lambda>v.
  array_chunks R lit (cur @ [v]) es))"

definition lower_array_literal :: "lowerers \<Rightarrow> Expr list \<Rightarrow> string option \<Rightarrow> nat \<Rightarrow> HIRExpression ast_lower" where
  "lower_array_literal R elements ty line =
     (let t = (case ty of Some n \<Rightarrow> from_name n | None \<Rightarrow> TyDynamicArray TyInt64);
          sized = (case t of TyFixedArray _ n \<Rightarrow> Some (HLiteral (nat_to_string n) TyInt64 line) | _ \<Rightarrow> None);
          concat2 = (\<lambda>e f. HCall ''rt_array_concat'' [e, f] t line)
      in (pbind (array_chunks R (\<lambda>es. HArrayLiteral es sized t line) [] elements) (\<lambda>chunks.
        ret (case chunks of
                   [] \<Rightarrow> pad_fixed_array_literal (HArrayLiteral [] sized t line) t
                 | [c] \<Rightarrow> (if list_ex is_spread elements then concat2 (HArrayLiteral [] None t line) c
                          else pad_fixed_array_literal c t)
                 | c # cs \<Rightarrow> foldl concat2 c cs))))"

section \<open>Names and members\<close>

definition lower_identifier :: "string \<Rightarrow> nat \<Rightarrow> HIRExpression ast_lower" where
  "lower_identifier n line =
     (pbind (lookup_var n) (\<lambda>i.
       pbind (al_get id) (\<lambda>s.
       (let (r, t0) = (case i of Some x \<Rightarrow> x | None \<Rightarrow> (n, TyInt64));
             f = ''f_'' @ n;
             known = (case al_user_functions s n of Some u \<Rightarrow> Some u | None \<Rightarrow> al_user_functions s f)
         in ret (case known of
                   Some u \<Rightarrow> if n \<noteq> ''main'' \<and> \<not> starts_with r ''g_'' \<and> CHR ''$'' \<notin> set r then HVariable f u line
                            else HVariable r (resolve_alias_type s t0) line
                 | None \<Rightarrow> HVariable r (resolve_alias_type s t0) line)))))"

definition lower_self :: "string \<Rightarrow> nat \<Rightarrow> HIRExpression ast_lower" where
  "lower_self n line =
     (pbind (lookup_var n) (\<lambda>i.
       ret (case i of Some (m, t) \<Rightarrow> HVariable m t line | None \<Rightarrow> HVariable n TyInt64 line)))"

definition this_argument :: "nat \<Rightarrow> HIRExpression ast_lower" where
  "this_argument line =
     (pbind (lookup_var ''this'') (\<lambda>i.
       ret (HVariable (case i of Some (m, t) \<Rightarrow> m | None \<Rightarrow> ''this'') TyInt64 line)))"

definition class_base :: "string \<Rightarrow> string" where
  "class_base n = trim (base_of n)"

text \<open>A getter or a field of the receiver's class, or a member of its object type.\<close>

definition declared_member :: "ast_lowering \<Rightarrow> nat \<Rightarrow> HIRExpression \<Rightarrow> TejxType \<Rightarrow> string \<Rightarrow> HIRExpression option" where
  "declared_member s line e t m =
     (case t of
        TyClass n _ \<Rightarrow>
          (if (case al_getters s (class_base n) of Some gs \<Rightarrow> m \<in> gs | None \<Rightarrow> False)
           then Some (HCall (''f_'' @ class_base n @ ''_get_'' @ m) [e] TyInt64 line)
           else case map_of (al_instance_fields s) (class_base n) of
                  Some fs \<Rightarrow> (case map_of fs m of Some (u, _) \<Rightarrow> Some (HMemberAccess e m u line) | None \<Rightarrow> None)
                | None \<Rightarrow> None)
      | TyObject ms \<Rightarrow> (case map_of ms m of Some (_, u) \<Rightarrow> Some (HMemberAccess e m u line) | None \<Rightarrow> None)
      | _ \<Rightarrow> None)"

definition undeclared_member :: "ast_lowering \<Rightarrow> nat \<Rightarrow> string \<Rightarrow> HIRExpression \<Rightarrow> TejxType \<Rightarrow> string \<Rightarrow> HIRExpression" where
  "undeclared_member s line obj_name e t m =
     (let combined = obj_name @ ''_'' @ m; f_combined = ''f_'' @ combined
      in case al_enum_members s combined of
           Some v \<Rightarrow> HLiteral (int_to_string v) TyInt64 line
         | None \<Rightarrow>
             if al_user_functions s combined \<noteq> None \<or> al_user_functions s f_combined \<noteq> None
             then HVariable f_combined TyInt64 line
             else HMemberAccess e m (if t = TyAny then TyAny else TyInt64) line)"

definition static_field :: "ast_lowering \<Rightarrow> string \<Rightarrow> string \<Rightarrow> TejxType option" where
  "static_field s obj_name m =
     (if obj_name = [] then None
      else case al_static_fields s obj_name of
             Some fs \<Rightarrow> map_option fst (map_of fs m) | None \<Rightarrow> None)"

definition lower_member_access_with_obj :: "ast_lowering \<Rightarrow> nat \<Rightarrow> string \<Rightarrow> HIRExpression \<Rightarrow> string \<Rightarrow> HIRExpression" where
  "lower_member_access_with_obj s line obj_name e m =
     (case static_field s obj_name m of
        Some t \<Rightarrow> HVariable (''g_'' @ obj_name @ ''_'' @ m) t line
      | None \<Rightarrow>
          (let t = non_none_type (resolve_alias_type s (hexpr_type e))
           in case declared_member s line e t m of
                Some r \<Rightarrow> r
              | None \<Rightarrow> undeclared_member s line obj_name e t m))"

fun identifier_name :: "Expr \<Rightarrow> string" where
  "identifier_name (Identifier n l c) = n"
| "identifier_name e = []"

definition member_value :: "nat \<Rightarrow> string \<Rightarrow> HIRExpression \<Rightarrow> string \<Rightarrow> HIRExpression ast_lower" where
  "member_value line obj_name e m = al_get (\<lambda>s. lower_member_access_with_obj s line obj_name e m)"

definition element_type_of :: "TejxType \<Rightarrow> Expr \<Rightarrow> TejxType" where
  "element_type_of t index =
     (case t of
        TyObject ms \<Rightarrow>
          (case index of StringLiteral v _ _ \<Rightarrow> (case map_of ms v of Some (_, u) \<Rightarrow> u | None \<Rightarrow> TyAny) | _ \<Rightarrow> TyAny)
      | _ \<Rightarrow> get_array_element_type t)"

text \<open>An access that is only made where the receiver is not \<open>None\<close>; the receiver is in it twice.\<close>

definition guarded_access :: "HIRExpression \<Rightarrow> HIRExpression \<Rightarrow> nat \<Rightarrow> HIRExpression" where
  "guarded_access receiver access line =
     (if is_optional_type (hexpr_type receiver)
      then HConditional (build_not_none_condition receiver line) access (HNoneLiteral line)
             (TyOptional (hexpr_type access)) line
      else access)"

definition lower_optional_index :: "lowerers \<Rightarrow> Expr \<Rightarrow> Expr \<Rightarrow> nat \<Rightarrow> HIRExpression ast_lower" where
  "lower_optional_index R target index line =
     (pbind (lw_expression R target) (\<lambda>t.
       pbind (lw_expression R index) (\<lambda>i.
       ret (guarded_access t (HIndexAccess t i (element_type_of (non_none_type (hexpr_type t)) index) line) line))))"

definition lower_index :: "lowerers \<Rightarrow> Expr \<Rightarrow> Expr \<Rightarrow> nat \<Rightarrow> HIRExpression ast_lower" where
  "lower_index R target index line =
     (pbind (lw_expression R target) (\<lambda>t.
       pbind (lw_expression R index) (\<lambda>i.
       ret (HIndexAccess t i (element_type_of (hexpr_type t) index) line))))"

definition lower_coalescing :: "lowerers \<Rightarrow> Expr \<Rightarrow> Expr \<Rightarrow> nat \<Rightarrow> HIRExpression ast_lower" where
  "lower_coalescing R x y line =
     (pbind (lw_expression R x) (\<lambda>l.
       pbind (lw_expression R y) (\<lambda>r.
       ret (if is_optional_type (hexpr_type l)
             then HConditional (build_not_none_condition l line) l r (infer_coalesce_type (hexpr_type l) (hexpr_type r)) line
             else l))))"

section \<open>Operators\<close>

definition lower_right_operand :: "lowerers \<Rightarrow> Expr \<Rightarrow> TokenType \<Rightarrow> Expr \<Rightarrow> HIRExpression ast_lower" where
  "lower_right_operand R x op y =
     (if op = TkAmpersandAmpersand \<or> op = TkPipePipe
      then (pbind (get_narrowing_from_condition x) (\<lambda>n.
        (case n of
                 Some (v, t, e) \<Rightarrow>
                   (let u = (if op = TkAmpersandAmpersand then t else e)
                    in if u \<noteq> TyVoid then in_scope ((pbind (narrow_type v u) (\<lambda>_.
                      lw_expression R y)))
                       else lw_expression R y)
               | None \<Rightarrow> lw_expression R y)))
      else lw_expression R y)"

definition lower_binary_expr :: "lowerers \<Rightarrow> Expr \<Rightarrow> TokenType \<Rightarrow> Expr \<Rightarrow> nat \<Rightarrow> HIRExpression ast_lower" where
  "lower_binary_expr R x op y line =
     (if op = TkInstanceof
      then (pbind (lw_expression R x) (\<lambda>v.
        ret (HCall ''rt_instanceof''
                     [v, HLiteral (case y of Identifier n _ _ \<Rightarrow> n | _ \<Rightarrow> ''__unknown__'') TyString line] TyBool line)))
      else (pbind (lw_expression R x) (\<lambda>l.
        pbind (lower_right_operand R x op y) (\<lambda>r.
        ret (HBinary l op r (infer_hir_binary_type (hexpr_type l) op (hexpr_type r)) line)))))"

definition compound_operator :: "TokenType \<Rightarrow> TokenType option" where
  "compound_operator op =
     (case op of
        TkPlusEquals \<Rightarrow> Some TkPlus | TkMinusEquals \<Rightarrow> Some TkMinus | TkStarEquals \<Rightarrow> Some TkStar
      | TkSlashEquals \<Rightarrow> Some TkSlash | TkModuloEquals \<Rightarrow> Some TkModulo | TkAmpersandEquals \<Rightarrow> Some TkAmpersand
      | TkPipeEquals \<Rightarrow> Some TkPipe | TkCaretEquals \<Rightarrow> Some TkCaret | TkLessLessEquals \<Rightarrow> Some TkLessLess
      | TkGreaterGreaterEquals \<Rightarrow> Some TkGreaterGreater | _ \<Rightarrow> None)"

definition assignment_expected :: "lowerers \<Rightarrow> Expr \<Rightarrow> nat \<Rightarrow> TejxType option ast_lower" where
  "assignment_expected R target line =
     (case target of
        Identifier n _ _ \<Rightarrow>
          (pbind (lookup_var n) (\<lambda>i.
            al_get (\<lambda>s. map_option (\<lambda>(m, t). resolve_alias_type s t) i)))
      | ArrayAccessExpr t i _ _ \<Rightarrow>
          (pbind (lw_expression R t) (\<lambda>v.
            ret (Some (get_array_element_type (hexpr_type v)))))
      | MemberAccessExpr obj m _ _ _ \<Rightarrow>
          (pbind (lw_expression R obj) (\<lambda>v.
            pbind (member_value line [] v m) (\<lambda>e.
            ret (Some (hexpr_type e)))))
      | _ \<Rightarrow> ret None)"

definition setter_class :: "TejxType \<Rightarrow> string \<Rightarrow> ast_lowering \<Rightarrow> string option" where
  "setter_class t m s =
     (case t of
        TyClass n _ \<Rightarrow> (case al_setters s (class_base n) of
                         Some ms \<Rightarrow> if m \<in> ms then Some (class_base n) else None | None \<Rightarrow> None)
      | _ \<Rightarrow> None)"

definition lower_setter_call :: "lowerers \<Rightarrow> Expr \<Rightarrow> HIRExpression \<Rightarrow> nat \<Rightarrow> HIRExpression option ast_lower" where
  "lower_setter_call R target v line =
     (case target of
        MemberAccessExpr obj m _ _ _ \<Rightarrow>
          (pbind (lw_expression R obj) (\<lambda>e.
            pbind (al_get (setter_class (hexpr_type e) m)) (\<lambda>cls.
            (case cls of
                Some n \<Rightarrow>
                  (pbind (lw_expression R obj) (\<lambda>this.
                    ret (Some (HCall (''f_'' @ n @ ''_set_'' @ m) [this, v] TyVoid line))))
              | None \<Rightarrow> ret None))))
      | _ \<Rightarrow> ret None)"

definition lower_assignment_expr :: "lowerers \<Rightarrow> Expr \<Rightarrow> Expr \<Rightarrow> TokenType \<Rightarrow> nat \<Rightarrow> HIRExpression ast_lower" where
  "lower_assignment_expr R target value op line =
     (pbind (assignment_expected R target line) (\<lambda>expected.
       pbind (with_expected expected (lw_expression R value)) (\<lambda>v.
       let t = (case expected of Some u \<Rightarrow> u | None \<Rightarrow> hexpr_type v) in
       pbind ((case compound_operator op of
                Some bop \<Rightarrow> (pbind (lw_expression R target) (\<lambda>l.
                  ret (HBinary l bop v t line)))
              | None \<Rightarrow> ret v)) (\<lambda>w.
       pbind (lower_setter_call R target w line) (\<lambda>setter.
       (case setter of
           Some call \<Rightarrow> ret call
         | None \<Rightarrow> (pbind (lw_expression R target) (\<lambda>e.
           ret (HAssignment e w t line)))))))))"

definition lower_unary_expr :: "lowerers \<Rightarrow> TokenType \<Rightarrow> Expr \<Rightarrow> bool \<Rightarrow> nat \<Rightarrow> HIRExpression ast_lower" where
  "lower_unary_expr R op x is_postfix line =
     (pbind (lw_expression R x) (\<lambda>e.
       let t = hexpr_type e in
       ret (if op = TkPlusPlus \<or> op = TkMinusMinus
             then (if is_postfix then HPostfixUpdate e op t line
                   else HAssignment e (HBinary e (if op = TkPlusPlus then TkPlus else TkMinus) (HLiteral ''1'' TyInt32 line) t line) t line)
             else if op = TkBang then HCall ''rt_not'' [e] TyBool line
             else if op = TkTilde then HBinary e TkCaret (HLiteral ''-1'' t line) t line
             else if op = TkMinus then HBinary (HLiteral (if is_float t then ''0.0'' else ''0'') t line) TkMinus e t line
             else e)))"

end
