(* ===== verification/AstLowerCall.thy ===== *)
theory AstLowerCall
  imports AstLowerExpr
begin

text \<open>
  Lowering of calls, constructions and lambdas, and of any expression, still
  \<open>src/compiler/middle/lowering/expr.rs\<close>.
\<close>

section \<open>Arguments\<close>

definition variadic_pack_type :: "ast_lowering \<Rightarrow> string \<Rightarrow> TejxType" where
  "variadic_pack_type s callee =
     (let candidates = [callee, if starts_with callee ''f_'' then strip_all ''f_'' callee else ''f_'' @ callee];
          rest_type = (\<lambda>c. case al_user_functions s c of
                             Some (TyFunction ps _) \<Rightarrow> if ps \<noteq> [] \<and> is_array (last ps) then Some (last ps) else None
                           | _ \<Rightarrow> None)
      in case List.map_filter rest_type candidates of t # _ \<Rightarrow> t | [] \<Rightarrow> TyDynamicArray TyAny)"

definition fast_print_types :: "TejxType set" where
  "fast_print_types =
     {TyString, TyBool, TyInt8, TyUInt8, TyInt16, TyUInt16, TyUInt32, TyInt32, TyUInt64, TyInt64, TyUInt128,
      TyFloat32, TyFloat64}"

definition can_fast_print_arg :: "HIRExpression \<Rightarrow> bool" where
  "can_fast_print_arg e \<longleftrightarrow> hexpr_type e \<in> fast_print_types"

definition lower_fast_print_arg :: "nat \<Rightarrow> HIRExpression \<Rightarrow> HIRExpression" where
  "lower_fast_print_arg line e =
     (let t = hexpr_type e
      in if t = TyBool then HCall ''rt_to_string_boolean'' [e] TyString line
         else if t \<in> {TyFloat32, TyFloat64} then HCall ''rt_to_string_float'' [e] TyString line
         else if t \<in> {TyInt8, TyUInt8, TyInt16, TyUInt16, TyUInt32, TyInt32, TyUInt64, TyInt64}
           then HCall ''rt_to_string_int'' [e] TyString line
         else e)"

text \<open>The default of a parameter is lowered where the call is.\<close>

definition default_argument :: "lowerers \<Rightarrow> Expr option list option \<Rightarrow> nat \<Rightarrow> nat \<Rightarrow> HIRExpression ast_lower" where
  "default_argument R defaults line i =
     (case defaults of
        Some ds \<Rightarrow> (if i < length ds then (case ds ! i of Some e \<Rightarrow> lw_expression R e | None \<Rightarrow> ret (HNoneLiteral line))
                   else ret (HNoneLiteral line))
      | None \<Rightarrow> ret (HNoneLiteral line))"

type_synonym resolved_call = "string \<times> HIRExpression list \<times> TejxType"

text \<open>The rest arguments become an array, or the missing ones are filled up.\<close>

definition pack_rest :: "ast_lowering \<Rightarrow> nat \<Rightarrow> nat \<Rightarrow> resolved_call \<Rightarrow> resolved_call" where
  "pack_rest s line k call =
     (case call of (callee, args, t) \<Rightarrow>
        if length args < k then call
        else if function_template_name callee = ''print'' \<and> list_all can_fast_print_arg (drop k args)
        then (''rt_print_string_array'',
              [HArrayLiteral (map (lower_fast_print_arg line) (drop k args)) None (TyDynamicArray TyString) line], TyVoid)
        else (callee, take k args @ [HArrayLiteral (drop k args) None (variadic_pack_type s callee) line], t))"

definition complete_arguments :: "lowerers \<Rightarrow> nat \<Rightarrow> resolved_call \<Rightarrow> resolved_call ast_lower" where
  "complete_arguments R line call =
     (case call of (callee, args, t) \<Rightarrow>
        (pbind (al_get id) (\<lambda>s.
          (case al_variadics s (function_template_name callee) of
              Some k \<Rightarrow> ret (pack_rest s line k call)
            | None \<Rightarrow>
                (case al_user_function_args s callee of
                   Some n \<Rightarrow>
                     (pbind (al_each (default_argument R (al_param_defaults s callee) line) [length args..<n]) (\<lambda>more.
                       ret (callee, args @ more, t)))
                 | None \<Rightarrow> ret call)))))"

text \<open>The copy of a generic function for the arguments of the call.\<close>

definition use_instance :: "ast_lowering \<Rightarrow> resolved_call \<Rightarrow> (string \<times> (string \<rightharpoonup> TejxType)) option \<Rightarrow> resolved_call" where
  "use_instance s call inst =
     (case (call, inst) of
        ((callee, args, t), Some (m, b)) \<Rightarrow>
          (m, args, case al_user_functions s callee of
                      Some (TyFunction _ r) \<Rightarrow> substitute_generics b r
                    | Some r \<Rightarrow> substitute_generics b r
                    | None \<Rightarrow> t)
      | (_, None) \<Rightarrow> call)"

section \<open>Calls of members\<close>

definition result_type :: "TejxType \<Rightarrow> TejxType" where
  "result_type t = (case t of TyFunction _ r \<Rightarrow> r | _ \<Rightarrow> t)"

definition is_promise_type :: "TejxType \<Rightarrow> bool" where
  "is_promise_type t = (case t of TyClass n _ \<Rightarrow> n = ''Promise'' | _ \<Rightarrow> False)"

definition flatten_nested_promise_type_once :: "TejxType \<Rightarrow> TejxType" where
  "flatten_nested_promise_type_once t =
     (case t of
        TyClass n [TyClass m gs] \<Rightarrow> if n = ''Promise'' \<and> m = ''Promise'' then TyClass m gs else t
      | _ \<Rightarrow> t)"

definition flattens_promise :: "Expr \<Rightarrow> string \<Rightarrow> TejxType \<Rightarrow> bool" where
  "flattens_promise obj m t \<longleftrightarrow>
     ((m = ''then'' \<or> m = ''catchError'') \<and> is_promise_type (non_none_type t)) \<or>
     (identifier_name obj = ''Promise'' \<and> m = ''resolve'')"

text \<open>A static method of the class that the receiver names.\<close>

definition static_callee :: "ast_lowering \<Rightarrow> string \<Rightarrow> string \<Rightarrow> (string \<times> TejxType) option" where
  "static_callee s n m =
     (if al_class_methods s n = None then None
      else case List.map_filter (\<lambda>c. map_option (Pair c) (al_user_functions s c))
                  [''f_'' @ n @ ''_'' @ m, ''f_'' @ monomorphized_class_name s (from_name n) @ ''_'' @ m] of
             (c, t) # _ \<Rightarrow> Some (c, result_type t)
           | [] \<Rightarrow> None)"

text \<open>A built-in method of a text, an array or a slice.\<close>

definition builtin_callee :: "TejxType \<Rightarrow> string \<Rightarrow> (string \<times> TejxType) ast_lower" where
  "builtin_callee t m =
     (case method_callee t m of
        None \<Rightarrow> ret (''f_'' @ to_name t @ ''_'' @ m, TyInt64)
      | Some c \<Rightarrow>
          (pbind (al_get id) (\<lambda>s.
            (case al_user_functions s c of
                Some r \<Rightarrow> pmap (Pair c) (substitute_receiver (result_type r) t c)
              | None \<Rightarrow> ret (c, case method_return_type t m of Some r \<Rightarrow> r | None \<Rightarrow> TyInt64)))))"

text \<open>The nearest superclass with the method, by its function or as an extern function.\<close>

function inherited_callee :: "ast_lowering \<Rightarrow> string list \<Rightarrow> string \<Rightarrow> string \<Rightarrow> (string \<times> TejxType option) option" where
  "inherited_callee s visited m p =
     (let b = base_of p; key = ''f_'' @ b @ ''_'' @ m
      in if b \<in> set visited then None
         else case al_user_functions s key of
                Some t \<Rightarrow> Some (key, Some t)
              | None \<Rightarrow>
                  if key \<in> al_externs s then Some (key, None)
                  else case map_of (al_class_parents s) b of
                         None \<Rightarrow> None
                       | Some q \<Rightarrow> inherited_callee s (b # visited) m q)"
  by pat_completeness auto
termination
proof (relation "measure (\<lambda>(s, visited, m, p). card (fst ` set (al_class_parents s) - set visited))", goal_cases)
  case (2 s visited m p b key q)
  then have "b \<in> fst ` set (al_class_parents s) - set visited"
    by (auto dest!: map_of_SomeD intro: rev_image_eqI)
  then have "fst ` set (al_class_parents s) - set (b # visited) \<subset> fst ` set (al_class_parents s) - set visited" by auto
  then show ?case by (auto intro!: psubset_card_mono simp del: set_simps)
qed simp

declare inherited_callee.simps [simp del]

definition receiver_type_name :: "TejxType \<Rightarrow> string" where
  "receiver_type_name t = class_base (case t of TyClass n _ \<Rightarrow> n | _ \<Rightarrow> type_debug t)"

text \<open>The candidates for a method of a class, the most specific first; without a type the name alone is found.\<close>

definition class_callee :: "ast_lowering \<Rightarrow> TejxType \<Rightarrow> string \<Rightarrow> (string \<times> TejxType option) option" where
  "class_callee s t m =
     (let n = receiver_type_name t;
          concrete = ''f_'' @ monomorphized_class_name s t @ ''_'' @ m;
          key = ''f_'' @ n @ ''_'' @ m;
          mono = (case map_of (al_class_instantiations s) n of
                    Some [ts] \<Rightarrow> (let k = ''f_'' @ monomorphized_name n ts @ ''_'' @ m
                                 in map_option (\<lambda>r. (k, Some r)) (al_user_functions s k))
                  | _ \<Rightarrow> None)
      in case al_user_functions s concrete of
           Some r \<Rightarrow> Some (concrete, Some r)
         | None \<Rightarrow>
             case mono of
               Some x \<Rightarrow> Some x
             | None \<Rightarrow>
                 case al_user_functions s key of
                   Some r \<Rightarrow> Some (key, Some r)
                 | None \<Rightarrow>
                     if key \<in> al_externs s then Some (key, None)
                     else case map_of (al_class_parents s) n of
                            None \<Rightarrow> None
                          | Some p \<Rightarrow> inherited_callee s [] m p)"

definition unknown_callee :: "Expr \<Rightarrow> TejxType \<Rightarrow> string \<Rightarrow> string ast_lower" where
  "unknown_callee obj t m =
     (let n = receiver_type_name t; key = ''f_'' @ n @ ''_'' @ m
      in if n = ''Any'' \<or> n = ''any''
         then (case obj of
                 Identifier v _ _ \<Rightarrow>
                   (pbind (lookup_var v) (\<lambda>i.
                     ret ((case i of Some (u, _) \<Rightarrow> u | None \<Rightarrow> v) @ ''.'' @ m)))
               | _ \<Rightarrow> ret key)
         else ret key)"

definition method_callee_of :: "Expr \<Rightarrow> TejxType \<Rightarrow> string \<Rightarrow> (string \<times> TejxType) ast_lower" where
  "method_callee_of obj t m =
     (if t = TyString \<or> is_array t \<or> is_slice t then builtin_callee t m
      else if t = TyAny \<and> m = ''length'' then ret (''rt_len'', TyInt32)
      else (pbind (al_get id) (\<lambda>s.
        (case class_callee s t m of
                 Some (c, Some r) \<Rightarrow> pmap (Pair c) (substitute_receiver r t c)
               | Some (c, None) \<Rightarrow> ret (c, TyInt64)
               | None \<Rightarrow> (pbind (unknown_callee obj t m) (\<lambda>c.
                 ret (c, TyInt64)))))))"

definition super_call :: "string \<Rightarrow> HIRExpression list \<Rightarrow> nat \<Rightarrow> resolved_call ast_lower" where
  "super_call m args line =
     (pbind (al_get id) (\<lambda>s.
       (case al_parent_class s of
           None \<Rightarrow> ret ([], args, TyInt64)
         | Some p \<Rightarrow>
             (pbind (this_argument line) (\<lambda>this.
               let c = ''f_'' @ p @ ''_'' @ m in
               ret (c, this # args, case al_user_functions s c of Some t \<Rightarrow> result_type t | None \<Rightarrow> TyInt64))))))"

definition resolve_member_call :: "Expr \<Rightarrow> string \<Rightarrow> HIRExpression \<Rightarrow> HIRExpression list \<Rightarrow> nat \<Rightarrow> resolved_call ast_lower" where
  "resolve_member_call obj m e args line =
     (case obj of
        SuperExpr _ _ \<Rightarrow> super_call m args line
      | _ \<Rightarrow>
          (pbind (al_get (\<lambda>s. if identifier_name obj = [] then None else static_callee s (identifier_name obj) m)) (\<lambda>static.
            (case static of
                Some (c, t) \<Rightarrow> ret (c, args, t)
              | None \<Rightarrow>
                  (pbind (method_callee_of obj (non_none_type (hexpr_type e)) m) (\<lambda>ct.
                    ret (fst ct, e # args, snd ct)))))))"

text \<open>The run-time functions of promises. \<open>final_args[0]\<close> panics if there is no argument.\<close>

definition promise_call :: "nat \<Rightarrow> string \<Rightarrow> HIRExpression list \<Rightarrow> (string \<times> HIRExpression list) option option" where
  "promise_call line callee args =
     (let starts = (\<lambda>n. starts_with callee (''f_'' @ n) \<or> starts_with callee n);
          optional = (\<lambda>i. if i < length args then args ! i else HNoneLiteral line);
          single = (\<lambda>f. Some (if args = [] then None else Some (f, [if 1 < length args then args ! 1 else args ! 0])));
          first = (\<lambda>f es. Some (if args = [] then None else Some (f, args ! 0 # es)))
      in if starts ''Promise_spawn'' then single ''f___tejx_promise_spawn''
         else if starts ''Promise_all'' then single ''f___tejx_promise_all''
         else if starts ''Promise_settled'' then single ''f___tejx_promise_settled''
         else if starts ''Promise_then'' then first ''f___tejx_promise_then'' [optional 1, optional 2]
         else if starts ''Promise_catch'' then first ''f___tejx_promise_catch'' [optional 1]
         else None)"

definition lower_member_call_expr ::
  "lowerers \<Rightarrow> nat \<Rightarrow> Expr \<Rightarrow> string \<Rightarrow> HIRExpression \<Rightarrow> HIRExpression list \<Rightarrow> Type_Node list option \<Rightarrow> HIRExpression ast_lower" where
  "lower_member_call_expr R line obj m e args targs =
     (pbind (member_value line (identifier_name obj) e m) (\<lambda>field.
       (case hexpr_type field of
           TyFunction _ r \<Rightarrow> ret (HIndirectCall field args r line)
         | _ \<Rightarrow>
             (pbind (resolve_member_call obj m e args line) (\<lambda>call.
               pbind (resolve_function_monomorph (fst call) (fst (snd call)) targs) (\<lambda>inst.
               pbind (al_get id) (\<lambda>s.
               pbind (complete_arguments R line (use_instance s call inst)) (\<lambda>full.
               (case full of (c, as, t) \<Rightarrow>
                   case promise_call line c as of
                     Some (Some (f, bs)) \<Rightarrow> ret (HCall f bs t line)
                   | Some None \<Rightarrow> (\<lambda>_. Panic)
                   | None \<Rightarrow> ret (HCall c as (if flattens_promise obj m (hexpr_type e)
                                             then flatten_nested_promise_type_once t else t) line))))))))))"

section \<open>Types and sizes as values\<close>

fun type_str_precise :: "(string \<rightharpoonup> string) \<Rightarrow> TejxType \<Rightarrow> string" where
  "type_str_precise d TyInt8 = ''int8''" | "type_str_precise d TyUInt8 = ''uint8''"
| "type_str_precise d TyInt16 = ''int16''" | "type_str_precise d TyUInt16 = ''uint16''"
| "type_str_precise d TyInt32 = ''int''" | "type_str_precise d TyUInt32 = ''int''"
| "type_str_precise d TyInt64 = ''int64''" | "type_str_precise d TyUInt64 = ''uint64''"
| "type_str_precise d TyInt128 = ''int128''" | "type_str_precise d TyUInt128 = ''uint128''"
| "type_str_precise d TyFloat16 = ''float16''" | "type_str_precise d TyFloat32 = ''float''"
| "type_str_precise d TyFloat64 = ''float64''" | "type_str_precise d TyBool = ''bool''"
| "type_str_precise d TyString = ''string''" | "type_str_precise d TyChar = ''char''"
| "type_str_precise d (TyFunction ps r) = ''function''" | "type_str_precise d TyVoid = ''void''"
| "type_str_precise d (TyFixedArray t n) =
     type_str_precise d (fst (type_array_dims t)) @ ''['' @ nat_to_string n @ '']'' @ concat (snd (type_array_dims t))"
| "type_str_precise d (TyDynamicArray t) =
     type_str_precise d (fst (type_array_dims t)) @ ''[]'' @ concat (snd (type_array_dims t))"
| "type_str_precise d (TySlice t) = type_str_precise d t @ ''[]''"
| "type_str_precise d (TyClass n gs) =
     (if gs = [] then (case d n of Some x \<Rightarrow> x | None \<Rightarrow> n)
      else n @ ''<'' @ join_with '', '' (map (type_str_precise d) gs) @ ''>'')"
| "type_str_precise d (TyObject ms) = ''struct''"
| "type_str_precise d (TyOptional t) = ''Optional<'' @ type_str_precise d t @ ''>''"
| "type_str_precise d TyAny = ''any''"

definition sizeof_const :: "TejxType \<Rightarrow> nat option" where
  "sizeof_const t =
     (case t of
        TyInt8 \<Rightarrow> Some 1 | TyUInt8 \<Rightarrow> Some 1 | TyInt16 \<Rightarrow> Some 2 | TyUInt16 \<Rightarrow> Some 2 | TyUInt32 \<Rightarrow> Some 4
      | TyInt32 \<Rightarrow> Some 4 | TyUInt64 \<Rightarrow> Some 8 | TyInt64 \<Rightarrow> Some 8 | TyInt128 \<Rightarrow> Some 16 | TyUInt128 \<Rightarrow> Some 16
      | TyFloat16 \<Rightarrow> Some 2 | TyFloat32 \<Rightarrow> Some 4 | TyFloat64 \<Rightarrow> Some 8 | TyBool \<Rightarrow> Some 1 | TyChar \<Rightarrow> Some 4
      | TyString \<Rightarrow> Some 8 | TyAny \<Rightarrow> Some 8 | TyFunction _ _ \<Rightarrow> Some 16 | TyDynamicArray _ \<Rightarrow> Some 8
      | TySlice _ \<Rightarrow> Some 16 | TyFixedArray _ n \<Rightarrow> Some (n * 8) | TyObject ms \<Rightarrow> Some (length ms * 8)
      | TyClass _ _ \<Rightarrow> Some 8 | _ \<Rightarrow> None)"

text \<open>A call that is a literal: the type or the size of its argument, where it is known.\<close>

definition literal_call :: "ast_lowering \<Rightarrow> string \<Rightarrow> HIRExpression list \<Rightarrow> nat \<Rightarrow> HIRExpression option" where
  "literal_call s callee args line =
     (if callee = ''typeof'' then
        (case args of
           [] \<Rightarrow> Some (HLiteral ''undefined'' TyString line)
         | e # _ \<Rightarrow>
             (case hexpr_type e of
                TyClass _ _ \<Rightarrow> None | TyAny \<Rightarrow> None | TyOptional _ \<Rightarrow> None
              | t \<Rightarrow> Some (HLiteral (type_str_precise (al_class_display s) t) TyString line)))
      else if callee = ''sizeof'' then
        (case args of
           [] \<Rightarrow> None
         | e # _ \<Rightarrow> map_option (\<lambda>n. HLiteral (nat_to_string n) TyInt32 line) (sizeof_const (hexpr_type e)))
      else None)"

section \<open>Calls of functions\<close>

definition call_arguments :: "lowerers \<Rightarrow> string \<Rightarrow> Expr list \<Rightarrow> HIRExpression list ast_lower" where
  "call_arguments R callee args =
     al_each (\<lambda>e. if callee = ''__spawn_async''
                  then (pbind (al_get al_expected) (\<lambda>prev.
                    with_expected (map_option (TyFunction []) prev) (lw_expression R e)))
                  else lw_expression R e) args"

text \<open>A variable that holds a function is called indirectly; else its mangled name is the callee.\<close>

definition variable_callee :: "string \<Rightarrow> HIRExpression list \<Rightarrow> nat \<Rightarrow> string \<Rightarrow> (HIRExpression + string) ast_lower" where
  "variable_callee name args line callee =
     (if name = [] \<or> CHR ''.'' \<in> set name then ret (Inr callee)
      else (pbind (lookup_var name) (\<lambda>i.
        pbind (al_get id) (\<lambda>s.
        ret (case i of
                     None \<Rightarrow> Inr callee
                   | Some (m, t) \<Rightarrow>
                       if al_user_functions s name = None \<and> al_user_functions s (''f_'' @ name) = None
                       then Inl (HIndirectCall (HVariable m t line) args
                                   (case t of TyFunction _ r \<Rightarrow> r | _ \<Rightarrow> TyInt64) line)
                       else Inr m)))))"

definition function_callee :: "ast_lowering \<Rightarrow> string \<Rightarrow> string \<Rightarrow> (string \<times> TejxType) option" where
  "function_callee s name callee =
     (let f = ''f_'' @ name;
          final = (\<lambda>c. if c = ''main'' then ''tejx_main'' else if name \<in> al_externs s then name else c)
      in case al_user_functions s name of
           Some t \<Rightarrow> Some (final callee, result_type t)
         | None \<Rightarrow>
             if starts_with name ''f_'' then None
             else map_option (\<lambda>t. (final f, result_type t)) (al_user_functions s f))"

definition resolve_function_call :: "string \<Rightarrow> string \<Rightarrow> string \<Rightarrow> HIRExpression list \<Rightarrow> TejxType \<Rightarrow> nat \<Rightarrow> resolved_call ast_lower" where
  "resolve_function_call name normalized callee args t line =
     (pbind (al_get id) (\<lambda>s.
       (if name = ''super''
         then (case al_parent_class s of
                 None \<Rightarrow> ret (callee, args, t)
               | Some p \<Rightarrow>
                   (pbind (this_argument line) (\<lambda>this.
                     ret (''f_'' @ p @ ''_constructor'', this # args, TyVoid))))
         else case function_callee s normalized callee of
                Some (c, r) \<Rightarrow>
                  (case args of
                     [] \<Rightarrow> ret (c, args, r)
                   | e # _ \<Rightarrow> (pbind (substitute_receiver r (hexpr_type e) c) (\<lambda>u.
                     ret (c, args, u))))
              | None \<Rightarrow>
                  if al_class_methods s normalized \<noteq> None
                  then ret (if al_user_functions s (''f_'' @ normalized @ ''_constructor'') = None \<and>
                               al_user_functions s (normalized @ ''_constructor'') \<noteq> None
                            then normalized @ ''_constructor'' else ''f_'' @ normalized @ ''_constructor'',
                            args, TyClass normalized [])
                  else ret (callee, args, t))))"

definition find_instance ::
  "string \<Rightarrow> HIRExpression list \<Rightarrow> Type_Node list option \<Rightarrow> string \<Rightarrow> nat \<Rightarrow> nat \<Rightarrow> (string \<times> (string \<rightharpoonup> TejxType)) option ast_lower" where
  "find_instance callee args targs name line col =
     (pbind (resolve_function_monomorph callee args targs) (\<lambda>inst.
       (case inst of
           Some x \<Rightarrow> ret (Some x)
         | None \<Rightarrow> resolve_recorded_function_monomorph callee name line col)))"

definition lower_function_call ::
  "lowerers \<Rightarrow> string \<Rightarrow> HIRExpression list \<Rightarrow> Type_Node list option \<Rightarrow> nat \<Rightarrow> nat \<Rightarrow> HIRExpression ast_lower" where
  "lower_function_call R name args targs line col =
     (let normalized = replace_text '':'' ''_'' (replace_text ''::'' ''_'' (replace_text ''.'' ''_'' name));
          callee = (if name = ''typeof'' then ''rt_typeof'' else if name = ''sizeof'' then ''rt_sizeof'' else normalized)
      in (pbind (variable_callee name args line callee) (\<lambda>v.
        (case v of
               Inl e \<Rightarrow> ret e
             | Inr c \<Rightarrow>
                 (pbind (resolve_function_call name normalized c args (if name = ''typeof'' then TyString else TyInt64) line) (\<lambda>call.
                   pbind (find_instance (fst call) (fst (snd call)) targs name line col) (\<lambda>inst.
                   pbind (al_get id) (\<lambda>s.
                   pbind (complete_arguments R line (use_instance s call inst)) (\<lambda>full.
                   (case full of (f, as, t) \<Rightarrow> ret (HCall f as t line)))))))))))"

definition lower_call :: "lowerers \<Rightarrow> Expr \<Rightarrow> Type_Node list option \<Rightarrow> Expr list \<Rightarrow> nat \<Rightarrow> nat \<Rightarrow> HIRExpression ast_lower" where
  "lower_call R callee targs args line col =
     (let name = to_callee_name callee
      in (pbind (call_arguments R name args) (\<lambda>as.
        pbind (al_get (\<lambda>s. literal_call s name as line)) (\<lambda>lit.
        (case lit of
               Some e \<Rightarrow> ret e
             | None \<Rightarrow>
                 (case callee of
                    MemberAccessExpr obj m _ _ _ \<Rightarrow>
                      (pbind (lw_expression R obj) (\<lambda>e.
                        lower_member_call_expr R line obj m e as targs))
                  | OptionalMemberAccessExpr obj m _ _ \<Rightarrow>
                      (pbind (lw_expression R obj) (\<lambda>e.
                        pbind (lower_member_call_expr R line obj m e as targs) (\<lambda>call.
                        ret (guarded_access e call line))))
                  | _ \<Rightarrow> lower_function_call R name as targs line col))))))"

section \<open>Constructions\<close>

definition infer_class_arguments :: "ast_lowering \<Rightarrow> string \<Rightarrow> HIRExpression list \<Rightarrow> TejxType list option" where
  "infer_class_arguments s n args =
     (case (al_class_generics s n, al_user_functions s (''f_'' @ n @ ''_constructor'')) of
        (Some ps, Some (TyFunction fs _)) \<Rightarrow>
          (let b = fold (\<lambda>(f, a). collect_generic_bindings (set ps) f a) (zip fs (map hexpr_type args)) Map.empty;
               ts = map (\<lambda>p. the (b p)) ps
           in if ps \<noteq> [] \<and> (\<forall>p \<in> set ps. b p \<noteq> None) \<and> (\<forall>t \<in> set ts. is_concrete_type t) then Some ts else None)
      | _ \<Rightarrow> None)"

text \<open>The arguments of a class written without any: expected, inferred from the constructor, or the only known ones.\<close>

definition implied_class_arguments :: "ast_lowering \<Rightarrow> string \<Rightarrow> HIRExpression list \<Rightarrow> TejxType list" where
  "implied_class_arguments s n args =
     (let expected = (case map_option (resolve_alias_type s) (al_expected s) of
                        Some (TyClass m gs) \<Rightarrow> if m = n then gs else [] | _ \<Rightarrow> []);
          inferred = (case infer_class_arguments s n args of Some ts \<Rightarrow> ts | None \<Rightarrow> expected)
      in if inferred \<noteq> [] then inferred
         else case map_of (al_class_instantiations s) n of Some [ts] \<Rightarrow> ts | _ \<Rightarrow> [])"

definition constructed_type :: "ast_lowering \<Rightarrow> string \<Rightarrow> HIRExpression list \<Rightarrow> TejxType" where
  "constructed_type s class_name args =
     (case from_name class_name of
        TyClass n gs \<Rightarrow>
          if gs = [] then TyClass n (implied_class_arguments s n args)
          else if (case al_class_generics s n of Some ps \<Rightarrow> ps \<noteq> [] | None \<Rightarrow> False) then TyClass n gs
          else TyClass n []
      | t \<Rightarrow> t)"

definition constructor_defaults :: "ast_lowering \<Rightarrow> string \<Rightarrow> TejxType \<Rightarrow> Expr option list" where
  "constructor_defaults s cls t =
     (case al_ctor_defaults s cls of
        Some ds \<Rightarrow> ds
      | None \<Rightarrow> (case t of TyClass n _ \<Rightarrow> (case al_ctor_defaults s n of Some ds \<Rightarrow> ds | None \<Rightarrow> []) | _ \<Rightarrow> []))"

definition pack_constructor_rest :: "ast_lowering \<Rightarrow> nat \<Rightarrow> string \<Rightarrow> HIRExpression list \<Rightarrow> HIRExpression list" where
  "pack_constructor_rest s line ctor args =
     (case al_variadics s ctor of
        Some k \<Rightarrow> if k \<le> length args
                 then take k args @ [HArrayLiteral (drop k args) None (variadic_pack_type s ctor) line] else args
      | None \<Rightarrow> args)"

definition record_instantiation :: "TejxType \<Rightarrow> ast_lowering \<Rightarrow> ast_lowering" where
  "record_instantiation t s =
     (case t of
        TyClass n gs \<Rightarrow>
          if gs \<noteq> [] \<and> list_all is_concrete_type gs
          then s\<lparr>al_class_instantiations := insert_instance n gs (al_class_instantiations s)\<rparr> else s
      | _ \<Rightarrow> s)"

definition lower_new_expr :: "lowerers \<Rightarrow> string \<Rightarrow> Expr list \<Rightarrow> nat \<Rightarrow> HIRExpression ast_lower" where
  "lower_new_expr R class_name args line =
     (pbind (al_each (lw_expression R) args) (\<lambda>as.
       pbind (al_get (\<lambda>s. constructed_type s class_name as)) (\<lambda>t.
       pbind (al_get (\<lambda>s. monomorphized_class_name s t)) (\<lambda>cls.
       pbind (al_get (\<lambda>s. constructor_defaults s cls t)) (\<lambda>defaults.
       pbind (al_each (\<lambda>d. lw_expression R (the d)) (takeWhile (\<lambda>d. d \<noteq> None) (drop (length as) defaults))) (\<lambda>more.
       pbind (al_get (\<lambda>s. pack_constructor_rest s line (cls @ ''_constructor'') (as @ more))) (\<lambda>full.
       pbind (al_put (record_instantiation t)) (\<lambda>_.
       ret (HNew cls full t line)))))))))"

section \<open>Lambdas\<close>

definition lambda_param_type :: "TejxType list option \<Rightarrow> nat \<Rightarrow> Expr Parameter \<Rightarrow> TejxType" where
  "lambda_param_type inferred i p =
     (case inferred of
        Some ts \<Rightarrow> if i < length ts then ts ! i
                  else if type_node_to_string (param_type p) = [] then TyInt64 else from_node (param_type p)
      | None \<Rightarrow> if type_node_to_string (param_type p) = [] then TyInt64 else from_node (param_type p))"

definition lambda_params :: "TejxType list option \<Rightarrow> Expr Parameter list \<Rightarrow> (string \<times> TejxType) list" where
  "lambda_params inferred ps = map (\<lambda>(i, p). (param_name p, lambda_param_type inferred i p)) (enumerate 0 ps)"

definition define_params :: "(string \<times> TejxType) list \<Rightarrow> (string \<times> TejxType) list ast_lower" where
  "define_params ps = al_each (\<lambda>(n, t). (pbind (define_name n t) (\<lambda>m.
    ret (m, t)))) ps"

text \<open>Padding to four parameters, and the environment in front.\<close>

definition dummy_params :: "nat \<Rightarrow> (string \<times> TejxType) list" where
  "dummy_params n = map (\<lambda>i. (''__dummy_pad_'' @ nat_to_string i, TyInt64)) [n..<4]"

definition begin_lambda :: "string ast_lower" where
  "begin_lambda =
     (pbind (al_get al_lambda_counter) (\<lambda>i.
       let n = ''lambda_'' @ nat_to_string i in
       pbind (al_put (\<lambda>s. s\<lparr>al_lambda_counter := i + 1\<rparr>)) (\<lambda>_.
       pbind (register_lambda_env_owner n) (\<lambda>_.
       pbind (al_put (\<lambda>s. s\<lparr>al_function_display := (al_function_display s)
                        (n \<mapsto> (case al_pending_display s of Some d \<Rightarrow> d | None \<Rightarrow> ''<lambda>'')),
                      al_pending_display := None\<rparr>)) (\<lambda>_.
       ret n)))))"

definition end_lambda :: "HIRStatement \<Rightarrow> string \<Rightarrow> unit ast_lower" where
  "end_lambda f n =
     al_put (\<lambda>s. s\<lparr>al_source_files := (al_source_files s)(n \<mapsto> al_current_file s),
                   al_lambda_functions := al_lambda_functions s @ [f]\<rparr>)"

definition body_or_block :: "nat \<Rightarrow> HIRStatement option \<Rightarrow> HIRStatement" where
  "body_or_block line b = (case b of Some st \<Rightarrow> st | None \<Rightarrow> HBlock [] line)"

definition lower_lambda :: "lowerers \<Rightarrow> Expr Parameter list \<Rightarrow> Statement \<Rightarrow> nat \<Rightarrow> nat \<Rightarrow> HIRExpression ast_lower" where
  "lower_lambda R params body line col =
     (pbind (al_get (\<lambda>s. case al_expected s of Some (TyFunction _ r) \<Rightarrow> Some r | _ \<Rightarrow> None)) (\<lambda>expected.
       pbind begin_lambda (\<lambda>n.
       pbind (al_get (\<lambda>s. lambda_params (al_lambda_types s (line, col)) params)) (\<lambda>ps.
       pbind (al_get (\<lambda>s. case expected of Some t \<Rightarrow> t
                         | None \<Rightarrow> (case al_lambda_returns s (line, col) of Some t \<Rightarrow> t | None \<Rightarrow> TyVoid))) (\<lambda>r.
       pbind (in_lambda_scope
          ((pbind (define_params ps) (\<lambda>user.
            pbind (define_params (dummy_params (length user))) (\<lambda>pads.
            pbind (define_name ''__env'' TyInt64) (\<lambda>env.
            pbind (with_return_type r (lw_statement R body)) (\<lambda>b.
            ret (HFunction n ((env, TyInt64) # user @ pads) r (body_or_block line b) False line)))))))) (\<lambda>f.
       pbind (end_lambda f n) (\<lambda>_.
       ret (HLiteral n (TyFunction (map snd ps) r) line))))))))"

section \<open>Expressions\<close>

fun lower_expression_ast :: "lowerers \<Rightarrow> Expr \<Rightarrow> HIRExpression ast_lower" where
  "lower_expression_ast R (ObjectLiteralExpr entries spreads l c) = lower_object_literal R entries spreads l"
| "lower_expression_ast R (NumberLiteral v f l c) = lower_number v f l"
| "lower_expression_ast R (StringLiteral v l c) = lower_string v l"
| "lower_expression_ast R (CharLiteral v l c) = ret (HLiteral (nat_to_string (code v)) TyChar l)"
| "lower_expression_ast R (BooleanLiteral v l c) = ret (HLiteral (if v then ''true'' else ''false'') TyBool l)"
| "lower_expression_ast R (ThisExpr l c) = lower_self ''this'' l"
| "lower_expression_ast R (SuperExpr l c) = lower_self ''super'' l"
| "lower_expression_ast R (Identifier n l c) = lower_identifier n l"
| "lower_expression_ast R (NullishCoalescingExpr x y l c) = lower_coalescing R x y l"
| "lower_expression_ast R (OptionalArrayAccessExpr x i l c) = lower_optional_index R x i l"
| "lower_expression_ast R (NoneLiteral l c) = ret (HNoneLiteral l)"
| "lower_expression_ast R (SomeExpr x l c) = (pbind (lw_expression R x) (\<lambda>e.
  ret (HSomeExpr e l)))"
| "lower_expression_ast R (CastExpr x t l c) = (pbind (lw_expression R x) (\<lambda>e.
  ret (HCast e (from_node t) l)))"
| "lower_expression_ast R (BinaryExpr x op y l c) = lower_binary_expr R x op y l"
| "lower_expression_ast R (AssignmentExpr x v op l c) = lower_assignment_expr R x v op l"
| "lower_expression_ast R (UnaryExpr op x p l c) = lower_unary_expr R op x p l"
| "lower_expression_ast R (CallExpr f targs args l c) = lower_call R f targs args l c"
| "lower_expression_ast R (MemberAccessExpr x m l c ns) =
     (pbind (lw_expression R x) (\<lambda>e.
       member_value l (identifier_name x) e m))"
| "lower_expression_ast R (ArrayAccessExpr x i l c) = lower_index R x i l"
| "lower_expression_ast R (ArrayLiteral es t l c) = lower_array_literal R es t l"
| "lower_expression_ast R (SequenceExpr es l c) =
     (pbind (al_each (lw_expression R) es) (\<lambda>vs.
       ret (HSequence vs (if vs = [] then TyVoid else hexpr_type (last vs)) l)))"
| "lower_expression_ast R (LambdaExpr ps b l c) = lower_lambda R ps b l c"
| "lower_expression_ast R (OptionalMemberAccessExpr x m l c) =
     (pbind (lw_expression R x) (\<lambda>e.
       pbind (member_value l (identifier_name x) e m) (\<lambda>a.
       ret (guarded_access e a l))))"
| "lower_expression_ast R (NewExpr n args l c) = lower_new_expr R n args l"
| "lower_expression_ast R (OptionalCallExpr f targs args l c) =
     (pbind (lw_expression R f) (\<lambda>e.
       ret (HOptionalChain e ''()'' TyInt64 l)))"
| "lower_expression_ast R (TernaryExpr x y z l c) =
     (pbind (lw_expression R x) (\<lambda>b.
       pbind (lw_expression R y) (\<lambda>t.
       pbind (lw_expression R z) (\<lambda>f.
       ret (HConditional b t f (infer_ternary_type (hexpr_type t) (hexpr_type f)) l)))))"
| "lower_expression_ast R (SpreadExpr x l c) = ret (HLiteral ''0'' TyInt64 l)"

end
