(* ===== verification/AstLowerStmt.thy ===== *)
theory AstLowerStmt
  imports AstLowerCall
begin

text \<open>
  Lowering of statements, functions, classes and extensions,
  \<open>src/compiler/middle/lowering/stmt.rs\<close>, \<open>func.rs\<close> and \<open>class.rs\<close>, and the knot of the recursion.
  The run-time borrow checks of \<open>RefCell\<close> are not modelled.
\<close>

section \<open>Registration of functions and classes\<close>

definition param_type_or_default :: "lowerers \<Rightarrow> TejxType \<Rightarrow> Expr Parameter \<Rightarrow> TejxType ast_lower" where
  "param_type_or_default R t p =
     (case (t, param_default p) of
        (TyVoid, Some e) \<Rightarrow> (pbind (lw_expression R e) (\<lambda>v.
          ret (hexpr_type v)))
      | _ \<Rightarrow> ret t)"

definition mangled_function :: "(Expr, Statement) FunctionDeclaration \<Rightarrow> string" where
  "mangled_function f = (if fn_is_extern f then fn_name f else ''f_'' @ fn_name f)"

definition set_function :: "string \<Rightarrow> TejxType \<Rightarrow> nat \<Rightarrow> ast_lowering \<Rightarrow> ast_lowering" where
  "set_function n t k s =
     s\<lparr>al_user_functions := (al_user_functions s)(n \<mapsto> t), al_user_function_args := (al_user_function_args s)(n \<mapsto> k)\<rparr>"

definition set_defaults :: "string \<Rightarrow> Expr option list \<Rightarrow> ast_lowering \<Rightarrow> ast_lowering" where
  "set_defaults n ds s = s\<lparr>al_param_defaults := (al_param_defaults s)(n \<mapsto> ds)\<rparr>"

definition set_generics :: "string \<Rightarrow> (Expr, Statement) FunctionDeclaration \<Rightarrow> ast_lowering \<Rightarrow> ast_lowering" where
  "set_generics n f s =
     (if fn_generics f = [] then s
      else s\<lparr>al_function_generics := (al_function_generics s)(n \<mapsto> map generic_name (fn_generics f)),
             al_erased := (if can_erase_generic_function f then insert n (al_erased s) else al_erased s)\<rparr>)"

definition register_function :: "lowerers \<Rightarrow> (Expr, Statement) FunctionDeclaration \<Rightarrow> unit ast_lower" where
  "register_function R f =
     (pbind (al_each (\<lambda>p. param_type_or_default R (from_node (param_type p)) p) (fn_params f)) (\<lambda>ts.
       let n = mangled_function f in
       pbind (al_put (set_generics n f)) (\<lambda>_.
       pbind (al_put (set_function n (TyFunction ts (from_node (fn_return_type f))) (length (fn_params f)))) (\<lambda>_.
       pbind (al_put (set_defaults n (map param_default (fn_params f)))) (\<lambda>_.
       al_put (\<lambda>s. if fn_is_extern f then s\<lparr>al_externs := insert (fn_name f) (al_externs s)\<rparr> else s))))))"

definition fixed_params :: "Expr Parameter list \<Rightarrow> nat" where
  "fixed_params ps = length (takeWhile (\<lambda>p. \<not> param_rest p) ps)"

definition scan_variadic :: "string \<Rightarrow> Expr Parameter list \<Rightarrow> ast_lowering \<Rightarrow> ast_lowering" where
  "scan_variadic n ps s =
     (if fixed_params ps < length ps then s\<lparr>al_variadics := (al_variadics s)(n \<mapsto> fixed_params ps)\<rparr> else s)"

definition method_function :: "(Expr, Statement) ClassMethod \<Rightarrow> (Expr, Statement) FunctionDeclaration" where
  "method_function m = (case m of ClassMethod f _ _ _ \<Rightarrow> f)"

definition method_is_static :: "(Expr, Statement) ClassMethod \<Rightarrow> bool" where
  "method_is_static m = (case m of ClassMethod _ _ st _ \<Rightarrow> st)"

definition scan_variadic_class :: "(Expr, Statement) ClassDeclaration \<Rightarrow> ast_lowering \<Rightarrow> ast_lowering" where
  "scan_variadic_class d s =
     (case d of ClassDeclaration n _ _ _ _ _ methods _ _ ctor _ _ \<Rightarrow>
        (case ctor of None \<Rightarrow> id | Some f \<Rightarrow> scan_variadic (n @ ''_constructor'') (fn_params f))
          (fold (\<lambda>m. scan_variadic (n @ ''_'' @ fn_name (method_function m)) (fn_params (method_function m))) methods s))"

definition resolved_node :: "ast_lowering \<Rightarrow> Type_Node \<Rightarrow> TejxType" where
  "resolved_node s t = resolve_alias_type s (from_node t)"

definition register_constructor :: "string \<Rightarrow> (Expr, Statement) FunctionDeclaration \<Rightarrow> ast_lowering \<Rightarrow> ast_lowering" where
  "register_constructor n f s =
     (let m = ''f_'' @ n @ ''_constructor''; ds = map param_default (fn_params f);
          t = TyFunction (map (\<lambda>p. resolved_node s (param_type p)) (fn_params f)) (resolved_node s (fn_return_type f))
      in set_defaults m ds
           ((set_function m t (length (fn_params f)) s)\<lparr>al_ctor_defaults := (al_ctor_defaults s)(n \<mapsto> ds)\<rparr>))"

definition receiver_default :: "bool \<Rightarrow> Expr option list" where
  "receiver_default is_static = (if is_static then [] else [None])"

definition register_method :: "string \<Rightarrow> (Expr, Statement) ClassMethod \<Rightarrow> ast_lowering \<Rightarrow> ast_lowering" where
  "register_method n m s =
     (let f = method_function m;
          k = (if starts_with (fn_name f) ''f_'' then fn_name f else ''f_'' @ n @ ''_'' @ fn_name f)
      in set_defaults k (receiver_default (method_is_static m) @ map param_default (fn_params f))
           (set_function k (resolved_node s (fn_return_type f))
              (length (fn_params f) + (if method_is_static m then 0 else 1)) s))"

text \<open>A field without initializer starts with the zero of its type.\<close>

definition field_initializer :: "TejxType \<Rightarrow> Expr option \<Rightarrow> Expr" where
  "field_initializer t e =
     (case e of
        Some x \<Rightarrow> x
      | None \<Rightarrow>
          (case t of
             TyBool \<Rightarrow> BooleanLiteral False 0 0
           | TyString \<Rightarrow> StringLiteral [] 0 0
           | TyFloat32 \<Rightarrow> NumberLiteral (f64_zero False) True 0 0
           | TyFloat64 \<Rightarrow> NumberLiteral (f64_zero False) True 0 0
           | TyOptional _ \<Rightarrow> NoneLiteral 0 0
           | TyDynamicArray _ \<Rightarrow> ArrayLiteral [] None 0 0
           | _ \<Rightarrow> NumberLiteral (f64_zero False) False 0 0))"

definition class_fields_of :: "ast_lowering \<Rightarrow> bool \<Rightarrow> Expr ClassMember list \<Rightarrow> (string \<times> TejxType \<times> Expr) list" where
  "class_fields_of s static ms =
     List.map_filter (\<lambda>m. case m of ClassMember n t _ st e \<Rightarrow>
        if st = static then Some (n, resolved_node s t, field_initializer (resolved_node s t) e) else None) ms"

definition register_getter :: "string \<Rightarrow> (Expr, Statement) ClassGetter \<Rightarrow> ast_lowering \<Rightarrow> ast_lowering" where
  "register_getter n g s = (case g of ClassGetter x t _ _ \<Rightarrow> set_function (n @ ''_get_'' @ x) (resolved_node s t) 1 s)"

definition register_setter :: "string \<Rightarrow> (Expr, Statement) ClassSetter \<Rightarrow> ast_lowering \<Rightarrow> ast_lowering" where
  "register_setter n g s = (case g of ClassSetter x _ _ _ _ \<Rightarrow> set_function (n @ ''_set_'' @ x) TyVoid 2 s)"

definition register_class :: "(Expr, Statement) ClassDeclaration \<Rightarrow> ast_lowering \<Rightarrow> ast_lowering" where
  "register_class d s =
     (case d of ClassDeclaration n parent gs _ _ members methods getters setters ctor _ _ \<Rightarrow>
        let s1 = fold (register_method n) methods (case ctor of None \<Rightarrow> s | Some f \<Rightarrow> register_constructor n f s);
            s2 = s1\<lparr>al_class_methods := (al_class_methods s1)
                      (n \<mapsto> map (\<lambda>m. fn_name (method_function m)) (filter (\<lambda>m. \<not> method_is_static m) methods)),
                    al_class_generics := (if gs = [] then al_class_generics s1
                                          else (al_class_generics s1)(n \<mapsto> map generic_name gs)),
                    al_instance_fields := AList.update n (class_fields_of s1 False members) (al_instance_fields s1),
                    al_static_fields := (al_static_fields s1)(n \<mapsto> class_fields_of s1 True members)\<rparr>;
            s3 = (case ctor of
                    None \<Rightarrow> s2
                  | Some f \<Rightarrow> set_function (n @ ''_'' @ fn_name f)
                      (TyFunction (map (\<lambda>p. resolved_node s2 (param_type p)) (fn_params f)) (resolved_node s2 (fn_return_type f)))
                      (length (fn_params f)) s2);
            s4 = fold (register_setter n) setters (fold (register_getter n) getters s3)
        in s4\<lparr>al_getters := (al_getters s4)(n \<mapsto> set (map (\<lambda>g. case g of ClassGetter x _ _ _ \<Rightarrow> x) getters)),
              al_setters := (al_setters s4)(n \<mapsto> set (map (\<lambda>g. case g of ClassSetter x _ _ _ _ \<Rightarrow> x) setters)),
              al_class_parents := (if parent = [] then al_class_parents s4
                                   else AList.update n parent (al_class_parents s4))\<rparr>)"

section \<open>Functions and classes\<close>

text \<open>A body in a scope of its own with the parameters defined.\<close>

definition lower_body ::
  "lowerers \<Rightarrow> string \<Rightarrow> (string \<times> TejxType) list \<Rightarrow> TejxType \<Rightarrow> Statement \<Rightarrow> nat \<Rightarrow>
     (HIRStatement \<Rightarrow> HIRStatement ast_lower) \<Rightarrow> ((string \<times> TejxType) list \<times> HIRStatement) ast_lower" where
  "lower_body R owner params t body line finish =
     with_env_owner owner (in_scope
       ((pbind (define_params params) (\<lambda>ps.
         pbind (with_return_type t (lw_statement R body)) (\<lambda>b.
         pbind (finish (body_or_block line b)) (\<lambda>st.
         ret (ps, st)))))))"

definition note_file :: "string list \<Rightarrow> unit ast_lower" where
  "note_file ns =
     al_put (\<lambda>s. s\<lparr>al_source_files := fold (\<lambda>n m. m(n \<mapsto> al_current_file s)) ns (al_source_files s)\<rparr>)"

definition lower_function_declaration :: "lowerers \<Rightarrow> (Expr, Statement) FunctionDeclaration \<Rightarrow> HIRStatement ast_lower" where
  "lower_function_declaration R f =
     (let n = ''f_'' @ fn_name f
      in (pbind (al_each (\<lambda>p. (pbind (al_get (\<lambda>s. resolved_node s (param_type p))) (\<lambda>t.
        pbind (param_type_or_default R t p) (\<lambda>u.
        ret (param_name p, u))))) (fn_params f)) (\<lambda>params.
        pbind (al_get (\<lambda>s. resolved_node s (fn_return_type f))) (\<lambda>r.
        pbind (lower_body R n params r (fn_body f) (fn_line f) ret) (\<lambda>pb.
        pbind (al_put (\<lambda>s. s\<lparr>al_function_display := (al_function_display s)(n \<mapsto> fn_name f)\<rparr>)) (\<lambda>_.
        pbind (note_file [n, fn_name f]) (\<lambda>_.
        ret (HFunction n (fst pb) r (snd pb) (fn_is_extern f) (fn_line f)))))))))"

definition empty_constructor :: "(Expr, Statement) FunctionDeclaration" where
  "empty_constructor =
     FunctionDeclaration ''constructor'' [] (TNNamed ''void'') (BlockStmt [] 0 0) False [] 0 0"

text \<open>Where the initializers of the fields go: after the call of the parent's constructor, if there is one.\<close>

definition is_call_of :: "string \<Rightarrow> HIRStatement \<Rightarrow> bool" where
  "is_call_of n st = (case st of HExprStmt (HCall c _ _ _) _ \<Rightarrow> c = n | _ \<Rightarrow> False)"

definition insert_position :: "string option \<Rightarrow> HIRStatement list \<Rightarrow> nat" where
  "insert_position parent ss =
     (case parent of
        None \<Rightarrow> 0
      | Some p \<Rightarrow>
          (let k = length (takeWhile (\<lambda>st. \<not> is_call_of (''f_'' @ base_of p @ ''_constructor'') st) ss)
           in if k < length ss then k + 1 else 0))"

definition field_assignment ::
  "lowerers \<Rightarrow> string \<Rightarrow> string \<Rightarrow> nat \<Rightarrow> string \<times> TejxType \<times> Expr \<Rightarrow> HIRStatement ast_lower" where
  "field_assignment R cls this line fld =
     (case fld of (n, t, e) \<Rightarrow>
        (pbind (with_expected (Some t) (lw_expression R e)) (\<lambda>v.
          ret (HExprStmt (HAssignment (HMemberAccess (HVariable this (TyClass cls []) line) n t line) v t line) line))))"

definition initialize_fields :: "lowerers \<Rightarrow> string \<Rightarrow> HIRStatement \<Rightarrow> HIRStatement ast_lower" where
  "initialize_fields R cls st =
     (case st of
        HBlock ss line \<Rightarrow>
          (pbind (al_get al_parent_class) (\<lambda>parent.
            pbind (lookup_var ''this'') (\<lambda>i.
            pbind (al_get (\<lambda>s. case map_of (al_instance_fields s) cls of Some fs \<Rightarrow> fs | None \<Rightarrow> [])) (\<lambda>fs.
            pbind (al_each (field_assignment R cls (case i of Some (m, _) \<Rightarrow> m | None \<Rightarrow> ''this'') line) fs) (\<lambda>inits.
            let k = insert_position parent ss in
            ret (HBlock (take k ss @ inits @ drop k ss) line))))))
      | _ \<Rightarrow> ret st)"

definition bracket_free :: "string \<Rightarrow> string" where
  "bracket_free n = replace_chars ''[]'' ''_'' n"

definition method_tables :: "string \<Rightarrow> (Expr, Statement) FunctionDeclaration \<Rightarrow> bool \<Rightarrow> nat \<Rightarrow> ast_lowering \<Rightarrow> ast_lowering" where
  "method_tables cls f is_static k s =
     (let n = ''f_'' @ cls @ ''_'' @ fn_name f; un = cls @ ''_'' @ fn_name f;
          ds = receiver_default is_static @ map param_default (fn_params f);
          s1 = set_defaults n ds s;
          s2 = (if fn_name f = ''constructor'' then s1
                else (set_defaults un ds s1)\<lparr>al_user_function_args := (al_user_function_args s1)(un \<mapsto> k)\<rparr>)
      in if fn_generics f = [] then s2
         else s2\<lparr>al_function_generics := (al_function_generics s2)(n \<mapsto> map generic_name (fn_generics f))\<rparr>)"

definition lower_method ::
  "lowerers \<Rightarrow> string \<Rightarrow> nat \<Rightarrow> (Expr, Statement) FunctionDeclaration \<times> bool \<Rightarrow> HIRStatement ast_lower" where
  "lower_method R cls line fm =
     (case fm of (f, is_static) \<Rightarrow>
        (pbind (al_get id) (\<lambda>s.
          let params = (if is_static then [] else [(''this'', TyClass cls [])]) @
                 map (\<lambda>p. (param_name p, resolved_node s (param_type p))) (fn_params f);
               r = resolved_node s (fn_return_type f) in
          pbind (al_put (method_tables cls f is_static (length params))) (\<lambda>_.
          pbind (lower_body R (''f_'' @ cls @ ''_'' @ fn_name f) params TyVoid (fn_body f) line
                   (if fn_name f = ''constructor'' then initialize_fields R cls else ret)) (\<lambda>pb.
          let n = ''f_'' @ bracket_free cls @ ''_'' @ fn_name f in
          pbind (note_file [n, cls @ ''_'' @ fn_name f]) (\<lambda>_.
          ret (HFunction n (fst pb) r (snd pb) False line)))))))"

definition lower_accessor ::
  "lowerers \<Rightarrow> string \<Rightarrow> (string \<times> TejxType) list \<Rightarrow> TejxType \<Rightarrow> Statement \<Rightarrow> nat \<Rightarrow> HIRStatement ast_lower" where
  "lower_accessor R n params t body line =
     (pbind (lower_body R n params t body line ret) (\<lambda>pb.
       pbind (note_file [n]) (\<lambda>_.
       ret (HFunction n (fst pb) t (snd pb) False line))))"

definition lower_getter :: "lowerers \<Rightarrow> string \<Rightarrow> nat \<Rightarrow> (Expr, Statement) ClassGetter \<Rightarrow> HIRStatement ast_lower" where
  "lower_getter R cls line g =
     (case g of ClassGetter x t body _ \<Rightarrow>
        (pbind (al_get (\<lambda>s. resolved_node s t)) (\<lambda>r.
          lower_accessor R (''f_'' @ cls @ ''_get_'' @ x) [(''this'', TyClass cls [])] r body line)))"

definition lower_setter :: "lowerers \<Rightarrow> string \<Rightarrow> nat \<Rightarrow> (Expr, Statement) ClassSetter \<Rightarrow> HIRStatement ast_lower" where
  "lower_setter R cls line g =
     (case g of ClassSetter x p t body _ \<Rightarrow>
        (pbind (al_get (\<lambda>s. resolved_node s t)) (\<lambda>u.
          lower_accessor R (''f_'' @ cls @ ''_set_'' @ x) [(''this'', TyClass cls []), (p, u)] TyVoid body line)))"

definition static_assignment :: "lowerers \<Rightarrow> string \<Rightarrow> nat \<Rightarrow> string \<times> TejxType \<times> Expr \<Rightarrow> HIRStatement ast_lower" where
  "static_assignment R cls line fld =
     (case fld of (n, t, e) \<Rightarrow>
        (pbind (lw_expression R e) (\<lambda>v.
          ret (HExprStmt (HAssignment (HVariable (''g_'' @ cls @ ''_'' @ n) t line) v TyInt64 line) line))))"

text \<open>The functions of a class and the assignments of its static fields, which the source makes twice.\<close>

definition lower_class_declaration ::
  "lowerers \<Rightarrow> (Expr, Statement) ClassDeclaration \<Rightarrow> (HIRStatement list \<times> HIRStatement list) ast_lower" where
  "lower_class_declaration R d =
     (case d of ClassDeclaration n parent _ _ _ _ methods getters setters ctor line _ \<Rightarrow>
        (pbind (al_put (\<lambda>s. s\<lparr>al_current_class := Some n, al_parent_class := (if parent = [] then None else Some parent)\<rparr>)) (\<lambda>_.
          pbind (al_each (lower_method R n line)
                   (map (\<lambda>m. (method_function m, method_is_static m)) methods @
                    [(case ctor of Some f \<Rightarrow> f | None \<Rightarrow> empty_constructor, False)])) (\<lambda>ms.
          pbind (al_each (lower_getter R n line) getters) (\<lambda>gs.
          pbind (al_each (lower_setter R n line) setters) (\<lambda>ss.
          pbind (al_get (\<lambda>s. case al_static_fields s n of Some fs \<Rightarrow> fs | None \<Rightarrow> [])) (\<lambda>fs.
          pbind (al_each (static_assignment R n line) fs) (\<lambda>once.
          pbind (al_get (\<lambda>s. case al_static_fields s n of Some fs \<Rightarrow> fs | None \<Rightarrow> [])) (\<lambda>fs'.
          pbind (al_each (static_assignment R n line) fs') (\<lambda>twice.
          pbind (al_put (\<lambda>s. s\<lparr>al_current_class := None, al_parent_class := None\<rparr>)) (\<lambda>_.
          ret (ms @ gs @ ss, once @ twice))))))))))))"

definition lower_extension_method :: "lowerers \<Rightarrow> Type_Node \<Rightarrow> nat \<Rightarrow> (Expr, Statement) FunctionDeclaration \<Rightarrow> HIRStatement ast_lower" where
  "lower_extension_method R t line f =
     (pbind (al_get id) (\<lambda>s.
       let n = (if starts_with (fn_name f) ''f_'' then fn_name f
                 else ''f_'' @ bracket_free (type_node_to_string t) @ ''_'' @ fn_name f);
            params = (''this'', TyClass (type_node_to_string t) []) #
              map (\<lambda>p. (param_name p, resolved_node s (param_type p))) (fn_params f) in
       lower_accessor R n params (resolved_node s (fn_return_type f)) (fn_body f) line))"

definition lower_extension_declaration :: "lowerers \<Rightarrow> (Expr, Statement) ExtensionDeclaration \<Rightarrow> HIRStatement list ast_lower" where
  "lower_extension_declaration R d =
     (case d of ExtensionDeclaration t fs line _ \<Rightarrow> al_each (lower_extension_method R t line) fs)"

end
