(* ===== verification/AstLowerFlow.thy ===== *)
theory AstLowerFlow
  imports AstLowerStmt
begin

text \<open>
  Lowering of statements, \<open>src/compiler/middle/lowering/stmt.rs\<close>, and the knot of the recursion of
  statements and expressions. Default values of parameters are lowered at every call, so the
  recursion need not end; its fuel is the depth of the calls.
\<close>

section \<open>Aliases and enums\<close>

text \<open>\<open>v as i64\<close>: truncation that saturates at both ends; NaN becomes 0.\<close>

fun f64_as_i64 :: "f64 \<Rightarrow> int" where
  "f64_as_i64 NaN = 0"
| "f64_as_i64 (Infinity s) = (if s then - (2 ^ 63) else 2 ^ 63 - 1)"
| "f64_as_i64 (Finite s m e) =
     (if s then max (- int (trunc_mant m e)) (- (2 ^ 63)) else min (int (trunc_mant m e)) (2 ^ 63 - 1))"

definition wrap_enum_value :: "int \<Rightarrow> int" where
  "wrap_enum_value v = (v + 2 ^ 63) mod 2 ^ 64 - 2 ^ 63"

definition enum_value :: "int \<Rightarrow> Expr option \<Rightarrow> int" where
  "enum_value current e =
     (case e of
        Some (NumberLiteral v _ _ _) \<Rightarrow> f64_as_i64 v
      | Some (UnaryExpr TkMinus (NumberLiteral v _ _ _) _ _ _) \<Rightarrow> wrap_enum_value (- f64_as_i64 v)
      | _ \<Rightarrow> current)"

fun register_enum_members :: "string \<Rightarrow> int \<Rightarrow> Expr EnumMember list \<Rightarrow> ast_lowering \<Rightarrow> ast_lowering" where
  "register_enum_members n current [] s = s"
| "register_enum_members n current (EnumMember m e # ms) s =
     (let v = enum_value current e
      in register_enum_members n (wrap_enum_value (v + 1)) ms
           (s\<lparr>al_enum_members := (al_enum_members s)(n @ ''_'' @ m \<mapsto> v)\<rparr>))"

section \<open>Blocks and declarations\<close>

definition lower_statements :: "lowerers \<Rightarrow> Statement list \<Rightarrow> HIRStatement list ast_lower" where
  "lower_statements R ss = (pbind (al_each (lw_statement R) ss) (\<lambda>hs.
    ret (List.map_filter id hs)))"

definition declared_function_type :: "(Expr, Statement) FunctionDeclaration \<Rightarrow> TejxType" where
  "declared_function_type f = TyFunction (map (\<lambda>p. from_node (param_type p)) (fn_params f)) (from_node (fn_return_type f))"

text \<open>Nested functions are defined before the statements of their block.\<close>

definition hoist_function :: "Statement \<Rightarrow> unit ast_lower" where
  "hoist_function st =
     (case st of
        FunctionDeclarationStmt f \<Rightarrow>
          if fn_is_extern f then al_skip
          else (pbind (define_name (fn_name f) (declared_function_type f)) (\<lambda>_.
            al_skip))
      | _ \<Rightarrow> al_skip)"

definition lower_block :: "lowerers \<Rightarrow> Statement list \<Rightarrow> nat \<Rightarrow> HIRStatement ast_lower" where
  "lower_block R ss line =
     in_scope ((pbind (al_each hoist_function ss) (\<lambda>_.
       pbind (lower_statements R ss) (\<lambda>hs.
       ret (HBlock hs line)))))"

definition default_value :: "TejxType \<Rightarrow> HIRExpression option \<Rightarrow> nat \<Rightarrow> HIRExpression option" where
  "default_value t sized line =
     (case t of
        TyFixedArray _ _ \<Rightarrow> Some (default_fixed_array_init line t)
      | TyDynamicArray _ \<Rightarrow> Some (HArrayLiteral [] sized t line)
      | TyOptional _ \<Rightarrow> Some (HNoneLiteral line)
      | TyClass _ _ \<Rightarrow> Some (HNoneLiteral line)
      | TyAny \<Rightarrow> Some (HNoneLiteral line)
      | _ \<Rightarrow> zero_literal t line)"

definition with_sized_allocation :: "HIRExpression option \<Rightarrow> HIRExpression \<Rightarrow> HIRExpression" where
  "with_sized_allocation sized e =
     (case (sized, e) of
        (Some n, HArrayLiteral es _ t l) \<Rightarrow> HArrayLiteral es (Some n) t l
      | _ \<Rightarrow> e)"

definition annotated_type :: "ast_lowering \<Rightarrow> Type_Node \<Rightarrow> TejxType option" where
  "annotated_type s t = (if type_node_to_string t = [] then None else Some (resolved_node s t))"

definition size_expression :: "Type_Node \<Rightarrow> Expr option" where
  "size_expression t = (case t of TNSizedArray _ e \<Rightarrow> Some e | _ \<Rightarrow> None)"

definition lower_var_declaration ::
  "lowerers \<Rightarrow> BindingNode \<Rightarrow> Type_Node \<Rightarrow> Expr option \<Rightarrow> bool \<Rightarrow> nat \<Rightarrow> HIRStatement ast_lower" where
  "lower_var_declaration R pattern annotation initializer const line =
     (pbind (al_get (\<lambda>s. annotated_type s annotation)) (\<lambda>expected.
       pbind (al_option (lw_expression R) (size_expression annotation)) (\<lambda>sized.
       pbind (with_expected expected (al_option (lw_expression R) initializer)) (\<lambda>v.
       let t = (case expected of Some t \<Rightarrow> t | None \<Rightarrow> (case v of Some e \<Rightarrow> hexpr_type e | None \<Rightarrow> TyInt64));
            start = (case v of Some e \<Rightarrow> Some (with_sized_allocation sized e) | None \<Rightarrow> default_value t sized line) in
       pbind (lower_binding_pattern pattern (map_option (\<lambda>e. pad_fixed_array_literal e t) start) t const) (\<lambda>hs.
       ret (HSequenceStmt hs line))))))"

definition lower_nested_class ::
  "lowerers \<Rightarrow> (Expr, Statement) ClassDeclaration \<Rightarrow> nat \<Rightarrow> HIRStatement option ast_lower" where
  "lower_nested_class R d line =
     (pbind (al_put (scan_variadic_class d)) (\<lambda>_.
       pbind (al_put (register_class d)) (\<lambda>_.
       pbind (lower_class_declaration R d) (\<lambda>r.
       pbind (al_put (\<lambda>s. s\<lparr>al_nested_functions := al_nested_functions s @ fst r\<rparr>)) (\<lambda>_.
       ret (if snd r = [] then None else Some (HSequenceStmt (snd r) line)))))))"

text \<open>A nested function is a variable that holds a lambda.\<close>

definition lower_nested_function ::
  "lowerers \<Rightarrow> (Expr, Statement) FunctionDeclaration \<Rightarrow> nat \<Rightarrow> HIRStatement option ast_lower" where
  "lower_nested_function R f line =
     (if fn_is_extern f then ret None
      else
        (let t = declared_function_type f in
          pbind (define_name (fn_name f) t) (\<lambda>n.
          pbind (al_get al_pending_display) (\<lambda>display.
          pbind (al_put (\<lambda>s. s\<lparr>al_pending_display := Some (fn_name f)\<rparr>)) (\<lambda>_.
          pbind (with_expected (Some t) (lw_expression R (LambdaExpr (fn_params f) (fn_body f) (fn_line f) (fn_col f)))) (\<lambda>v.
          pbind (al_put (\<lambda>s. s\<lparr>al_pending_display := display\<rparr>)) (\<lambda>_.
          ret (Some (HVarDecl n (Some v) t False line)))))))))"

section \<open>Control flow\<close>

definition narrow_effectively :: "string \<Rightarrow> TejxType \<Rightarrow> unit ast_lower" where
  "narrow_effectively n t = (if has_effective_narrowing_type t then narrow_type n t else al_skip)"

definition lower_as_block :: "lowerers \<Rightarrow> Statement \<Rightarrow> HIRStatement ast_lower" where
  "lower_as_block R st =
     (pbind (lw_statement R st) (\<lambda>h.
       ret (case h of
               Some (HBlock ss _) \<Rightarrow> HBlock ss (fst (stmt_pos st))
             | Some other \<Rightarrow> HBlock [other] (fst (stmt_pos st))
             | None \<Rightarrow> HBlock [] (fst (stmt_pos st)))))"

text \<open>The body of a loop, in a scope of its own if the condition narrows a variable.\<close>

definition lower_loop_body :: "lowerers \<Rightarrow> narrowing \<Rightarrow> Statement \<Rightarrow> HIRStatement ast_lower" where
  "lower_loop_body R narrowed body =
     (case narrowed of
        None \<Rightarrow> lower_as_block R body
      | Some (n, t, _) \<Rightarrow> in_scope ((pbind (narrow_effectively n t) (\<lambda>_.
        lower_as_block R body))))"

definition lower_while :: "lowerers \<Rightarrow> Expr \<Rightarrow> Statement \<Rightarrow> nat \<Rightarrow> HIRStatement ast_lower" where
  "lower_while R condition body line =
     (pbind (lw_expression R condition) (\<lambda>c.
       pbind (get_narrowing_from_condition condition) (\<lambda>narrowed.
       pbind (lower_loop_body R narrowed body) (\<lambda>b.
       ret (HLoop c b None False line)))))"

text \<open>The declarations of a \<open>for\<close> are lowered without a scope of their own.\<close>

definition lower_for_init :: "lowerers \<Rightarrow> Statement option \<Rightarrow> HIRStatement list ast_lower" where
  "lower_for_init R init =
     (case init of
        None \<Rightarrow> ret []
      | Some (BlockStmt ss _ _) \<Rightarrow> lower_statements R ss
      | Some st \<Rightarrow> lower_statements R [st])"

definition lower_for ::
  "lowerers \<Rightarrow> Statement option \<Rightarrow> Expr option \<Rightarrow> Expr option \<Rightarrow> Statement \<Rightarrow> nat \<Rightarrow> HIRStatement ast_lower" where
  "lower_for R init condition increment body line =
     in_scope
       ((pbind (lower_for_init R init) (\<lambda>outer.
         pbind (al_option (lw_expression R) condition) (\<lambda>c.
         pbind ((case condition of None \<Rightarrow> ret None | Some e \<Rightarrow> get_narrowing_from_condition e)) (\<lambda>narrowed.
         pbind (lower_loop_body R narrowed body) (\<lambda>b.
         pbind (al_option (lw_expression R) increment) (\<lambda>inc.
         ret (HBlock (outer @
             [HLoop (case c of Some e \<Rightarrow> e | None \<Rightarrow> HLiteral ''true'' TyBool line) b
                (map_option (\<lambda>e. HExprStmt e line) inc) False line]) line))))))))"

text \<open>\<open>for of\<close> is a loop over the indices.\<close>

definition index_step :: "string \<Rightarrow> nat \<Rightarrow> HIRStatement" where
  "index_step idx line =
     HExprStmt (HAssignment (HVariable idx TyInt32 line)
       (HBinary (HVariable idx TyInt32 line) TkPlus (HLiteral ''1'' TyInt32 line) TyInt32 line) TyInt32 line) line"

definition lower_for_of :: "lowerers \<Rightarrow> BindingNode \<Rightarrow> Expr \<Rightarrow> Statement \<Rightarrow> nat \<Rightarrow> HIRStatement option ast_lower" where
  "lower_for_of R variable iterable body line =
     (case variable of
        BIdentifier x \<Rightarrow>
          in_scope
            ((pbind (lw_expression R iterable) (\<lambda>xs.
              let t = hexpr_type xs; u = get_array_element_type t; arr = ''__arr_'' @ x; n = ''__len_'' @ x; idx = ''__idx_'' @ x in
              pbind (define_name x u) (\<lambda>v.
              pbind (lw_statement R body) (\<lambda>h.
              ret (Some (HBlock
                  [HVarDecl arr (Some xs) t True line,
                   HVarDecl n (Some (HCall ''rt_len'' [HVariable arr t line] TyInt32 line)) TyInt32 True line,
                   HVarDecl idx (Some (HLiteral ''0'' TyInt32 0)) TyInt32 False line,
                   HLoop (HBinary (HVariable idx TyInt32 line) TkLess (HVariable n TyInt32 line) TyBool line)
                     (HBlock (HVarDecl v (Some (HIndexAccess (HVariable arr t line) (HVariable idx TyInt32 line) u line)) u False line #
                        (case h of None \<Rightarrow> [] | Some st \<Rightarrow> [st])) line)
                     (Some (index_step idx line)) False line] line)))))))
      | _ \<Rightarrow> ret None)"

text \<open>The type a variable keeps after an \<open>if\<close> of which only one branch goes on.\<close>

definition narrow_after_if :: "narrowing \<Rightarrow> bool \<Rightarrow> bool \<Rightarrow> unit ast_lower" where
  "narrow_after_if narrowed then_exits else_exits =
     (case narrowed of
        None \<Rightarrow> al_skip
      | Some (n, t, e) \<Rightarrow>
          if then_exits \<and> \<not> else_exits \<and> has_effective_narrowing_type e then narrow_type n e
          else if else_exits \<and> \<not> then_exits \<and> has_effective_narrowing_type t then narrow_type n t
          else al_skip)"

definition lower_branch :: "lowerers \<Rightarrow> (string \<times> TejxType) option \<Rightarrow> Statement \<Rightarrow> nat \<Rightarrow> HIRStatement ast_lower" where
  "lower_branch R narrowed st line =
     in_scope
       ((pbind ((case narrowed of None \<Rightarrow> al_skip | Some (n, t) \<Rightarrow> narrow_effectively n t)) (\<lambda>_.
         pbind (lw_statement R st) (\<lambda>h.
         ret (body_or_block line h)))))"

definition lower_if_stmt :: "lowerers \<Rightarrow> Expr \<Rightarrow> Statement \<Rightarrow> Statement option \<Rightarrow> nat \<Rightarrow> HIRStatement ast_lower" where
  "lower_if_stmt R condition yes no line =
     (pbind (lw_expression R condition) (\<lambda>c.
       pbind (get_narrowing_from_condition condition) (\<lambda>narrowed.
       pbind (lower_branch R (map_option (\<lambda>(n, t, e). (n, t)) narrowed) yes line) (\<lambda>y.
       pbind (al_option (\<lambda>st. lower_branch R (map_option (\<lambda>(n, t, e). (n, e)) narrowed) st line) no) (\<lambda>e.
       pbind (narrow_after_if narrowed (statement_guarantees_exit yes)
          (case no of None \<Rightarrow> False | Some st \<Rightarrow> statement_guarantees_exit st)) (\<lambda>_.
       ret (HIfStmt c y e line)))))))"

definition lower_return :: "lowerers \<Rightarrow> Expr option \<Rightarrow> nat \<Rightarrow> HIRStatement ast_lower" where
  "lower_return R value line =
     (pbind (al_get (\<lambda>s. case al_return_types s of [] \<Rightarrow> None | t # _ \<Rightarrow> Some t)) (\<lambda>t.
       pbind (with_expected t (al_option (lw_expression R) value)) (\<lambda>v.
       ret (HReturn v line))))"

definition lower_switch_case :: "lowerers \<Rightarrow> nat \<Rightarrow> (Expr, Statement) Case \<Rightarrow> HIRStatement HIRCase ast_lower" where
  "lower_switch_case R line c =
     (case c of Case e ss \<Rightarrow>
        (pbind (al_option (lw_expression R) e) (\<lambda>v.
          pbind (lower_statements R ss) (\<lambda>hs.
          ret (HIRCase v (HBlock hs line))))))"

definition lower_catch :: "lowerers \<Rightarrow> string \<Rightarrow> Statement \<Rightarrow> nat \<Rightarrow> (string option \<times> HIRStatement) ast_lower" where
  "lower_catch R var body line =
     in_scope
       ((pbind (al_option (\<lambda>n. define_name n (TyClass ''Error'' [])) (if var = [] then None else Some var)) (\<lambda>v.
         pbind (lw_statement R body) (\<lambda>h.
         ret (v, body_or_block line h)))))"

definition lower_try_stmt :: "lowerers \<Rightarrow> Statement \<Rightarrow> string \<Rightarrow> Statement \<Rightarrow> Statement option \<Rightarrow> nat \<Rightarrow> HIRStatement ast_lower" where
  "lower_try_stmt R body var handler final line =
     (pbind (lw_statement R body) (\<lambda>t.
       pbind (lower_catch R var handler line) (\<lambda>vc.
       pbind ((case final of None \<Rightarrow> ret None | Some st \<Rightarrow> lw_statement R st)) (\<lambda>f.
       ret (HTry (body_or_block line t) (fst vc) (snd vc) f line)))))"

section \<open>Statements and the knot\<close>

definition some_statement :: "HIRStatement ast_lower \<Rightarrow> HIRStatement option ast_lower" where
  "some_statement m = pmap Some m"

fun lower_statement_ast :: "lowerers \<Rightarrow> Statement \<Rightarrow> HIRStatement option ast_lower" where
  "lower_statement_ast R (TypeAliasDeclaration n t l c) = (pbind (al_put (register_type_alias n (from_node t))) (\<lambda>_.
    ret None))"
| "lower_statement_ast R (EnumDeclarationStmt (EnumDeclaration n ms l c)) = (pbind (al_put (register_enum_members n 0 ms)) (\<lambda>_.
  ret None))"
| "lower_statement_ast R (ExportDecl st d l c) = lw_statement R st"
| "lower_statement_ast R (BlockStmt ss l c) = some_statement (lower_block R ss l)"
| "lower_statement_ast R (VarDeclaration p t e k l c) = some_statement (lower_var_declaration R p t e k l)"
| "lower_statement_ast R (ExpressionStmt x l c) = some_statement ((pbind (lw_expression R x) (\<lambda>e.
  ret (HExprStmt e l))))"
| "lower_statement_ast R (ClassDeclarationStmt d) = lower_nested_class R d (class_line d)"
| "lower_statement_ast R (WhileStmt x st l c) = some_statement (lower_while R x st l)"
| "lower_statement_ast R (ForStmt i x u st l c) = some_statement (lower_for R i x u st l)"
| "lower_statement_ast R (ForOfStmt v x st l c) = lower_for_of R v x st l"
| "lower_statement_ast R (IfStmt x y n l c) = some_statement (lower_if_stmt R x y n l)"
| "lower_statement_ast R (ReturnStmt x l c) = some_statement (lower_return R x l)"
| "lower_statement_ast R (DelStmt x l c) =
     some_statement ((pbind (lw_expression R x) (\<lambda>e.
       ret (HExprStmt (HAssignment e (HNoneLiteral l) (hexpr_type e) l) l))))"
| "lower_statement_ast R (BreakStmt l c) = ret (Some (HBreak l))"
| "lower_statement_ast R (ContinueStmt l c) = ret (Some (HContinue l))"
| "lower_statement_ast R (SwitchStmt x cs l c) =
     some_statement ((pbind (lw_expression R x) (\<lambda>e.
       pbind (al_each (lower_switch_case R l) cs) (\<lambda>hs.
       ret (HSwitch e hs l)))))"
| "lower_statement_ast R (TryStmt b v h f l c) = some_statement (lower_try_stmt R b v h f l)"
| "lower_statement_ast R (ThrowStmt x l c) = some_statement ((pbind (lw_expression R x) (\<lambda>e.
  ret (HThrow e l))))"
| "lower_statement_ast R (FunctionDeclarationStmt f) = lower_nested_function R f (fn_line f)"
| "lower_statement_ast R _ = ret None"

fun lowering_n :: "nat \<Rightarrow> lowerers" where
  "lowering_n 0 = \<lparr>lw_expression = \<lambda>e s. NoFuel, lw_statement = \<lambda>st s. NoFuel\<rparr>"
| "lowering_n (Suc n) =
     (let R = lowering_n n in \<lparr>lw_expression = lower_expression_ast R, lw_statement = lower_statement_ast R\<rparr>)"

end
