(* ===== verification/AstLowerProgram.thy ===== *)
theory AstLowerProgram
  imports AstLowerFlow
begin

text \<open>
  Lowering of a whole program, \<open>Lowering::lower\<close> of \<open>src/compiler/middle/lowering/mod.rs\<close>: the passes
  over the declarations, the copies of generic functions and classes, and the tables that the
  lowering to the mid-level representation reads.
\<close>

section \<open>Types of top-level variables\<close>

definition merge_spread :: "TejxType \<Rightarrow> (string \<times> bool \<times> TejxType) list \<Rightarrow> (string \<times> bool \<times> TejxType) list" where
  "merge_spread t ps =
     (case t of
        TyObject qs \<Rightarrow> fold (\<lambda>(n, opt, u) ps. if n \<in> fst ` set ps then ps else ps @ [(n, opt, u)]) qs ps
      | _ \<Rightarrow> ps)"

function infer_top_level_initializer_type :: "Expr \<Rightarrow> TejxType ast_lower" where
  "infer_top_level_initializer_type (NumberLiteral v f l c) =
     ret (if f64_is_integral v then if outside_i32 v then TyInt64 else TyInt32 else TyFloat32)"
| "infer_top_level_initializer_type (StringLiteral v' l c) = ret TyString"
| "infer_top_level_initializer_type (CharLiteral v'' l c) = ret TyChar"
| "infer_top_level_initializer_type (BooleanLiteral b l c) = ret TyBool"
| "infer_top_level_initializer_type (NoneLiteral l c) = ret TyAny"
| "infer_top_level_initializer_type (Identifier n l c) =
     (pbind (lookup_var n) (\<lambda>i.
       ret (case i of Some (_, t) \<Rightarrow> t | None \<Rightarrow> TyAny)))"
| "infer_top_level_initializer_type (MemberAccessExpr x m l c ns) =
     (pbind (infer_top_level_initializer_type x) (\<lambda>t.
       ret (case t of
               TyObject ps \<Rightarrow> (case map_of ps m of Some (_, u) \<Rightarrow> u | None \<Rightarrow> TyAny)
             | _ \<Rightarrow> TyAny)))"
| "infer_top_level_initializer_type (ArrayLiteral es t l c) =
     ret (case t of Some n \<Rightarrow> from_name n | None \<Rightarrow> TyDynamicArray TyAny)"
| "infer_top_level_initializer_type (ObjectLiteralExpr entries spreads l c) =
     (pbind (al_each (\<lambda>(k, e). (pbind (infer_top_level_initializer_type e) (\<lambda>t.
       ret (k, False, t)))) entries) (\<lambda>ps.
       pbind (al_each infer_top_level_initializer_type spreads) (\<lambda>ts.
       ret (TyObject (fold merge_spread ts ps)))))"
| "infer_top_level_initializer_type (ThisExpr l c) = ret TyAny"
| "infer_top_level_initializer_type (SuperExpr l c) = ret TyAny"
| "infer_top_level_initializer_type (BinaryExpr x op y l c) = ret TyAny"
| "infer_top_level_initializer_type (UnaryExpr op x p l c) = ret TyAny"
| "infer_top_level_initializer_type (AssignmentExpr x y op l c) = ret TyAny"
| "infer_top_level_initializer_type (CallExpr x tas es l c) = ret TyAny"
| "infer_top_level_initializer_type (SequenceExpr es l c) = ret TyAny"
| "infer_top_level_initializer_type (ArrayAccessExpr x y l c) = ret TyAny"
| "infer_top_level_initializer_type (NewExpr n es l c) = ret TyAny"
| "infer_top_level_initializer_type (LambdaExpr pas st l c) = ret TyAny"
| "infer_top_level_initializer_type (TernaryExpr x y z l c) = ret TyAny"
| "infer_top_level_initializer_type (OptionalMemberAccessExpr x m l c) = ret TyAny"
| "infer_top_level_initializer_type (OptionalCallExpr x tas es l c) = ret TyAny"
| "infer_top_level_initializer_type (OptionalArrayAccessExpr x y l c) = ret TyAny"
| "infer_top_level_initializer_type (NullishCoalescingExpr x y l c) = ret TyAny"
| "infer_top_level_initializer_type (SpreadExpr x l c) = ret TyAny"
| "infer_top_level_initializer_type (SomeExpr x l c) = ret TyAny"
| "infer_top_level_initializer_type (CastExpr x ct l c) = ret TyAny"
  by pat_completeness auto
termination
  by (relation "measure expr_size") (auto dest: ast_sizes)

section \<open>Generic declarations and their copies\<close>

text \<open>A declaration, exported or not; each statement comes with the file it is from.\<close>

type_synonym located = "Statement \<times> string"

definition declaration_of :: "Statement \<Rightarrow> Statement" where
  "declaration_of st = (case st of ExportDecl d _ _ _ \<Rightarrow> d | _ \<Rightarrow> st)"

definition class_name_of :: "(Expr, Statement) ClassDeclaration \<Rightarrow> string" where
  "class_name_of d = (case d of ClassDeclaration n _ _ _ _ _ _ _ _ _ _ _ \<Rightarrow> n)"

definition class_generics_of :: "(Expr, Statement) ClassDeclaration \<Rightarrow> Expr GenericParam list" where
  "class_generics_of d = (case d of ClassDeclaration _ _ gs _ _ _ _ _ _ _ _ _ \<Rightarrow> gs)"

fun find_class_template :: "string \<Rightarrow> located list \<Rightarrow> ((Expr, Statement) ClassDeclaration \<times> string) option" where
  "find_class_template n [] = None"
| "find_class_template n ((st, file) # ss) =
     (case declaration_of st of
        ClassDeclarationStmt d \<Rightarrow> if class_name_of d = n then Some (d, file) else find_class_template n ss
      | _ \<Rightarrow> find_class_template n ss)"

text \<open>A method as a function of its receiver.\<close>

definition with_receiver :: "string \<Rightarrow> (Expr, Statement) FunctionDeclaration \<Rightarrow> (Expr, Statement) FunctionDeclaration" where
  "with_receiver cls f =
     (case f of FunctionDeclaration n ps t b ex gs l c \<Rightarrow>
        FunctionDeclaration n (Parameter ''this'' (TNNamed cls) None False # ps) t b ex gs l c)"

definition method_template :: "string \<Rightarrow> (Expr, Statement) ClassDeclaration \<Rightarrow> (Expr, Statement) FunctionDeclaration option" where
  "method_template n d =
     (case d of ClassDeclaration cls _ _ _ _ _ methods _ _ _ _ _ \<Rightarrow>
        map_option (with_receiver cls)
          (List.find (\<lambda>f. cls @ ''_'' @ fn_name f = n \<or> fn_name f = n) (map method_function methods)))"

fun find_function_template :: "string \<Rightarrow> located list \<Rightarrow> ((Expr, Statement) FunctionDeclaration \<times> string) option" where
  "find_function_template n [] = None"
| "find_function_template n ((st, file) # ss) =
     (case (case declaration_of st of
              FunctionDeclarationStmt f \<Rightarrow> if fn_name f = n then Some f else None
            | ClassDeclarationStmt d \<Rightarrow> method_template n d
            | _ \<Rightarrow> None) of
        Some f \<Rightarrow> Some (f, file)
      | None \<Rightarrow> find_function_template n ss)"

definition generic_substitutions :: "Expr GenericParam list \<Rightarrow> TejxType list \<Rightarrow> substitutions" where
  "generic_substitutions gs ts = map_of (rev (zip (map generic_name gs) (map to_type_node ts)))"

definition class_copy :: "(Expr, Statement) ClassDeclaration \<Rightarrow> string \<Rightarrow> TejxType list \<Rightarrow> (Expr, Statement) ClassDeclaration" where
  "class_copy d n ts =
     (case d of ClassDeclaration _ p gs ab is ms fs ges ses k l c \<Rightarrow>
        transform_class (generic_substitutions gs ts) (ClassDeclaration n p [] ab is ms fs ges ses k l c))"

definition function_copy :: "(Expr, Statement) FunctionDeclaration \<Rightarrow> string \<Rightarrow> TejxType list \<Rightarrow> (Expr, Statement) FunctionDeclaration" where
  "function_copy f n ts =
     (case f of FunctionDeclaration _ ps t b ex gs l c \<Rightarrow>
        transform_function (generic_substitutions gs ts) (FunctionDeclaration n ps t b ex [] l c))"

text \<open>The keys of the instances that were looked at, and the copies with their files.\<close>

fun instantiate_classes :: "located list \<Rightarrow> (string \<times> TejxType list) list \<Rightarrow> string set \<Rightarrow> (string set \<times> located list) ast_lower" where
  "instantiate_classes ss [] seen = ret (seen, [])"
| "instantiate_classes ss ((n, ts) # is) seen =
     (let m = monomorphized_name n ts
      in if \<not> list_all is_concrete_type ts \<or> m \<in> seen then instantiate_classes ss is seen
         else case find_class_template n ss of
                None \<Rightarrow> instantiate_classes ss is (insert m seen)
              | Some (d, file) \<Rightarrow>
                  if length (class_generics_of d) \<noteq> length ts then instantiate_classes ss is (insert m seen)
                  else
                    (pbind (al_put (\<lambda>s. s\<lparr>al_class_display := (al_class_display s)
                           (m \<mapsto> n @ ''<'' @ join_with '', '' (map to_name ts) @ ''>'')\<rparr>)) (\<lambda>_.
                      pbind (al_put (register_class (class_copy d m ts))) (\<lambda>_.
                      pbind (instantiate_classes ss is (insert m seen)) (\<lambda>r.
                      ret (fst r, (ClassDeclarationStmt (class_copy d m ts), file) # snd r))))))"

fun instantiate_functions ::
  "lowerers \<Rightarrow> located list \<Rightarrow> (string \<times> TejxType list) list \<Rightarrow> string set \<Rightarrow> (string set \<times> located list) ast_lower" where
  "instantiate_functions R ss [] seen = ret (seen, [])"
| "instantiate_functions R ss ((n, ts) # is) seen =
     (let m = monomorphized_name n ts
      in if \<not> list_all is_concrete_type ts \<or> m \<in> seen then instantiate_functions R ss is seen
         else case find_function_template n ss of
                None \<Rightarrow> instantiate_functions R ss is (insert m seen)
              | Some (f, file) \<Rightarrow>
                  if length (fn_generics f) \<noteq> length ts then instantiate_functions R ss is (insert m seen)
                  else
                    (pbind (register_function R (function_copy f m ts)) (\<lambda>_.
                      pbind (instantiate_functions R ss is (insert m seen)) (\<lambda>r.
                      ret (fst r, (FunctionDeclarationStmt (function_copy f m ts), file) # snd r)))))"

definition instances :: "(string \<times> TejxType list list) list \<Rightarrow> (string \<times> TejxType list) list" where
  "instances m = concat (map (\<lambda>(n, is). map (Pair n) is) m)"

text \<open>The functions and the statements of the main function that a declaration gives.\<close>

definition lower_declaration :: "lowerers \<Rightarrow> Statement \<Rightarrow> (HIRStatement list \<times> HIRStatement list) ast_lower" where
  "lower_declaration R st =
     (case st of
        FunctionDeclarationStmt f \<Rightarrow>
          (pbind (al_get (\<lambda>s. should_lower_function s f)) (\<lambda>wanted.
            (if wanted then pmap (\<lambda>h. ([h], [])) (lower_function_declaration R f) else ret ([], []))))
      | ClassDeclarationStmt d \<Rightarrow> if class_generics_of d = [] then lower_class_declaration R d else ret ([], [])
      | _ \<Rightarrow> ret ([], []))"

definition discover_nested_monomorphs :: "lowerers \<Rightarrow> Statement \<Rightarrow> unit ast_lower" where
  "discover_nested_monomorphs R st =
     (pbind (al_get (\<lambda>s. length (al_lambda_functions s))) (\<lambda>lambdas.
       pbind (al_get (\<lambda>s. length (al_nested_functions s))) (\<lambda>nested.
       pbind (lower_declaration R (declaration_of st)) (\<lambda>_.
       al_put (\<lambda>s. s\<lparr>al_lambda_functions := take lambdas (al_lambda_functions s),
                      al_nested_functions := take nested (al_nested_functions s)\<rparr>)))))"

fun monomorphize_to_fixed_point ::
  "nat \<Rightarrow> lowerers \<Rightarrow> string set \<Rightarrow> string set \<Rightarrow> located list \<Rightarrow> located list ast_lower" where
  "monomorphize_to_fixed_point 0 R cs fs ss = (\<lambda>s. NoFuel)"
| "monomorphize_to_fixed_point (Suc k) R cs fs ss =
     (pbind (al_get (\<lambda>s. instances (al_class_instantiations s))) (\<lambda>wanted.
       pbind (instantiate_classes ss wanted cs) (\<lambda>rc.
       pbind (al_get (\<lambda>s. instances (al_function_instantiations s) @ instances (al_discovered s))) (\<lambda>wanted'.
       pbind (instantiate_functions R ss wanted' fs) (\<lambda>rf.
       (if snd rc @ snd rf = [] then ret ss
         else (pbind (al_each (\<lambda>(st, file). discover_nested_monomorphs R st) (snd rc @ snd rf)) (\<lambda>_.
           monomorphize_to_fixed_point k R (fst rc) (fst rf) (ss @ snd rc @ snd rf)))))))))"

section \<open>The passes\<close>

text \<open>Pass 0.5: functions with a rest parameter.\<close>

definition scan_statement :: "Statement \<Rightarrow> ast_lowering \<Rightarrow> ast_lowering" where
  "scan_statement st =
     (case declaration_of st of
        FunctionDeclarationStmt f \<Rightarrow> scan_variadic (fn_name f) (fn_params f)
      | ClassDeclarationStmt d \<Rightarrow> scan_variadic_class d
      | _ \<Rightarrow> id)"

definition register_extension :: "(Expr, Statement) ExtensionDeclaration \<Rightarrow> ast_lowering \<Rightarrow> ast_lowering" where
  "register_extension d s =
     (case d of ExtensionDeclaration t fs _ _ \<Rightarrow>
        let n = type_node_to_string t
        in s\<lparr>al_class_methods := (al_class_methods s)
               (n \<mapsto> (case al_class_methods s n of Some ms \<Rightarrow> ms | None \<Rightarrow> []) @ map fn_name fs),
             al_user_functions :=
               fold (\<lambda>f m. m((if starts_with (fn_name f) ''f_'' then fn_name f else ''f_'' @ n @ ''_'' @ fn_name f)
                             \<mapsto> from_node (fn_return_type f))) fs (al_user_functions s)\<rparr>)"

definition register_variable :: "BindingNode \<Rightarrow> Type_Node \<Rightarrow> Expr option \<Rightarrow> unit ast_lower" where
  "register_variable p t e =
     (case p of
        BIdentifier n \<Rightarrow>
          (pbind ((if type_node_to_string t \<noteq> [] then ret (from_node t)
                   else case e of None \<Rightarrow> ret TyAny | Some x \<Rightarrow> infer_top_level_initializer_type x)) (\<lambda>u.
            pbind (define_name n u) (\<lambda>_.
            al_skip)))
      | _ \<Rightarrow> al_skip)"

text \<open>Pass 1.\<close>

definition register_statement :: "lowerers \<Rightarrow> Statement \<Rightarrow> unit ast_lower" where
  "register_statement R st =
     (case st of
        VarDeclaration p t e _ _ _ \<Rightarrow> register_variable p t e
      | ExtensionDeclarationStmt d \<Rightarrow> al_put (register_extension d)
      | _ \<Rightarrow>
          (case declaration_of st of
             FunctionDeclarationStmt f \<Rightarrow> register_function R f
           | ClassDeclarationStmt d \<Rightarrow> al_put (register_class d)
           | _ \<Rightarrow> al_skip))"

definition in_file :: "string \<Rightarrow> ast_lowering \<Rightarrow> ast_lowering" where
  "in_file file s = s\<lparr>al_current_file := file\<rparr>"

text \<open>Pass 1.6, after the copies were made.\<close>

definition register_located :: "lowerers \<Rightarrow> located \<Rightarrow> unit ast_lower" where
  "register_located R d =
     (case d of (st, file) \<Rightarrow>
        (pbind (al_put (in_file file)) (\<lambda>_.
          (case declaration_of st of
              FunctionDeclarationStmt f \<Rightarrow> register_function R f
            | ClassDeclarationStmt d \<Rightarrow> al_put (scan_variadic_class d \<circ> register_class d)
            | _ \<Rightarrow> al_skip))))"

text \<open>Pass 2: the functions and the statements of the main function.\<close>

definition lower_main_statement :: "lowerers \<Rightarrow> Statement \<Rightarrow> (HIRStatement list \<times> HIRStatement list) ast_lower" where
  "lower_main_statement R st =
     pmap (\<lambda>h. ([], case h of None \<Rightarrow> [] | Some st \<Rightarrow> [st])) (lw_statement R st)"

definition lower_top_statement :: "lowerers \<Rightarrow> Statement \<Rightarrow> (HIRStatement list \<times> HIRStatement list) ast_lower" where
  "lower_top_statement R st =
     (case st of
        ImportDecl _ _ _ _ _ \<Rightarrow> ret ([], [])
      | VarDeclaration p t _ _ _ _ \<Rightarrow>
          (pbind ((case p of BIdentifier n \<Rightarrow> (pbind (define_name n (from_node t)) (\<lambda>_.
            al_skip)) | _ \<Rightarrow> al_skip)) (\<lambda>_.
            lower_main_statement R st))
      | _ \<Rightarrow>
          (case declaration_of st of
             FunctionDeclarationStmt f \<Rightarrow> lower_declaration R (declaration_of st)
           | ClassDeclarationStmt d \<Rightarrow> lower_declaration R (declaration_of st)
           | ExtensionDeclarationStmt d \<Rightarrow> pmap (\<lambda>hs. (hs, [])) (lower_extension_declaration R d)
           | _ \<Rightarrow> lower_main_statement R st))"

definition lower_located :: "lowerers \<Rightarrow> located \<Rightarrow> (HIRStatement list \<times> HIRStatement list) ast_lower" where
  "lower_located R d = (case d of (st, file) \<Rightarrow> (pbind (al_put (in_file file)) (\<lambda>_.
    lower_top_statement R st)))"

section \<open>The result\<close>

record lowering_result =
  lr_functions :: "HIRStatement list"
  lr_signatures :: "(string \<times> TejxType list) list"
  lr_captured :: "(string \<times> string set) list"
  lr_class_fields :: "(string \<times> (string \<times> TejxType) list) list"
  lr_class_methods :: "string \<rightharpoonup> string list"
  lr_class_parents :: "(string \<times> string) list"
  lr_function_display :: "string \<rightharpoonup> string"
  lr_class_display :: "string \<rightharpoonup> string"
  lr_source_files :: "string \<rightharpoonup> string"

definition function_entries :: "HIRStatement list \<Rightarrow> (string \<times> (string \<times> TejxType) list) list" where
  "function_entries fs = List.map_filter (\<lambda>f. case f of HFunction n ps _ _ _ _ \<Rightarrow> Some (n, ps) | _ \<Rightarrow> None) fs"

definition main_call :: "ast_lowering \<Rightarrow> HIRStatement list \<Rightarrow> HIRStatement list" where
  "main_call s fs =
     (if ''f_main'' \<in> fst ` set (function_entries fs)
      then [HExprStmt (HCall ''f_main'' []
              (case al_user_functions s ''f_main'' of Some t \<Rightarrow> t | None \<Rightarrow> TyVoid) 0) 0]
      else [])"

definition runtime_signatures :: "(string \<times> TejxType list) list" where
  "runtime_signatures =
     [(''rt_len'', [TyInt64]), (''rt_strlen'', [TyString]),
      (''rt_print_string_array'', [TyDynamicArray TyString]), (''rt_to_string_int'', [TyInt64]),
      (''rt_to_string_float'', [TyFloat64]), (''rt_to_string_boolean'', [TyBool]),
      (''rt_exception_report_for_print'', [TyInt64]), (''rt_promise_resolve'', [TyInt64, TyInt64]),
      (''rt_promise_reject'', [TyInt64, TyInt64]), (''rt_promise_from_executor'', [TyInt64]),
      (''Thread_new'', [TyInt64, TyInt64, TyInt64]), (''rt_move_member'', [TyInt64, TyInt32]),
      (''__optional_chain'', [TyInt64, TyInt64]), (''rt_object_merge'', [TyInt64, TyInt64]),
      (''rt_typeof'', [TyInt64])]"

definition signatures_of :: "HIRStatement list \<Rightarrow> (string \<times> TejxType list) list" where
  "signatures_of fs = fold (\<lambda>(n, ps). AList.update n (map snd ps)) (function_entries fs) runtime_signatures"

text \<open>The classes from a class upwards; the source stops at a class it has seen.\<close>

function class_chain :: "(string \<times> string) list \<Rightarrow> string list \<Rightarrow> string \<Rightarrow> string list" where
  "class_chain parents seen c =
     (let b = base_of c
      in if b \<in> set seen then []
         else b # (case map_of parents b of None \<Rightarrow> [] | Some p \<Rightarrow> class_chain parents (b # seen) p))"
  by auto
termination
proof (relation "measure (\<lambda>(parents, seen, c). length (filter (\<lambda>x. fst x \<notin> set seen) parents))", goal_cases)
  case (2 parents seen c b p)
  then have "(b, p) \<in> set (filter (\<lambda>x. fst x \<notin> set seen) parents)" by (auto dest: map_of_SomeD)
  then have "length (filter (\<lambda>x. fst x \<noteq> b) (filter (\<lambda>x. fst x \<notin> set seen) parents)) <
             length (filter (\<lambda>x. fst x \<notin> set seen) parents)"
    by (intro length_filter_less) auto
  then show ?case by (simp add: conj_commute)
qed simp

declare class_chain.simps [simp del]

definition add_fields :: "(string \<times> TejxType \<times> Expr) list \<Rightarrow> (string \<times> TejxType) list \<Rightarrow> (string \<times> TejxType) list" where
  "add_fields fs all = fold (\<lambda>(n, t, e) all. if n \<in> fst ` set all then all else all @ [(n, t)]) fs all"

definition all_fields :: "ast_lowering \<Rightarrow> string \<Rightarrow> (string \<times> TejxType) list" where
  "all_fields s c =
     fold (\<lambda>k. add_fields (case map_of (al_instance_fields s) k of Some fs \<Rightarrow> fs | None \<Rightarrow> []))
       (rev (class_chain (al_class_parents s) [] c)) []"

definition captured_of :: "ast_lowering \<Rightarrow> string \<Rightarrow> string set" where
  "captured_of s n =
     (case al_captured s (case al_lambda_owner s n of Some m \<Rightarrow> m | None \<Rightarrow> n) of Some vs \<Rightarrow> vs | None \<Rightarrow> {})"

definition lowering_result_of :: "ast_lowering \<Rightarrow> string \<Rightarrow> HIRStatement list \<Rightarrow> lowering_result" where
  "lowering_result_of s file fs =
     \<lparr>lr_functions = fs, lr_signatures = signatures_of fs,
      lr_captured = fold (\<lambda>(n, ps). AList.update n (captured_of s n)) (function_entries fs) [],
      lr_class_fields = map (\<lambda>(c, _). (c, all_fields s c)) (al_instance_fields s),
      lr_class_methods = al_class_methods s, lr_class_parents = al_class_parents s,
      lr_function_display = al_function_display s, lr_class_display = al_class_display s,
      lr_source_files = (al_source_files s)(''tejx_main'' \<mapsto> file)\<rparr>"

definition statement_files :: "Statement list \<Rightarrow> string list option \<Rightarrow> string \<Rightarrow> string list" where
  "statement_files ss files file =
     (case files of
        Some fs \<Rightarrow> if length fs = length ss then fs else replicate (length ss) file
      | None \<Rightarrow> replicate (length ss) file)"

definition register_program :: "lowerers \<Rightarrow> nat \<Rightarrow> Statement list \<Rightarrow> string \<Rightarrow> string list option \<Rightarrow> located list ast_lower" where
  "register_program R k ss file files =
     (pbind (al_put (in_file file)) (\<lambda>_.
       pbind (al_put (fold scan_statement ss)) (\<lambda>_.
       pbind (al_put (\<lambda>s. s\<lparr>al_scopes := []\<rparr>)) (\<lambda>_.
       pbind al_enter_scope (\<lambda>_.
       pbind (al_each (register_statement R) ss) (\<lambda>_.
       pbind (monomorphize_to_fixed_point k R {} {} (zip ss (statement_files ss files file))) (\<lambda>all.
       pbind (al_each (register_located R) all) (\<lambda>_.
       ret all))))))))"

definition lower_program :: "lowerers \<Rightarrow> nat \<Rightarrow> Program \<Rightarrow> string \<Rightarrow> string list option \<Rightarrow> lowering_result ast_lower" where
  "lower_program R k p file files =
     (case p of Program ss \<Rightarrow>
        (pbind (register_program R k ss file files) (\<lambda>all.
          pbind (with_env_owner ''tejx_main'' (al_each (lower_located R) all)) (\<lambda>parts.
          pbind (al_get id) (\<lambda>s.
          let fs = concat (map fst parts) @ al_lambda_functions s @ al_nested_functions s;
               main = HFunction ''tejx_main'' [] TyVoid (HBlock (concat (map snd parts) @ main_call s fs) 0) False 0 in
          pbind (al_put (\<lambda>s. s\<lparr>al_lambda_functions := [], al_nested_functions := [],
                         al_source_files := (al_source_files s)(''tejx_main'' \<mapsto> file)\<rparr>)) (\<lambda>_.
          ret (lowering_result_of s file (fs @ [main]))))))))"

end
