(* ===== verification/AstLowerScopes.thy ===== *)
theory AstLowerScopes
  imports AstLowerProgram
begin

text \<open>
  The stacks of the lowering are balanced: every operation leaves the scopes below the innermost
  one, the lambda depth, the owners of captured variables, the return types and the expected type
  as it finds them, and in the innermost scope every name keeps its variable.
\<close>

named_theorems keeps_rules \<open>operations that keep the stacks\<close>

lemmas ast_splits = Expression.split TejxType.split HIRStatement.split Statement.split ClassDeclaration.split
  ClassGetter.split ClassSetter.split Case.split BindingNode.split ExtensionDeclaration.split

section \<open>States and what is kept of them\<close>

definition is_function :: "HIRStatement \<Rightarrow> bool" where
  "is_function h = (case h of HFunction _ _ _ _ _ _ \<Rightarrow> True | _ \<Rightarrow> False)"

text \<open>A variable of the generated program: a global, or a name with a number below the next one.\<close>

definition variable_of :: "nat \<Rightarrow> string \<Rightarrow> string \<Rightarrow> bool" where
  "variable_of k n m \<longleftrightarrow> m = ''g_'' @ n \<or> (\<exists>i < k. m = n @ ''$'' @ nat_to_string i)"

definition scope_ok :: "nat \<Rightarrow> (string \<rightharpoonup> string \<times> TejxType) \<Rightarrow> bool" where
  "scope_ok k sc \<longleftrightarrow> (\<forall>n m t. sc n = Some (m, t) \<longrightarrow> variable_of k n m)"

definition lowering_ok :: "ast_lowering \<Rightarrow> bool" where
  "lowering_ok s \<longleftrightarrow>
     al_scopes s \<noteq> [] \<and> snd (hd (al_scopes s)) = al_lambda_depth s \<and>
     sorted_wrt (\<ge>) (map snd (al_scopes s)) \<and>
     (\<forall>sc \<in> set (al_scopes s). scope_ok (al_next_scope_id s) (fst sc)) \<and>
     list_all is_function (al_lambda_functions s) \<and> list_all is_function (al_nested_functions s)"

definition same_variables :: "(string \<rightharpoonup> string \<times> TejxType) \<Rightarrow> (string \<rightharpoonup> string \<times> TejxType) \<Rightarrow> bool" where
  "same_variables sc sc' \<longleftrightarrow> (\<forall>n m t. sc n = Some (m, t) \<longrightarrow> (\<exists>u. sc' n = Some (m, u)))"

definition frame :: "ast_lowering \<Rightarrow> ast_lowering \<Rightarrow> bool" where
  "frame s s' \<longleftrightarrow>
     tl (al_scopes s') = tl (al_scopes s) \<and> same_variables (fst (hd (al_scopes s))) (fst (hd (al_scopes s'))) \<and>
     al_lambda_depth s' = al_lambda_depth s \<and> al_env_owners s' = al_env_owners s \<and>
     al_return_types s' = al_return_types s \<and> al_expected s' = al_expected s \<and>
     al_next_scope_id s \<le> al_next_scope_id s' \<and>
     (\<exists>fs. al_lambda_functions s' = al_lambda_functions s @ fs) \<and>
     (\<exists>fs. al_nested_functions s' = al_nested_functions s @ fs)"

definition al_keeps :: "'a ast_lower \<Rightarrow> bool" where
  "al_keeps m \<longleftrightarrow> (\<forall>s a s'. lowering_ok s \<longrightarrow> m s = Done (a, s') \<longrightarrow> lowering_ok s' \<and> frame s s')"

definition keeping :: "lowerers \<Rightarrow> bool" where
  "keeping R \<longleftrightarrow> (\<forall>e. al_keeps (lw_expression R e)) \<and> (\<forall>st. al_keeps (lw_statement R st))"

lemma same_variables_refl [simp]: "same_variables sc sc"
  by (simp add: same_variables_def)

lemma frame_refl [simp]: "frame s s"
  by (simp add: frame_def)

lemma same_variables_trans: "same_variables a b \<Longrightarrow> same_variables b c \<Longrightarrow> same_variables a c"
  unfolding same_variables_def by blast

lemma frame_trans: "frame s s' \<Longrightarrow> frame s' s'' \<Longrightarrow> frame s s''"
  by (auto simp: frame_def intro: same_variables_trans)

lemma variable_of_mono: "variable_of k n m \<Longrightarrow> k \<le> k' \<Longrightarrow> variable_of k' n m"
  by (auto simp: variable_of_def intro: less_le_trans)

lemma scope_ok_mono: "scope_ok k sc \<Longrightarrow> k \<le> k' \<Longrightarrow> scope_ok k' sc"
  by (auto simp: scope_ok_def intro: variable_of_mono)

lemma scope_ok_insert:
  "scope_ok k sc \<Longrightarrow> k \<le> k' \<Longrightarrow> variable_of k' n m \<Longrightarrow> scope_ok k' (sc(n \<mapsto> (m, t)))"
  by (auto simp: scope_ok_def intro: variable_of_mono)

lemma scope_ok_empty [simp]: "scope_ok k Map.empty"
  by (simp add: scope_ok_def)

lemma al_keepsI:
  "(\<And>s a s'. lowering_ok s \<Longrightarrow> m s = Done (a, s') \<Longrightarrow> lowering_ok s' \<and> frame s s') \<Longrightarrow> al_keeps m"
  by (auto simp: al_keeps_def)

lemma al_keepsD: "al_keeps m \<Longrightarrow> lowering_ok s \<Longrightarrow> m s = Done (a, s') \<Longrightarrow> lowering_ok s' \<and> frame s s'"
  by (auto simp: al_keeps_def)

section \<open>Sequencing and choice\<close>

lemma bind_done:
  assumes "pbind m f s = Done (b, s'')"
  obtains a s' where "m s = Done (a, s')" "f a s' = Done (b, s'')"
  using assms by (auto simp: pbind_def split: outcome.splits)

lemma al_keeps_ret [simp, keeps_rules]: "al_keeps (ret a)"
  by (rule al_keepsI) (simp add: ret_def)

lemma keeps_panic [keeps_rules]: "al_keeps (\<lambda>_. Panic)"
  by (rule al_keepsI) simp

lemma keeps_no_fuel [keeps_rules]: "al_keeps (\<lambda>_. NoFuel)"
  by (rule al_keepsI) simp

lemma al_keeps_bind [keeps_rules]: "al_keeps m \<Longrightarrow> (\<And>a. al_keeps (f a)) \<Longrightarrow> al_keeps (pbind m f)"
  by (rule al_keepsI) (blast elim: bind_done dest: al_keepsD intro: frame_trans)

lemma keeps_pmap [keeps_rules]: "al_keeps m \<Longrightarrow> al_keeps (pmap f m)"
  unfolding pmap_def by (intro keeps_rules)

lemma al_keeps_skip [keeps_rules]: "al_keeps al_skip"
  unfolding al_skip_def by (intro keeps_rules)

lemma keeps_get [keeps_rules]: "al_keeps (al_get f)"
  by (rule al_keepsI) (simp add: al_get_def)

text \<open>A program that only reads the state, or panics.\<close>

lemma keeps_pure: "(\<And>s a s'. m s = Done (a, s') \<Longrightarrow> s' = s) \<Longrightarrow> al_keeps m"
  by (rule al_keepsI) force

lemma al_keeps_each: "(\<And>x. x \<in> set xs \<Longrightarrow> al_keeps (f x)) \<Longrightarrow> al_keeps (al_each f xs)"
  by (induction xs) (auto intro!: keeps_rules)

lemma keeps_each_all [keeps_rules]: "(\<And>x. al_keeps (f x)) \<Longrightarrow> al_keeps (al_each f xs)"
  by (rule al_keeps_each)

lemma keeps_if [keeps_rules]: "al_keeps p \<Longrightarrow> al_keeps q \<Longrightarrow> al_keeps (if c then p else q)"
  by simp

lemma al_keeps_option [keeps_rules]:
  "al_keeps p \<Longrightarrow> (\<And>a. al_keeps (f a)) \<Longrightarrow> al_keeps (case x of None \<Rightarrow> p | Some a \<Rightarrow> f a)"
  by (cases x) simp_all

lemma keeps_prod [keeps_rules]: "(\<And>a b. al_keeps (f a b)) \<Longrightarrow> al_keeps (case x of (a, b) \<Rightarrow> f a b)"
  by (cases x) simp

lemma keeps_sum [keeps_rules]:
  "(\<And>a. al_keeps (f a)) \<Longrightarrow> (\<And>b. al_keeps (g b)) \<Longrightarrow> al_keeps (case x of Inl a \<Rightarrow> f a | Inr b \<Rightarrow> g b)"
  by (cases x) simp_all

lemma keeps_list [keeps_rules]:
  "al_keeps p \<Longrightarrow> (\<And>a as. al_keeps (f a as)) \<Longrightarrow> al_keeps (case x of [] \<Rightarrow> p | a # as \<Rightarrow> f a as)"
  by (cases x) simp_all

lemma keeps_let [keeps_rules]: "(\<And>a. al_keeps (f a)) \<Longrightarrow> al_keeps (let a = x in f a)"
  by simp

lemma keeps_al_option [keeps_rules]: "(\<And>a. al_keeps (f a)) \<Longrightarrow> al_keeps (al_option f x)"
  unfolding al_option_def by (intro keeps_rules)

lemma al_keeps_expression [keeps_rules]: "keeping R \<Longrightarrow> al_keeps (lw_expression R e)"
  by (simp add: keeping_def)

lemma keeps_statement [keeps_rules]: "keeping R \<Longrightarrow> al_keeps (lw_statement R st)"
  by (simp add: keeping_def)

section \<open>Scopes, variables and brackets\<close>

text \<open>What the tables of the state do not touch.\<close>

definition stacks :: "ast_lowering \<Rightarrow> _" where
  "stacks s = (al_scopes s, al_lambda_depth s, al_next_scope_id s, al_env_owners s, al_return_types s, al_expected s,
     al_lambda_functions s, al_nested_functions s)"

lemma stacks_ok: "stacks s' = stacks s \<Longrightarrow> lowering_ok s \<Longrightarrow> lowering_ok s' \<and> frame s s'"
  by (simp add: stacks_def lowering_ok_def frame_def)

lemma keeps_put [keeps_rules]: "(\<And>s. stacks (f s) = stacks s) \<Longrightarrow> al_keeps (al_put f)"
  by (rule al_keepsI) (auto simp: al_put_def dest: stacks_ok)

text \<open>The tables of the state.\<close>

lemma stacks_update [simp]:
  "stacks (s\<lparr>al_lambda_counter := lc\<rparr>) = stacks s" "stacks (s\<lparr>al_user_functions := uf\<rparr>) = stacks s"
  "stacks (s\<lparr>al_user_function_args := ua\<rparr>) = stacks s" "stacks (s\<lparr>al_param_defaults := pd\<rparr>) = stacks s"
  "stacks (s\<lparr>al_ctor_defaults := cd\<rparr>) = stacks s" "stacks (s\<lparr>al_externs := ex\<rparr>) = stacks s"
  "stacks (s\<lparr>al_variadics := va\<rparr>) = stacks s" "stacks (s\<lparr>al_current_class := cc\<rparr>) = stacks s"
  "stacks (s\<lparr>al_parent_class := pc\<rparr>) = stacks s" "stacks (s\<lparr>al_class_methods := cm\<rparr>) = stacks s"
  "stacks (s\<lparr>al_instance_fields := fi\<rparr>) = stacks s" "stacks (s\<lparr>al_static_fields := sf\<rparr>) = stacks s"
  "stacks (s\<lparr>al_getters := ge\<rparr>) = stacks s" "stacks (s\<lparr>al_setters := se\<rparr>) = stacks s"
  "stacks (s\<lparr>al_class_parents := cp\<rparr>) = stacks s" "stacks (s\<lparr>al_class_generics := cg\<rparr>) = stacks s"
  "stacks (s\<lparr>al_function_generics := fg\<rparr>) = stacks s" "stacks (s\<lparr>al_erased := er\<rparr>) = stacks s"
  "stacks (s\<lparr>al_discovered := di\<rparr>) = stacks s" "stacks (s\<lparr>al_aliases := al\<rparr>) = stacks s"
  "stacks (s\<lparr>al_enum_members := em\<rparr>) = stacks s" "stacks (s\<lparr>al_class_instantiations := ci\<rparr>) = stacks s"
  "stacks (s\<lparr>al_captured := ca\<rparr>) = stacks s" "stacks (s\<lparr>al_lambda_owner := lo\<rparr>) = stacks s"
  "stacks (s\<lparr>al_function_display := fd\<rparr>) = stacks s" "stacks (s\<lparr>al_class_display := dc\<rparr>) = stacks s"
  "stacks (s\<lparr>al_current_file := cf\<rparr>) = stacks s" "stacks (s\<lparr>al_source_files := so\<rparr>) = stacks s"
  "stacks (s\<lparr>al_pending_display := pe\<rparr>) = stacks s"
  by (simp_all add: stacks_def)

lemma keeps_stacks: "(\<And>s a s'. m s = Done (a, s') \<Longrightarrow> stacks s' = stacks s) \<Longrightarrow> al_keeps m"
  by (rule al_keepsI) (meson stacks_ok)

lemma keeps_in_scope [keeps_rules]:
  assumes "al_keeps m"
  shows "al_keeps (in_scope m)"
proof (rule al_keepsI)
  fix s a s' assume ok: "lowering_ok s" and r: "in_scope m s = Done (a, s')"
  let ?s1 = "s\<lparr>al_scopes := (Map.empty, al_lambda_depth s) # al_scopes s\<rparr>"
  from r obtain s2 where m: "m ?s1 = Done (a, s2)" and x: "al_exit_scope s2 = Done ((), s')"
    by (auto simp: in_scope_def al_enter_scope_def al_put_def pbind_def ret_def al_exit_scope_def split: outcome.splits)
  have ok1: "lowering_ok ?s1"
  proof -
    have "\<forall>d \<in> snd ` set (al_scopes s). d \<le> al_lambda_depth s"
      using ok by (cases "al_scopes s") (auto simp: lowering_ok_def)
    then show ?thesis using ok by (auto simp: lowering_ok_def)
  qed
  from al_keepsD [OF assms ok1 m] have ok2: "lowering_ok s2" and f: "frame ?s1 s2" by auto
  from f ok2 obtain sc where sc: "al_scopes s2 = (sc, al_lambda_depth s) # al_scopes s"
    by (cases "al_scopes s2") (auto simp: frame_def lowering_ok_def)
  have top: "\<exists>scd \<in> set (al_scopes s). snd scd = al_lambda_depth s"
    using ok by (cases "al_scopes s") (auto simp: lowering_ok_def)
  have d: "al_lambda_depth s2 = al_lambda_depth s" using f by (simp add: frame_def)
  have s': "s' = s2\<lparr>al_scopes := al_scopes s\<rparr>"
    using x sc d top by (auto simp: al_exit_scope_def al_put_def)
  show "lowering_ok s' \<and> frame s s'"
    unfolding s' using ok ok2 sc f by (auto simp: lowering_ok_def frame_def)
qed

lemma keeps_in_lambda_scope [keeps_rules]:
  assumes "al_keeps m"
  shows "al_keeps (in_lambda_scope m)"
proof (rule al_keepsI)
  fix s a s' assume ok: "lowering_ok s" and r: "in_lambda_scope m s = Done (a, s')"
  let ?d = "Suc (al_lambda_depth s)"
  let ?s1 = "s\<lparr>al_lambda_depth := ?d, al_scopes := (Map.empty, ?d) # al_scopes s\<rparr>"
  from r obtain s2 where m: "m ?s1 = Done (a, s2)" and x: "al_exit_scope s2 = Done ((), s')"
    by (auto simp: in_lambda_scope_def enter_lambda_scope_def al_put_def pbind_def ret_def al_exit_scope_def split: outcome.splits)
  have le: "\<forall>d \<in> snd ` set (al_scopes s). d \<le> al_lambda_depth s"
    using ok by (cases "al_scopes s") (auto simp: lowering_ok_def)
  have ok1: "lowering_ok ?s1" using ok le by (auto simp: lowering_ok_def intro: le_SucI)
  from al_keepsD [OF assms ok1 m] have ok2: "lowering_ok s2" and f: "frame ?s1 s2" by auto
  from f ok2 obtain sc where sc: "al_scopes s2 = (sc, ?d) # al_scopes s"
    by (cases "al_scopes s2") (auto simp: frame_def lowering_ok_def)
  have top: "\<forall>scd \<in> set (al_scopes s). snd scd \<noteq> ?d" using le by fastforce
  have d: "al_lambda_depth s2 = ?d" using f by (simp add: frame_def)
  have s': "s' = s2\<lparr>al_scopes := al_scopes s, al_lambda_depth := al_lambda_depth s\<rparr>"
    using x sc d top by (fastforce simp: al_exit_scope_def al_put_def)
  show "lowering_ok s' \<and> frame s s'"
    unfolding s' using ok ok2 sc f by (auto simp: lowering_ok_def frame_def)
qed

text \<open>A field that is set, and set back after the part.\<close>

lemma keeps_with_expected [keeps_rules]:
  assumes "al_keeps m"
  shows "al_keeps (with_expected t m)"
proof (rule al_keepsI)
  fix s a s' assume ok: "lowering_ok s" and r: "with_expected t m s = Done (a, s')"
  from r obtain s2 where m: "m (s\<lparr>al_expected := t\<rparr>) = Done (a, s2)" and s': "s' = s2\<lparr>al_expected := al_expected s\<rparr>"
    by (auto simp: with_expected_def al_get_def al_put_def pbind_def ret_def split: outcome.splits)
  have "lowering_ok (s\<lparr>al_expected := t\<rparr>)" using ok by (simp add: lowering_ok_def)
  from al_keepsD [OF assms this m] show "lowering_ok s' \<and> frame s s'"
    unfolding s' by (simp add: lowering_ok_def frame_def)
qed

lemma keeps_with_return_type [keeps_rules]:
  assumes "al_keeps m"
  shows "al_keeps (with_return_type t m)"
proof (rule al_keepsI)
  fix s a s' assume ok: "lowering_ok s" and r: "with_return_type t m s = Done (a, s')"
  let ?s1 = "s\<lparr>al_return_types := t # al_return_types s\<rparr>"
  from r obtain s2 where m: "m ?s1 = Done (a, s2)" and s': "s' = s2\<lparr>al_return_types := tl (al_return_types s2)\<rparr>"
    by (auto simp: with_return_type_def al_put_def pbind_def ret_def split: outcome.splits)
  have "lowering_ok ?s1" using ok by (simp add: lowering_ok_def)
  from al_keepsD [OF assms this m] show "lowering_ok s' \<and> frame s s'"
    unfolding s' by (simp add: lowering_ok_def frame_def)
qed

lemma keeps_with_env_owner [keeps_rules]:
  assumes "al_keeps m"
  shows "al_keeps (with_env_owner n m)"
proof (rule al_keepsI)
  fix s a s' assume ok: "lowering_ok s" and r: "with_env_owner n m s = Done (a, s')"
  let ?s1 = "s\<lparr>al_env_owners := n # al_env_owners s,
    al_captured := (al_captured s)(n \<mapsto> (case al_captured s n of None \<Rightarrow> {} | Some c \<Rightarrow> c))\<rparr>"
  from r obtain s2 where m: "m ?s1 = Done (a, s2)" and s': "s' = s2\<lparr>al_env_owners := tl (al_env_owners s2)\<rparr>"
    by (auto simp: with_env_owner_def push_env_owner_def pop_env_owner_def al_put_def pbind_def ret_def split: outcome.splits)
  have "lowering_ok ?s1" using ok by (simp add: lowering_ok_def)
  from al_keepsD [OF assms this m] show "lowering_ok s' \<and> frame s s'"
    unfolding s' by (simp add: lowering_ok_def frame_def)
qed

lemma keeps_lookup_var [keeps_rules]: "al_keeps (lookup_var n)"
  by (rule keeps_stacks) (auto simp: lookup_var_def capture_def stacks_def split: option.splits list.splits)

lemma keeps_define_name [keeps_rules]: "al_keeps (define_name n t)"
proof (rule al_keepsI)
  fix s a s' assume ok: "lowering_ok s" and r: "define_name n t s = Done (a, s')"
  from ok obtain sc scs where sc: "al_scopes s = (sc, al_lambda_depth s) # scs"
    by (cases "al_scopes s") (auto simp: lowering_ok_def)
  let ?k = "al_next_scope_id s"
  show "lowering_ok s' \<and> frame s s'"
  proof (cases "sc n")
    case None
    define k where "k = (if scs = [] then ?k else Suc ?k)"
    have s': "s' = s\<lparr>al_scopes := (sc(n \<mapsto> (a, resolve_alias_type s t)), al_lambda_depth s) # scs, al_next_scope_id := k\<rparr>"
      and a: "variable_of k n a"
      using r None by (auto simp: define_name_def sc Let_def k_def variable_of_def split: if_splits)
    have k: "?k \<le> k" by (simp add: k_def)
    have old: "\<forall>sc \<in> set scs. scope_ok k (fst sc)" and new: "scope_ok k (sc(n \<mapsto> (a, resolve_alias_type s t)))"
      using ok k a by (auto simp: lowering_ok_def sc intro: scope_ok_mono scope_ok_insert)
    show ?thesis unfolding s' using ok old new k None
      by (auto simp: lowering_ok_def frame_def sc same_variables_def)
  qed (use r ok in \<open>auto simp: define_name_def sc\<close>)
qed

lemma lookup_narrowed:
  assumes "lowering_ok s" "find_scope n (al_scopes s) = Some ((m, u), d, inner)"
  shows "variable_of (al_next_scope_id s) n m" "fst (hd (al_scopes s)) n = Some (m', u') \<Longrightarrow> m' = m"
proof -
  have "(\<forall>sc \<in> set scs. scope_ok k (fst sc)) \<Longrightarrow> find_scope n scs = Some ((m, u), d, inner) \<Longrightarrow> variable_of k n m" for k scs
    by (induction scs) (auto simp: scope_ok_def split: option.splits)
  then show "variable_of (al_next_scope_id s) n m" using assms by (auto simp: lowering_ok_def)
  show "fst (hd (al_scopes s)) n = Some (m', u') \<Longrightarrow> m' = m"
    using assms by (cases "al_scopes s") (auto simp: lowering_ok_def)
qed

lemma keeps_narrow_type [keeps_rules]: "al_keeps (narrow_type n t)"
proof (rule al_keepsI)
  fix s a s' assume ok: "lowering_ok s" and r: "narrow_type n t s = Done (a, s')"
  from ok obtain sc scs where sc: "al_scopes s = (sc, al_lambda_depth s) # scs"
    by (cases "al_scopes s") (auto simp: lowering_ok_def)
  show "lowering_ok s' \<and> frame s s'"
  proof (cases "find_scope n (al_scopes s)")
    case None
    then have "s' = s" using r by (auto simp: narrow_type_def lookup_var_def pbind_def al_skip_def ret_def)
    then show ?thesis using ok by simp
  next
    case (Some i)
    then obtain m u d inner where i: "find_scope n (al_scopes s) = Some ((m, u), d, inner)" by (cases i) auto
    define s1 where "s1 = (if d < al_lambda_depth s \<and> inner then capture m s else s)"
    have st: "stacks s1 = stacks s" by (simp add: s1_def capture_def stacks_def split: list.splits)
    have s': "s' = s1\<lparr>al_scopes := (sc(n \<mapsto> (m, resolve_alias_type s1 t)), al_lambda_depth s) # scs\<rparr>"
      using r i st sc by (auto simp: narrow_type_def lookup_var_def pbind_def al_put_def s1_def stacks_def split: if_splits)
    have ok1: "lowering_ok s1" using stacks_ok [OF st ok] by simp
    have "variable_of (al_next_scope_id s) n m" "\<And>m' u'. sc n = Some (m', u') \<Longrightarrow> m' = m"
      using lookup_narrowed [OF ok i] by (auto simp: sc)
    then show ?thesis unfolding s' using ok1 st
      by (auto simp: lowering_ok_def frame_def sc stacks_def same_variables_def scope_ok_def)
  qed
qed

end
