(* ===== verification/AstLowerBalance.thy ===== *)
theory AstLowerBalance
  imports AstLowerScopes
begin

text \<open>
  Every operation of the lowering keeps the stacks, in the order in which the operations use each
  other, up to the whole program.
\<close>

section \<open>The tables\<close>

lemma stacks_fold: "(\<And>x s. stacks (f x s) = stacks s) \<Longrightarrow> stacks (fold f xs s) = stacks s"
  by (induction xs arbitrary: s) simp_all

lemma stacks_functions [simp]:
  "stacks (capture m s) = stacks s" "stacks (register_type_alias n t s) = stacks s"
  "stacks (discover_instance n ts s) = stacks s" "stacks (record_instantiation t s) = stacks s"
  "stacks (set_function n t k s) = stacks s" "stacks (set_defaults n ds s) = stacks s"
  "stacks (set_generics n f s) = stacks s" "stacks (scan_variadic n ps s) = stacks s"
  "stacks (method_tables n f b k s) = stacks s" "stacks (register_extension e s) = stacks s"
  "stacks (in_file n s) = stacks s"
  by (simp_all add: capture_def register_type_alias_def discover_instance_def record_instantiation_def
      set_function_def set_defaults_def set_generics_def scan_variadic_def method_tables_def
      register_extension_def in_file_def Let_def
      split: list.split TejxType.split ExtensionDeclaration.split)

lemma stacks_classes [simp]:
  "stacks (scan_variadic_class d s) = stacks s" "stacks (register_class d s) = stacks s"
  by (simp_all add: scan_variadic_class_def register_class_def register_constructor_def register_method_def
      register_getter_def register_setter_def stacks_fold Let_def
      split: ClassDeclaration.split option.split ClassGetter.split ClassSetter.split)

lemma stacks_scan_statement [simp]: "stacks (scan_statement st s) = stacks s"
  by (simp add: scan_statement_def split: Statement.split)

lemma stacks_enum [simp]: "stacks (register_enum_members n v ms s) = stacks s"
  by (induction n v ms s rule: register_enum_members.induct) (simp_all add: Let_def)

section \<open>Names, instances and patterns\<close>

lemma keeps_tables [keeps_rules]:
  "al_keeps (register_lambda_env_owner n)" "al_keeps fresh_tmp" "al_keeps (note_file ns)" "al_keeps begin_lambda"
  by (auto simp: register_lambda_env_owner_def fresh_tmp_def note_file_def begin_lambda_def Let_def
      split: list.split intro!: keeps_rules)

lemma keeps_instances [keeps_rules]:
  "al_keeps (substitute_receiver r t n)" "al_keeps (resolve_function_monomorph n es ts)"
  "al_keeps (resolve_recorded_function_monomorph n m l c)"
  by (rule keeps_stacks; auto simp: substitute_receiver_def resolve_function_monomorph_def
      resolve_recorded_function_monomorph_def Let_def
      split: if_splits option.splits)+

lemma keeps_binding [keeps_rules]: "al_keeps (lower_binding_pattern b e t c)"
proof (induction b e t c rule: lower_binding_pattern.induct)
  case (2 bs rest init t c)
  then show ?case
    by (cases rest) (auto simp: Let_def intro!: al_keeps_each al_keeps_bind keeps_tables)
qed (auto simp: Let_def intro!: al_keeps_each al_keeps_bind keeps_define_name keeps_tables keeps_get)

lemma keeps_none_comparison [keeps_rules]: "al_keeps (none_comparison l op r)"
  unfolding none_comparison_def Let_def by (auto intro!: keeps_rules split: TejxType.split)

lemma keeps_instance_test [keeps_rules]: "al_keeps (instance_test x op y)"
  unfolding instance_test_def by (auto split: Expression.split TejxType.split intro!: keeps_rules)

lemma keeps_narrowing [keeps_rules]: "al_keeps (get_narrowing_from_condition e)"
  by (induction e rule: get_narrowing_from_condition.induct) (auto simp: Let_def intro!: keeps_rules)

section \<open>Results that are functions\<close>

definition al_returns :: "'a ast_lower \<Rightarrow> ('a \<Rightarrow> bool) \<Rightarrow> bool" where
  "al_returns m P \<longleftrightarrow> (\<forall>s a s'. m s = Done (a, s') \<longrightarrow> P a)"

lemma returns_ret: "P a \<Longrightarrow> al_returns (ret a) P"
  by (simp add: al_returns_def ret_def)

lemma al_returns_bind: "(\<And>a. al_returns (f a) P) \<Longrightarrow> al_returns (pbind m f) P"
  unfolding al_returns_def by (blast elim: bind_done)

lemma returns_bind_result: "al_returns m Q \<Longrightarrow> (\<And>a. Q a \<Longrightarrow> al_returns (f a) P) \<Longrightarrow> al_returns (pbind m f) P"
  unfolding al_returns_def by (blast elim: bind_done)

lemma returns_in_lambda_scope: "al_returns m P \<Longrightarrow> al_returns (in_lambda_scope m) P"
  unfolding in_lambda_scope_def by (rule al_returns_bind, rule returns_bind_result, assumption, intro al_returns_bind returns_ret)

lemma returns_each: "(\<And>x. al_returns (f x) P) \<Longrightarrow> al_returns (al_each f xs) (list_all P)"
proof (induction xs)
  case (Cons x xs)
  then show ?case by (auto intro!: returns_bind_result [of "f x" P] returns_bind_result [of _ "list_all P"] returns_ret)
qed (simp add: returns_ret)

lemma keeps_bind_result:
  "al_keeps m \<Longrightarrow> al_returns m P \<Longrightarrow> (\<And>a. P a \<Longrightarrow> al_keeps (f a)) \<Longrightarrow> al_keeps (pbind m f)"
  unfolding al_returns_def
  by (rule al_keepsI) (blast elim: bind_done dest: al_keepsD intro: frame_trans)

lemmas returns_rules = al_returns_bind returns_ret returns_each returns_in_lambda_scope

lemma returns_functions:
  "al_returns (lower_function_declaration R f) is_function" "al_returns (lower_method R n l fm) is_function"
  "al_returns (lower_accessor R n ps t st l) is_function" "al_returns (lower_getter R n l g) is_function"
  "al_returns (lower_setter R n l g') is_function" "al_returns (lower_extension_method R u l f) is_function"
  by (auto simp: lower_function_declaration_def lower_method_def lower_accessor_def lower_getter_def lower_setter_def
      lower_extension_method_def Let_def is_function_def
      split: prod.split ClassGetter.split ClassSetter.split intro!: al_returns_bind returns_ret)

lemma returns_class: "al_returns (lower_class_declaration R d) (\<lambda>r. list_all is_function (fst r))"
proof (cases d)
  case (ClassDeclaration n p gs ab ifs ms fs ges ses k l c)
  show ?thesis
    unfolding ClassDeclaration lower_class_declaration_def ClassDeclaration.case
    by (rule al_returns_bind, rule returns_bind_result [OF returns_each [OF returns_functions(2)]],
        rule returns_bind_result [OF returns_each [OF returns_functions(4)]],
        rule returns_bind_result [OF returns_each [OF returns_functions(5)]])
      (intro al_returns_bind returns_ret, simp)
qed

section \<open>Expressions, statements and declarations\<close>

lemma keeps_array_chunks [keeps_rules]: "keeping R \<Longrightarrow> al_keeps (array_chunks R f es xs)"
  by (induction R f es xs rule: array_chunks.induct) (auto intro!: keeps_rules)

lemma keeps_some_statement [keeps_rules]: "al_keeps m \<Longrightarrow> al_keeps (some_statement m)"
  unfolding some_statement_def by (rule keeps_pmap)

lemma keeps_end_lambda: "is_function f \<Longrightarrow> al_keeps (end_lambda f n)"
  by (rule al_keepsI) (simp add: end_lambda_def al_put_def lowering_ok_def frame_def, force)

lemma keeps_define_params [keeps_rules]: "al_keeps (define_params ps)"
  unfolding define_params_def by (intro keeps_rules)

lemma keeps_lambda [keeps_rules]:
  assumes "keeping R"
  shows "al_keeps (lower_lambda R ps st l c)"
  unfolding lower_lambda_def
  using assms by (intro al_keeps_bind keeps_get al_keeps_ret keeps_tables keeps_bind_result [where P = is_function] keeps_end_lambda)
    (auto simp: is_function_def intro!: keeps_rules returns_rules)

lemma keeps_lower_body [keeps_rules]:
  "keeping R \<Longrightarrow> (\<And>h. al_keeps (k h)) \<Longrightarrow> al_keeps (lower_body R n ps t st l k)"
  unfolding lower_body_def by (intro keeps_rules)

lemma keeps_define_tail [keeps_rules]:
  "al_keeps (variable_callee n es l c)" "al_keeps (this_argument l)"
  unfolding variable_callee_def this_argument_def by (intro keeps_rules)+

lemma keeps_expr_pure_1 [keeps_rules]:
  shows
    "al_keeps (lower_number a0 b0 c0)"
    "al_keeps (lower_string a1 b1)"
    "al_keeps (lower_identifier a2 b2)"
    "al_keeps (lower_self a3 b3)"
    "al_keeps (member_value a4 b4 c4 d4)"
  by (auto simp:
     lower_number_def lower_string_def lower_identifier_def lower_self_def member_value_def
      intro!: keeps_rules split: ast_splits)

lemma keeps_expr_1 [keeps_rules]:
  assumes "keeping R"
  shows
    "al_keeps (lower_object_literal R a0 b0 c0)"
    "al_keeps (lower_optional_index R a1 b1 c1)"
    "al_keeps (lower_index R a2 b2 c2)"
    "al_keeps (lower_coalescing R a3 b3 c3)"
    "al_keeps (lower_setter_call R a4 b4 c4)"
    "al_keeps (lower_unary_expr R a5 b5 c5 d5)"
  using assms
  by (auto simp:
     lower_object_literal_def lower_optional_index_def lower_index_def lower_coalescing_def
     lower_setter_call_def lower_unary_expr_def
      intro!: keeps_rules split: ast_splits)

lemma keeps_call_1 [keeps_rules]:
  assumes "keeping R"
  shows
    "al_keeps (default_argument R a0 b0 c0)"
    "al_keeps (call_arguments R a1 b1)"
    "al_keeps (lower_new_expr R a2 b2 c2)"
  using assms
  by (auto simp:
     default_argument_def call_arguments_def lower_new_expr_def
      intro!: keeps_rules split: ast_splits)

lemma keeps_call_pure_1 [keeps_rules]:
  shows
    "al_keeps (unknown_callee a0 b0 c0)"
  by (auto simp:
     unknown_callee_def
      intro!: keeps_rules split: ast_splits)

lemma keeps_stmt_1 [keeps_rules]:
  assumes "keeping R"
  shows
    "al_keeps (param_type_or_default R a0 b0)"
    "al_keeps (field_assignment R a1 b1 c1 d1)"
    "al_keeps (static_assignment R a2 b2 c2)"
  using assms
  by (auto simp:
     param_type_or_default_def field_assignment_def static_assignment_def
      intro!: keeps_rules split: ast_splits)

lemma keeps_flow_1 [keeps_rules]:
  assumes "keeping R"
  shows
    "al_keeps (lower_statements R a0)"
    "al_keeps (lower_nested_function R a1 b1)"
    "al_keeps (lower_as_block R a2)"
    "al_keeps (lower_for_of R a3 b3 c3 d3)"
    "al_keeps (lower_return R a4 b4)"
    "al_keeps (lower_catch R a5 b5 c5)"
  using assms
  by (auto simp:
     lower_statements_def lower_nested_function_def lower_as_block_def lower_for_of_def
     lower_return_def lower_catch_def
      intro!: keeps_rules split: ast_splits)

lemma keeps_flow_pure_1 [keeps_rules]:
  shows
    "al_keeps (hoist_function a0)"
    "al_keeps (narrow_effectively a1 b1)"
    "al_keeps (narrow_after_if a2 b2 c2)"
  by (auto simp:
     hoist_function_def narrow_effectively_def narrow_after_if_def
      intro!: keeps_rules split: ast_splits)

lemma keeps_state_pure_2 [keeps_rules]:
  shows
    "al_keeps (instance_test a0 b0 c0)"
  by (auto simp:
     instance_test_def
      intro!: keeps_rules split: ast_splits)

lemma keeps_expr_2 [keeps_rules]:
  assumes "keeping R"
  shows
    "al_keeps (lower_array_literal R a0 b0 c0)"
    "al_keeps (lower_right_operand R a1 b1 c1)"
    "al_keeps (assignment_expected R a2 b2)"
  using assms
  by (auto simp:
     lower_array_literal_def lower_right_operand_def assignment_expected_def
      intro!: keeps_rules split: ast_splits)

lemma keeps_call_2 [keeps_rules]:
  assumes "keeping R"
  shows
    "al_keeps (complete_arguments R a0 b0)"
  using assms
  by (auto simp:
     complete_arguments_def
      intro!: keeps_rules split: ast_splits)

lemma keeps_call_pure_2 [keeps_rules]:
  shows
    "al_keeps (builtin_callee a0 b0)"
    "al_keeps (super_call a1 b1 c1)"
    "al_keeps (resolve_function_call a2 b2 c2 d2 e2 f2)"
    "al_keeps (find_instance a3 b3 c3 d3 e3 f3)"
  by (auto simp:
     builtin_callee_def super_call_def resolve_function_call_def find_instance_def
      intro!: keeps_rules split: ast_splits)

lemma keeps_stmt_2 [keeps_rules]:
  assumes "keeping R"
  shows
    "al_keeps (register_function R a0)"
    "al_keeps (initialize_fields R a1 b1)"
  using assms
  by (auto simp:
     register_function_def initialize_fields_def
      intro!: keeps_rules split: ast_splits)

lemma keeps_flow_2 [keeps_rules]:
  assumes "keeping R"
  shows
    "al_keeps (lower_block R a0 b0)"
    "al_keeps (lower_var_declaration R a1 b1 c1 d1 e1)"
    "al_keeps (lower_loop_body R a2 b2)"
    "al_keeps (lower_for_init R a3)"
    "al_keeps (lower_branch R a4 b4 c4)"
    "al_keeps (lower_switch_case R a5 b5)"
    "al_keeps (lower_try_stmt R a6 b6 c6 d6 e6)"
  using assms
  by (auto simp:
     lower_block_def lower_var_declaration_def lower_loop_body_def lower_for_init_def
     lower_branch_def lower_switch_case_def lower_try_stmt_def
      intro!: keeps_rules split: ast_splits)

lemma keeps_expr_3 [keeps_rules]:
  assumes "keeping R"
  shows
    "al_keeps (lower_binary_expr R a0 b0 c0 d0)"
    "al_keeps (lower_assignment_expr R a1 b1 c1 d1)"
  using assms
  by (auto simp:
     lower_binary_expr_def lower_assignment_expr_def
      intro!: keeps_rules split: ast_splits)

lemma keeps_call_pure_3 [keeps_rules]:
  shows
    "al_keeps (method_callee_of a0 b0 c0)"
  by (auto simp:
     method_callee_of_def
      intro!: keeps_rules split: ast_splits)

lemma keeps_function_call [keeps_rules]: "keeping R \<Longrightarrow> al_keeps (lower_function_call R n es ts l c)"
  unfolding lower_function_call_def by (intro keeps_rules)

lemma keeps_stmt_3 [keeps_rules]:
  assumes "keeping R"
  shows
    "al_keeps (lower_function_declaration R a0)"
    "al_keeps (lower_method R a1 b1 c1)"
    "al_keeps (lower_accessor R a2 b2 c2 d2 e2)"
  using assms
  by (auto simp:
     lower_function_declaration_def lower_method_def lower_accessor_def
      intro!: keeps_rules split: ast_splits)

lemma keeps_flow_3 [keeps_rules]:
  assumes "keeping R"
  shows
    "al_keeps (lower_while R a0 b0 c0)"
    "al_keeps (lower_for R a1 b1 c1 d1 e1)"
    "al_keeps (lower_if_stmt R a2 b2 c2 d2)"
  using assms
  by (auto simp:
     lower_while_def lower_for_def lower_if_stmt_def
      intro!: keeps_rules split: ast_splits)

lemma keeps_call_pure_4 [keeps_rules]:
  shows
    "al_keeps (resolve_member_call a0 b0 c0 d0 e0)"
  by (auto simp:
     resolve_member_call_def
      intro!: keeps_rules split: ast_splits)

lemma keeps_stmt_4 [keeps_rules]:
  assumes "keeping R"
  shows
    "al_keeps (lower_getter R a0 b0 c0)"
    "al_keeps (lower_setter R a1 b1 c1)"
    "al_keeps (lower_extension_method R a2 b2 c2)"
  using assms
  by (auto simp:
     lower_getter_def lower_setter_def lower_extension_method_def
      intro!: keeps_rules split: ast_splits)

lemma keeps_call_5 [keeps_rules]:
  assumes "keeping R"
  shows
    "al_keeps (lower_member_call_expr R a0 b0 c0 d0 e0 f0)"
  using assms
  by (auto simp:
     lower_member_call_expr_def
      intro!: keeps_rules split: ast_splits)

lemma keeps_stmt_5 [keeps_rules]:
  assumes "keeping R"
  shows
    "al_keeps (lower_class_declaration R a0)"
    "al_keeps (lower_extension_declaration R a1)"
  using assms
  by (auto simp:
     lower_class_declaration_def lower_extension_declaration_def
      intro!: keeps_rules split: ast_splits)

lemma keeps_call_6 [keeps_rules]:
  assumes "keeping R"
  shows
    "al_keeps (lower_call R a0 b0 c0 d0 e0)"
  using assms
  by (auto simp:
     lower_call_def
      intro!: keeps_rules split: ast_splits)


lemma keeps_nested_class [keeps_rules]:
  assumes "keeping R"
  shows "al_keeps (lower_nested_class R d l)"
proof -
  have put: "al_keeps (al_put (\<lambda>s. s\<lparr>al_nested_functions := al_nested_functions s @ fs\<rparr>))"
    if "list_all is_function fs" for fs
    by (rule al_keepsI) (simp add: al_put_def lowering_ok_def frame_def that, use that in force)
  show ?thesis
    unfolding lower_nested_class_def using assms
    by (intro al_keeps_bind keeps_bind_result [OF _ returns_class] keeps_put al_keeps_ret put keeps_stmt_5) simp_all
qed

lemma keeps_nested_function [keeps_rules]: "keeping R \<Longrightarrow> al_keeps (lower_nested_function R f l)"
  unfolding lower_nested_function_def Let_def by (intro keeps_rules) simp_all

lemma keeps_expression_ast [keeps_rules]: "keeping R \<Longrightarrow> al_keeps (lower_expression_ast R e)"
  by (cases e) (auto intro!: keeps_rules)

lemma keeps_statement_ast [keeps_rules]: "keeping R \<Longrightarrow> al_keeps (lower_statement_ast R st)"
  by (cases "(R, st)" rule: lower_statement_ast.cases) (auto intro!: keeps_rules)

lemma keeping_lowering_n: "keeping (lowering_n n)"
proof (induction n)
  case (Suc n)
  then show ?case using keeps_expression_ast [OF Suc] keeps_statement_ast [OF Suc]
    by (simp add: keeping_def Let_def)
qed (simp add: keeping_def keeps_no_fuel)

section \<open>Programs\<close>

lemma keeps_infer_top_level [keeps_rules]: "al_keeps (infer_top_level_initializer_type e)"
  by (induction e rule: infer_top_level_initializer_type.induct)
     (auto intro!: al_keeps_each al_keeps_bind keeps_lookup_var)

lemma keeps_instantiate_classes [keeps_rules]: "al_keeps (instantiate_classes ss is seen)"
  by (induction "is" arbitrary: seen) (auto simp: Let_def intro!: keeps_rules)

lemma keeps_instantiate_functions [keeps_rules]: "keeping R \<Longrightarrow> al_keeps (instantiate_functions R ss is seen)"
  by (induction "is" arbitrary: seen) (auto simp: Let_def intro!: keeps_rules)

lemma keeps_lower_declaration [keeps_rules]: "keeping R \<Longrightarrow> al_keeps (lower_declaration R st)"
  by (auto simp: lower_declaration_def intro!: keeps_rules split: Statement.split)

lemma keeps_discover_nested [keeps_rules]:
  assumes "keeping R"
  shows "al_keeps (discover_nested_monomorphs R st)"
proof (rule al_keepsI)
  fix s a s' assume ok: "lowering_ok s" and r: "discover_nested_monomorphs R st s = Done (a, s')"
  from r obtain b s1 where d: "lower_declaration R (declaration_of st) s = Done (b, s1)"
    and s': "s' = s1\<lparr>al_lambda_functions := take (length (al_lambda_functions s)) (al_lambda_functions s1),
      al_nested_functions := take (length (al_nested_functions s)) (al_nested_functions s1)\<rparr>"
    by (auto simp: discover_nested_monomorphs_def al_get_def al_put_def pbind_def split: outcome.splits)
  have "lowering_ok s1" "frame s s1" using al_keepsD [OF keeps_lower_declaration [OF assms] ok d] by auto
  then show "lowering_ok s' \<and> frame s s'"
    unfolding s' by (auto simp: lowering_ok_def frame_def)
qed

lemma keeps_monomorphize [keeps_rules]: "keeping R \<Longrightarrow> al_keeps (monomorphize_to_fixed_point k R cs fs ss)"
  by (induction k arbitrary: cs fs ss) (auto intro!: keeps_rules)

lemma keeps_register_variable [keeps_rules]: "al_keeps (register_variable p t e)"
  by (auto simp: register_variable_def intro!: keeps_rules split: BindingNode.split)

lemma keeps_register [keeps_rules]:
  assumes "keeping R"
  shows "al_keeps (register_statement R st)" "al_keeps (register_located R d)"
  using assms by (auto simp: register_statement_def register_located_def
      intro!: keeps_rules split: Statement.split)

lemma keeps_lower_top [keeps_rules]:
  assumes "keeping R"
  shows "al_keeps (lower_main_statement R st)" "al_keeps (lower_top_statement R st)" "al_keeps (lower_located R d)"
  using assms by (auto simp: lower_main_statement_def lower_top_statement_def lower_located_def
      intro!: keeps_rules split: Statement.split BindingNode.split)

section \<open>What is left of a program\<close>

lemma pbind_put [simp]: "pbind (al_put f) k s = k () (f s)"
  by (simp add: pbind_def al_put_def)

lemma pbind_get [simp]: "pbind (al_get f) k s = k (f s) s"
  by (simp add: pbind_def al_get_def)

lemma stacks_select:
  assumes "stacks s' = stacks s"
  shows "al_scopes s' = al_scopes s" "al_lambda_depth s' = al_lambda_depth s" "al_env_owners s' = al_env_owners s"
    "al_return_types s' = al_return_types s" "al_expected s' = al_expected s"
    "al_lambda_functions s' = al_lambda_functions s" "al_nested_functions s' = al_nested_functions s"
  using assms by (simp_all add: stacks_def)

lemma register_program_keeps:
  assumes "keeping R" "list_all is_function (al_lambda_functions s)" "list_all is_function (al_nested_functions s)"
    and r: "register_program R k ss file files s = Done (all, s')"
  shows "lowering_ok s' \<and> frame (s\<lparr>al_scopes := [(Map.empty, al_lambda_depth s)]\<rparr>) s'"
proof -
  define s1 where "s1 = (fold scan_statement ss (in_file file s))\<lparr>al_scopes := [(Map.empty, al_lambda_depth s)]\<rparr>"
  have st: "stacks (fold scan_statement ss (in_file file s)) = stacks s" by (simp add: stacks_fold)
  note st' = stacks_select [OF st]
  have ok: "lowering_ok s1" and f: "frame (s\<lparr>al_scopes := [(Map.empty, al_lambda_depth s)]\<rparr>) s1"
    using assms(2,3) st st' by (simp_all add: lowering_ok_def frame_def s1_def stacks_def)
  let ?m = "(pbind (al_each (register_statement R) ss) (\<lambda>_.
    pbind (monomorphize_to_fixed_point k R {} {} (zip ss (statement_files ss files file))) (\<lambda>all.
    pbind (al_each (register_located R) all) (\<lambda>_.
    ret all))))"
  from r have m: "?m s1 = Done (all, s')"
    using st' by (simp add: register_program_def al_enter_scope_def s1_def)
  have "al_keeps ?m" using assms(1) by (intro keeps_rules)
  from al_keepsD [OF this ok m] have "lowering_ok s' \<and> frame s1 s'" .
  then show ?thesis using f frame_trans by blast
qed

lemma returns_top:
  "al_returns (lower_top_statement R st) (\<lambda>r. list_all is_function (fst r))"
proof -
  have main: "al_returns (lower_main_statement R st) (\<lambda>r. list_all is_function (fst r))" for st
    unfolding lower_main_statement_def pmap_def by (intro al_returns_bind returns_ret) simp
  have decl: "al_returns (lower_declaration R d) (\<lambda>r. list_all is_function (fst r))" for d
    by (auto simp: lower_declaration_def pmap_def
        intro!: returns_ret returns_class al_returns_bind [where m = "al_get _"] returns_bind_result [OF returns_functions(1)]
        split: Statement.split)
  have ext: "al_returns (pmap (\<lambda>hs. (hs, [])) (lower_extension_declaration R d)) (\<lambda>r. list_all is_function (fst r))" for d
    by (auto simp: pmap_def lower_extension_declaration_def split: ExtensionDeclaration.split
        intro!: returns_bind_result [OF returns_each [OF returns_functions(6)]] returns_ret)
  show ?thesis
    by (auto simp: lower_top_statement_def intro!: main decl ext returns_ret al_returns_bind split: Statement.split)
qed

end
