(* ===== verification/AstLowerMono.thy ===== *)
theory AstLowerMono
  imports AstLowerScopes
begin

text \<open>
  The fuel of the lowering does not matter: every operation is monotone in the two recursive
  functions, so a result that is reached with some fuel is the result with any more fuel.
\<close>

definition lle :: "lowerers \<Rightarrow> lowerers \<Rightarrow> bool" where
  "lle R R' \<longleftrightarrow> (\<forall>e. lw_expression R e \<le> lw_expression R' e) \<and> (\<forall>st. lw_statement R st \<le> lw_statement R' st)"

lemma lle_select [mono_rules]:
  "lle R R' \<Longrightarrow> lw_expression R e \<le> lw_expression R' e" "lle R R' \<Longrightarrow> lw_statement R st \<le> lw_statement R' st"
  by (simp_all add: lle_def)

lemma lle_refl: "lle R R"
  by (simp add: lle_def)

lemma lle_trans: "lle R1 R2 \<Longrightarrow> lle R2 R3 \<Longrightarrow> lle R1 R3"
  unfolding lle_def by (meson order_trans)

section \<open>Sequencing and brackets\<close>

lemma same_mono [mono_rules]: "(p :: 'a ast_lower) \<le> p"
  by simp

lemma al_each_mono [mono_rules]: "(\<And>x. f x \<le> g x) \<Longrightarrow> al_each f xs \<le> al_each g xs"
  by (induction xs) (auto intro!: mono_rules)

lemma al_option_mono [mono_rules]: "(\<And>x. f x \<le> g x) \<Longrightarrow> al_option f x \<le> al_option g x"
  unfolding al_option_def by (intro mono_rules)

lemma list_mono [mono_rules]:
  "(p :: ('a, 's) program) \<le> p' \<Longrightarrow> (\<And>a as. f a as \<le> f' a as) \<Longrightarrow>
     (case x of [] \<Rightarrow> p | a # as \<Rightarrow> f a as) \<le> (case x of [] \<Rightarrow> p' | a # as \<Rightarrow> f' a as)"
  by (cases x) auto

lemma sum_mono [mono_rules]:
  "(\<And>a. f a \<le> (f' a :: ('a, 's) program)) \<Longrightarrow> (\<And>b. g b \<le> g' b) \<Longrightarrow>
     (case x of Inl a \<Rightarrow> f a | Inr b \<Rightarrow> g b) \<le> (case x of Inl a \<Rightarrow> f' a | Inr b \<Rightarrow> g' b)"
  by (cases x) auto

lemma let_mono [mono_rules]: "(\<And>a. f a \<le> (f' a :: ('a, 's) program)) \<Longrightarrow> (let a = x in f a) \<le> (let a = x in f' a)"
  by simp

lemma brackets_mono [mono_rules]:
  assumes "m \<le> m'"
  shows "with_expected t m \<le> with_expected t m'" "in_scope m \<le> in_scope m'" "in_lambda_scope m \<le> in_lambda_scope m'"
    "with_return_type u m \<le> with_return_type u m'" "with_env_owner n m \<le> with_env_owner n m'"
  using assms
  by (auto simp: with_expected_def in_scope_def in_lambda_scope_def with_return_type_def with_env_owner_def
      intro!: mono_rules)

section \<open>Expressions, statements and declarations\<close>

lemma mono_array_chunks [mono_rules]: "lle R R' \<Longrightarrow> array_chunks R f es xs \<le> array_chunks R' f es xs"
proof (induction R f es xs rule: array_chunks.induct)
qed (auto intro!: mono_rules)

lemma mono_lower_body [mono_rules]:
  "lle R R' \<Longrightarrow> (\<And>h. k h \<le> k' h) \<Longrightarrow> lower_body R n ps t st l k \<le> lower_body R' n ps t st l k'"
  unfolding lower_body_def by (intro mono_rules)

lemma mono_some_statement [mono_rules]: "m \<le> m' \<Longrightarrow> some_statement m \<le> some_statement m'"
  unfolding some_statement_def by (rule pmap_mono)

lemma mono_expr_1 [mono_rules]:
  assumes "lle R R'"
  shows
    "lower_object_literal R a0 b0 c0 \<le> lower_object_literal R' a0 b0 c0"
    "lower_optional_index R a1 b1 c1 \<le> lower_optional_index R' a1 b1 c1"
    "lower_index R a2 b2 c2 \<le> lower_index R' a2 b2 c2"
    "lower_coalescing R a3 b3 c3 \<le> lower_coalescing R' a3 b3 c3"
    "lower_setter_call R a4 b4 c4 \<le> lower_setter_call R' a4 b4 c4"
    "lower_unary_expr R a5 b5 c5 d5 \<le> lower_unary_expr R' a5 b5 c5 d5"
  using assms
  by (auto simp:
     lower_object_literal_def lower_optional_index_def lower_index_def lower_coalescing_def
     lower_setter_call_def lower_unary_expr_def
      intro!: mono_rules split: ast_splits)

lemma mono_call_1 [mono_rules]:
  assumes "lle R R'"
  shows
    "default_argument R a0 b0 c0 \<le> default_argument R' a0 b0 c0"
    "call_arguments R a1 b1 \<le> call_arguments R' a1 b1"
    "lower_new_expr R a2 b2 c2 \<le> lower_new_expr R' a2 b2 c2"
  using assms
  by (auto simp:
     default_argument_def call_arguments_def lower_new_expr_def
      intro!: mono_rules split: ast_splits)

lemma mono_stmt_1 [mono_rules]:
  assumes "lle R R'"
  shows
    "param_type_or_default R a0 b0 \<le> param_type_or_default R' a0 b0"
    "field_assignment R a1 b1 c1 d1 \<le> field_assignment R' a1 b1 c1 d1"
    "static_assignment R a2 b2 c2 \<le> static_assignment R' a2 b2 c2"
  using assms
  by (auto simp:
     param_type_or_default_def field_assignment_def static_assignment_def
      intro!: mono_rules split: ast_splits)

lemma mono_flow_1 [mono_rules]:
  assumes "lle R R'"
  shows
    "lower_statements R a0 \<le> lower_statements R' a0"
    "lower_nested_function R a1 b1 \<le> lower_nested_function R' a1 b1"
    "lower_as_block R a2 \<le> lower_as_block R' a2"
    "lower_for_of R a3 b3 c3 d3 \<le> lower_for_of R' a3 b3 c3 d3"
    "lower_return R a4 b4 \<le> lower_return R' a4 b4"
    "lower_catch R a5 b5 c5 \<le> lower_catch R' a5 b5 c5"
  using assms
  by (auto simp:
     lower_statements_def lower_nested_function_def lower_as_block_def lower_for_of_def
     lower_return_def lower_catch_def
      intro!: mono_rules split: ast_splits)

lemma mono_expr_2 [mono_rules]:
  assumes "lle R R'"
  shows
    "lower_array_literal R a0 b0 c0 \<le> lower_array_literal R' a0 b0 c0"
    "lower_right_operand R a1 b1 c1 \<le> lower_right_operand R' a1 b1 c1"
    "assignment_expected R a2 b2 \<le> assignment_expected R' a2 b2"
  using assms
  by (auto simp:
     lower_array_literal_def lower_right_operand_def assignment_expected_def
      intro!: mono_rules split: ast_splits)

lemma mono_call_2 [mono_rules]:
  assumes "lle R R'"
  shows
    "complete_arguments R a0 b0 \<le> complete_arguments R' a0 b0"
  using assms
  by (auto simp:
     complete_arguments_def
      intro!: mono_rules split: ast_splits)

lemma mono_stmt_2 [mono_rules]:
  assumes "lle R R'"
  shows
    "register_function R a0 \<le> register_function R' a0"
    "initialize_fields R a1 b1 \<le> initialize_fields R' a1 b1"
  using assms
  by (auto simp:
     register_function_def initialize_fields_def
      intro!: mono_rules split: ast_splits)

lemma mono_flow_2 [mono_rules]:
  assumes "lle R R'"
  shows
    "lower_block R a0 b0 \<le> lower_block R' a0 b0"
    "lower_var_declaration R a1 b1 c1 d1 e1 \<le> lower_var_declaration R' a1 b1 c1 d1 e1"
    "lower_loop_body R a2 b2 \<le> lower_loop_body R' a2 b2"
    "lower_for_init R a3 \<le> lower_for_init R' a3"
    "lower_branch R a4 b4 c4 \<le> lower_branch R' a4 b4 c4"
    "lower_switch_case R a5 b5 \<le> lower_switch_case R' a5 b5"
    "lower_try_stmt R a6 b6 c6 d6 e6 \<le> lower_try_stmt R' a6 b6 c6 d6 e6"
  using assms
  by (auto simp:
     lower_block_def lower_var_declaration_def lower_loop_body_def lower_for_init_def
     lower_branch_def lower_switch_case_def lower_try_stmt_def
      intro!: mono_rules split: ast_splits)

lemma mono_expr_3 [mono_rules]:
  assumes "lle R R'"
  shows
    "lower_binary_expr R a0 b0 c0 d0 \<le> lower_binary_expr R' a0 b0 c0 d0"
    "lower_assignment_expr R a1 b1 c1 d1 \<le> lower_assignment_expr R' a1 b1 c1 d1"
  using assms
  by (auto simp:
     lower_binary_expr_def lower_assignment_expr_def
      intro!: mono_rules split: ast_splits)

lemma mono_function_call [mono_rules]: "lle R R' \<Longrightarrow> lower_function_call R n es ts l c \<le> lower_function_call R' n es ts l c"
  unfolding lower_function_call_def by (intro mono_rules)

lemma mono_lambda [mono_rules]: "lle R R' \<Longrightarrow> lower_lambda R ps st l c \<le> lower_lambda R' ps st l c"
  unfolding lower_lambda_def by (intro mono_rules)

lemma mono_stmt_3 [mono_rules]:
  assumes "lle R R'"
  shows
    "lower_function_declaration R a0 \<le> lower_function_declaration R' a0"
    "lower_method R a1 b1 c1 \<le> lower_method R' a1 b1 c1"
    "lower_accessor R a2 b2 c2 d2 e2 \<le> lower_accessor R' a2 b2 c2 d2 e2"
  using assms
  by (auto simp:
     lower_function_declaration_def lower_method_def lower_accessor_def
      intro!: mono_rules split: ast_splits)

lemma mono_flow_3 [mono_rules]:
  assumes "lle R R'"
  shows
    "lower_while R a0 b0 c0 \<le> lower_while R' a0 b0 c0"
    "lower_for R a1 b1 c1 d1 e1 \<le> lower_for R' a1 b1 c1 d1 e1"
    "lower_if_stmt R a2 b2 c2 d2 \<le> lower_if_stmt R' a2 b2 c2 d2"
  using assms
  by (auto simp:
     lower_while_def lower_for_def lower_if_stmt_def
      intro!: mono_rules split: ast_splits)

lemma mono_stmt_4 [mono_rules]:
  assumes "lle R R'"
  shows
    "lower_getter R a0 b0 c0 \<le> lower_getter R' a0 b0 c0"
    "lower_setter R a1 b1 c1 \<le> lower_setter R' a1 b1 c1"
    "lower_extension_method R a2 b2 c2 \<le> lower_extension_method R' a2 b2 c2"
  using assms
  by (auto simp:
     lower_getter_def lower_setter_def lower_extension_method_def
      intro!: mono_rules split: ast_splits)

lemma mono_call_5 [mono_rules]:
  assumes "lle R R'"
  shows
    "lower_member_call_expr R a0 b0 c0 d0 e0 f0 \<le> lower_member_call_expr R' a0 b0 c0 d0 e0 f0"
  using assms
  by (auto simp:
     lower_member_call_expr_def
      intro!: mono_rules split: ast_splits)

lemma mono_stmt_5 [mono_rules]:
  assumes "lle R R'"
  shows
    "lower_class_declaration R a0 \<le> lower_class_declaration R' a0"
    "lower_extension_declaration R a1 \<le> lower_extension_declaration R' a1"
  using assms
  by (auto simp:
     lower_class_declaration_def lower_extension_declaration_def
      intro!: mono_rules split: ast_splits)

lemma mono_call_6 [mono_rules]:
  assumes "lle R R'"
  shows
    "lower_call R a0 b0 c0 d0 e0 \<le> lower_call R' a0 b0 c0 d0 e0"
  using assms
  by (auto simp:
     lower_call_def
      intro!: mono_rules split: ast_splits)

lemma mono_flow_6 [mono_rules]:
  assumes "lle R R'"
  shows
    "lower_nested_class R a0 b0 \<le> lower_nested_class R' a0 b0"
  using assms
  by (auto simp:
     lower_nested_class_def
      intro!: mono_rules split: ast_splits)


lemma mono_expression_ast [mono_rules]: "lle R R' \<Longrightarrow> lower_expression_ast R e \<le> lower_expression_ast R' e"
  by (cases e) (auto intro!: mono_rules)

lemma mono_statement_ast [mono_rules]: "lle R R' \<Longrightarrow> lower_statement_ast R st \<le> lower_statement_ast R' st"
  by (cases "(R, st)" rule: lower_statement_ast.cases) (auto intro!: mono_rules)

section \<open>More fuel\<close>

lemma lowering_n_sel:
  "lw_expression (lowering_n (Suc n)) = lower_expression_ast (lowering_n n)"
  "lw_statement (lowering_n (Suc n)) = lower_statement_ast (lowering_n n)"
  by (simp_all add: Let_def)

lemma lowering_n_step: "lle (lowering_n n) (lowering_n (Suc n))"
proof (induction n)
  case 0
  show ?case by (simp add: lle_def le_fun_def)
next
  case (Suc n)
  show ?case unfolding lle_def lowering_n_sel
    using mono_expression_ast [OF Suc] mono_statement_ast [OF Suc] by blast
qed

lemma lowering_n_le: "n \<le> m \<Longrightarrow> lle (lowering_n n) (lowering_n m)"
  by (induction m rule: dec_induct) (auto simp del: lowering_n.simps intro: lle_refl lle_trans lowering_n_step)

section \<open>Programs\<close>

lemma mono_instantiate_functions [mono_rules]:
  "lle R R' \<Longrightarrow> instantiate_functions R ss is seen \<le> instantiate_functions R' ss is seen"
  by (induction "is" arbitrary: seen) (auto simp: Let_def intro!: mono_rules)

lemma mono_program_parts [mono_rules]:
  assumes "lle R R'"
  shows "lower_declaration R st \<le> lower_declaration R' st" "lower_main_statement R st \<le> lower_main_statement R' st"
    "register_statement R st \<le> register_statement R' st" "register_located R d \<le> register_located R' d"
  using assms by (auto simp: lower_declaration_def lower_main_statement_def register_statement_def register_located_def
      intro!: mono_rules split: Statement.split)

lemma mono_discover_nested [mono_rules]:
  "lle R R' \<Longrightarrow> discover_nested_monomorphs R st \<le> discover_nested_monomorphs R' st"
  unfolding discover_nested_monomorphs_def by (intro mono_rules)

lemma mono_monomorphize [mono_rules]:
  "lle R R' \<Longrightarrow> k \<le> k' \<Longrightarrow> monomorphize_to_fixed_point k R cs fs ss \<le> monomorphize_to_fixed_point k' R' cs fs ss"
proof (induction k arbitrary: k' cs fs ss)
  case (Suc k)
  then obtain j where "k' = Suc j" "k \<le> j" by (cases k') auto
  with Suc show ?case by (auto intro!: mono_rules)
qed (simp add: le_fun_def)

lemma mono_lower_top [mono_rules]:
  assumes "lle R R'"
  shows "lower_top_statement R st \<le> lower_top_statement R' st"
  using assms by (auto simp: lower_top_statement_def intro!: mono_rules split: Statement.split)

lemma mono_lower_program:
  assumes "lle R R'" "k \<le> k'"
  shows "lower_program R k p file files \<le> lower_program R' k' p file files"
  using assms by (cases p) (auto simp: lower_program_def register_program_def lower_located_def Let_def intro!: mono_rules)

end
