(* ===== verification/AstLowerFacts.thy ===== *)
theory AstLowerFacts
  imports AstLowerBalance AstLowerMono
begin

text \<open>
  What the lowering to the high-level representation guarantees: balanced stacks, new variables for
  new declarations, a result made of functions that ends in the main function, and no dependence on
  the fuel; and where it goes wrong.
\<close>

section \<open>Balance\<close>

lemma lowering_ok_new: "lowering_ok ast_lowering_new"
  by (simp add: lowering_ok_def ast_lowering_new_def)

lemma resolve_bool: "resolve_alias_type s TyBool = TyBool"
proof -
  have "resolve_inner k a TyBool = TyBool" for k a by (cases k) simp_all
  then show ?thesis by (simp add: resolve_alias_type_def)
qed

lemma first_number: "nat_to_string (Suc 0) = ''1''"
proof -
  have "char_of (49 :: nat) = CHR ''1''" by code_simp
  then show ?thesis by (subst nat_to_string.simps) (simp add: digit_char_def)
qed

text \<open>
  Property C32: whatever statement is lowered, the scopes below the innermost one, the lambda depth
  and the stacks of captured-variable owners, return types and expected types are left as they were,
  in the innermost scope every name keeps its variable, and the state stays well formed: the depths
  of the scopes descend, variables are globals or carry a number that was given out, and only
  functions are put aside for the end.
\<close>
theorem lowering_restores_stacks:
  assumes "lowering_ok s" "lw_statement (lowering_n n) st s = Done (h, s')"
  shows "lowering_ok s' \<and> frame s s'"
  by (rule al_keepsD [OF keeps_statement [OF keeping_lowering_n] assms])

definition scoped_declaration :: Statement where
  "scoped_declaration =
     BlockStmt [VarDeclaration (BIdentifier ''x'') (TNNamed []) (Some (BooleanLiteral True 1 1)) False 1 1] 1 1"

lemma scoped_declaration_lowered:
  "lw_statement (lowering_n 3) scoped_declaration ast_lowering_new =
     Done (Some (HBlock [HSequenceStmt [HVarDecl ''x$1'' (Some (HLiteral ''true'' TyBool 1)) TyBool False 0] 1] 1),
       ast_lowering_new\<lparr>al_next_scope_id := 2\<rparr>)"
  by (simp add: numeral_3_eq_3 numeral_2_eq_2 Let_def scoped_declaration_def some_statement_def lower_block_def in_scope_def
      al_enter_scope_def al_exit_scope_def hoist_function_def lower_statements_def lower_var_declaration_def
      annotated_type_def size_expression_def with_expected_def al_option_def with_sized_allocation_def
      define_name_def ast_lowering_new_def al_skip_def pmap_def pbind_def ret_def al_get_def al_put_def
      resolve_bool first_number)

theorem lowering_restores_stacks_witness:
  "lowering_ok (ast_lowering_new\<lparr>al_next_scope_id := 2\<rparr>) \<and> frame ast_lowering_new (ast_lowering_new\<lparr>al_next_scope_id := 2\<rparr>)"
  by (rule lowering_restores_stacks [OF lowering_ok_new scoped_declaration_lowered])

section \<open>Declarations make new variables\<close>

lemma split_at_last:
  assumes "a @ x # b = c @ x # d" "x \<notin> set b" "x \<notin> set d"
  shows "a = c \<and> b = d"
proof -
  have "takeWhile (\<lambda>y. y \<noteq> x) (rev (e @ x # f)) = rev f" if "x \<notin> set f" for e f
    using that by (auto simp: takeWhile_append)
  then have "rev b = rev d" using assms by metis
  then show ?thesis using assms(1) by simp
qed

lemma dollar_not_digit: "CHR ''$'' \<notin> set (nat_to_string k)"
  using nat_to_string_digits [of k] by (auto simp: list_all_iff is_ascii_digit_def)

lemma numbered_variable_inj: "n @ ''$'' @ nat_to_string i = m @ ''$'' @ nat_to_string k \<Longrightarrow> n = m \<and> i = k"
proof -
  assume "n @ ''$'' @ nat_to_string i = m @ ''$'' @ nat_to_string k"
  then have "n = m \<and> nat_to_string i = nat_to_string k"
    by (intro split_at_last [OF _ dollar_not_digit dollar_not_digit]) simp
  then show ?thesis using digits_value_nat_to_string by metis
qed

lemma variable_not_new:
  assumes "variable_of k n m" "CHR ''$'' \<notin> set n"
  shows "m \<noteq> n' @ ''$'' @ nat_to_string k"
proof
  assume m: "m = n' @ ''$'' @ nat_to_string k"
  from assms(1) consider "m = ''g_'' @ n" | i where "i < k" "m = n @ ''$'' @ nat_to_string i"
    by (auto simp: variable_of_def)
  then show False
  proof cases
    case 1
    have "CHR ''$'' \<in> set m" by (simp add: m)
    then show False using 1 assms(2) by simp
  qed (use numbered_variable_inj m in blast)
qed

text \<open>
  Property C34: in a well-formed state, declaring a name in an inner scope that does not have it gives
  a variable that no name of any scope stands for.
\<close>
theorem declared_variable_is_new:
  assumes "lowering_ok s" "tl (al_scopes s) \<noteq> []" "fst (hd (al_scopes s)) n = None"
    and "define_name n t s = Done (m, s')"
    and "sc \<in> set (al_scopes s)" "fst sc n' = Some (m', u)" "CHR ''$'' \<notin> set n'"
  shows "m' \<noteq> m"
proof -
  obtain d scs c where "al_scopes s = (c, d) # scs" "scs \<noteq> []" "c n = None"
    using assms(2,3) by (cases "al_scopes s") auto
  then have m: "m = n @ ''$'' @ nat_to_string (al_next_scope_id s)"
    using assms(4) by (auto simp: define_name_def Let_def)
  have "variable_of (al_next_scope_id s) n' m'"
    using assms(1,5,6) by (auto simp: lowering_ok_def scope_ok_def)
  from variable_not_new [OF this assms(7)] show ?thesis by (simp add: m)
qed

definition two_scopes :: ast_lowering where
  "two_scopes = ast_lowering_new\<lparr>al_scopes := [(Map.empty, 0), (Map.empty(''x'' \<mapsto> (''g_x'', TyOptional TyBool)), 0)]\<rparr>"

lemma lowering_ok_two_scopes: "lowering_ok two_scopes"
  by (simp add: lowering_ok_def two_scopes_def ast_lowering_new_def scope_ok_def variable_of_def)

lemma define_in_two_scopes:
  "define_name ''x'' TyBool two_scopes =
     Done (''x$1'', two_scopes\<lparr>al_next_scope_id := 2,
       al_scopes := [(Map.empty(''x'' \<mapsto> (''x$1'', TyBool)), 0), (Map.empty(''x'' \<mapsto> (''g_x'', TyOptional TyBool)), 0)]\<rparr>)"
  by (simp add: define_name_def two_scopes_def ast_lowering_new_def numeral_2_eq_2 resolve_bool first_number Let_def)

theorem declared_variable_is_new_witness: "''g_x'' \<noteq> ''x$1''"
  by (rule declared_variable_is_new [OF lowering_ok_two_scopes _ _ define_in_two_scopes,
        of "(Map.empty(''x'' \<mapsto> (''g_x'', TyOptional TyBool)), 0)" "''x''" _ "TyOptional TyBool"])
     (simp_all add: two_scopes_def)

text \<open>
  Property C38: once a condition has narrowed an outer variable in a scope, a declaration of the same
  name in that scope gives no new variable but the outer one, so the program overwrites it.
\<close>
theorem narrowing_captures_declaration:
  assumes "al_scopes s \<noteq> []" "find_scope n (al_scopes s) = Some ((m, v), d, inner)"
  shows "\<exists>s'. ((pbind (narrow_type n t) (\<lambda>_.
    define_name n u))) s = Done (m, s')"
proof -
  obtain sc d' scs where s: "al_scopes s = (sc, d') # scs" using assms(1) by (cases "al_scopes s") auto
  have c: "al_scopes (capture m s) = al_scopes s" by (simp add: capture_def split: list.split)
  show ?thesis using assms(2) s c
    by (auto simp: narrow_type_def lookup_var_def pbind_def al_put_def define_name_def)
qed

theorem narrowing_captures_declaration_witness:
  "\<exists>s'. ((pbind (narrow_type ''x'' TyBool) (\<lambda>_.
    define_name ''x'' TyInt32))) two_scopes = Done (''g_x'', s')"
  by (rule narrowing_captures_declaration [where v = "TyOptional TyBool" and d = 0 and inner = False])
     (simp_all add: two_scopes_def)

section \<open>Programs\<close>

lemma returns_with_env_owner: "al_returns m P \<Longrightarrow> al_returns (with_env_owner n m) P"
  unfolding with_env_owner_def by (rule al_returns_bind, rule returns_bind_result, assumption, intro al_returns_bind returns_ret)

lemma returns_located: "al_returns (lower_located R d) (\<lambda>r. list_all is_function (fst r))"
  by (auto simp: lower_located_def intro!: al_returns_bind returns_top split: prod.split)

lemma functions_of_parts: "list_all (\<lambda>r. list_all is_function (fst r)) parts \<Longrightarrow> list_all is_function (concat (map fst parts))"
  by (induction parts) auto

text \<open>
  Property C33: lowering a program gives a list of functions whose last one is the main function,
  and leaves one scope, nothing put aside, and the stacks as they were.
\<close>
theorem lower_program_functions:
  assumes "list_all is_function (al_lambda_functions s)" "list_all is_function (al_nested_functions s)"
    and "lower_program (lowering_n n) k p file files s = Done (r, s')"
  shows "\<exists>fs body. lr_functions r = fs @ [HFunction ''tejx_main'' [] TyVoid body False 0] \<and> list_all is_function fs \<and>
    al_lambda_functions s' = [] \<and> al_nested_functions s' = [] \<and> length (al_scopes s') = 1 \<and>
    al_env_owners s' = al_env_owners s \<and> al_return_types s' = al_return_types s \<and> al_expected s' = al_expected s"
proof (cases p)
  case (Program ss)
  from assms(3) obtain all s1 parts s2
    where 1: "register_program (lowering_n n) k ss file files s = Done (all, s1)"
      and 2: "with_env_owner ''tejx_main'' (al_each (lower_located (lowering_n n)) all) s1 = Done (parts, s2)"
      and r: "\<exists>body. lr_functions r = concat (map fst parts) @ al_lambda_functions s2 @ al_nested_functions s2
          @ [HFunction ''tejx_main'' [] TyVoid body False 0]"
      and s': "s' = s2\<lparr>al_lambda_functions := [], al_nested_functions := [],
          al_source_files := (al_source_files s2)(''tejx_main'' \<mapsto> file)\<rparr>"
    unfolding Program lower_program_def Program.case
    by (elim bind_done) (auto simp: Let_def al_get_def al_put_def pbind_def ret_def lowering_result_of_def)
  note ok1 = register_program_keeps [OF keeping_lowering_n assms(1,2) 1]
  have "al_keeps (with_env_owner ''tejx_main'' (al_each (lower_located (lowering_n n)) all))"
    using keeping_lowering_n by (intro keeps_rules)
  from al_keepsD [OF this conjunct1 [OF ok1] 2] have ok2: "lowering_ok s2" and f2: "frame s1 s2" by auto
  have "al_returns (with_env_owner ''tejx_main'' (al_each (lower_located (lowering_n n)) all))
      (list_all (\<lambda>r. list_all is_function (fst r)))"
    by (intro returns_with_env_owner returns_each returns_located)
  then have "list_all (\<lambda>r. list_all is_function (fst r)) parts"
    using 2 unfolding al_returns_def by blast
  then have "list_all is_function (concat (map fst parts))" by (rule functions_of_parts)
  moreover have "length (al_scopes s2) = 1"
    using ok1 ok2 f2 by (cases "al_scopes s2") (auto simp: frame_def lowering_ok_def)
  ultimately show ?thesis
    using r ok1 ok2 f2 unfolding s' by (auto simp: frame_def lowering_ok_def)
qed

text \<open>
  Note: the fuel of the lowering is only a bound: whatever it gives with some depth of the
  recursion and some rounds of instantiation, it gives with more.
\<close>
theorem lowering_fuel_irrelevant:
  assumes "lower_program (lowering_n n) k p file files s \<noteq> NoFuel" "n \<le> n'" "k \<le> k'"
  shows "lower_program (lowering_n n') k' p file files s = lower_program (lowering_n n) k p file files s"
  using le_funD [OF mono_lower_program [OF lowering_n_le [OF assms(2)] assms(3)]] assms(1)
  by (metis less_eq_outcome_def)

definition one_statement :: Program where
  "one_statement = Program [ExpressionStmt (BooleanLiteral True 1 1) 1 1]"

lemma one_statement_lowered:
  "\<exists>r s'. lower_program (lowering_n 2) 1 one_statement ''m'' None ast_lowering_new = Done (r, s')"
  by (simp add: numeral_2_eq_2 Let_def one_statement_def lower_program_def register_program_def ast_lowering_new_def
      al_enter_scope_def scan_statement_def register_statement_def register_located_def declaration_of_def
      statement_files_def instances_def with_env_owner_def push_env_owner_def pop_env_owner_def
      lower_located_def lower_top_statement_def lower_main_statement_def some_statement_def al_skip_def
      in_file_def pmap_def pbind_def ret_def al_get_def al_put_def)

theorem lower_program_functions_witness:
  "\<exists>r s' fs body. lower_program (lowering_n 2) 1 one_statement ''m'' None ast_lowering_new = Done (r, s') \<and>
     lr_functions r = fs @ [HFunction ''tejx_main'' [] TyVoid body False 0] \<and> length (al_scopes s') = 1"
proof -
  obtain r s' where r: "lower_program (lowering_n 2) 1 one_statement ''m'' None ast_lowering_new = Done (r, s')"
    using one_statement_lowered by blast
  then show ?thesis
    using lower_program_functions [OF _ _ r] by (auto simp: ast_lowering_new_def)
qed

theorem lowering_fuel_irrelevant_witness:
  "lower_program (lowering_n 9) 4 one_statement ''m'' None ast_lowering_new =
   lower_program (lowering_n 2) 1 one_statement ''m'' None ast_lowering_new"
  by (rule lowering_fuel_irrelevant) (use one_statement_lowered in auto)

section \<open>Defaults and instances\<close>

definition self_call :: "nat \<Rightarrow> nat \<Rightarrow> Expr" where
  "self_call l c = CallExpr (Identifier ''f'' l c) None [] l c"

text \<open>The tables of a program with \<open>function f(x = f())\<close>.\<close>

definition calls_itself_by_default :: "ast_lowering \<Rightarrow> nat \<Rightarrow> nat \<Rightarrow> bool" where
  "calls_itself_by_default s l c \<longleftrightarrow>
     find_scope ''f'' (al_scopes s) = None \<and>
     al_user_functions s ''f'' = None \<and> al_user_functions s ''f_f'' \<noteq> None \<and> ''f'' \<notin> al_externs s \<and>
     al_function_generics s ''f_f'' = None \<and> al_variadics s ''f'' = None \<and>
     al_user_function_args s ''f_f'' = Some 1 \<and> al_param_defaults s ''f_f'' = Some [Some (self_call l c)]"

lemma starts_with_simps [simp]: "starts_with s [] = True" "starts_with [] (c # p) = False"
  "starts_with (d # s) (c # p) = (d = c \<and> starts_with s p)"
  by (auto simp: starts_with_def)

lemma self_call_parts:
  assumes "calls_itself_by_default s l c"
  shows "variable_callee ''f'' [] l ''f'' s = Done (Inr ''f'', s)"
    and "\<exists>t. resolve_function_call ''f'' ''f'' ''f'' [] TyInt64 l s = Done ((''f_f'', [], t), s)"
    and "find_instance ''f_f'' [] None ''f'' l c s = Done (None, s)"
    and "lw_expression R (self_call l c) s = NoFuel \<Longrightarrow> complete_arguments R l (''f_f'', [], t) s = NoFuel"
proof -
  note a = assms [unfolded calls_itself_by_default_def]
  show "variable_callee ''f'' [] l ''f'' s = Done (Inr ''f'', s)"
    using a by (simp add: variable_callee_def lookup_var_def pbind_def ret_def al_get_def)
  show "\<exists>t. resolve_function_call ''f'' ''f'' ''f'' [] TyInt64 l s = Done ((''f_f'', [], t), s)"
    using a by (auto simp: resolve_function_call_def function_callee_def Let_def pbind_def ret_def al_get_def)
  show "find_instance ''f_f'' [] None ''f'' l c s = Done (None, s)"
    using a by (simp add: find_instance_def resolve_function_monomorph_def resolve_recorded_function_monomorph_def
        generics_of_callee_def pbind_def ret_def)
  show "complete_arguments R l (''f_f'', [], t) s = NoFuel" if "lw_expression R (self_call l c) s = NoFuel"
    using a that by (simp add: complete_arguments_def function_template_name_def default_argument_def
        pbind_def ret_def al_get_def)
qed

text \<open>
  Property C39: the lowering of a call that leaves out an argument whose default value is such a call
  again never ends, with no fuel whatsoever.
\<close>
theorem default_argument_never_ends:
  assumes "calls_itself_by_default s l c"
  shows "lw_expression (lowering_n n) (self_call l c) s = NoFuel"
proof (induction n)
  case (Suc n)
  obtain t where t: "resolve_function_call ''f'' ''f'' ''f'' [] TyInt64 l s = Done ((''f_f'', [], t), s)"
    using self_call_parts(2) [OF assms] by blast
  have "lower_function_call (lowering_n n) ''f'' [] None l c s = NoFuel"
    using self_call_parts(1,3) [OF assms] self_call_parts(4) [OF assms Suc] t
    by (simp add: lower_function_call_def Let_def pbind_def al_get_def use_instance_def del: lowering_n.simps)
  then show ?case
    by (simp add: lowering_n_sel self_call_def lower_call_def call_arguments_def literal_call_def Let_def
      pbind_def ret_def al_get_def del: lowering_n.simps)
qed simp

definition defaulting_function :: "(Expr, Statement) FunctionDeclaration" where
  "defaulting_function =
     FunctionDeclaration ''f'' [Parameter ''x'' TNAny (Some (self_call 1 1)) False] TNAny (BlockStmt [] 1 1) False [] 1 1"

lemma register_defaulting:
  "\<exists>s. register_function R defaulting_function ast_lowering_new = Done ((), s) \<and> calls_itself_by_default s 1 1"
  by (simp add: register_function_def defaulting_function_def param_type_or_default_def mangled_function_def
      set_generics_def set_function_def set_defaults_def calls_itself_by_default_def ast_lowering_new_def Let_def
      pbind_def ret_def al_put_def)

theorem default_argument_never_ends_witness:
  "\<exists>s. register_function (lowering_n 9) defaulting_function ast_lowering_new = Done ((), s) \<and>
     lw_expression (lowering_n 9) (self_call 1 1) s = NoFuel"
  using register_defaulting [of "lowering_n 9"] default_argument_never_ends by blast








end
