(* ===== verification/MiddleEnd.thy ===== *)
theory MiddleEnd
  imports AstLowerFacts MirLowerTotal MirOptimize
begin

text \<open>
  From a checked program to optimized functions: the part of \<open>src/compiler/main.rs\<close> that hands the
  tables of the type checker to the lowering, lowers the program, and lowers and optimizes each of
  its functions.
\<close>

definition take_checker_tables :: "checker \<Rightarrow> ast_lowering \<Rightarrow> ast_lowering" where
  "take_checker_tables tc s =
     s\<lparr>al_lambda_types := map_of (tc_lambda_inferred_types tc),
       al_lambda_returns := map_of (tc_lambda_inferred_returns tc),
       al_call_instantiations := map_of (tc_call_instantiations tc),
       al_class_instantiations := tc_generic_instantiations tc,
       al_function_instantiations := tc_function_instantiations tc\<rparr>"

definition mir_function :: "lowering_result \<Rightarrow> HIRStatement \<Rightarrow> MIRFunction outcome" where
  "mir_function r h =
     (case lower_hir h (lowering_new (lr_signatures r) (lr_class_fields r)) of
        Done (f, _) \<Rightarrow> optimize f
      | Panic \<Rightarrow> Panic
      | NoFuel \<Rightarrow> NoFuel)"

fun mir_functions :: "lowering_result \<Rightarrow> HIRStatement list \<Rightarrow> MIRFunction list outcome" where
  "mir_functions r [] = Done []"
| "mir_functions r (h # hs) =
     (case mir_function r h of
        Done f \<Rightarrow> (case mir_functions r hs of Done fs \<Rightarrow> Done (f # fs) | Panic \<Rightarrow> Panic | NoFuel \<Rightarrow> NoFuel)
      | Panic \<Rightarrow> Panic
      | NoFuel \<Rightarrow> NoFuel)"

definition middle_end ::
  "nat \<Rightarrow> nat \<Rightarrow> checker \<Rightarrow> Program \<Rightarrow> string \<Rightarrow> string list option \<Rightarrow> ast_lowering \<Rightarrow> MIRFunction list outcome" where
  "middle_end n k tc p file files s =
     (case lower_program (lowering_n n) k p file files (take_checker_tables tc s) of
        Done (r, _) \<Rightarrow> mir_functions r (lr_functions r)
      | Panic \<Rightarrow> Panic
      | NoFuel \<Rightarrow> NoFuel)"

definition optimized :: "MIRFunction \<Rightarrow> bool" where
  "optimized f \<longleftrightarrow> optimize_round f = Done (False, f)"

lemma mir_function_ends: "mir_function r h = Panic \<or> (\<exists>f. mir_function r h = Done f \<and> optimized f)"
proof -
  obtain f s where "lower_hir h (lowering_new (lr_signatures r) (lr_class_fields r)) = Done (f, s)"
    using lower_hir_returns [of "lowering_new (lr_signatures r) (lr_class_fields r)" h]
    by (auto simp: lowering_new_def)
  then show ?thesis using optimize_ends [of f] by (auto simp: mir_function_def optimized_def)
qed

lemma mir_functions_end:
  "mir_functions r hs = Panic \<or> (\<exists>fs. mir_functions r hs = Done fs \<and> length fs = length hs \<and> list_all optimized fs)"
proof (induction hs)
  case (Cons h hs)
  then show ?case using mir_function_ends [of r h] by auto
qed simp

text \<open>
  Property C37: once the lowering of a program has returned, the rest of the middle end returns too:
  it gives one function for each function of the result, on which no pass of the optimizer changes
  anything any more, unless the optimizer panics on a division of constants.
\<close>
theorem middle_end_ends:
  assumes "lower_program (lowering_n n) k p file files (take_checker_tables tc s) = Done (r, s')"
  shows "middle_end n k tc p file files s = Panic \<or>
    (\<exists>fs. middle_end n k tc p file files s = Done fs \<and> length fs = length (lr_functions r) \<and> list_all optimized fs)"
  using mir_functions_end [of r "lr_functions r"] by (simp add: middle_end_def assms)

theorem middle_end_ends_witness:
  "\<exists>r s'. lower_program (lowering_n 2) 1 one_statement ''m'' None (take_checker_tables checker_new ast_lowering_new) = Done (r, s') \<and>
     (middle_end 2 1 checker_new one_statement ''m'' None ast_lowering_new = Panic \<or>
      (\<exists>fs. middle_end 2 1 checker_new one_statement ''m'' None ast_lowering_new = Done fs \<and>
         length fs = length (lr_functions r) \<and> list_all optimized fs))"
proof -
  have "take_checker_tables checker_new ast_lowering_new = ast_lowering_new"
    by (simp add: take_checker_tables_def checker_new_def ast_lowering_new_def)
  then obtain r s' where
    "lower_program (lowering_n 2) 1 one_statement ''m'' None (take_checker_tables checker_new ast_lowering_new) = Done (r, s')"
    using one_statement_lowered by auto
  then show ?thesis using middle_end_ends by blast
qed

end
