(* ===== verification/Spec2Isabelle.thy ===== *)
theory Spec2Isabelle
  imports LexerRoundTrip ParserFuel TypesRoundTrip Diagnostics ClassesFacts CompatFacts GenericsFacts MirLowerSem SyncLive AstTransformFacts MiddleEnd
begin

text \<open>
  A verification development for the TejX compiler (sources under \<open>src/\<close>, Rust).

  \<^item> The program. \<open>src/compiler\<close> is a compiler: the lexer and the parser (\<open>frontend\<close>) turn a source
    text into a syntax tree, the semantic analysis and the lowering (\<open>middle\<close>) turn it into a
    mid-level representation that an optimizer rewrites, and the back end prints LLVM code. The
    types travel between the phases as texts, so their printer and reader are used everywhere.
    \<open>src/runtime\<close> is the library the generated code calls.

  \<^item> The theories, in the order of the data flow.
    \<open>Prelude\<close>: outcomes (a value, a panic, no more fuel), Rust's string and character functions.
    \<open>Floats\<close>: \<open>f64\<close> literals, their printing, exact arithmetic on them.
    \<open>Diagnostics\<close>: \<open>common/diagnostics.rs\<close>.
    \<open>Tokens\<close>, \<open>Lexer\<close>: \<open>frontend/token.rs\<close> and \<open>frontend/lexer.rs\<close>; \<open>LexerFacts\<close> and
    \<open>LexerRoundTrip\<close> hold their theorems.
    \<open>Ast\<close>: \<open>frontend/ast.rs\<close>.
    \<open>ParserBase\<close>, \<open>ParserTypes\<close>, \<open>ParserExpr\<close>, \<open>ParserStmt\<close>, \<open>ParserTotal\<close>: \<open>frontend/parser.rs\<close>,
    from the token helpers up to \<open>parse_program\<close>; \<open>ParserLaws\<close> holds the contract every parsing
    function keeps, and \<open>ParserFuel\<close> the theorems on the whole parser.
    \<open>Types\<close>: \<open>common/types.rs\<close>; \<open>TypesFacts\<close> and \<open>TypesRoundTrip\<close> hold its theorems.
    \<open>Signatures\<close>: \<open>common/builtins.rs\<close>, \<open>middle/semantic/func.rs\<close> and the texts of
    \<open>middle/semantic/generics.rs\<close>. \<open>Checker\<close>: the state of the type checker and its scopes,
    \<open>middle/semantic/mod.rs\<close>. \<open>Classes\<close>: \<open>middle/semantic/class.rs\<close>. \<open>Compat\<close>:
    \<open>middle/semantic/compat.rs\<close> and the registration of generic instances. \<open>ClassesFacts\<close>,
    \<open>CompatFacts\<close> and \<open>GenericsFacts\<close> hold their theorems.
    \<open>Mir\<close>, \<open>MirOpt\<close>: \<open>middle/mir/mod.rs\<close> and \<open>middle/mir/opt.rs\<close>; \<open>MirOptimize\<close> shows that the
    optimizer ends and \<open>MirSem\<close> what its passes preserve. There the generated code is a machine
    whose constants, operators, variables and primitives are parameters: globals and the captured
    variables of closures (\<open>get_captured_index\<close> of the code generator) are kept outside the frame,
    constants are evaluated in the world, since a lambda makes a closure each time, and operands go
    with their types.
    \<open>Hir\<close>, \<open>MirLower\<close>: \<open>middle/hir/mod.rs\<close> and \<open>middle/mir/lowering.rs\<close>, the step from the
    high-level to the mid-level representation; \<open>MirLowerFacts\<close> holds the triples of its
    operations, \<open>MirLowerTotal\<close> the theorem on whole functions and \<open>MirLowerSem\<close> what it means
    for their runs.
    \<open>AstTransform\<close>: \<open>frontend/ast_transformer.rs\<close>, with \<open>AstTransformFacts\<close>.
    \<open>AstLower\<close> (state, scopes, generic functions, patterns and narrowing), \<open>AstLowerExpr\<close>,
    \<open>AstLowerCall\<close>, \<open>AstLowerStmt\<close> (functions and classes), \<open>AstLowerFlow\<close> (statements) and
    \<open>AstLowerProgram\<close> (the passes over a program): \<open>middle/lowering/\<close>, the step from the syntax tree to
    the high-level representation. \<open>AstLowerScopes\<close> holds the invariant of its state and the
    contract of an operation, \<open>AstLowerBalance\<close> shows it of every operation, \<open>AstLowerMono\<close> that more
    fuel keeps a result, and \<open>AstLowerFacts\<close> holds the theorems. \<open>MiddleEnd\<close>: the part of \<open>main.rs\<close> that
    runs the lowering, the lowering of each function to the mid-level representation and the
    optimizer.
    \<open>Sync\<close>: \<open>runtime/core/mutex.rs\<close>, \<open>runtime/core/condition.rs\<close> and the parking of
    \<open>runtime/core/vthread.rs\<close>; \<open>SyncFacts\<close> shows the invariant over all interleavings and mutual
    exclusion, \<open>SyncLive\<close> the hand-over to a waiter and the wake-up that is lost.

  \<^item> Correspondence. A struct is a record or a datatype with one constructor, an enum a datatype
    with the source's constructors, a function a definition with the source's name (a suffix or
    prefix marks a clash or a loop that became a function of its own). State is passed
    explicitly. A panic is a value of \<open>outcome\<close>. The parsing functions are written with \<open>pbind\<close>,
    the sequencing of state and outcome. The threads of \<open>Sync\<close> are positions in the code, each access
    to shared memory is a step, and \<open>sys_step\<close> interleaves them (memory is sequentially consistent;
    what happens under one lock is one step). A parsing function that is called before it is defined is a field of
    the record \<open>parsers\<close>, and \<open>knot\<close> ties the recursion with fuel. Characters are Latin-1 code points, byte offsets
    are computed where the source uses them. \<open>i64\<close> arithmetic is written out with its range. The lowering of the syntax tree
    threads the record \<open>ast_lowering\<close>, the source's \<open>struct Lowering\<close> with its cells; a hash map that the
    source iterates over is an association list in the order of insertion, one of the orders the
    source may take. Expressions and statements call each other through the record \<open>lowerers\<close>,
    which \<open>lowering_n\<close> ties.

  \<^item> What the lemmas show. The lexer loses no token: every token has the location and text of its
    place in the source, the list ends in its only end-of-file token, and a printed token list
    lexes back. The parser ends on every source, at the end-of-file token, and panics only where a
    template string stands in the source; its result does not depend on the fuel. A type's text reads back wherever the text is unambiguous, and a type's tree
    reads back except for slices. The suggestion of a name is a nearest candidate by edit
    distance. The type checker's scopes are a stack of symbol tables; its subclass test is
    reachability in the declared hierarchy, its search for cycles finds one exactly where the
    parents do not end, and a member resolves to the nearest class that declares it. Comparing
    two types ends when aliases are not recursive, and a generic member at an instance has the
    text of its declaration with the parameters renamed, if its arguments hold no function types. The theorems of kind error show where
    the code does not do what it means to. The lowering to the mid-level representation returns for every function, and the
    result is well formed, so that a run never leaves its blocks. The lowering of the syntax tree restores its
    stacks around every statement, gives new declarations new variables except where a narrowing
    intervenes, and its result is a list of functions with the main function last; whatever it
    returns, the rest of the middle end turns into optimized functions. Substituting in a type's
    tree, as the copies of generic declarations do, is substituting in the type, heads of generic
    types included. The optimizer ends on every function. Dead code removal keeps every run, for
    every meaning of the primitives; constant propagation keeps the runs of functions whose
    propagated variables are in the frame and whose propagated constants have no effect, and two
    theorems show what it does to captured variables and to closures. Constant folding agrees with
    wrap-around arithmetic for sums, differences and products and not for division. At most one thread owns the
    mutex in every interleaving, a waiter that \<open>unlock\<close> has picked gets in within five steps of the
    two threads concerned, and from every state with an idle queue a thread that queues while the
    mutex is released can sleep on.

  \<^item> Bounds and fuel. The lexer's loops are bounded by the source they consume; the type reader
    and the optimizer are total functions with a termination proof. The parser's fuel is the
    weight of the tokens, the number of tokens with the texts of template strings counted by
    character: every recursive call and every round of a loop that goes on consumes weight, which is
    what \<open>ParserLaws\<close> states of each function and \<open>ParserTotal\<close> proves of all. The comparison of
    types and the walks up the parents are partial functions: not to end is the value \<open>None\<close>, and
    where they end is a theorem. The lowering of statements has as fuel the size of the statement: a
    jump out of protected blocks lowers their \<open>finally\<close> blocks, whose sizes are part of it.
    The lowering of the syntax tree has as fuel the depth of its recursion and the number of rounds
    in which generic instances are made. Neither is bounded by the program, since a default
    value is lowered at each call and an instance may need further ones without end; more fuel never
    changes a result, and a default value that calls its own function is shown to exhaust
    any.

  \<^item> Not modelled. The checks of expressions and statements of the semantic analysis; the imports,
    which read files; the printing of LLVM code; the garbage collector and the runtime but
    for its mutex, condition variable and parking, which work on raw memory; the command line and
    everything that only prints or calls the operating system. Of the lowering, the run-time borrow checks of
    \<open>RefCell\<close> and a debug print. Source characters beyond Latin-1.
\<close>

end
